(* ===== verification/Prelude.thy ===== *)
theory Prelude
  imports Complex_Main "HOL-Library.Char_ord" "HOL-Library.List_Lexorder"
    "HOL-Library.Sublist" "HOL-Library.Signed_Division"
begin

text \<open>
  Prelude of the development: the Go run-time notions every component uses.
  \<^item> errors as values: \<open>'e + 'a\<close> with \<open>Inl\<close> the error, and its sequencing \<open>ebind\<close>;
  \<^item> \<open>int64\<close> values as \<open>int\<close> with the two's complement wrap-around written out
    (\<open>i64\<close>), and the predicate \<open>in64\<close> of the values an \<open>int64\<close> can hold;
  \<^item> Go strings as byte strings (\<open>string\<close>, one \<open>char\<close> per byte) with the functions of
    the package \<open>strings\<close> the program calls; \<open>TrimSpace\<close> strips the UTF-8 encodings of
    all white-space code points, \<open>ToLower\<close> lowers the ASCII letters and leaves the
    other bytes alone;
  \<^item> decimal printing and parsing (\<open>strconv\<close>).
  The collections \<open>go_defs\<close> and \<open>range_facts\<close> gather unfoldings and range facts.
\<close>

named_theorems go_defs "definitions of the Go library notions"
named_theorems range_facts "values that stay inside int64"

section \<open>Errors as values\<close>

definition ebind :: "'e + 'a \<Rightarrow> ('a \<Rightarrow> 'e + 'b) \<Rightarrow> 'e + 'b" where
  "ebind m f = (case m of Inl e \<Rightarrow> Inl e | Inr x \<Rightarrow> f x)"

lemma ebind_simps [simp]: "ebind (Inl e) f = Inl e" "ebind (Inr x) f = f x"
  by (simp_all add: ebind_def)

lemma ebind_eq_Inr: "ebind m f = Inr y \<longleftrightarrow> (\<exists>x. m = Inr x \<and> f x = Inr y)"
  by (cases m) auto

lemma ebind_eq_Inl: "ebind m f = Inl e \<longleftrightarrow> m = Inl e \<or> (\<exists>x. m = Inr x \<and> f x = Inl e)"
  by (cases m) auto

section \<open>Machine integers\<close>

definition MaxInt64 :: int where
  "MaxInt64 = 9223372036854775807"

definition MinInt64 :: int where
  "MinInt64 = - 9223372036854775808"

definition in64 :: "int \<Rightarrow> bool" where
  "in64 x \<longleftrightarrow> MinInt64 \<le> x \<and> x \<le> MaxInt64"

text \<open>The value an \<open>int64\<close> holds after an operation whose exact result is \<open>x\<close>.\<close>

definition i64 :: "int \<Rightarrow> int" where
  "i64 x = (x + 9223372036854775808) mod 18446744073709551616 - 9223372036854775808"

lemma i64_signed_take_bit: "i64 x = signed_take_bit 63 x"
  by (simp add: i64_def signed_take_bit_eq_take_bit_shift take_bit_eq_mod)

lemma i64_id: "in64 x \<Longrightarrow> i64 x = x"
  by (simp add: i64_def in64_def MinInt64_def MaxInt64_def)

lemma in64_i64 [range_facts]: "in64 (i64 x)"
proof -
  have "0 \<le> (x + 9223372036854775808) mod 18446744073709551616"
    and "(x + 9223372036854775808) mod 18446744073709551616 < 18446744073709551616"
    by simp_all
  then show ?thesis unfolding i64_def in64_def MinInt64_def MaxInt64_def by linarith
qed

lemma i64_MinInt64_neg: "i64 (- MinInt64) = MinInt64"
  by (simp add: i64_def MinInt64_def)

lemma in64_nonneg: "0 \<le> x \<Longrightarrow> in64 x \<longleftrightarrow> x \<le> MaxInt64"
  by (simp add: in64_def MinInt64_def)

lemma MaxInt64_pos [simp]: "0 < MaxInt64"
  by (simp add: MaxInt64_def)

lemma in64_between: "in64 a \<Longrightarrow> in64 b \<Longrightarrow> a \<le> x \<Longrightarrow> x \<le> b \<Longrightarrow> in64 x"
  by (auto simp: in64_def)

lemma less_mult_iff_div_less:
  fixes x d k :: int
  assumes "0 < d"
  shows "x < d * k \<longleftrightarrow> x div d < k"
proof -
  have x: "x = d * (x div d) + x mod d" by simp
  have m: "0 \<le> x mod d" "x mod d < d" using assms by simp_all
  show ?thesis
  proof (cases "x div d < k")
    case True
    then have "d * (x div d + 1) \<le> d * k" using assms by simp
    then have "d * (x div d) + d \<le> d * k" by (simp add: distrib_left)
    with x m have "x < d * k" by linarith
    with True show ?thesis by blast
  next
    case False
    then have "d * k \<le> d * (x div d)" using assms by simp
    with False x m show ?thesis by linarith
  qed
qed

section \<open>Byte strings\<close>

definition byte :: "nat \<Rightarrow> char" where
  "byte n = char_of n"

definition HasPrefix :: "string \<Rightarrow> string \<Rightarrow> bool" where
  "HasPrefix s p \<longleftrightarrow> take (length p) s = p"

definition HasSuffix :: "string \<Rightarrow> string \<Rightarrow> bool" where
  "HasSuffix s p \<longleftrightarrow> length p \<le> length s \<and> drop (length s - length p) s = p"

definition TrimPrefix :: "string \<Rightarrow> string \<Rightarrow> string" where
  "TrimPrefix s p = (if HasPrefix s p then drop (length p) s else s)"

definition TrimSuffix :: "string \<Rightarrow> string \<Rightarrow> string" where
  "TrimSuffix s p = (if HasSuffix s p then take (length s - length p) s else s)"

fun Contains :: "string \<Rightarrow> string \<Rightarrow> bool" where
  "Contains [] p \<longleftrightarrow> p = []"
| "Contains (c # cs) p \<longleftrightarrow> HasPrefix (c # cs) p \<or> Contains cs p"

definition lower_char :: "char \<Rightarrow> char" where
  "lower_char c = (if 65 \<le> (of_char c :: nat) \<and> (of_char c :: nat) \<le> 90
     then char_of ((of_char c :: nat) + 32) else c)"

definition ToLower :: "string \<Rightarrow> string" where
  "ToLower s = map lower_char s"

definition EqualFold :: "string \<Rightarrow> string \<Rightarrow> bool" where
  "EqualFold s t \<longleftrightarrow> ToLower s = ToLower t"

text \<open>\<open>strings.TrimRight(s, cutset)\<close> for a cutset of one byte.\<close>

definition TrimRightByte :: "char \<Rightarrow> string \<Rightarrow> string" where
  "TrimRightByte c s = rev (dropWhile (\<lambda>x. x = c) (rev s))"

fun JoinWith :: "string \<Rightarrow> string list \<Rightarrow> string" where
  "JoinWith sep [] = []"
| "JoinWith sep [x] = x"
| "JoinWith sep (x # y # zs) = x @ sep @ JoinWith sep (y # zs)"

text \<open>\<open>strings.Split(s, sep)\<close> for a separator of one byte; never empty.\<close>

fun SplitByte :: "char \<Rightarrow> string \<Rightarrow> string list" where
  "SplitByte c [] = [[]]"
| "SplitByte c (x # xs) =
     (if x = c then [] # SplitByte c xs
      else (case SplitByte c xs of [] \<Rightarrow> [[x]] | y # ys \<Rightarrow> (x # y) # ys))"

text \<open>The UTF-8 encodings of the code points \<open>unicode.IsSpace\<close> accepts.\<close>

definition space_codes :: "string list" where
  "space_codes = map (map byte)
     ([[9], [10], [11], [12], [13], [32], [194, 133], [194, 160], [225, 154, 128],
       [226, 128, 168], [226, 128, 169], [226, 128, 175], [226, 129, 159], [227, 128, 128]]
      @ map (\<lambda>k. [226, 128, 128 + k]) [0 ..< 11])"

fun trim_left :: "nat \<Rightarrow> string list \<Rightarrow> string \<Rightarrow> string" where
  "trim_left 0 codes s = s"
| "trim_left (Suc n) codes s =
     (case find (HasPrefix s) codes of
        None \<Rightarrow> s | Some p \<Rightarrow> trim_left n codes (drop (length p) s))"

text \<open>Each round of \<open>trim_left\<close> removes at least one byte, so \<open>length s\<close> rounds suffice.\<close>

definition TrimSpace :: "string \<Rightarrow> string" where
  "TrimSpace s =
     (let l = trim_left (length s) space_codes s
      in rev (trim_left (length l) (map rev space_codes) (rev l)))"

lemma HasPrefix_append [simp]: "HasPrefix (p @ s) p"
  by (simp add: HasPrefix_def)

lemma HasPrefix_iff: "HasPrefix s p \<longleftrightarrow> (\<exists>t. s = p @ t)"
  unfolding HasPrefix_def by (metis append_eq_conv_conj append_take_drop_id)

lemma HasPrefix_Nil [simp]: "HasPrefix s []"
  by (simp add: HasPrefix_def)

lemma HasPrefix_Nil_Cons [simp]: "\<not> HasPrefix [] (c # p)"
  by (simp add: HasPrefix_def)

lemma HasPrefix_Cons [simp]: "HasPrefix (c # s) (d # p) \<longleftrightarrow> c = d \<and> HasPrefix s p"
  by (auto simp: HasPrefix_def)

lemma HasSuffix_iff: "HasSuffix s p \<longleftrightarrow> (\<exists>t. s = t @ p)"
proof
  assume "HasSuffix s p"
  then have "s = take (length s - length p) s @ p"
    unfolding HasSuffix_def by (metis append_take_drop_id)
  then show "\<exists>t. s = t @ p" ..
qed (auto simp: HasSuffix_def)

lemma TrimSuffix_append [simp]: "TrimSuffix (s @ p) p = s"
  by (simp add: TrimSuffix_def HasSuffix_def)

lemma Contains_iff: "Contains s p \<longleftrightarrow> (\<exists>a b. s = a @ p @ b)"
proof (induction s)
  case Nil
  then show ?case by auto
next
  case (Cons c cs)
  show ?case
  proof
    assume "Contains (c # cs) p"
    then consider "HasPrefix (c # cs) p" | "Contains cs p" by auto
    then show "\<exists>a b. c # cs = a @ p @ b"
    proof cases
      case 1
      then obtain t where "c # cs = [] @ p @ t" by (auto simp: HasPrefix_iff)
      then show ?thesis by blast
    next
      case 2
      then obtain a b where "c # cs = (c # a) @ p @ b" using Cons.IH by auto
      then show ?thesis by blast
    qed
  next
    assume "\<exists>a b. c # cs = a @ p @ b"
    then obtain a b where ab: "c # cs = a @ p @ b" by blast
    show "Contains (c # cs) p"
    proof (cases a)
      case Nil
      with ab have "HasPrefix (c # cs) p" by (auto simp: HasPrefix_iff)
      then show ?thesis by simp
    next
      case (Cons a0 a1)
      with ab have "cs = a1 @ p @ b" by simp
      then have "Contains cs p" using Cons.IH by blast
      then show ?thesis by simp
    qed
  qed
qed

lemma SplitByte_no: "c \<notin> set s \<Longrightarrow> SplitByte c s = [s]"
  by (induction s) auto

lemma SplitByte_append: "c \<notin> set s \<Longrightarrow> SplitByte c (s @ c # t) = s # SplitByte c t"
  by (induction s) auto

lemma TrimSpace_no_space:
  assumes "find (HasPrefix s) space_codes = None"
    and "find (HasPrefix (rev s)) (map rev space_codes) = None"
  shows "TrimSpace s = s"
proof -
  have "trim_left (length s) space_codes s = s"
    using assms(1) by (cases "length s") simp_all
  moreover have "trim_left (length s) (map rev space_codes) (rev s) = rev s"
    using assms(2) by (cases "length s") simp_all
  ultimately show ?thesis by (simp add: TrimSpace_def Let_def)
qed

section \<open>Decimal numerals\<close>

definition digit_char :: "nat \<Rightarrow> char" where
  "digit_char n = byte (48 + n)"

definition digit_val :: "char \<Rightarrow> nat" where
  "digit_val c = of_char c - 48"

definition is_digit :: "char \<Rightarrow> bool" where
  "is_digit c \<longleftrightarrow> 48 \<le> (of_char c :: nat) \<and> (of_char c :: nat) \<le> 57"

fun show_nat :: "nat \<Rightarrow> string" where
  "show_nat n = (if n < 10 then [digit_char n] else show_nat (n div 10) @ [digit_char (n mod 10)])"

declare show_nat.simps [simp del]

definition show_int :: "int \<Rightarrow> string" where
  "show_int z = (if z < 0 then CHR ''-'' # show_nat (nat (- z)) else show_nat (nat z))"

text \<open>\<open>%0wd\<close> of a natural number.\<close>

definition show_padded :: "nat \<Rightarrow> nat \<Rightarrow> string" where
  "show_padded w n = replicate (w - length (show_nat n)) (CHR ''0'') @ show_nat n"

definition dec_val :: "string \<Rightarrow> nat" where
  "dec_val s = foldl (\<lambda>acc c. 10 * acc + digit_val c) 0 s"

text \<open>\<open>strconv.ParseUint(s, 10, 64)\<close>, \<open>None\<close> for its error.\<close>

definition ParseUint :: "string \<Rightarrow> nat option" where
  "ParseUint s =
     (if s = [] \<or> \<not> list_all is_digit s then None
      else if dec_val s \<le> 18446744073709551615 then Some (dec_val s) else None)"

text \<open>\<open>strconv.ParseInt(s, 10, 64)\<close> (and \<open>strconv.Atoi\<close> on a 64-bit platform).\<close>

definition ParseInt :: "string \<Rightarrow> int option" where
  "ParseInt s =
     (let neg = HasPrefix s ''-'';
          rest = (if neg \<or> HasPrefix s ''+'' then drop 1 s else s)
      in case ParseUint rest of
           None \<Rightarrow> None
         | Some n \<Rightarrow> (let v = (if neg then - int n else int n)
                     in if in64 v then Some v else None))"

lemma of_char_digit: "n < 10 \<Longrightarrow> of_char (digit_char n) = (48 + n :: nat)"
  by (simp add: digit_char_def byte_def)

lemma digit_val_char [simp]: "n < 10 \<Longrightarrow> digit_val (digit_char n) = n"
  by (simp add: digit_val_def of_char_digit)

lemma is_digit_char [simp]: "n < 10 \<Longrightarrow> is_digit (digit_char n)"
  by (simp add: is_digit_def of_char_digit)

lemma dec_val_Nil [simp]: "dec_val [] = 0"
  by (simp add: dec_val_def)

lemma dec_val_snoc [simp]: "dec_val (s @ [c]) = 10 * dec_val s + digit_val c"
  by (simp add: dec_val_def)

lemma show_nat_nonempty [simp]: "show_nat n \<noteq> []"
  by (subst show_nat.simps) simp

lemma show_nat_digits: "list_all is_digit (show_nat n)"
proof (induction n rule: show_nat.induct)
  case (1 n)
  then show ?case by (cases "n < 10") (simp_all add: show_nat.simps [of n])
qed

lemma dec_val_show_nat: "dec_val (show_nat n) = n"
proof (induction n rule: show_nat.induct)
  case (1 n)
  show ?case
  proof (cases "n < 10")
    case True
    then have "show_nat n = [] @ [digit_char n]" by (simp add: show_nat.simps [of n])
    then show ?thesis using True by (simp del: append_Nil)
  next
    case False
    with "1.IH" show ?thesis by (simp add: show_nat.simps [of n])
  qed
qed

lemma ParseUint_show_nat: "n \<le> 18446744073709551615 \<Longrightarrow> ParseUint (show_nat n) = Some n"
  by (simp add: ParseUint_def show_nat_digits dec_val_show_nat)

text \<open>The last \<open>k\<close> decimal digits of a number, most significant first.\<close>

fun low_digits :: "nat \<Rightarrow> nat \<Rightarrow> string" where
  "low_digits 0 n = []"
| "low_digits (Suc k) n = low_digits k (n div 10) @ [digit_char (n mod 10)]"

lemma length_low_digits [simp]: "length (low_digits k n) = k"
  by (induction k arbitrary: n) simp_all

lemma low_digits_digits: "list_all is_digit (low_digits k n)"
  by (induction k arbitrary: n) simp_all

lemma dec_val_low_digits: "dec_val (low_digits k n) = n mod 10 ^ k"
proof (induction k arbitrary: n)
  case (Suc k)
  have "n mod 10 ^ Suc k = 10 * (n div 10 mod 10 ^ k) + n mod 10"
    by (simp add: mod_mult2_eq)
  with Suc.IH show ?case by simp
qed simp

lemma digit_char_0: "digit_char 0 = CHR ''0''"
  by code_simp

lemma low_digits_0: "low_digits k 0 = replicate k (CHR ''0'')"
proof (induction k)
  case (Suc k)
  then show ?case by (simp add: digit_char_0 replicate_append_same)
qed simp

lemma show_padded_low_digits: "n < 10 ^ k \<Longrightarrow> 0 < k \<Longrightarrow> show_padded k n = low_digits k n"
proof (induction k arbitrary: n)
  case (Suc k)
  show ?case
  proof (cases "n < 10")
    case True
    then have "show_nat n = [digit_char n]" by (simp add: show_nat.simps [of n])
    with True show ?thesis by (simp add: show_padded_def low_digits_0)
  next
    case False
    have n: "show_nat n = show_nat (n div 10) @ [digit_char (n mod 10)]"
      using False by (simp add: show_nat.simps [of n])
    have lt: "n div 10 < 10 ^ k" using Suc.prems(1) by (simp add: less_mult_imp_div_less)
    have "0 < k" using False lt by (cases k) auto
    with Suc.IH lt have "show_padded k (n div 10) = low_digits k (n div 10)" by blast
    with n show ?thesis by (simp add: show_padded_def)
  qed
qed simp

lemma take_low_digits: "t \<le> k \<Longrightarrow> take (k - t) (low_digits k n) = low_digits (k - t) (n div 10 ^ t)"
proof (induction k arbitrary: n t)
  case (Suc k)
  show ?case
  proof (cases t)
    case 0
    then show ?thesis by simp
  next
    case (Suc t')
    with Suc.prems have "t' \<le> k" by simp
    with Suc.IH [of t' "n div 10"] Suc show ?thesis
      by (simp add: div_mult2_eq)
  qed
qed simp

lemma dec_val_append_zeros: "dec_val (s @ replicate t (CHR ''0'')) = dec_val s * 10 ^ t"
proof (induction t)
  case (Suc t)
  have "replicate (Suc t) (CHR ''0'') = replicate t (CHR ''0'') @ [CHR ''0'']"
    by (simp add: replicate_append_same)
  then have "dec_val (s @ replicate (Suc t) (CHR ''0'')) =
      10 * dec_val (s @ replicate t (CHR ''0'')) + digit_val (CHR ''0'')"
    by (simp only: append_assoc [symmetric] dec_val_snoc)
  with Suc.IH show ?case by (simp add: digit_val_def)
qed simp

text \<open>A visible ASCII character is no white space and starts or ends no UTF-8 encoding of one.\<close>

definition graphic :: "char \<Rightarrow> bool" where
  "graphic c \<longleftrightarrow> 32 < (of_char c :: nat) \<and> (of_char c :: nat) < 127"

lemma graphic_not_space:
  assumes "graphic c"
  shows "find (HasPrefix (c # s)) space_codes = None"
    and "find (HasPrefix (c # s)) (map rev space_codes) = None"
proof -
  have ne: "c \<noteq> byte n" if "n \<le> 32 \<or> 127 \<le> n" "n < 256" for n
  proof
    assume "c = byte n"
    then have "of_char c = n" using that(2) by (simp add: byte_def)
    with assms that(1) show False by (auto simp: graphic_def)
  qed
  show "find (HasPrefix (c # s)) space_codes = None"
    by (simp add: space_codes_def find_None_iff ne)
  show "find (HasPrefix (c # s)) (map rev space_codes) = None"
    by (auto simp: space_codes_def find_None_iff ne)
qed

lemma digit_graphic: "is_digit c \<Longrightarrow> graphic c"
  by (simp add: is_digit_def graphic_def)

lemmas digit_not_space = graphic_not_space [OF digit_graphic]

lemma TrimSpace_graphic:
  assumes "s \<noteq> []" "graphic (hd s)" "graphic (last s)"
  shows "TrimSpace s = s"
proof (rule TrimSpace_no_space)
  show "find (HasPrefix s) space_codes = None"
    using graphic_not_space(1) [OF assms(2), of "tl s"] assms(1) by simp
  show "find (HasPrefix (rev s)) (map rev space_codes) = None"
    using assms graphic_not_space(2) by (cases s rule: rev_cases) simp_all
qed

lemma TrimSpace_newline:
  assumes "s \<noteq> []" "graphic (hd s)" "graphic (last s)"
  shows "TrimSpace (s @ [byte 10]) = s"
proof -
  have front: "find (HasPrefix (s @ [byte 10])) space_codes = None"
    using graphic_not_space(1) [OF assms(2), of "tl s @ [byte 10]"] assms(1) by (cases s) simp_all
  have rear: "find (HasPrefix (rev s)) (map rev space_codes) = None"
    using assms graphic_not_space(2) by (cases s rule: rev_cases) simp_all
  have stop: "trim_left n codes xs = xs" if "find (HasPrefix xs) codes = None" for n codes xs
    using that by (cases n) simp_all
  have "byte 9 \<noteq> byte 10" by code_simp
  then have "find (HasPrefix (byte 10 # xs)) (map rev space_codes) = Some [byte 10]" for xs
    by (simp add: space_codes_def)
  then show ?thesis by (simp add: TrimSpace_def stop front rear)
qed

section \<open>UTF-8\<close>

text \<open>The size \<open>utf8.DecodeRune\<close> reports for bytes that start with no ASCII byte; 1 for an invalid
  encoding.\<close>

definition byte_in :: "nat \<Rightarrow> nat \<Rightarrow> string \<Rightarrow> nat \<Rightarrow> bool" where
  "byte_in low high s i \<longleftrightarrow> i < length s \<and> low \<le> (of_char (s ! i) :: nat) \<and> (of_char (s ! i) :: nat) \<le> high"

definition rune_size :: "string \<Rightarrow> nat" where
  "rune_size s =
     (let cont = byte_in 128 191 s; lead = (\<lambda>low high. byte_in low high s 0)
      in if lead 194 223 \<and> cont 1 then 2
         else if lead 224 224 \<and> byte_in 160 191 s 1 \<and> cont 2 then 3
         else if lead 237 237 \<and> byte_in 128 159 s 1 \<and> cont 2 then 3
         else if lead 225 239 \<and> \<not> lead 237 237 \<and> cont 1 \<and> cont 2 then 3
         else if lead 240 240 \<and> byte_in 144 191 s 1 \<and> cont 2 \<and> cont 3 then 4
         else if lead 241 243 \<and> cont 1 \<and> cont 2 \<and> cont 3 then 4
         else if lead 244 244 \<and> byte_in 128 143 s 1 \<and> cont 2 \<and> cont 3 then 4
         else 1)"

lemma rune_size_pos [simp]: "0 < rune_size s"
  by (simp add: rune_size_def Let_def)

end
