(* ===== verification/GoTime.thy ===== *)
theory GoTime
  imports Prelude
begin

text \<open>
  \<open>time.Time\<close> and \<open>time.Duration\<close>: an instant is the number of nanoseconds since the Unix
  epoch (\<open>type_synonym instant\<close>), a duration a number of nanoseconds. Every instant of the
  program is evaluated in UTC, so \<open>t.UTC()\<close> is the identity here; the clock fields
  (\<open>Hour\<close>, \<open>Minute\<close>, \<open>Weekday\<close>) are read off the count directly. \<open>zero_time\<close> is
  \<open>time.Time{}\<close>, midnight of 1 January of year 1.
\<close>

type_synonym instant = int

definition nano_second :: int where
  "nano_second = 1000000000"

definition nano_minute :: int where
  "nano_minute = 60000000000"

definition nano_day :: int where
  "nano_day = 86400000000000"

definition zero_time :: instant where
  "zero_time = - 62135596800000000000"

definition IsZero :: "instant \<Rightarrow> bool" where
  "IsZero t \<longleftrightarrow> t = zero_time"

text \<open>\<open>t.Hour() * 60 + t.Minute()\<close> of the UTC time.\<close>

definition minute_of_day :: "instant \<Rightarrow> int" where
  "minute_of_day t = t div nano_minute mod 1440"

text \<open>\<open>t.Weekday()\<close>: Sunday is 0; 1 January 1970 was a Thursday.\<close>

definition Weekday :: "instant \<Rightarrow> int" where
  "Weekday t = (t div nano_day + 4) mod 7"

text \<open>\<open>t.Truncate(time.Minute)\<close>.\<close>

definition truncate_minute :: "instant \<Rightarrow> instant" where
  "truncate_minute t = t - t mod nano_minute"

text \<open>\<open>t.Sub(u)\<close> saturates at the ends of \<open>int64\<close>.\<close>

definition time_sub :: "instant \<Rightarrow> instant \<Rightarrow> int" where
  "time_sub t u = max MinInt64 (min MaxInt64 (t - u))"

lemma minute_of_day_range: "0 \<le> minute_of_day t \<and> minute_of_day t < 1440"
  by (simp add: minute_of_day_def)

lemma Weekday_range: "0 \<le> Weekday t \<and> Weekday t < 7"
  by (simp add: Weekday_def)

lemma truncate_minute_le: "truncate_minute t \<le> t" "t < truncate_minute t + nano_minute"
  by (simp_all add: truncate_minute_def nano_minute_def)

lemma truncate_minute_dvd: "nano_minute dvd truncate_minute t"
  by (simp add: truncate_minute_def dvd_minus_mod)

lemma time_sub_exact: "in64 (t - u) \<Longrightarrow> time_sub t u = t - u"
  by (auto simp: time_sub_def in64_def)

text \<open>Within one whole minute the clock fields do not change.\<close>

lemma same_minute:
  assumes "t div nano_minute = u div nano_minute"
  shows "minute_of_day t = minute_of_day u" and "Weekday t = Weekday u"
proof -
  show "minute_of_day t = minute_of_day u" using assms by (simp add: minute_of_day_def)
  have "t div nano_day = t div nano_minute div 1440" for t
    by (simp add: nano_day_def nano_minute_def flip: zdiv_zmult2_eq)
  with assms show "Weekday t = Weekday u" by (simp add: Weekday_def)
qed

lemma truncate_minute_div: "truncate_minute t div nano_minute = t div nano_minute"
  by (simp add: truncate_minute_def minus_mod_eq_mult_div nano_minute_def)

end
