(* ===== verification/F64.thy ===== *)
theory F64
  imports Prelude
begin

text \<open>
  \<open>float64\<close> arithmetic, for the legacy fields that carry amounts as floating-point numbers.
  A finite value is the rational it denotes (the two zeros are not told apart); \<open>round64\<close>
  rounds an exact result to the nearest value of the format, ties to even, with gradual
  underflow and overflow to infinity. \<open>f64_to_int64\<close> is the conversion \<open>int64(x)\<close>: truncation in
  range, and outside the range (where Go leaves the result to the machine) the value amd64
  delivers, the least \<open>int64\<close>.
\<close>

datatype f64 = FNaN | FInf bool | FFin rat

fun ilog2 :: "nat \<Rightarrow> nat" where
  "ilog2 n = (if n < 2 then 0 else Suc (ilog2 (n div 2)))"

declare ilog2.simps [simp del]

definition pow2 :: "int \<Rightarrow> rat" where
  "pow2 k = (if 0 \<le> k then 2 ^ nat k else 1 / 2 ^ nat (- k))"

definition expo :: "rat \<Rightarrow> int" where
  "expo r =
     (let (p, q) = quotient_of r;
          d = int (ilog2 (nat p)) - int (ilog2 (nat q))
      in if pow2 d \<le> r then d else d - 1)"

definition round_even :: "rat \<Rightarrow> int" where
  "round_even r =
     (let f = floor r; d = r - of_int f
      in if d < 1 / 2 then f else if d > 1 / 2 then f + 1 else if even f then f else f + 1)"

definition round64 :: "rat \<Rightarrow> f64" where
  "round64 r =
     (if r = 0 then FFin 0
      else
        (let k = max (-1074) (expo \<bar>r\<bar> - 52);
             v = of_int (round_even (\<bar>r\<bar> / pow2 k)) * pow2 k
         in if v \<ge> pow2 1024 then FInf (r < 0) else FFin (if r < 0 then - v else v)))"

definition f64_of_int :: "int \<Rightarrow> f64" where
  "f64_of_int n = round64 (of_int n)"

definition f64_IsNaN :: "f64 \<Rightarrow> bool" where
  "f64_IsNaN x \<longleftrightarrow> x = FNaN"

definition f64_IsInf :: "f64 \<Rightarrow> bool" where
  "f64_IsInf x \<longleftrightarrow> x = FInf False \<or> x = FInf True"

definition f64_neg :: "f64 \<Rightarrow> bool" where
  "f64_neg x = (case x of FNaN \<Rightarrow> False | FInf s \<Rightarrow> s | FFin r \<Rightarrow> r < 0)"

definition f64_is0 :: "f64 \<Rightarrow> bool" where
  "f64_is0 x \<longleftrightarrow> x = FFin 0"

definition f64_gt :: "f64 \<Rightarrow> f64 \<Rightarrow> bool" where
  "f64_gt x y =
     (case (x, y) of
        (FNaN, _) \<Rightarrow> False
      | (_, FNaN) \<Rightarrow> False
      | (FInf s, FInf t) \<Rightarrow> \<not> s \<and> t
      | (FInf s, FFin _) \<Rightarrow> \<not> s
      | (FFin _, FInf t) \<Rightarrow> t
      | (FFin a, FFin b) \<Rightarrow> a > b)"

definition f64_mul :: "f64 \<Rightarrow> f64 \<Rightarrow> f64" where
  "f64_mul x y =
     (case (x, y) of
        (FFin a, FFin b) \<Rightarrow> round64 (a * b)
      | (FInf s, FInf t) \<Rightarrow> FInf (s \<noteq> t)
      | (FInf s, FFin b) \<Rightarrow> if b = 0 then FNaN else FInf (s \<noteq> (b < 0))
      | (FFin a, FInf t) \<Rightarrow> if a = 0 then FNaN else FInf ((a < 0) \<noteq> t)
      | _ \<Rightarrow> FNaN)"

definition f64_div :: "f64 \<Rightarrow> f64 \<Rightarrow> f64" where
  "f64_div x y =
     (case (x, y) of
        (FFin a, FFin b) \<Rightarrow>
          if b = 0 then (if a = 0 then FNaN else FInf (a < 0)) else round64 (a / b)
      | (FInf s, FFin b) \<Rightarrow> FInf (s \<noteq> (b < 0))
      | (FFin a, FInf t) \<Rightarrow> FFin 0
      | _ \<Rightarrow> FNaN)"

text \<open>\<open>math.Round\<close>: half away from zero.\<close>

definition round_away :: "rat \<Rightarrow> int" where
  "round_away r = (if r < 0 then - floor (- r + 1 / 2) else floor (r + 1 / 2))"

definition f64_Round :: "f64 \<Rightarrow> f64" where
  "f64_Round x = (case x of FFin r \<Rightarrow> FFin (of_int (round_away r)) | _ \<Rightarrow> x)"

definition f64_to_int64 :: "f64 \<Rightarrow> int" where
  "f64_to_int64 x =
     (case x of
        FFin r \<Rightarrow> (let n = (if r < 0 then - floor (- r) else floor r) in if in64 n then n else MinInt64)
      | _ \<Rightarrow> MinInt64)"

section \<open>Rounding error\<close>

lemma pow2_pos [simp]: "0 < pow2 k"
  by (simp add: pow2_def)

lemma pow2_powi: "pow2 k = power_int 2 k"
  by (simp add: pow2_def power_int_def field_simps)

lemma pow2_add: "pow2 (a + b) = pow2 a * pow2 b"
  by (simp add: pow2_powi power_int_add)

lemma pow2_nat: "pow2 (int n) = 2 ^ n"
  by (simp add: pow2_def)

lemma pow2_mono: "a \<le> b \<Longrightarrow> pow2 a \<le> pow2 b"
  by (simp add: pow2_powi power_int_increasing)

lemma ilog2_bounds: "0 < n \<Longrightarrow> 2 ^ ilog2 n \<le> n \<and> n < 2 ^ Suc (ilog2 n)"
proof (induction n rule: ilog2.induct)
  case (1 n)
  show ?case
  proof (cases "n < 2")
    case True
    with "1.prems" show ?thesis by (simp add: ilog2.simps [of n])
  next
    case False
    then have "2 ^ ilog2 (n div 2) \<le> n div 2 \<and> n div 2 < 2 ^ Suc (ilog2 (n div 2))"
      using "1.IH" by simp
    then have "2 * 2 ^ ilog2 (n div 2) \<le> n" "n < 4 * 2 ^ ilog2 (n div 2)" by auto
    then show ?thesis using False by (simp add: ilog2.simps [of n])
  qed
qed

lemma expo_bounds:
  assumes "0 < r"
  shows "pow2 (expo r) \<le> r" "r < pow2 (expo r + 1)"
proof -
  obtain p q where pq: "quotient_of r = (p, q)" by fastforce
  have q: "0 < q" using quotient_of_denom_pos [OF pq] .
  have r: "r = of_int p / of_int q" using quotient_of_div [OF pq] .
  have p: "0 < p" using assms q by (simp add: r zero_less_divide_iff)
  define a where "a = ilog2 (nat p)"
  define b where "b = ilog2 (nat q)"
  have "2 ^ a \<le> nat p" "nat p < 2 ^ Suc a" "2 ^ b \<le> nat q" "nat q < 2 ^ Suc b"
    using ilog2_bounds [of "nat p"] ilog2_bounds [of "nat q"] p q by (simp_all add: a_def b_def)
  then have "int (2 ^ a) \<le> p" "p < int (2 ^ Suc a)" "int (2 ^ b) \<le> q" "q < int (2 ^ Suc b)"
    using p q by linarith+
  then have "of_int (int (2 ^ a)) \<le> (of_int p :: rat)" "(of_int p :: rat) < of_int (int (2 ^ Suc a))"
    "of_int (int (2 ^ b)) \<le> (of_int q :: rat)" "(of_int q :: rat) < of_int (int (2 ^ Suc b))"
    by (simp_all only: of_int_le_iff of_int_less_iff)
  then have P: "2 ^ a \<le> (of_int p :: rat)" "(of_int p :: rat) < 2 ^ Suc a"
    and Q: "2 ^ b \<le> (of_int q :: rat)" "(of_int q :: rat) < 2 ^ Suc b" by simp_all
  have pd: "pow2 (int a - int b) = 2 ^ a / 2 ^ b"
    using pow2_add [of "int a - int b" "int b"] by (simp add: pow2_nat field_simps)
  have up: "r < pow2 (int a - int b + 1)"
  proof -
    have "r < 2 ^ Suc a / 2 ^ b"
      unfolding r using P(2) Q q p by (intro frac_less) auto
    then show ?thesis by (simp add: pow2_add pd mult.commute) (simp add: pow2_def)
  qed
  have low: "pow2 (int a - int b - 1) \<le> r"
  proof -
    have "2 ^ a / 2 ^ Suc b \<le> r"
      unfolding r using P(1) Q(2) q p by (intro frac_le) auto
    moreover have "pow2 (int a - int b - 1) = 2 ^ a / 2 ^ Suc b"
      using pow2_add [of "int a - int b" "-1"] by (simp add: pd) (simp add: pow2_def)
    ultimately show ?thesis by simp
  qed
  show "pow2 (expo r) \<le> r" "r < pow2 (expo r + 1)"
    using up low by (auto simp: expo_def pq Let_def a_def [symmetric] b_def [symmetric] not_le)
qed

lemma expo_unique:
  assumes "pow2 e \<le> r" "r < pow2 (e + 1)"
  shows "expo r = e"
proof -
  have pos: "0 < r" using assms(1) pow2_pos [of e] by linarith
  note b = expo_bounds [OF pos]
  have "\<not> expo r < e" using b(2) assms(1) pow2_mono [of "expo r + 1" e] by fastforce
  moreover have "\<not> e < expo r" using b(1) assms(2) pow2_mono [of "e + 1" "expo r"] by fastforce
  ultimately show ?thesis by linarith
qed

lemma round_even_err: "\<bar>of_int (round_even x) - x\<bar> \<le> 1 / 2"
proof -
  have "of_int (floor x) \<le> x" "x < of_int (floor x) + 1" by linarith+
  then show ?thesis by (auto simp: round_even_def Let_def abs_le_iff)
qed

lemma round_even_int [simp]: "round_even (of_int n) = n"
  by (simp add: round_even_def)

lemma round64_normal:
  assumes "pow2 (-1022) \<le> r" "r \<le> pow2 1000"
  shows "\<exists>v. round64 r = FFin v \<and> \<bar>v - r\<bar> \<le> r * pow2 (-53)"
proof -
  have pos: "0 < r" using assms(1) pow2_pos [of "-1022"] by linarith
  note e = expo_bounds [OF pos]
  have "-1022 \<le> expo r"
  proof (rule ccontr)
    assume "\<not> -1022 \<le> expo r"
    then have "pow2 (expo r + 1) \<le> pow2 (-1022)" by (intro pow2_mono) simp
    with e(2) assms(1) show False by linarith
  qed
  then have k: "max (-1074) (expo r - 52) = expo r - 52" by simp
  define k where "k = expo r - 52"
  define v where "v = of_int (round_even (r / pow2 k)) * pow2 k"
  have "\<bar>of_int (round_even (r / pow2 k)) - r / pow2 k\<bar> * pow2 k \<le> 1 / 2 * pow2 k"
    by (intro mult_right_mono round_even_err) (simp add: less_imp_le)
  moreover have "\<bar>of_int (round_even (r / pow2 k)) - r / pow2 k\<bar> * pow2 k = \<bar>v - r\<bar>"
    unfolding v_def using pow2_pos [of k]
    by (metis abs_mult abs_of_pos left_diff_distrib less_numeral_extra(3) nonzero_eq_divide_eq)
  ultimately have "\<bar>v - r\<bar> \<le> pow2 k / 2" by simp
  also have "\<dots> = pow2 (expo r) * pow2 (-53)"
    by (simp add: k_def pow2_add [of "expo r" "-52", simplified]) (simp add: pow2_def)
  also have "\<dots> \<le> r * pow2 (-53)"
    using e(1) by (intro mult_right_mono) (simp_all add: less_imp_le)
  finally have err: "\<bar>v - r\<bar> \<le> r * pow2 (-53)" .
  moreover have "r * pow2 (-53) \<le> r" using pos by (simp add: pow2_def)
  ultimately have "v \<le> 2 * r" by linarith
  also have "\<dots> \<le> 2 * pow2 1000" using assms(2) by simp
  also have "\<dots> < pow2 1024" by (simp add: pow2_def)
  finally have "v < pow2 1024" .
  then have "round64 r = FFin v"
    using pos unfolding v_def k_def by (simp add: round64_def Let_def k)
  with err show ?thesis by blast
qed

text \<open>Integers of up to 53 bits are values of the format.\<close>

lemma round64_int:
  assumes "0 \<le> n" "n < 2 ^ 53"
  shows "round64 (of_int n) = FFin (of_int n)"
proof (cases "n = 0")
  case True
  then show ?thesis by (simp add: round64_def)
next
  case False
  then have pos: "0 < (of_int n :: rat)" using assms(1) by simp
  note e = expo_bounds [OF pos]
  have lt: "(of_int n :: rat) < pow2 53"
  proof -
    have "(of_int n :: rat) < of_int (2 ^ 53)" using assms(2) by (simp only: of_int_less_iff)
    then show ?thesis by (simp add: pow2_def)
  qed
  have "expo (of_int n) < 53"
  proof (rule ccontr)
    assume "\<not> expo (of_int n) < 53"
    then have "pow2 53 \<le> pow2 (expo (of_int n))" by (intro pow2_mono) simp
    with e(1) lt show False by linarith
  qed
  moreover have "0 \<le> expo (of_int n)"
  proof (rule ccontr)
    assume "\<not> 0 \<le> expo (of_int n)"
    then have "pow2 (expo (of_int n) + 1) \<le> pow2 0" by (intro pow2_mono) simp
    moreover have "(1::rat) \<le> of_int n" using False assms(1) by simp
    moreover have "pow2 0 = 1" by (simp add: pow2_def)
    ultimately show False using e(2) by linarith
  qed
  ultimately obtain j where j: "expo (of_int n) - 52 = - int j" and j52: "j \<le> 52"
    by (intro that [of "nat (52 - expo (of_int n))"]) auto
  have k: "max (-1074) (expo \<bar>of_int n :: rat\<bar> - 52) = - int j"
    using j j52 assms(1) by simp
  have p: "pow2 (- int j) = 1 / 2 ^ j"
    by (cases "j = 0") (simp_all add: pow2_def)
  have "\<bar>of_int n :: rat\<bar> / pow2 (- int j) = of_int (n * 2 ^ j)"
    using assms(1) by (simp add: p)
  then have v: "of_int (round_even (\<bar>of_int n :: rat\<bar> / pow2 (- int j))) * pow2 (- int j) = of_int n"
    by (simp only: round_even_int) (simp add: p)
  have "of_int n < pow2 1024" using lt pow2_mono [of 53 1024] by linarith
  then show ?thesis
    unfolding round64_def Let_def k v using pos by simp
qed

text \<open>The largest \<open>int64\<close> rounds up, to a value outside the range.\<close>

lemma f64_MaxInt64: "f64_of_int MaxInt64 = FFin (2 ^ 63)"
proof -
  have e: "expo (9223372036854775807 :: rat) = 62"
    by (rule expo_unique) (simp_all add: pow2_def)
  have "floor (9223372036854775807 / 1024 :: rat) = 9007199254740991"
    by (simp add: floor_eq_iff)
  then have "round_even (9223372036854775807 / 1024) = 9007199254740992"
    by (simp add: round_even_def)
  moreover have "(9223372036854775808 :: rat) < pow2 1024"
    using pow2_mono [of 64 1024] by (simp add: pow2_def)
  moreover have "pow2 10 = (1024 :: rat)" by (simp add: pow2_def)
  ultimately show ?thesis
    by (simp add: f64_of_int_def MaxInt64_def round64_def e not_le)
qed

text \<open>A moderate value is rounded to one nearby, and never below zero.\<close>

lemma round64_near:
  assumes "0 \<le> r" "r \<le> 100"
  shows "\<exists>v. round64 r = FFin v \<and> 0 \<le> v \<and> \<bar>v - r\<bar> \<le> 1 / 100"
proof (cases "r = 0")
  case False
  then have pos: "0 < r" using assms(1) by simp
  define k where "k = max (-1074) (expo r - 52)"
  define v where "v = of_int (round_even (r / pow2 k)) * pow2 k"
  have "expo r \<le> 6"
  proof (rule ccontr)
    assume "\<not> expo r \<le> 6"
    then have "pow2 7 \<le> pow2 (expo r)" by (intro pow2_mono) simp
    with expo_bounds(1) [OF pos] assms(2) show False by (simp add: pow2_def)
  qed
  then have "k \<le> -46" by (simp add: k_def)
  then have small: "pow2 k \<le> 1 / 50"
    using pow2_mono [of k "-46"] by (simp add: pow2_def [of "-46"])
  have "\<bar>v - r\<bar> = \<bar>of_int (round_even (r / pow2 k)) - r / pow2 k\<bar> * pow2 k"
    unfolding v_def using pow2_pos [of k]
    by (metis abs_mult abs_of_pos left_diff_distrib less_numeral_extra(3) nonzero_eq_divide_eq)
  also have "\<dots> \<le> 1 / 2 * pow2 k"
    by (intro mult_right_mono round_even_err) (simp add: less_imp_le)
  finally have err: "\<bar>v - r\<bar> \<le> 1 / 100" using small by simp
  have "0 \<le> floor (r / pow2 k)" using pos by (simp add: less_imp_le)
  then have "0 \<le> round_even (r / pow2 k)" by (auto simp: round_even_def Let_def)
  then have "0 \<le> v" by (simp add: v_def less_imp_le)
  moreover have "v < pow2 1024"
    using err assms(2) pow2_mono [of 7 1024] unfolding abs_le_iff by (simp add: pow2_def [of 7])
  then have "round64 r = FFin v"
    using pos by (simp add: round64_def Let_def k_def v_def)
  ultimately show ?thesis using err by blast
qed (simp add: round64_def)

end
