(* ===== verification/Money.thy ===== *)
theory Money
  imports F64
begin

text \<open>
  The package \<open>money\<close> (src/money/money.go): exact amounts in nano-USD. An amount is the
  value of a \<open>NanoUSD\<close> (\<open>int64\<close>), an \<open>int\<close> that satisfies \<open>in64\<close>; every operation
  of the code that can wrap is written with \<open>i64\<close>. \<open>big.Int\<close> values are plain \<open>int\<close>s.
  Holds the conversions from and to the legacy floating-point amounts, the checked arithmetic
  (\<open>Add\<close>, \<open>Sub\<close>), the one rounding point \<open>ceilQuotient\<close>
  with the token and duration costs above it, and the parser and printer of amounts.
\<close>

type_synonym nano_usd = int

datatype money_error = ErrNegative | ErrOverflow | ErrInvalid

definition PerUSD :: int where
  "PerUSD = 1000000000"

definition PerCredit :: int where
  "PerCredit = 10000000"

definition PerMillion :: int where
  "PerMillion = 1000000"

section \<open>Checked arithmetic\<close>

definition Add :: "nano_usd \<Rightarrow> nano_usd \<Rightarrow> money_error + nano_usd" where
  "Add left right =
     (if right > 0 \<and> left > i64 (MaxInt64 - right) then Inl ErrOverflow
      else if right < 0 \<and> left < i64 (MinInt64 - right) then Inl ErrOverflow
      else Inr (i64 (left + right)))"

definition Sub :: "nano_usd \<Rightarrow> nano_usd \<Rightarrow> money_error + nano_usd" where
  "Sub left right =
     (if right = MinInt64 then Inl ErrOverflow else Add left (i64 (- right)))"

definition Min_nano :: "nano_usd \<Rightarrow> nano_usd \<Rightarrow> nano_usd" where
  "Min_nano left right = (if left < right then left else right)"

definition Max_nano :: "nano_usd \<Rightarrow> nano_usd \<Rightarrow> nano_usd" where
  "Max_nano left right = (if left > right then left else right)"

section \<open>The rounding point and the costs\<close>

text \<open>\<open>QuoRem\<close> truncates, as \<open>sdiv\<close> and \<open>smod\<close> do; \<open>IsInt64\<close> is \<open>in64\<close>.\<close>

definition ceilQuotient :: "int \<Rightarrow> int \<Rightarrow> money_error + nano_usd" where
  "ceilQuotient numerator denominator =
     (let quotient = numerator sdiv denominator;
          remainder = numerator smod denominator;
          quotient = (if remainder \<noteq> 0 then quotient + 1 else quotient)
      in if in64 quotient then Inr quotient else Inl ErrOverflow)"

definition CostForTokensScaled :: "int \<Rightarrow> nano_usd \<Rightarrow> int \<Rightarrow> int \<Rightarrow> money_error + nano_usd" where
  "CostForTokensScaled tokens ratePerMillion num den =
     (if num < 0 then Inl ErrNegative
      else if den \<le> 0 then Inl ErrInvalid
      else if tokens < 0 \<or> ratePerMillion < 0 then Inl ErrNegative
      else if tokens = 0 \<or> ratePerMillion = 0 \<or> num = 0 then Inr 0
      else ceilQuotient (tokens * ratePerMillion * num) (PerMillion * den))"

definition CostForTokens :: "int \<Rightarrow> nano_usd \<Rightarrow> money_error + nano_usd" where
  "CostForTokens tokens ratePerMillion = CostForTokensScaled tokens ratePerMillion 1 1"

definition MulDivCeil :: "int \<Rightarrow> nano_usd \<Rightarrow> int \<Rightarrow> money_error + nano_usd" where
  "MulDivCeil units rate divisor =
     (if units < 0 \<or> rate < 0 then Inl ErrNegative
      else if divisor \<le> 0 then Inl ErrInvalid
      else if units = 0 \<or> rate = 0 then Inr 0
      else ceilQuotient (units * rate) divisor)"

section \<open>The floating-point boundary\<close>

definition from_float :: "int \<Rightarrow> f64 \<Rightarrow> money_error + nano_usd" where
  "from_float unit value =
     (if f64_IsNaN value \<or> f64_IsInf value then Inl ErrInvalid
      else if f64_neg value then Inl ErrNegative
      else
        (let scaled = f64_mul value (f64_of_int unit)
         in if f64_gt scaled (f64_of_int MaxInt64) then Inl ErrOverflow
            else Inr (f64_to_int64 (f64_Round scaled))))"

definition FromUSD :: "f64 \<Rightarrow> money_error + nano_usd" where
  "FromUSD value = from_float PerUSD value"

definition FromCredits :: "f64 \<Rightarrow> money_error + nano_usd" where
  "FromCredits credits = from_float PerCredit credits"

definition USD :: "nano_usd \<Rightarrow> f64" where
  "USD n = f64_div (f64_of_int n) (f64_of_int PerUSD)"

definition Credits :: "nano_usd \<Rightarrow> f64" where
  "Credits n = f64_div (f64_of_int n) (f64_of_int PerCredit)"

section \<open>Text\<close>

fun trailingZeroes_loop :: "nat \<Rightarrow> int \<Rightarrow> nat \<Rightarrow> nat" where
  "trailingZeroes_loop 0 fraction count = count"
| "trailingZeroes_loop (Suc k) fraction count =
     (if fraction smod 10 = 0 then trailingZeroes_loop k (fraction sdiv 10) (count + 1) else count)"

text \<open>The loop \<open>for count < 9 && fraction%10 == 0\<close> runs at most nine times.\<close>

definition trailingZeroes :: "int \<Rightarrow> nat" where
  "trailingZeroes fraction = trailingZeroes_loop 9 fraction 0"

text \<open>
  \<open>String\<close> calls itself on the negated amount, so its recursion is written as such:
  \<open>None\<close> is a call that does not return.
\<close>

partial_function (option) NanoUSD_String :: "nano_usd \<Rightarrow> string option" where
  "NanoUSD_String n =
     (if n < 0 then Option.bind (NanoUSD_String (i64 (- n))) (\<lambda>s. Some (CHR ''-'' # s))
      else
        (let whole = n sdiv PerUSD;
             fraction = n smod PerUSD
         in if fraction = 0 then Some (show_int whole)
            else
              (let text = show_int whole @ ''.'' @ show_padded 9 (nat fraction)
               in Some (take (length text - trailingZeroes fraction) text))))"

definition ParseUSD_fraction :: "string \<Rightarrow> money_error + string" where
  "ParseUSD_fraction fraction =
     (if fraction = [] \<or> length fraction > 9 then Inl ErrInvalid
      else if \<not> list_all is_digit fraction then Inl ErrInvalid
      else Inr fraction)"

definition ParseUSD :: "string \<Rightarrow> money_error + nano_usd" where
  "ParseUSD raw =
     (let raw = TrimSpace raw
      in if raw = [] then Inl ErrInvalid
         else
           (let raw = (if HasPrefix raw ''+'' then TrimPrefix raw ''+'' else raw)
            in if HasPrefix raw ''-'' then Inl ErrNegative
               else
                 (let parts = SplitByte (CHR ''.'') raw
                  in if length parts > 2 \<or> parts ! 0 = [] then Inl ErrInvalid
                     else
                       (case ParseUint (parts ! 0) of
                          None \<Rightarrow> Inl ErrInvalid
                        | Some whole \<Rightarrow>
                            (if int whole > MaxInt64 div PerUSD then Inl ErrOverflow
                             else
                               ebind (if length parts = 2 then ParseUSD_fraction (parts ! 1) else Inr [])
                                 (\<lambda>fraction.
                                    (let fraction = fraction @ replicate (9 - length fraction) (CHR ''0'')
                                     in case ParseUint fraction of
                                          None \<Rightarrow> Inl ErrInvalid
                                        | Some fractional \<Rightarrow>
                                            (let total = int whole * PerUSD + int fractional
                                             in if total > MaxInt64 then Inl ErrOverflow
                                                else Inr total))))))))"

section \<open>Lemmas on the arithmetic\<close>

lemmas money_consts = PerUSD_def PerCredit_def PerMillion_def
lemmas int64_consts = MaxInt64_def MinInt64_def

lemma Add_exact:
  assumes "in64 l" "in64 r"
  shows "Add l r = (if in64 (l + r) then Inr (l + r) else Inl ErrOverflow)"
proof -
  have "i64 (MaxInt64 - r) = MaxInt64 - r" if "r > 0"
    using assms that by (intro i64_id) (auto simp: in64_def int64_consts)
  moreover have "i64 (MinInt64 - r) = MinInt64 - r" if "r < 0"
    using assms that by (intro i64_id) (auto simp: in64_def int64_consts)
  ultimately show ?thesis
    using assms by (auto simp: Add_def in64_def int64_consts i64_id)
qed

lemma Sub_exact:
  assumes "in64 l" "in64 r" "r \<noteq> MinInt64"
  shows "Sub l r = (if in64 (l - r) then Inr (l - r) else Inl ErrOverflow)"
proof -
  have "in64 (- r)" using assms by (auto simp: in64_def int64_consts)
  with assms show ?thesis by (simp add: Sub_def Add_exact i64_id)
qed

lemma Add_nonneg_InrD:
  assumes "Add l r = Inr s" "in64 l" "in64 r" "0 \<le> l" "0 \<le> r"
  shows "s = l + r" "0 \<le> s" "in64 s"
  using assms by (auto simp: Add_exact split: if_splits)

text \<open>For a non-negative numerator the one rounding point is the exact ceiling.\<close>

lemma ceilQuotient_eq_ceiling:
  assumes "0 \<le> a" "0 < b"
  shows "ceilQuotient a b =
    (let c = - ((- a) div b) in if c \<le> MaxInt64 then Inr c else Inl ErrOverflow)"
proof -
  have dm: "a sdiv b = a div b" "a smod b = a mod b"
    using assms by (auto simp: signed_divide_int_def signed_modulo_int_def sgn_if)
  have "(if a mod b \<noteq> 0 then a div b + 1 else a div b) = - ((- a) div b)"
    using assms(2) by (auto simp: zdiv_zminus1_eq_if)
  moreover have "0 \<le> - ((- a) div b)"
    using assms by (simp add: div_nonpos_pos_le0)
  ultimately show ?thesis
    by (simp add: ceilQuotient_def dm Let_def in64_nonneg)
qed

lemma ceiling_iff:
  fixes a b c :: int
  assumes "0 < b"
  shows "c = - ((- a) div b) \<longleftrightarrow> a \<le> c * b \<and> (c - 1) * b < a"
proof -
  define q where "q = (- a) div b"
  define r where "r = (- a) mod b"
  have r: "0 \<le> r" "r < b" and qr: "- a = q * b + r"
    using assms by (simp_all add: q_def r_def)
  have "c = - q \<longleftrightarrow> a \<le> c * b \<and> (c - 1) * b < a"
  proof
    assume "c = - q"
    with qr r show "a \<le> c * b \<and> (c - 1) * b < a" by (simp add: algebra_simps)
  next
    assume c: "a \<le> c * b \<and> (c - 1) * b < a"
    with qr r have "0 < (c + q + 1) * b" "(c + q - 1) * b < 0"
      by (simp_all add: algebra_simps)
    then have "0 < c + q + 1" "c + q - 1 < 0"
      using assms by (simp_all add: zero_less_mult_iff mult_less_0_iff)
    then show "c = - q" by linarith
  qed
  then show ?thesis by (simp add: q_def)
qed

lemma ceilQuotient_Inr_iff:
  assumes "0 \<le> a" "0 < b"
  shows "ceilQuotient a b = Inr c \<longleftrightarrow> c \<le> MaxInt64 \<and> a \<le> c * b \<and> (c - 1) * b < a"
proof -
  have "ceilQuotient a b = Inr c \<longleftrightarrow> c = - ((- a) div b) \<and> c \<le> MaxInt64"
    using assms by (auto simp: ceilQuotient_eq_ceiling Let_def)
  also have "\<dots> \<longleftrightarrow> c \<le> MaxInt64 \<and> a \<le> c * b \<and> (c - 1) * b < a"
    using ceiling_iff [OF assms(2), of c a] by blast
  finally show ?thesis .
qed

lemma CostForTokensScaled_Inr_iff:
  "CostForTokensScaled tokens rate num den = Inr c \<longleftrightarrow>
     0 \<le> tokens \<and> 0 \<le> rate \<and> 0 \<le> num \<and> 0 < den \<and> c \<le> MaxInt64 \<and>
     tokens * rate * num \<le> c * (PerMillion * den) \<and>
     (c - 1) * (PerMillion * den) < tokens * rate * num"
proof (cases "0 \<le> tokens \<and> 0 \<le> rate \<and> 0 \<le> num \<and> 0 < den")
  case pos: True
  then have d: "0 < PerMillion * den" by (simp add: PerMillion_def)
  show ?thesis
  proof (cases "tokens = 0 \<or> rate = 0 \<or> num = 0")
    case True
    then have zero: "tokens * rate * num = 0" by auto
    have "CostForTokensScaled tokens rate num den = Inr c \<longleftrightarrow> c = - ((- 0) div (PerMillion * den))"
      using True pos by (auto simp: CostForTokensScaled_def)
    also have "\<dots> \<longleftrightarrow> 0 \<le> c * (PerMillion * den) \<and> (c - 1) * (PerMillion * den) < 0"
      by (rule ceiling_iff [OF d])
    also have "\<dots> \<longleftrightarrow> c \<le> MaxInt64 \<and> 0 \<le> c * (PerMillion * den) \<and> (c - 1) * (PerMillion * den) < 0"
      using mult_less_0_iff [of "c - 1" "PerMillion * den"] d by (auto simp: MaxInt64_def)
    finally show ?thesis unfolding zero using pos by blast
  next
    case False
    with pos have "CostForTokensScaled tokens rate num den =
        ceilQuotient (tokens * rate * num) (PerMillion * den)"
      by (auto simp: CostForTokensScaled_def)
    moreover have "0 \<le> tokens * rate * num" using pos by simp
    ultimately show ?thesis using pos d by (simp add: ceilQuotient_Inr_iff)
  qed
qed (auto simp: CostForTokensScaled_def)

lemma CostForTokensScaled_nonneg:
  "CostForTokensScaled tokens rate num den = Inr c \<Longrightarrow> 0 \<le> c \<and> in64 c"
proof -
  assume c: "CostForTokensScaled tokens rate num den = Inr c"
  then have "0 \<le> tokens * rate * num" "0 < PerMillion * den"
    by (simp_all add: CostForTokensScaled_Inr_iff PerMillion_def)
  moreover have "tokens * rate * num \<le> c * (PerMillion * den)"
    using c by (simp add: CostForTokensScaled_Inr_iff)
  ultimately have "0 \<le> c" by (meson mult_less_0_iff not_le order_trans)
  then show ?thesis using c by (simp add: in64_nonneg CostForTokensScaled_Inr_iff)
qed

lemma CostForTokensScaled_0 [simp]:
  "0 \<le> rate \<Longrightarrow> 0 \<le> num \<Longrightarrow> 0 < den \<Longrightarrow> CostForTokensScaled 0 rate num den = Inr 0"
  by (simp add: CostForTokensScaled_def)

text \<open>More tokens, a higher rate or a larger scale never cost less.\<close>

lemma CostForTokensScaled_mono:
  assumes "CostForTokensScaled t2 rate num den = Inr c2" "0 \<le> t1" "t1 \<le> t2"
  shows "\<exists>c1. CostForTokensScaled t1 rate num den = Inr c1 \<and> c1 \<le> c2"
proof -
  define b where "b = PerMillion * den"
  define a where "a t = t * rate * num" for t
  note c2 = assms(1) [unfolded CostForTokensScaled_Inr_iff, folded b_def a_def]
  have b: "0 < b" using c2 by (simp add: b_def PerMillion_def)
  have le: "a t1 \<le> a t2" using c2 assms(3) by (simp add: a_def mult_right_mono)
  define c1 where "c1 = - ((- a t1) div b)"
  have c1: "a t1 \<le> c1 * b \<and> (c1 - 1) * b < a t1"
    using ceiling_iff [OF b, of c1 "a t1"] by (simp add: c1_def)
  with le c2 have "(c1 - 1) * b < c2 * b" by linarith
  then have "c1 \<le> c2" using b by simp
  moreover from this have "CostForTokensScaled t1 rate num den = Inr c1"
    using c1 c2 assms(2) by (simp add: CostForTokensScaled_Inr_iff flip: b_def a_def)
  ultimately show ?thesis by blast
qed

section \<open>Lemmas on the text form\<close>

lemma trailingZeroes_loop_add: "trailingZeroes_loop k f c = c + trailingZeroes_loop k f 0"
proof (induction k arbitrary: f c)
  case (Suc k)
  show ?case
    using Suc.IH [of "f sdiv 10" "c + 1"] Suc.IH [of "f sdiv 10" 1] by simp
qed simp

text \<open>Dropping the counted zeros loses nothing.\<close>

lemma trailingZeroes_loop_dvd:
  "trailingZeroes_loop k (int f) 0 \<le> k \<and> 10 ^ trailingZeroes_loop k (int f) 0 dvd f"
proof (induction k arbitrary: f)
  case (Suc k)
  show ?case
  proof (cases "f mod 10 = 0")
    case True
    have d: "int f sdiv 10 = int (f div 10)" "int f smod 10 = int (f mod 10)"
      by (simp_all add: signed_divide_int_def signed_modulo_int_def sgn_if zdiv_int zmod_int)
    have t: "trailingZeroes_loop (Suc k) (int f) 0 = Suc (trailingZeroes_loop k (int (f div 10)) 0)"
      using True trailingZeroes_loop_add [of k "int (f div 10)" 1] by (simp add: d)
    obtain q where q: "f div 10 = 10 ^ trailingZeroes_loop k (int (f div 10)) 0 * q"
      using Suc.IH [of "f div 10"] by (auto elim: dvdE)
    have "f = 10 * (f div 10)" using True by auto
    also have "\<dots> = 10 * (10 ^ trailingZeroes_loop k (int (f div 10)) 0 * q)"
      using q by (rule arg_cong)
    finally have "f = 10 ^ trailingZeroes_loop (Suc k) (int f) 0 * q"
      unfolding t by simp
    then have "10 ^ trailingZeroes_loop (Suc k) (int f) 0 dvd f" by (rule dvdI)
    moreover have "trailingZeroes_loop (Suc k) (int f) 0 \<le> Suc k"
      using Suc.IH [of "f div 10"] unfolding t by simp
    ultimately show ?thesis by blast
  next
    case False
    then have "int f mod 10 \<noteq> 0" by presburger
    then have "int f smod 10 \<noteq> 0"
      by (cases "f = 0") (simp_all add: signed_modulo_int_def signed_divide_int_def sgn_if)
    then show ?thesis by simp
  qed
qed simp

lemma String_nonneg:
  assumes "0 \<le> n"
  shows "NanoUSD_String n = Some
    (if n mod PerUSD = 0 then show_nat (nat (n div PerUSD))
     else show_nat (nat (n div PerUSD)) @ ''.'' @
       take (9 - trailingZeroes (n mod PerUSD)) (low_digits 9 (nat (n mod PerUSD))))"
proof -
  have d: "n sdiv PerUSD = n div PerUSD" "n smod PerUSD = n mod PerUSD"
    using assms by (auto simp: signed_divide_int_def signed_modulo_int_def sgn_if PerUSD_def)
  have s: "show_int (n div PerUSD) = show_nat (nat (n div PerUSD))"
    using assms by (simp add: show_int_def PerUSD_def div_int_pos_iff not_less)
  have "nat (n mod PerUSD) < 10 ^ 9" by (simp add: PerUSD_def nat_less_iff)
  then have p: "show_padded 9 (nat (n mod PerUSD)) = low_digits 9 (nat (n mod PerUSD))"
    by (rule show_padded_low_digits) simp
  have "trailingZeroes (n mod PerUSD) \<le> 9"
    using trailingZeroes_loop_dvd [of 9 "nat (n mod PerUSD)"]
    by (simp add: trailingZeroes_def PerUSD_def)
  then have "10 - trailingZeroes (n mod PerUSD) = Suc (9 - trailingZeroes (n mod PerUSD))" by simp
  then show ?thesis
    by (subst NanoUSD_String.simps) (use assms in \<open>simp add: d s p Let_def\<close>)
qed

lemma dot_no_digit: "list_all is_digit s \<Longrightarrow> CHR ''.'' \<notin> set s"
  by (auto simp: list_all_iff is_digit_def)

lemma digits_trim:
  assumes "is_digit a" "is_digit z" "s = a # t" "s = u @ [z]"
  shows "TrimSpace s = s" "\<not> HasPrefix s ''+''" "\<not> HasPrefix s ''-''"
proof -
  have "rev s = z # rev u" using assms(4) by simp
  then show "TrimSpace s = s"
    using digit_not_space(1) [OF assms(1), of t] digit_not_space(2) [OF assms(2), of "rev u"] assms(3)
    by (intro TrimSpace_no_space) simp_all
  show "\<not> HasPrefix s ''+''" "\<not> HasPrefix s ''-''"
    using assms(1,3) by (auto simp: is_digit_def)
qed

text \<open>Parsing a numeral with a fraction of at most nine digits.\<close>

lemma ParseUSD_dotted:
  assumes "list_all is_digit w" "w \<noteq> []" "list_all is_digit f" "f \<noteq> []" "length f \<le> 9"
    and "int (dec_val w) * PerUSD + int (dec_val (f @ replicate (9 - length f) (CHR ''0''))) \<le> MaxInt64"
  shows "ParseUSD (w @ ''.'' @ f) =
    Inr (int (dec_val w) * PerUSD + int (dec_val (f @ replicate (9 - length f) (CHR ''0''))))"
proof -
  define s where "s = w @ ''.'' @ f"
  obtain a t where a: "w = a # t" using assms(2) by (cases w) auto
  obtain u z where z: "f = u @ [z]" using assms(4) by (cases f rule: rev_cases) auto
  have az: "is_digit a" "is_digit z" using assms(1,3) a z by simp_all
  have trim: "TrimSpace s = s" "\<not> HasPrefix s ''+''" "\<not> HasPrefix s ''-''"
    using digits_trim [OF az, of s "t @ ''.'' @ f" "w @ ''.'' @ u"] a z s_def by auto
  have parts: "SplitByte (CHR ''.'') s = [w, f]"
    using SplitByte_append [OF dot_no_digit [OF assms(1)], of f] SplitByte_no [OF dot_no_digit [OF assms(3)]]
    by (simp add: s_def)
  have zeros: "list_all is_digit (replicate k (CHR ''0''))" for k
    by (simp add: list_all_iff is_digit_def)
  have w: "int (dec_val w) \<le> MaxInt64 div PerUSD"
    using assms(6) by (simp add: PerUSD_def MaxInt64_def)
  have pw: "ParseUint w = Some (dec_val w)"
    using assms(1,2) w by (simp add: ParseUint_def PerUSD_def MaxInt64_def)
  have pf: "ParseUint (f @ replicate (9 - length f) (CHR ''0'')) =
      Some (dec_val (f @ replicate (9 - length f) (CHR ''0'')))"
    using assms(3,4,6) zeros by (simp add: ParseUint_def PerUSD_def MaxInt64_def)
  have "s \<noteq> []" using a s_def by simp
  then have "ParseUSD s = Inr (int (dec_val w) * PerUSD +
      int (dec_val (f @ replicate (9 - length f) (CHR ''0''))))"
    using assms w by (simp add: ParseUSD_def trim parts pw pf ParseUSD_fraction_def)
  then show ?thesis by (simp add: s_def)
qed

lemma ParseUSD_whole:
  assumes "list_all is_digit w" "w \<noteq> []" "int (dec_val w) * PerUSD \<le> MaxInt64"
  shows "ParseUSD w = Inr (int (dec_val w) * PerUSD)"
proof -
  obtain a t where a: "w = a # t" using assms(2) by (cases w) auto
  obtain u z where z: "w = u @ [z]" using assms(2) by (cases w rule: rev_cases) auto
  have "a \<in> set w" using a by simp
  moreover have "z \<in> set w" using z by simp
  ultimately have az: "is_digit a" "is_digit z" using assms(1) by (auto simp: list_all_iff)
  note trim = digits_trim [OF az a z]
  have parts: "SplitByte (CHR ''.'') w = [w]"
    by (rule SplitByte_no [OF dot_no_digit [OF assms(1)]])
  have w: "int (dec_val w) \<le> MaxInt64 div PerUSD"
    using assms(3) by (simp add: PerUSD_def MaxInt64_def)
  have pw: "ParseUint w = Some (dec_val w)"
    using assms(1,2) w by (simp add: ParseUint_def PerUSD_def MaxInt64_def)
  have z9: "ParseUint (replicate 9 (CHR ''0'')) = Some 0"
    using dec_val_append_zeros [of "[]" 9] by (simp add: ParseUint_def list_all_iff is_digit_def)
  show ?thesis using assms w by (simp add: ParseUSD_def trim parts pw z9)
qed

lemma String_parses:
  assumes "0 \<le> n" "in64 n"
  shows "\<exists>s. NanoUSD_String n = Some s \<and> ParseUSD s = Inr n"
proof -
  define w where "w = show_nat (nat (n div PerUSD))"
  define f where "f = nat (n mod PerUSD)"
  have w: "list_all is_digit w" "w \<noteq> []" "int (dec_val w) = n div PerUSD"
    using assms(1) by (simp_all add: w_def show_nat_digits dec_val_show_nat PerUSD_def div_int_pos_iff)
  have f: "int f = n mod PerUSD" by (simp add: f_def PerUSD_def)
  have n: "n = n div PerUSD * PerUSD + n mod PerUSD" by simp
  show ?thesis
  proof (cases "n mod PerUSD = 0")
    case True
    with w n assms have "ParseUSD w = Inr n"
      by (subst ParseUSD_whole) (auto simp: in64_def)
    with True show ?thesis by (simp add: String_nonneg [OF assms(1)] w_def)
  next
    case False
    define t where "t = trailingZeroes_loop 9 (int f) 0"
    define d where "d = take (9 - t) (low_digits 9 f)"
    have t: "t \<le> 9" "10 ^ t dvd f" using trailingZeroes_loop_dvd [of 9 f] by (auto simp: t_def)
    have lt: "f < 10 ^ 9" using f by (simp add: PerUSD_def f_def nat_less_iff)
    have "t \<noteq> 9"
    proof
      assume "t = 9"
      with t(2) lt have "f = 0" by (auto dest: dvd_imp_le)
      with f False show False by simp
    qed
    with t(1) have tl: "t < 9" by simp
    have d: "d = low_digits (9 - t) (f div 10 ^ t)"
      unfolding d_def by (rule take_low_digits [OF t(1)])
    have len: "length d = 9 - t" and "list_all is_digit d"
      by (simp_all add: d low_digits_digits)
    have small: "f div 10 ^ t < 10 ^ (9 - t)"
      using lt t(1) by (intro less_mult_imp_div_less) (simp flip: power_add)
    have "dec_val (d @ replicate (9 - length d) (CHR ''0'')) = f"
      using t small by (simp add: dec_val_append_zeros len d dec_val_low_digits)
    moreover have "NanoUSD_String n = Some (w @ ''.'' @ d)"
      using False by (simp add: String_nonneg [OF assms(1)] w_def d_def t_def trailingZeroes_def f_def PerUSD_def)
    moreover have "ParseUSD (w @ ''.'' @ d) =
      Inr (int (dec_val w) * PerUSD + int (dec_val (d @ replicate (9 - length d) (CHR ''0''))))"
      using w(1,2) \<open>list_all is_digit d\<close> len tl calculation(1) w(3) f n assms(2)
      by (intro ParseUSD_dotted) (auto simp: in64_def)
    ultimately show ?thesis using w(3) f n by simp
  qed
qed

text \<open>The negation of the least amount is itself, so the call never returns.\<close>

lemma String_MinInt64: "NanoUSD_String MinInt64 = None"
proof -
  have "n \<noteq> MinInt64" if "NanoUSD_String n = Some y" for n y
  proof (rule NanoUSD_String.raw_induct [of "\<lambda>n y. n \<noteq> MinInt64"])
    show "NanoUSD_String n = Some y" by (rule that)
  next
    fix f :: "int \<Rightarrow> string option" and n :: int and y :: string
    assume IH: "\<And>n y. f n = Some y \<Longrightarrow> n \<noteq> MinInt64"
      and y: "(if n < 0 then Option.bind (f (i64 (- n))) (\<lambda>s. Some (CHR ''-'' # s))
        else let whole = n sdiv PerUSD; fraction = n smod PerUSD in
          if fraction = 0 then Some (show_int whole)
          else let text = show_int whole @ ''.'' @ show_padded 9 (nat fraction)
               in Some (take (length text - trailingZeroes fraction) text)) = Some y"
    show "n \<noteq> MinInt64"
    proof
      assume n: "n = MinInt64"
      then have "i64 (- n) = MinInt64" by (simp add: i64_MinInt64_neg)
      with y n obtain s where "f MinInt64 = Some s"
        by (auto simp: MinInt64_def bind_eq_Some_conv)
      with IH show False by blast
    qed
  qed
  then show ?thesis by (metis not_None_eq)
qed

section \<open>Lemmas on the floating-point boundary\<close>

lemma round_away_near:
  assumes "\<bar>s - of_int n\<bar> < 1 / 2" "0 \<le> s"
  shows "round_away s = n"
proof -
  have "s - of_int n < 1 / 2" "of_int n - s < 1 / 2"
    using assms(1) unfolding abs_less_iff by linarith+
  then have "of_int n \<le> s + 1 / 2" "s + 1 / 2 < of_int n + 1" by linarith+
  then show ?thesis using assms(2) by (simp add: round_away_def floor_eq_iff)
qed

text \<open>Dividing by the unit and multiplying back is off by less than a half.\<close>

lemma from_float_unit:
  assumes "0 \<le> n" "n < 2 ^ 50" "0 < unit" "unit \<le> 2 ^ 30"
  shows "from_float unit (f64_div (f64_of_int n) (f64_of_int unit)) = Inr n"
proof -
  have unit: "f64_of_int unit = FFin (of_int unit)" "f64_of_int n = FFin (of_int n)"
    unfolding f64_of_int_def using assms by (auto intro!: round64_int)
  define x :: rat where "x = of_int n"
  define w :: rat where "w = of_int unit"
  have w: "1 \<le> w" "w \<le> 2 ^ 30"
  proof -
    show "1 \<le> w" using assms(3) by (simp add: w_def)
    have "w \<le> of_int (2 ^ 30)" unfolding w_def using assms(4) by (simp only: of_int_le_iff)
    then show "w \<le> 2 ^ 30" by simp
  qed
  note lim = f64_MaxInt64
  show ?thesis
  proof (cases "n = 0")
    case True
    moreover have "round64 0 = FFin 0" by (simp add: round64_def)
    moreover from this have "f64_of_int 0 = FFin 0" by (simp add: f64_of_int_def)
    moreover have "in64 0" by (simp add: in64_def int64_consts)
    moreover have "floor (1 / 2 :: rat) = 0" by (simp add: floor_eq_iff)
    ultimately show ?thesis using assms(3)
      by (simp add: from_float_def unit(1) lim f64_div_def f64_mul_def f64_IsNaN_def f64_IsInf_def
          f64_neg_def f64_gt_def f64_Round_def round_away_def f64_to_int64_def Let_def)
  next
    case False
    have x: "1 \<le> x" "x < 2 ^ 50"
    proof -
      show "1 \<le> x" using False assms(1) by (simp add: x_def)
      have "x < of_int (2 ^ 50)" unfolding x_def using assms(2) by (simp only: of_int_less_iff)
      then show "x < 2 ^ 50" by simp
    qed
    have small: "pow2 (-1022) \<le> (1 / 2 ^ 60 :: rat)" "(2 ^ 60 :: rat) \<le> pow2 1000"
      using pow2_mono [of "-1022" "-60"] pow2_mono [of 60 1000] by (simp_all add: pow2_def)
    have q: "1 / 2 ^ 30 \<le> x / w" "x / w \<le> x"
      using x w by (auto simp: field_simps intro: order_trans [OF _ mult_mono])
    obtain u where u: "round64 (x / w) = FFin u" "\<bar>u - x / w\<bar> \<le> x / w * pow2 (-53)"
      using round64_normal [of "x / w"] q x small by (auto simp: field_simps)
    have "u * w - x = (u - x / w) * w" using w by (simp add: left_diff_distrib)
    then have "\<bar>u * w - x\<bar> = \<bar>u - x / w\<bar> * w" using w by (simp add: abs_mult)
    also have "\<dots> \<le> x / w * pow2 (-53) * w" using u(2) w by (intro mult_right_mono) auto
    also have "\<dots> = x * pow2 (-53)" using w by simp
    finally have uw: "\<bar>u * w - x\<bar> \<le> x / 9007199254740992" by (simp add: pow2_def)
    have x2: "x < 1125899906842624" using x(2) by simp
    from uw have "u * w - x \<le> x / 9007199254740992" "x - u * w \<le> x / 9007199254740992" unfolding abs_le_iff by linarith+
    then have uw_bounds: "x / 2 \<le> u * w" "u * w \<le> 2 * x" using x(1) x2 by linarith+
    then obtain s where s: "round64 (u * w) = FFin s" "\<bar>s - u * w\<bar> \<le> u * w * pow2 (-53)"
      using round64_normal [of "u * w"] x small by (auto simp: field_simps)
    have "u * w * pow2 (-53) \<le> 2 * x / 9007199254740992" using uw_bounds(2) by (simp add: pow2_def)
    then have "\<bar>s - x\<bar> \<le> 3 * x / 9007199254740992" using s(2) uw by linarith
    then have sx: "\<bar>s - x\<bar> < 1 / 2" using x2 by linarith
    then have "round_away s = n" using round_away_near [of s n] x(1) unfolding x_def by linarith
    moreover have "s \<le> 2 ^ 63"
    proof -
      have "s \<le> 9223372036854775808" using sx x2 by linarith
      then show ?thesis by simp
    qed
    moreover have "0 < u"
    proof -
      have "0 < u * w" using uw_bounds(1) x(1) by linarith
      then show ?thesis using w(1) by (simp add: zero_less_mult_iff)
    qed
    moreover have "in64 n" using assms by (simp add: in64_def int64_consts)
    moreover have "floor x = n" "\<not> x < 0" using assms(1) by (simp_all add: x_def)
    ultimately show ?thesis
      using u(1) s(1) w assms(1)
      by (simp add: from_float_def unit lim f64_div_def f64_mul_def f64_IsNaN_def f64_IsInf_def
          f64_neg_def f64_gt_def f64_Round_def f64_to_int64_def Let_def flip: w_def x_def)
  qed
qed

lemma from_float_overflow:
  assumes "f64_mul value (f64_of_int unit) = FFin (2 ^ 63)" "value = FFin v" "0 \<le> v"
  shows "from_float unit value = Inr MinInt64"
proof -
  have "round_away (2 ^ 63) = 2 ^ 63"
    by (rule round_away_near) simp_all
  then have "f64_to_int64 (f64_Round (FFin (2 ^ 63))) = MinInt64"
    by (simp add: f64_Round_def f64_to_int64_def in64_def MaxInt64_def)
  then show ?thesis
    using assms by (simp add: from_float_def f64_IsNaN_def f64_IsInf_def f64_neg_def f64_gt_def f64_MaxInt64)
qed

section \<open>Properties\<close>

text \<open>Checked addition is exact: \<open>Add\<close> returns the mathematical sum whenever it fits in
  an \<open>int64\<close> and \<open>ErrOverflow\<close> otherwise, although the guards themselves are computed with
  wrapping arithmetic.\<close>

theorem Add_checked:
  assumes "in64 l" "in64 r"
  shows "Add l r = (if in64 (l + r) then Inr (l + r) else Inl ErrOverflow)"
  using assms by (rule Add_exact)

theorem Add_checked_witness:
  "Add MaxInt64 1 = Inl ErrOverflow \<and> Add (- 5) 3 = Inr (- 2)"
  using Add_checked [of MaxInt64 1] Add_checked [of "- 5" 3]
  by (simp add: in64_def int64_consts)

text \<open>C24: The cost of a token class is the exact ceiling of
  \<open>tokens * rate * num / (1000000 * den)\<close>, rounded once: the call succeeds with \<open>c\<close> exactly
  when no argument is negative, the divisor is positive and \<open>c\<close> is the least \<open>int64\<close> amount
  that covers the exact quotient.\<close>

theorem CostForTokensScaled_exact:
  "CostForTokensScaled tokens rate num den = Inr c \<longleftrightarrow>
     0 \<le> tokens \<and> 0 \<le> rate \<and> 0 \<le> num \<and> 0 < den \<and> c \<le> MaxInt64 \<and>
     tokens * rate * num \<le> c * (PerMillion * den) \<and>
     (c - 1) * (PerMillion * den) < tokens * rate * num"
  by (rule CostForTokensScaled_Inr_iff)

text \<open>Printing an amount and parsing the text gives the amount back, for every
  non-negative \<open>int64\<close>: the trailing zeros that \<open>String\<close> cuts are exactly those that
  \<open>ParseUSD\<close> puts back.\<close>

theorem ParseUSD_String:
  assumes "0 \<le> n" "in64 n"
  shows "\<exists>s. NanoUSD_String n = Some s \<and> ParseUSD s = Inr n"
  using assms by (rule String_parses)

theorem ParseUSD_String_witness:
  "\<exists>s. NanoUSD_String 1250000000 = Some s \<and> ParseUSD s = Inr 1250000000"
  by (rule ParseUSD_String) (simp_all add: in64_def int64_consts)

text \<open>C39: Printing returns for every \<open>int64\<close> amount except the least one, on which it calls
  itself with the same argument for ever.\<close>

theorem String_returns_iff:
  assumes "in64 n"
  shows "NanoUSD_String n \<noteq> None \<longleftrightarrow> n \<noteq> MinInt64"
proof (cases "n < 0 \<and> n \<noteq> MinInt64")
  case True
  then have "in64 (- n)" using assms by (auto simp: in64_def int64_consts)
  then have "i64 (- n) = - n" by (rule i64_id)
  moreover obtain s where "NanoUSD_String (- n) = Some s"
    using True String_parses [OF _ \<open>in64 (- n)\<close>] by auto
  ultimately show ?thesis
    using True by (subst NanoUSD_String.simps) simp
next
  case False
  then show ?thesis using assms String_MinInt64 String_parses [of n] by (cases "n < 0") auto
qed

theorem String_returns_iff_witness: "NanoUSD_String MinInt64 = None"
  using String_returns_iff [of MinInt64] by (simp add: in64_def int64_consts)

text \<open>C28: Every amount below 2 to the 50 nano-USD (about a million dollars) survives the legacy
  floating-point fields: converting it to dollars and back, or to credits and back, gives the
  same exact amount.\<close>

theorem float_roundtrip:
  assumes "0 \<le> n" "n < 2 ^ 50"
  shows "FromUSD (USD n) = Inr n \<and> FromCredits (Credits n) = Inr n"
proof -
  have "from_float unit (f64_div (f64_of_int n) (f64_of_int unit)) = Inr n"
    if "unit = PerUSD \<or> unit = PerCredit" for unit
    using that by (intro from_float_unit [OF assms]) (auto simp: money_consts)
  then show ?thesis by (simp add: FromUSD_def USD_def FromCredits_def Credits_def)
qed

theorem float_roundtrip_witness: "FromUSD (USD 12345678901) = Inr 12345678901"
  by (rule float_roundtrip [THEN conjunct1]) simp_all

text \<open>The overflow guard of the floating-point boundary lets one value through: it compares
  with the largest \<open>int64\<close> converted to a float, which is 2 to the 63, so an amount of
  9223372036.854776 dollars, whose scaled value is exactly that, is accepted and converted
  outside the range of \<open>int64\<close>, on amd64 to the least amount.\<close>

theorem FromUSD_overflow_gap:
  "\<exists>v > 0. FromUSD (FFin v) = Inr MinInt64"
proof -
  define v :: rat where "v = 4835703278458517 / 524288"
  have e: "expo (v * 1000000000) = 63"
    by (rule expo_unique) (simp_all add: v_def pow2_def)
  have "floor (v * 1000000000 / 2048) = 4503599627370496"
    by (simp add: v_def floor_eq_iff)
  then have "round_even (v * 1000000000 / 2048) = 4503599627370496"
    by (simp add: round_even_def v_def)
  moreover have "(9223372036854775808 :: rat) < pow2 1024"
    using pow2_mono [of 64 1024] by (simp add: pow2_def)
  moreover have "pow2 11 = (2048 :: rat)" by (simp add: pow2_def)
  moreover have "0 < v * 1000000000" by (simp add: v_def)
  ultimately have "round64 (v * 1000000000) = FFin (2 ^ 63)"
    by (simp add: round64_def e not_le)
  moreover have "f64_of_int PerUSD = FFin 1000000000"
    using round64_int [of 1000000000] by (simp add: f64_of_int_def PerUSD_def)
  ultimately have "f64_mul (FFin v) (f64_of_int PerUSD) = FFin (2 ^ 63)"
    by (simp add: f64_mul_def)
  then have "from_float PerUSD (FFin v) = Inr MinInt64"
    by (rule from_float_overflow [OF _ refl]) (simp add: v_def)
  then show ?thesis by (intro exI [of _ v]) (simp add: FromUSD_def v_def)
qed

end
