(* ===== verification/Usage.thy ===== *)
theory Usage
  imports Prelude "HOL-Library.Product_Lexorder"
begin

text \<open>
  Token accounting (src/pricing/usage.go): the usage an upstream reports, in its own
  convention (\<open>ReportedUsage\<close>), and the canonical \<open>Usage\<close> every price is applied to.
  The seven token classes are a datatype in the canonical receipt order, which is its
  \<open>linorder\<close>; \<open>OtherClass\<close> is any other value of the Go string type. Token counts are
  \<open>int64\<close> values, and the sums wrap as they do in the code.
\<close>

datatype PromptAccounting = PromptInclusive | PromptExclusive | OtherAccounting string

definition ParsePromptAccounting :: "string \<Rightarrow> PromptAccounting" where
  "ParsePromptAccounting raw = (if raw = ''exclusive'' then PromptExclusive else PromptInclusive)"

definition PromptAccounting_string :: "PromptAccounting \<Rightarrow> string" where
  "PromptAccounting_string a =
     (case a of PromptInclusive \<Rightarrow> ''inclusive'' | PromptExclusive \<Rightarrow> ''exclusive''
      | OtherAccounting s \<Rightarrow> s)"

definition PromptAccounting_Valid :: "PromptAccounting \<Rightarrow> bool" where
  "PromptAccounting_Valid a \<longleftrightarrow> a = PromptInclusive \<or> a = PromptExclusive"

datatype TokenClass =
    ClassInputFresh | ClassOutput | ClassCacheRead | ClassCacheRead5m
  | ClassCacheWrite | ClassCacheWrite5m | ClassCacheWrite1h | OtherClass string

definition TokenClasses :: "TokenClass list" where
  "TokenClasses =
     [ClassInputFresh, ClassOutput, ClassCacheRead, ClassCacheRead5m,
      ClassCacheWrite, ClassCacheWrite5m, ClassCacheWrite1h]"

fun class_rank :: "TokenClass \<Rightarrow> nat \<times> string" where
  "class_rank ClassInputFresh = (0, [])"
| "class_rank ClassOutput = (1, [])"
| "class_rank ClassCacheRead = (2, [])"
| "class_rank ClassCacheRead5m = (3, [])"
| "class_rank ClassCacheWrite = (4, [])"
| "class_rank ClassCacheWrite5m = (5, [])"
| "class_rank ClassCacheWrite1h = (6, [])"
| "class_rank (OtherClass s) = (7, s)"

lemma class_rank_inject: "class_rank a = class_rank b \<Longrightarrow> a = b"
  by (cases a; cases b) simp_all

instantiation TokenClass :: linorder
begin

definition less_eq_TokenClass :: "TokenClass \<Rightarrow> TokenClass \<Rightarrow> bool" where
  "a \<le> b \<longleftrightarrow> class_rank a \<le> class_rank b"

definition less_TokenClass :: "TokenClass \<Rightarrow> TokenClass \<Rightarrow> bool" where
  "a < b \<longleftrightarrow> class_rank a < class_rank b"

instance
  by standard
    (auto simp: less_eq_TokenClass_def less_TokenClass_def dest: class_rank_inject)

end

datatype Anomaly = AnomalyNone | AnomalyPromptBelowCache | AnomalyNegativeTokens

record ReportedUsage =
  r_PromptTokens :: int
  r_OutputTokens :: int
  r_CacheReadTokens :: int
  r_CacheRead5mTokens :: int
  r_CacheWriteTokens :: int
  r_CacheWrite5mTokens :: int
  r_CacheWrite1hTokens :: int

definition cacheReadTotal :: "ReportedUsage \<Rightarrow> int" where
  "cacheReadTotal r = i64 (r_CacheReadTokens r + r_CacheRead5mTokens r)"

definition cacheWriteTotal :: "ReportedUsage \<Rightarrow> int" where
  "cacheWriteTotal r =
     i64 (i64 (r_CacheWriteTokens r + r_CacheWrite5mTokens r) + r_CacheWrite1hTokens r)"

definition hasNegative :: "ReportedUsage \<Rightarrow> bool" where
  "hasNegative r \<longleftrightarrow>
     r_PromptTokens r < 0 \<or> r_OutputTokens r < 0 \<or>
     r_CacheReadTokens r < 0 \<or> r_CacheRead5mTokens r < 0 \<or>
     r_CacheWriteTokens r < 0 \<or> r_CacheWrite5mTokens r < 0 \<or> r_CacheWrite1hTokens r < 0"

record Usage =
  PromptTotalTokens :: int
  FreshInputTokens :: int
  OutputTokens :: int
  CacheReadTokens :: int
  CacheRead5mTokens :: int
  CacheWriteTokens :: int
  CacheWrite5mTokens :: int
  CacheWrite1hTokens :: int

fun TokensFor :: "Usage \<Rightarrow> TokenClass \<Rightarrow> int" where
  "TokensFor u ClassInputFresh = FreshInputTokens u"
| "TokensFor u ClassOutput = OutputTokens u"
| "TokensFor u ClassCacheRead = CacheReadTokens u"
| "TokensFor u ClassCacheRead5m = CacheRead5mTokens u"
| "TokensFor u ClassCacheWrite = CacheWriteTokens u"
| "TokensFor u ClassCacheWrite5m = CacheWrite5mTokens u"
| "TokensFor u ClassCacheWrite1h = CacheWrite1hTokens u"
| "TokensFor u (OtherClass s) = 0"

definition usage_negative :: "Usage \<Rightarrow> bool" where
  "usage_negative u \<longleftrightarrow> list_ex (\<lambda>c. TokensFor u c < 0) TokenClasses \<or> PromptTotalTokens u < 0"

definition clamp :: "int \<Rightarrow> int" where
  "clamp value = (if value < 0 then 0 else value)"

definition clampReported :: "ReportedUsage \<Rightarrow> ReportedUsage" where
  "clampReported r =
     \<lparr> r_PromptTokens = clamp (r_PromptTokens r),
       r_OutputTokens = clamp (r_OutputTokens r),
       r_CacheReadTokens = clamp (r_CacheReadTokens r),
       r_CacheRead5mTokens = clamp (r_CacheRead5mTokens r),
       r_CacheWriteTokens = clamp (r_CacheWriteTokens r),
       r_CacheWrite5mTokens = clamp (r_CacheWrite5mTokens r),
       r_CacheWrite1hTokens = clamp (r_CacheWrite1hTokens r) \<rparr>"

definition NormalizeUsage :: "ReportedUsage \<Rightarrow> PromptAccounting \<Rightarrow> Usage \<times> Anomaly" where
  "NormalizeUsage reported mode =
     (let anomaly = (if hasNegative reported then AnomalyNegativeTokens else AnomalyNone);
          r = (if hasNegative reported then clampReported reported else reported);
          cached = i64 (cacheReadTotal r + cacheWriteTotal r);
          (promptTotal, fresh, anomaly) =
            (if mode = PromptExclusive
             then (i64 (r_PromptTokens r + cached), r_PromptTokens r, anomaly)
             else (let fresh = i64 (r_PromptTokens r - cached)
                   in if fresh < 0
                      then (cached, 0,
                            if anomaly = AnomalyNone then AnomalyPromptBelowCache else anomaly)
                      else (r_PromptTokens r, fresh, anomaly)))
      in (\<lparr> PromptTotalTokens = promptTotal, FreshInputTokens = fresh,
            OutputTokens = r_OutputTokens r,
            CacheReadTokens = r_CacheReadTokens r, CacheRead5mTokens = r_CacheRead5mTokens r,
            CacheWriteTokens = r_CacheWriteTokens r, CacheWrite5mTokens = r_CacheWrite5mTokens r,
            CacheWrite1hTokens = r_CacheWrite1hTokens r \<rparr>, anomaly))"

definition zero_usage :: Usage where
  "zero_usage = \<lparr> PromptTotalTokens = 0, FreshInputTokens = 0, OutputTokens = 0,
     CacheReadTokens = 0, CacheRead5mTokens = 0, CacheWriteTokens = 0,
     CacheWrite5mTokens = 0, CacheWrite1hTokens = 0 \<rparr>"

definition InputUsage :: "int \<Rightarrow> Usage" where
  "InputUsage promptTokens =
     zero_usage \<lparr> PromptTotalTokens := promptTokens, FreshInputTokens := promptTokens \<rparr>"

section \<open>Lemmas\<close>

text \<open>The tokens served from or written to a cache, as exact integers.\<close>

definition reported_cached :: "ReportedUsage \<Rightarrow> int" where
  "reported_cached r = r_CacheReadTokens r + r_CacheRead5mTokens r + r_CacheWriteTokens r
     + r_CacheWrite5mTokens r + r_CacheWrite1hTokens r"

definition cached_tokens :: "Usage \<Rightarrow> int" where
  "cached_tokens u = CacheReadTokens u + CacheRead5mTokens u + CacheWriteTokens u
     + CacheWrite5mTokens u + CacheWrite1hTokens u"

text \<open>A report whose clamped counts add up inside an \<open>int64\<close>.\<close>

definition report_in_range :: "ReportedUsage \<Rightarrow> bool" where
  "report_in_range r \<longleftrightarrow>
     clamp (r_PromptTokens r) + reported_cached (clampReported r) \<le> 9223372036854775807"

lemma clamp_nonneg [simp]: "0 \<le> clamp v" "0 \<le> v \<Longrightarrow> clamp v = v"
  by (simp_all add: clamp_def)

lemma hasNegative_clampReported [simp]: "\<not> hasNegative (clampReported r)"
  by (simp add: hasNegative_def clampReported_def clamp_def)

lemma clampReported_id: "\<not> hasNegative r \<Longrightarrow> clampReported r = r"
  by (cases r) (simp add: hasNegative_def clampReported_def clamp_def)

lemma clampReported_PromptTokens [simp]:
  "r_PromptTokens (clampReported r) = clamp (r_PromptTokens r)"
  by (simp add: clampReported_def)

lemma clamped_report: "(if hasNegative r then clampReported r else r) = clampReported r"
  by (simp add: clampReported_id)

lemma cached_exact:
  assumes "\<not> hasNegative r" "r_PromptTokens r + reported_cached r \<le> MaxInt64"
  shows "i64 (cacheReadTotal r + cacheWriteTotal r) = reported_cached r"
    and "i64 (r_PromptTokens r + reported_cached r) = r_PromptTokens r + reported_cached r"
    and "i64 (r_PromptTokens r - reported_cached r) = r_PromptTokens r - reported_cached r"
proof -
  note ranges = assms [unfolded hasNegative_def reported_cached_def MaxInt64_def]
  have "cacheReadTotal r = r_CacheReadTokens r + r_CacheRead5mTokens r"
    unfolding cacheReadTotal_def using ranges
    by (intro i64_id) (simp add: in64_def MinInt64_def MaxInt64_def)
  moreover have "i64 (r_CacheWriteTokens r + r_CacheWrite5mTokens r)
      = r_CacheWriteTokens r + r_CacheWrite5mTokens r"
    using ranges by (intro i64_id) (simp add: in64_def MinInt64_def MaxInt64_def)
  moreover from this have "cacheWriteTotal r =
      r_CacheWriteTokens r + r_CacheWrite5mTokens r + r_CacheWrite1hTokens r"
    unfolding cacheWriteTotal_def using ranges
    by (simp, intro i64_id) (simp add: in64_def MinInt64_def MaxInt64_def)
  ultimately have "cacheReadTotal r + cacheWriteTotal r = reported_cached r"
    by (simp add: reported_cached_def)
  moreover have "in64 (reported_cached r)"
    using ranges by (simp add: reported_cached_def in64_def MinInt64_def MaxInt64_def)
  ultimately show "i64 (cacheReadTotal r + cacheWriteTotal r) = reported_cached r"
    by (simp add: i64_id)
  show "i64 (r_PromptTokens r + reported_cached r) = r_PromptTokens r + reported_cached r"
    "i64 (r_PromptTokens r - reported_cached r) = r_PromptTokens r - reported_cached r"
    using ranges
    by (simp_all add: reported_cached_def in64_def MinInt64_def MaxInt64_def i64_id)
qed

text \<open>The normal form in closed form, where the counts add up inside an \<open>int64\<close>.\<close>

lemma NormalizeUsage_closed:
  assumes "report_in_range reported"
  defines "r \<equiv> clampReported reported"
  shows "NormalizeUsage reported mode =
    (let fresh = (if mode = PromptExclusive then r_PromptTokens r
                  else max 0 (r_PromptTokens r - reported_cached r))
     in (\<lparr> PromptTotalTokens = fresh + reported_cached r, FreshInputTokens = fresh,
           OutputTokens = r_OutputTokens r,
           CacheReadTokens = r_CacheReadTokens r, CacheRead5mTokens = r_CacheRead5mTokens r,
           CacheWriteTokens = r_CacheWriteTokens r, CacheWrite5mTokens = r_CacheWrite5mTokens r,
           CacheWrite1hTokens = r_CacheWrite1hTokens r \<rparr>,
         if hasNegative reported then AnomalyNegativeTokens
         else if mode \<noteq> PromptExclusive \<and> r_PromptTokens r < reported_cached r
         then AnomalyPromptBelowCache else AnomalyNone))"
proof -
  have r: "\<not> hasNegative r" "r_PromptTokens r + reported_cached r \<le> MaxInt64"
    using assms(1) by (simp_all add: r_def report_in_range_def MaxInt64_def)
  note ex = cached_exact [OF r]
  show ?thesis
    unfolding NormalizeUsage_def clamped_report
    unfolding r_def [symmetric] Let_def ex(1)
    by (simp add: ex)
qed

lemma TokensFor_nonneg_iff:
  "\<not> usage_negative u \<longleftrightarrow> (\<forall>c. 0 \<le> TokensFor u c) \<and> 0 \<le> PromptTotalTokens u"
proof -
  have "(\<forall>c. 0 \<le> TokensFor u c) \<longleftrightarrow> (\<forall>c \<in> set TokenClasses. 0 \<le> TokensFor u c)"
  proof
    assume all: "\<forall>c \<in> set TokenClasses. 0 \<le> TokensFor u c"
    show "\<forall>c. 0 \<le> TokensFor u c"
    proof
      fix c
      show "0 \<le> TokensFor u c" using all by (cases c) (auto simp: TokenClasses_def)
    qed
  qed simp
  then show ?thesis by (auto simp: usage_negative_def list_ex_iff not_less)
qed

lemma TokenClasses_sorted: "sorted_wrt (<) TokenClasses"
  by (simp add: TokenClasses_def less_TokenClass_def)

lemma TokenClasses_distinct: "distinct TokenClasses"
  by (simp add: TokenClasses_def)

section \<open>Properties\<close>

text \<open>C25: Normalising a report loses and invents no token. Where the counts add up inside an \<open>int64\<close>, the
  output and every cache class keep the count that was reported (zero for a negative one); the fresh
  input is the prompt count of an exclusive report and what the cached tokens leave of an inclusive one,
  if they leave any; and the prompt total is the fresh input plus every cached token. The mark says
  whether a count was negative or an inclusive prompt smaller than the cached tokens it should contain.\<close>

theorem NormalizeUsage_conserves:
  assumes "report_in_range reported" "NormalizeUsage reported mode = (u, anomaly)"
  shows "OutputTokens u = max 0 (r_OutputTokens reported) \<and>
    CacheReadTokens u = max 0 (r_CacheReadTokens reported) \<and> CacheRead5mTokens u = max 0 (r_CacheRead5mTokens reported) \<and>
    CacheWriteTokens u = max 0 (r_CacheWriteTokens reported) \<and>
    CacheWrite5mTokens u = max 0 (r_CacheWrite5mTokens reported) \<and>
    CacheWrite1hTokens u = max 0 (r_CacheWrite1hTokens reported) \<and>
    FreshInputTokens u =
      (if mode = PromptExclusive then max 0 (r_PromptTokens reported)
       else max 0 (max 0 (r_PromptTokens reported) - cached_tokens u)) \<and>
    PromptTotalTokens u = FreshInputTokens u + cached_tokens u \<and>
    anomaly =
      (if hasNegative reported then AnomalyNegativeTokens
       else if mode \<noteq> PromptExclusive \<and> r_PromptTokens reported < cached_tokens u then AnomalyPromptBelowCache
       else AnomalyNone)"
proof -
  define r where "r = clampReported reported"
  have r: "r_PromptTokens r = max 0 (r_PromptTokens reported)" "r_OutputTokens r = max 0 (r_OutputTokens reported)"
    "r_CacheReadTokens r = max 0 (r_CacheReadTokens reported)" "r_CacheRead5mTokens r = max 0 (r_CacheRead5mTokens reported)"
    "r_CacheWriteTokens r = max 0 (r_CacheWriteTokens reported)"
    "r_CacheWrite5mTokens r = max 0 (r_CacheWrite5mTokens reported)"
    "r_CacheWrite1hTokens r = max 0 (r_CacheWrite1hTokens reported)"
    by (simp_all add: r_def clampReported_def clamp_def max_def)
  define fresh where "fresh = (if mode = PromptExclusive then r_PromptTokens r
                  else max 0 (r_PromptTokens r - reported_cached r))"
  have u: "u = \<lparr> PromptTotalTokens = fresh + reported_cached r, FreshInputTokens = fresh,
           OutputTokens = r_OutputTokens r,
           CacheReadTokens = r_CacheReadTokens r, CacheRead5mTokens = r_CacheRead5mTokens r,
           CacheWriteTokens = r_CacheWriteTokens r, CacheWrite5mTokens = r_CacheWrite5mTokens r,
           CacheWrite1hTokens = r_CacheWrite1hTokens r \<rparr>"
    and a: "anomaly = (if hasNegative reported then AnomalyNegativeTokens
      else if mode \<noteq> PromptExclusive \<and> r_PromptTokens r < reported_cached r then AnomalyPromptBelowCache else AnomalyNone)"
    using assms(2) unfolding NormalizeUsage_closed [OF assms(1)]
    by (auto simp: Let_def fresh_def r_def)
  have c: "cached_tokens u = reported_cached r" by (simp add: u cached_tokens_def reported_cached_def)
  have p: "r_PromptTokens r = r_PromptTokens reported" if "\<not> hasNegative reported"
    using that r(1) by (simp add: hasNegative_def)
  show ?thesis unfolding c a using p by (simp add: u r fresh_def)
qed

theorem NormalizeUsage_conserves_witness:
  "case NormalizeUsage \<lparr> r_PromptTokens = 100, r_OutputTokens = 7, r_CacheReadTokens = 60, r_CacheRead5mTokens = 0,
       r_CacheWriteTokens = 10, r_CacheWrite5mTokens = 0, r_CacheWrite1hTokens = 0 \<rparr> PromptInclusive of
     (u, anomaly) \<Rightarrow> FreshInputTokens u = 30 \<and> OutputTokens u = 7 \<and> CacheReadTokens u = 60 \<and> anomaly = AnomalyNone"
proof -
  define report where "report = \<lparr> r_PromptTokens = 100, r_OutputTokens = 7, r_CacheReadTokens = 60, r_CacheRead5mTokens = 0,
      r_CacheWriteTokens = 10, r_CacheWrite5mTokens = 0, r_CacheWrite1hTokens = 0 \<rparr>"
  have range: "report_in_range report"
    by (simp add: report_def report_in_range_def reported_cached_def clampReported_def clamp_def)
  obtain u anomaly where n: "NormalizeUsage report PromptInclusive = (u, anomaly)" by fastforce
  from NormalizeUsage_conserves [OF range n] show ?thesis
    unfolding report_def [symmetric] n by (simp add: report_def cached_tokens_def hasNegative_def)
qed

text \<open>The anomaly mark is raised exactly when the report contradicts itself: a negative
  count, or an inclusive prompt count below the cached tokens it should contain. A marked
  inclusive report is still billed for all its cached tokens and for no fresh input.\<close>

theorem NormalizeUsage_anomaly:
  assumes "report_in_range reported" "NormalizeUsage reported mode = (u, anomaly)"
  shows "(anomaly = AnomalyNegativeTokens \<longleftrightarrow> hasNegative reported) \<and>
    (anomaly = AnomalyPromptBelowCache \<longleftrightarrow>
       \<not> hasNegative reported \<and> mode \<noteq> PromptExclusive \<and>
       r_PromptTokens reported < reported_cached reported) \<and>
    (anomaly = AnomalyPromptBelowCache \<longrightarrow>
       FreshInputTokens u = 0 \<and> PromptTotalTokens u = reported_cached reported)"
proof -
  define r where "r = clampReported reported"
  define fresh where "fresh = (if mode = PromptExclusive then r_PromptTokens r
                  else max 0 (r_PromptTokens r - reported_cached r))"
  have u: "FreshInputTokens u = fresh" "PromptTotalTokens u = fresh + reported_cached r"
    and a: "anomaly = (if hasNegative reported then AnomalyNegativeTokens
      else if mode \<noteq> PromptExclusive \<and> r_PromptTokens r < reported_cached r
      then AnomalyPromptBelowCache else AnomalyNone)"
    using assms(2) unfolding NormalizeUsage_closed [OF assms(1)]
    by (auto simp: Let_def fresh_def r_def)
  show ?thesis
  proof (cases "hasNegative reported")
    case True
    then show ?thesis by (simp add: a)
  next
    case False
    then have "r = reported" by (simp add: r_def clampReported_id)
    with False show ?thesis by (simp add: a u fresh_def)
  qed
qed

theorem NormalizeUsage_anomaly_witness:
  "FreshInputTokens \<lparr> PromptTotalTokens = 70, FreshInputTokens = 0, OutputTokens = 7, CacheReadTokens = 60,
      CacheRead5mTokens = 0, CacheWriteTokens = 10, CacheWrite5mTokens = 0, CacheWrite1hTokens = 0 \<rparr> = 0 \<and>
    PromptTotalTokens \<lparr> PromptTotalTokens = 70, FreshInputTokens = 0, OutputTokens = 7, CacheReadTokens = 60,
      CacheRead5mTokens = 0, CacheWriteTokens = 10, CacheWrite5mTokens = 0, CacheWrite1hTokens = 0 \<rparr> =
      reported_cached \<lparr> r_PromptTokens = 5, r_OutputTokens = 7, r_CacheReadTokens = 60, r_CacheRead5mTokens = 0,
      r_CacheWriteTokens = 10, r_CacheWrite5mTokens = 0, r_CacheWrite1hTokens = 0 \<rparr>"
proof -
  have "report_in_range \<lparr> r_PromptTokens = 5, r_OutputTokens = 7, r_CacheReadTokens = 60, r_CacheRead5mTokens = 0,
      r_CacheWriteTokens = 10, r_CacheWrite5mTokens = 0, r_CacheWrite1hTokens = 0 \<rparr>"
    by (simp add: report_in_range_def reported_cached_def clampReported_def clamp_def)
  moreover have "NormalizeUsage \<lparr> r_PromptTokens = 5, r_OutputTokens = 7, r_CacheReadTokens = 60, r_CacheRead5mTokens = 0,
      r_CacheWriteTokens = 10, r_CacheWrite5mTokens = 0, r_CacheWrite1hTokens = 0 \<rparr> PromptInclusive = (\<lparr> PromptTotalTokens = 70, FreshInputTokens = 0, OutputTokens = 7, CacheReadTokens = 60,
      CacheRead5mTokens = 0, CacheWriteTokens = 10, CacheWrite5mTokens = 0, CacheWrite1hTokens = 0 \<rparr>, AnomalyPromptBelowCache)"
    by (simp add: NormalizeUsage_def hasNegative_def cacheReadTotal_def cacheWriteTotal_def i64_def)
  ultimately show ?thesis
    by (rule NormalizeUsage_anomaly [THEN conjunct2, THEN conjunct2, THEN mp, OF _ _ refl])
qed

end
