(* ===== verification/Rates.thy ===== *)
theory Rates
  imports Money Usage
begin

text \<open>
  The per-class rates of a model (\<open>Rates\<close>, src/pricing/pricing.go) with the inheritance
  chain from a cache lifetime to the default cache rate to the input rate, the context
  tiers, and the overlay of rates configured per cache lifetime (src/pricing/ttlrate.go).
\<close>

record Rates =
  InputPerMillion :: nano_usd
  OutputPerMillion :: nano_usd
  CacheReadPerMillion :: nano_usd
  CacheWritePerMillion :: nano_usd
  CacheRead5mPerMillion :: nano_usd
  CacheWrite5mPerMillion :: nano_usd
  CacheWrite1hPerMillion :: nano_usd

fun firstNonZero :: "nano_usd list \<Rightarrow> nano_usd" where
  "firstNonZero [] = 0"
| "firstNonZero (v # vs) = (if v \<noteq> 0 then v else firstNonZero vs)"

definition effectiveCacheWrite :: "Rates \<Rightarrow> nano_usd" where
  "effectiveCacheWrite r = firstNonZero [CacheWritePerMillion r, InputPerMillion r]"

fun RateFor :: "Rates \<Rightarrow> TokenClass \<Rightarrow> nano_usd" where
  "RateFor r ClassInputFresh = InputPerMillion r"
| "RateFor r ClassOutput = OutputPerMillion r"
| "RateFor r ClassCacheRead = CacheReadPerMillion r"
| "RateFor r ClassCacheRead5m = firstNonZero [CacheRead5mPerMillion r, CacheReadPerMillion r]"
| "RateFor r ClassCacheWrite = effectiveCacheWrite r"
| "RateFor r ClassCacheWrite5m = firstNonZero [CacheWrite5mPerMillion r, effectiveCacheWrite r]"
| "RateFor r ClassCacheWrite1h = firstNonZero [CacheWrite1hPerMillion r, effectiveCacheWrite r]"
| "RateFor r (OtherClass s) = 0"

record Tier =
  MinInputTokensExclusive :: int
  t_Rates :: Rates

definition BaseTierThreshold :: int where
  "BaseTierThreshold = -1"

text \<open>\<open>validateRates\<close> accepts the rates exactly when it returns no error.\<close>

definition validateRates :: "Rates \<Rightarrow> bool" where
  "validateRates r \<longleftrightarrow>
     \<not> (InputPerMillion r < 0 \<or> OutputPerMillion r < 0 \<or>
        CacheReadPerMillion r < 0 \<or> CacheWritePerMillion r < 0 \<or>
        CacheRead5mPerMillion r < 0 \<or> CacheWrite5mPerMillion r < 0 \<or>
        CacheWrite1hPerMillion r < 0)"

section \<open>Rates per cache lifetime\<close>

record TTLRate =
  ttl_MinInputTokensExclusive :: "int option"
  TTL :: string
  ttl_CacheReadPerMillion :: "nano_usd option"
  ttl_CacheWritePerMillion :: "nano_usd option"

definition TTLDefault :: string where "TTLDefault = ''default''"
definition TTL5m :: string where "TTL5m = ''5m''"
definition TTL1h :: string where "TTL1h = ''1h''"

definition sameThreshold :: "int option \<Rightarrow> int option \<Rightarrow> bool" where
  "sameThreshold left right =
     (case (left, right) of
        (Some l, Some r) \<Rightarrow> l = r
      | _ \<Rightarrow> left = None \<and> right = None)"

definition overlay_one :: "int option \<Rightarrow> TTLRate \<Rightarrow> Rates \<Rightarrow> Rates" where
  "overlay_one threshold rate base =
     (if \<not> sameThreshold (ttl_MinInputTokensExclusive rate) threshold then base
      else if TTL rate = TTL5m then
        (let base = (case ttl_CacheReadPerMillion rate of
                       None \<Rightarrow> base | Some v \<Rightarrow> base \<lparr> CacheRead5mPerMillion := v \<rparr>)
         in (case ttl_CacheWritePerMillion rate of
               None \<Rightarrow> base | Some v \<Rightarrow> base \<lparr> CacheWrite5mPerMillion := v \<rparr>))
      else if TTL rate = TTL1h then
        (case ttl_CacheWritePerMillion rate of
           None \<Rightarrow> base | Some v \<Rightarrow> base \<lparr> CacheWrite1hPerMillion := v \<rparr>)
      else if TTL rate = TTLDefault then
        (let base = (case ttl_CacheReadPerMillion rate of
                       None \<Rightarrow> base | Some v \<Rightarrow> base \<lparr> CacheReadPerMillion := v \<rparr>)
         in (case ttl_CacheWritePerMillion rate of
               None \<Rightarrow> base | Some v \<Rightarrow> base \<lparr> CacheWritePerMillion := v \<rparr>))
      else base)"

fun OverlayTTLRates :: "Rates \<Rightarrow> TTLRate list \<Rightarrow> int option \<Rightarrow> Rates" where
  "OverlayTTLRates base [] threshold = base"
| "OverlayTTLRates base (rate # rates) threshold =
     OverlayTTLRates (overlay_one threshold rate base) rates threshold"

definition ValidTTL :: "string \<Rightarrow> bool" where
  "ValidTTL ttl \<longleftrightarrow> ttl = TTLDefault \<or> ttl = TTL5m \<or> ttl = TTL1h"

section \<open>Lemmas\<close>

lemmas ttl_names = TTLDefault_def TTL5m_def TTL1h_def

lemma firstNonZero_nonneg: "\<forall>v \<in> set vs. 0 \<le> v \<Longrightarrow> 0 \<le> firstNonZero vs"
  by (induction vs) auto

lemma RateFor_nonneg: "validateRates r \<Longrightarrow> 0 \<le> RateFor r c"
  by (cases c) (auto simp: validateRates_def effectiveCacheWrite_def)

text \<open>A cache write is billed at no less than something non-zero while input is priced.\<close>

lemma effectiveCacheWrite_free_iff:
  "effectiveCacheWrite r = 0 \<longleftrightarrow> CacheWritePerMillion r = 0 \<and> InputPerMillion r = 0"
  by (auto simp: effectiveCacheWrite_def)

lemma overlay_one_frame [simp]:
  "InputPerMillion (overlay_one t rate base) = InputPerMillion base"
  "OutputPerMillion (overlay_one t rate base) = OutputPerMillion base"
  by (auto simp: overlay_one_def Let_def split: option.splits)

lemma OverlayTTLRates_frame:
  "InputPerMillion (OverlayTTLRates base rates t) = InputPerMillion base"
  "OutputPerMillion (OverlayTTLRates base rates t) = OutputPerMillion base"
  by (induction rates arbitrary: base) simp_all

lemma OverlayTTLRates_append:
  "OverlayTTLRates base (xs @ ys) t = OverlayTTLRates (OverlayTTLRates base xs t) ys t"
  by (induction xs arbitrary: base) simp_all

lemma overlay_one_valid:
  assumes "validateRates base"
    and "\<forall>v \<in> set_option (ttl_CacheReadPerMillion rate). 0 \<le> v"
    and "\<forall>v \<in> set_option (ttl_CacheWritePerMillion rate). 0 \<le> v"
  shows "validateRates (overlay_one t rate base)"
  using assms by (auto simp: overlay_one_def validateRates_def Let_def split: option.splits)

lemma overlay_one_foreign:
  "ttl_MinInputTokensExclusive rate \<noteq> t \<Longrightarrow> overlay_one t rate base = base"
  by (auto simp: overlay_one_def sameThreshold_def split: option.splits)

lemma OverlayTTLRates_foreign:
  "\<forall>rate \<in> set rates. ttl_MinInputTokensExclusive rate \<noteq> t \<Longrightarrow> OverlayTTLRates base rates t = base"
  by (induction rates) (simp_all add: overlay_one_foreign)

section \<open>Properties\<close>

text \<open>The overlay writes a rate only where the configuration names it: rows of another
  tier change nothing, the input and output rates are never touched, and a model with no row
  for the tier keeps the rates it had.\<close>

theorem OverlayTTLRates_scope:
  "InputPerMillion (OverlayTTLRates base rates t) = InputPerMillion base \<and>
   OutputPerMillion (OverlayTTLRates base rates t) = OutputPerMillion base \<and>
   OverlayTTLRates base rates t =
     OverlayTTLRates base (filter (\<lambda>rate. ttl_MinInputTokensExclusive rate = t) rates) t"
proof -
  have "OverlayTTLRates base rates t =
     OverlayTTLRates base (filter (\<lambda>rate. ttl_MinInputTokensExclusive rate = t) rates) t"
    by (induction rates arbitrary: base) (simp_all add: overlay_one_foreign)
  then show ?thesis by (simp add: OverlayTTLRates_frame)
qed

text \<open>A cache lifetime configured as free is not free: a zero rate for a 5 minute or 1
  hour entry is read back as "inherit", so the class is billed at the default cache rate.\<close>

theorem zero_ttl_rate_inherits:
  assumes "TTL rate = TTL5m" "ttl_MinInputTokensExclusive rate = t"
    and "ttl_CacheReadPerMillion rate = Some 0" "ttl_CacheWritePerMillion rate = Some 0"
  shows "RateFor (OverlayTTLRates base [rate] t) ClassCacheRead5m = CacheReadPerMillion base \<and>
    RateFor (OverlayTTLRates base [rate] t) ClassCacheWrite5m = effectiveCacheWrite base"
  using assms
  by (auto simp: overlay_one_def sameThreshold_def ttl_names effectiveCacheWrite_def Let_def
      split: option.splits)

theorem zero_ttl_rate_inherits_witness:
  "RateFor (OverlayTTLRates
      \<lparr> InputPerMillion = 3, OutputPerMillion = 15, CacheReadPerMillion = 1,
        CacheWritePerMillion = 4, CacheRead5mPerMillion = 0, CacheWrite5mPerMillion = 0,
        CacheWrite1hPerMillion = 0 \<rparr>
      [\<lparr> ttl_MinInputTokensExclusive = None, TTL = ''5m'', ttl_CacheReadPerMillion = Some 0,
         ttl_CacheWritePerMillion = Some 0 \<rparr>] None) ClassCacheRead5m =
   CacheReadPerMillion
      \<lparr> InputPerMillion = 3, OutputPerMillion = 15, CacheReadPerMillion = 1,
        CacheWritePerMillion = 4, CacheRead5mPerMillion = 0, CacheWrite5mPerMillion = 0,
        CacheWrite1hPerMillion = 0 \<rparr>"
  by (rule zero_ttl_rate_inherits [THEN conjunct1]) (simp_all add: TTL5m_def)

end
