(* ===== verification/Window.thy ===== *)
theory Window
  imports Rates GoTime "HOL-Library.List_Lexorder"
begin

text \<open>
  Time-of-day price windows (src/pricing/window.go): validation, the minute and weekday
  match, the choice of the one window that governs an instant (\<open>WindowFor\<close>) and the scan for
  the next change (\<open>NextBoundaryAfter\<close>). The rule set record of src/pricing/pricing.go is
  declared here since those two are methods of it. The scan of at most eight days is a
  recursion with 11520 rounds of fuel, one a minute.
\<close>

unbundle bit_operations_syntax

record Window =
  w_ID :: string
  w_Label :: string
  StartMinuteUTC :: int
  EndMinuteUTC :: int
  WeekdayMask :: int
  w_MultiplierNum :: int
  w_MultiplierDen :: int
  AppliesTo :: "TokenClass list"
  Priority :: int
  EffectiveFrom :: "instant option"
  EffectiveUntil :: "instant option"

record RuleSet =
  rs_ID :: string
  BaseRates :: Rates
  Tiers :: "Tier list"
  Windows :: "Window list"
  rs_Accounting :: PromptAccounting

datatype window_error =
    WindowNoID | WindowStart | WindowEnd | WindowEqual | WindowMask | WindowDen | WindowNum
  | WindowClass TokenClass | WindowEffective

definition MinutesPerDay :: int where
  "MinutesPerDay = 1440"

definition allWeekdays :: int where
  "allWeekdays = 127"

definition validClass :: "TokenClass \<Rightarrow> bool" where
  "validClass class \<longleftrightarrow> class \<in> set TokenClasses"

text \<open>\<open>None\<close> is the nil error.\<close>

definition Window_Validate :: "Window \<Rightarrow> window_error option" where
  "Window_Validate w =
     (if w_ID w = [] then Some WindowNoID
      else if StartMinuteUTC w < 0 \<or> StartMinuteUTC w \<ge> MinutesPerDay then Some WindowStart
      else if EndMinuteUTC w < 0 \<or> EndMinuteUTC w > MinutesPerDay then Some WindowEnd
      else if StartMinuteUTC w = EndMinuteUTC w then Some WindowEqual
      else if WeekdayMask w < 1 \<or> WeekdayMask w > allWeekdays then Some WindowMask
      else if w_MultiplierDen w \<le> 0 then Some WindowDen
      else if w_MultiplierNum w < 0 then Some WindowNum
      else
        (case find (\<lambda>c. \<not> validClass c) (AppliesTo w) of
           Some c \<Rightarrow> Some (WindowClass c)
         | None \<Rightarrow>
             (case (EffectiveFrom w, EffectiveUntil w) of
                (Some from, Some until) \<Rightarrow> if \<not> until > from then Some WindowEffective else None
              | _ \<Rightarrow> None)))"

definition coversMinute :: "Window \<Rightarrow> int \<Rightarrow> bool" where
  "coversMinute w minute =
     (if StartMinuteUTC w < EndMinuteUTC w
      then minute \<ge> StartMinuteUTC w \<and> minute < EndMinuteUTC w
      else minute \<ge> StartMinuteUTC w \<or> minute < EndMinuteUTC w)"

definition weekdayBit :: "instant \<Rightarrow> int" where
  "weekdayBit t = push_bit (nat ((Weekday t + 6) mod 7)) 1"

definition Matches :: "Window \<Rightarrow> instant \<Rightarrow> bool" where
  "Matches w t =
     (if IsZero t then False
      else if (case EffectiveFrom w of None \<Rightarrow> False | Some from \<Rightarrow> t < from) then False
      else if (case EffectiveUntil w of None \<Rightarrow> False | Some until \<Rightarrow> \<not> t < until) then False
      else if WeekdayMask w AND weekdayBit t = 0 then False
      else coversMinute w (minute_of_day t))"

definition scaleFor :: "Window \<Rightarrow> TokenClass \<Rightarrow> int \<times> int" where
  "scaleFor w class =
     (if AppliesTo w = [] then (w_MultiplierNum w, w_MultiplierDen w)
      else if class \<in> set (AppliesTo w) then (w_MultiplierNum w, w_MultiplierDen w)
      else (1, 1))"

definition IsIdentity :: "Window \<Rightarrow> bool" where
  "IsIdentity w \<longleftrightarrow> w_MultiplierNum w = w_MultiplierDen w"

fun WindowFor_loop :: "Window list \<Rightarrow> instant \<Rightarrow> Window option \<Rightarrow> Window option" where
  "WindowFor_loop [] t selected = selected"
| "WindowFor_loop (candidate # ws) t selected =
     (if \<not> Matches candidate t then WindowFor_loop ws t selected
      else
        (case selected of
           None \<Rightarrow> WindowFor_loop ws t (Some candidate)
         | Some s \<Rightarrow>
             if Priority candidate > Priority s \<or>
                (Priority candidate = Priority s \<and> w_ID candidate < w_ID s)
             then WindowFor_loop ws t (Some candidate)
             else WindowFor_loop ws t (Some s)))"

definition WindowFor :: "RuleSet \<Rightarrow> instant \<Rightarrow> Window option" where
  "WindowFor r t = WindowFor_loop (Windows r) t None"

definition windowID :: "Window option \<Rightarrow> string" where
  "windowID w = (case w of None \<Rightarrow> [] | Some v \<Rightarrow> w_ID v)"

fun boundary_scan :: "nat \<Rightarrow> RuleSet \<Rightarrow> string \<Rightarrow> instant \<Rightarrow> instant \<Rightarrow> instant" where
  "boundary_scan 0 r current limit cursor = zero_time"
| "boundary_scan (Suc n) r current limit cursor =
     (if cursor < limit then
        (let cursor = cursor + nano_minute
         in if windowID (WindowFor r cursor) \<noteq> current then cursor
            else boundary_scan n r current limit cursor)
      else zero_time)"

definition NextBoundaryAfter :: "RuleSet \<Rightarrow> instant \<Rightarrow> instant" where
  "NextBoundaryAfter r t =
     (if Windows r = [] \<or> IsZero t then zero_time
      else
        (let current = windowID (WindowFor r t);
             cursor = truncate_minute t;
             limit = cursor + 8 * 24 * 60 * nano_minute
         in boundary_scan 11520 r current limit cursor))"

section \<open>Choice of the window\<close>

text \<open>\<open>v\<close> gives way to \<open>w\<close>: lower priority, or the same and no smaller identifier.\<close>

definition yields_to :: "Window \<Rightarrow> Window \<Rightarrow> bool" where
  "yields_to v w \<longleftrightarrow> Priority v < Priority w \<or> Priority v = Priority w \<and> w_ID w \<le> w_ID v"

lemma yields_to_refl [simp]: "yields_to w w"
  by (simp add: yields_to_def)

lemma yields_to_trans: "yields_to u v \<Longrightarrow> yields_to v w \<Longrightarrow> yields_to u w"
  by (auto simp: yields_to_def)

lemma WindowFor_loop_None:
  "WindowFor_loop ws t sel = None \<longleftrightarrow> sel = None \<and> (\<forall>w \<in> set ws. \<not> Matches w t)"
  by (induction ws arbitrary: sel) (auto split: option.splits)

lemma WindowFor_loop_Some:
  assumes "WindowFor_loop ws t sel = Some w"
  shows "(sel = Some w \<or> w \<in> set ws \<and> Matches w t) \<and>
    (\<forall>v \<in> set ws. Matches v t \<longrightarrow> yields_to v w) \<and> (\<forall>s. sel = Some s \<longrightarrow> yields_to s w)"
  using assms
proof (induction ws arbitrary: sel)
  case (Cons c ws)
  show ?case
  proof (cases "Matches c t")
    case False
    with Cons.prems have "WindowFor_loop ws t sel = Some w" by simp
    from Cons.IH [OF this] False show ?thesis by auto
  next
    case M: True
    show ?thesis
    proof (cases "\<exists>s. sel = Some s \<and> \<not> (Priority c > Priority s \<or>
        Priority c = Priority s \<and> w_ID c < w_ID s)")
      case True
      then obtain s where s: "sel = Some s" "\<not> (Priority c > Priority s \<or>
          Priority c = Priority s \<and> w_ID c < w_ID s)" by blast
      then have "yields_to c s" by (auto simp: yields_to_def not_less)
      with Cons.prems M True have "WindowFor_loop ws t sel = Some w" by auto
      from Cons.IH [OF this] s \<open>yields_to c s\<close> show ?thesis by (auto intro: yields_to_trans)
    next
      case False
      with Cons.prems M have "WindowFor_loop ws t (Some c) = Some w"
        by (auto split: option.splits if_splits)
      note IH = Cons.IH [OF this]
      have "yields_to s c" if "sel = Some s" for s
        using False that by (auto simp: yields_to_def)
      then show ?thesis using IH M by (auto intro: yields_to_trans)
    qed
  qed
qed simp

lemma WindowFor_None_iff: "WindowFor r t = None \<longleftrightarrow> (\<forall>w \<in> set (Windows r). \<not> Matches w t)"
  by (simp add: WindowFor_def WindowFor_loop_None)

lemma WindowFor_SomeD:
  assumes "WindowFor r t = Some w"
  shows "w \<in> set (Windows r)" "Matches w t" "\<forall>v \<in> set (Windows r). Matches v t \<longrightarrow> yields_to v w"
  using WindowFor_loop_Some [of "Windows r" t None w] assms by (auto simp: WindowFor_def)

text \<open>With distinct identifiers the choice depends on the set of windows alone.\<close>

lemma WindowFor_eq_iff:
  assumes "inj_on w_ID (set (Windows r))"
  shows "WindowFor r t = Some w \<longleftrightarrow>
    w \<in> set (Windows r) \<and> Matches w t \<and> (\<forall>v \<in> set (Windows r). Matches v t \<longrightarrow> yields_to v w)"
    (is "_ \<longleftrightarrow> ?best w")
proof
  show "WindowFor r t = Some w \<Longrightarrow> ?best w" using WindowFor_SomeD [of r t w] by blast
next
  assume best: "?best w"
  then obtain u where u: "WindowFor r t = Some u" using WindowFor_None_iff [of r t] by fastforce
  have "yields_to w u" "yields_to u w" "u \<in> set (Windows r)"
    using best WindowFor_SomeD [OF u] by blast+
  then have "w_ID u = w_ID w" by (auto simp: yields_to_def)
  with assms best \<open>u \<in> set (Windows r)\<close> have "u = w" by (auto simp: inj_on_def)
  with u show "WindowFor r t = Some w" by simp
qed

lemma WindowFor_cong:
  assumes "\<forall>w \<in> set (Windows r). Matches w t = Matches w u"
  shows "WindowFor r t = WindowFor r u"
proof -
  have "WindowFor_loop ws t sel = WindowFor_loop ws u sel"
    if "\<forall>w \<in> set ws. Matches w t = Matches w u" for ws sel
    using that by (induction ws arbitrary: sel) (auto split: option.splits)
  with assms show ?thesis by (simp add: WindowFor_def)
qed

section \<open>The next boundary\<close>

text \<open>The validity dates of the windows fall on whole minutes.\<close>

definition whole_minute_dates :: "RuleSet \<Rightarrow> bool" where
  "whole_minute_dates r \<longleftrightarrow>
     (\<forall>w \<in> set (Windows r). \<forall>d \<in> set_option (EffectiveFrom w) \<union> set_option (EffectiveUntil w).
        nano_minute dvd d)"

lemma nano_minute_pos [simp]: "0 < nano_minute"
  by (simp add: nano_minute_def)

lemma less_same_minute:
  assumes "nano_minute dvd d" "t div nano_minute = u div nano_minute"
  shows "t < d \<longleftrightarrow> u < d"
proof -
  obtain k where d: "d = nano_minute * k" using assms(1) ..
  have "x < d \<longleftrightarrow> x div nano_minute < k" for x
    unfolding d by (rule less_mult_iff_div_less) simp
  with assms(2) show ?thesis by simp
qed

lemma Matches_same_minute:
  assumes "t div nano_minute = u div nano_minute" "\<not> IsZero t" "\<not> IsZero u"
    and "\<forall>d \<in> set_option (EffectiveFrom w) \<union> set_option (EffectiveUntil w). nano_minute dvd d"
  shows "Matches w t = Matches w u"
proof -
  note less = less_same_minute [OF _ assms(1)]
  have "(case EffectiveFrom w of None \<Rightarrow> False | Some from \<Rightarrow> t < from) =
      (case EffectiveFrom w of None \<Rightarrow> False | Some from \<Rightarrow> u < from)"
    by (cases "EffectiveFrom w") (use assms(4) in \<open>simp_all add: less\<close>)
  moreover have "(case EffectiveUntil w of None \<Rightarrow> False | Some until \<Rightarrow> \<not> t < until) =
      (case EffectiveUntil w of None \<Rightarrow> False | Some until \<Rightarrow> \<not> u < until)"
    by (cases "EffectiveUntil w") (use assms(4) in \<open>simp_all add: less\<close>)
  ultimately have "(if (case EffectiveFrom w of None \<Rightarrow> False | Some from \<Rightarrow> t < from) then False
      else if (case EffectiveUntil w of None \<Rightarrow> False | Some until \<Rightarrow> \<not> t < until) then False else x) =
     (if (case EffectiveFrom w of None \<Rightarrow> False | Some from \<Rightarrow> u < from) then False
      else if (case EffectiveUntil w of None \<Rightarrow> False | Some until \<Rightarrow> \<not> u < until) then False else x)" for x
    by simp
  with assms(2,3) same_minute [OF assms(1)] show ?thesis
    by (simp add: Matches_def weekdayBit_def)
qed

lemma WindowFor_same_minute:
  assumes "whole_minute_dates r" "t div nano_minute = u div nano_minute" "\<not> IsZero t" "\<not> IsZero u"
  shows "WindowFor r t = WindowFor r u"
proof (intro WindowFor_cong ballI)
  fix w assume "w \<in> set (Windows r)"
  with assms(1) have "\<forall>d \<in> set_option (EffectiveFrom w) \<union> set_option (EffectiveUntil w). nano_minute dvd d"
    unfolding whole_minute_dates_def by (rule bspec)
  with assms(2-4) show "Matches w t = Matches w u" by (rule Matches_same_minute)
qed

lemma nonneg_not_zero: "0 \<le> t \<Longrightarrow> \<not> IsZero t" "0 \<le> t \<Longrightarrow> t \<noteq> zero_time"
  by (auto simp: IsZero_def zero_time_def)

lemma boundary_scan_found:
  assumes "boundary_scan n r current limit c = b" "b \<noteq> zero_time"
  shows "\<exists>k. b = c + (int k + 1) * nano_minute \<and> windowID (WindowFor r b) \<noteq> current \<and>
    (\<forall>j < k. windowID (WindowFor r (c + (int j + 1) * nano_minute)) = current)"
  using assms(1)
proof (induction n arbitrary: c)
  case 0
  with assms(2) show ?case by simp
next
  case (Suc n)
  then have lim: "c < limit" using assms(2) by (auto split: if_splits)
  show ?case
  proof (cases "windowID (WindowFor r (c + nano_minute)) \<noteq> current")
    case True
    with Suc.prems lim have "b = c + nano_minute" by simp
    with True show ?thesis by (intro exI [of _ 0]) simp
  next
    case False
    with Suc.prems lim have "boundary_scan n r current limit (c + nano_minute) = b" by simp
    from Suc.IH [OF this] obtain k where k: "b = c + nano_minute + (int k + 1) * nano_minute"
      "windowID (WindowFor r b) \<noteq> current"
      "\<forall>j < k. windowID (WindowFor r (c + nano_minute + (int j + 1) * nano_minute)) = current"
      by blast
    have "windowID (WindowFor r (c + (int j + 1) * nano_minute)) = current" if "j < Suc k" for j
    proof (cases j)
      case 0
      with False show ?thesis by simp
    next
      case (Suc i)
      with k(3) that have "windowID (WindowFor r (c + nano_minute + (int i + 1) * nano_minute)) = current"
        by simp
      with Suc show ?thesis by (simp add: algebra_simps)
    qed
    moreover have "b = c + (int (Suc k) + 1) * nano_minute"
      using k(1) by (simp add: algebra_simps)
    ultimately show ?thesis using k(2) by blast
  qed
qed

lemma boundary_scan_none:
  assumes "boundary_scan n r current limit c = zero_time" "0 \<le> c"
    and "limit = c + int n * nano_minute"
  shows "\<forall>j < n. windowID (WindowFor r (c + (int j + 1) * nano_minute)) = current"
  using assms
proof (induction n arbitrary: c)
  case (Suc n)
  have ne: "c + nano_minute \<noteq> zero_time"
    using Suc.prems(2) nonneg_not_zero(2) [of "c + nano_minute"] nano_minute_pos by linarith
  have lim: "c < limit" by (simp add: Suc.prems(3) add_pos_nonneg)
  have cur: "windowID (WindowFor r (c + nano_minute)) = current"
    using Suc.prems(1) lim ne by (auto simp: Let_def split: if_splits)
  with Suc.prems(1) lim have "boundary_scan n r current limit (c + nano_minute) = zero_time" by simp
  moreover have "limit = c + nano_minute + int n * nano_minute"
    by (simp add: Suc.prems(3) algebra_simps)
  ultimately have IH: "\<forall>j < n. windowID (WindowFor r (c + nano_minute + (int j + 1) * nano_minute)) = current"
    using Suc.IH Suc.prems(2) by (simp add: add_nonneg_nonneg less_imp_le)
  show ?case
  proof (intro allI impI)
    fix j assume "j < Suc n"
    show "windowID (WindowFor r (c + (int j + 1) * nano_minute)) = current"
    proof (cases j)
      case 0
      with cur show ?thesis by simp
    next
      case (Suc i)
      with IH \<open>j < Suc n\<close> have "windowID (WindowFor r (c + nano_minute + (int i + 1) * nano_minute)) = current"
        by simp
      with Suc show ?thesis by (simp add: algebra_simps)
    qed
  qed
qed simp

text \<open>Every instant lies in the minute of one of the scanned points.\<close>

lemma minute_point:
  assumes "truncate_minute t \<le> u"
  obtains j where "u div nano_minute = (truncate_minute t + int j * nano_minute) div nano_minute"
    "truncate_minute t + int j * nano_minute \<le> u"
    "u < truncate_minute t + (int j + 1) * nano_minute"
proof
  define q where "q = (u - truncate_minute t) div nano_minute"
  have q: "0 \<le> q" using assms by (simp add: q_def pos_imp_zdiv_nonneg_iff)
  have "u - truncate_minute t = nano_minute * q + (u - truncate_minute t) mod nano_minute"
    by (simp add: q_def)
  moreover have "0 \<le> (u - truncate_minute t) mod nano_minute"
    "(u - truncate_minute t) mod nano_minute < nano_minute" by simp_all
  ultimately have b: "truncate_minute t + q * nano_minute \<le> u"
    "u < truncate_minute t + q * nano_minute + nano_minute"
    unfolding mult.commute [of q nano_minute] by linarith+
  then show "truncate_minute t + int (nat q) * nano_minute \<le> u"
    "u < truncate_minute t + (int (nat q) + 1) * nano_minute"
    using q by (simp_all add: distrib_right)
  obtain m where m: "truncate_minute t = nano_minute * m" using truncate_minute_dvd ..
  have "u div nano_minute = m + q"
  proof -
    have "u < nano_minute * (m + q + 1)" "\<not> u < nano_minute * (m + q)"
      using b by (simp_all add: m algebra_simps)
    then show ?thesis by (simp add: less_mult_iff_div_less)
  qed
  moreover have "(truncate_minute t + int (nat q) * nano_minute) div nano_minute = m + q"
  proof -
    have "truncate_minute t + int (nat q) * nano_minute = (m + q) * nano_minute"
      using q by (simp add: m algebra_simps)
    then show ?thesis by (simp add: nano_minute_def)
  qed
  ultimately show "u div nano_minute = (truncate_minute t + int (nat q) * nano_minute) div nano_minute"
    by simp
qed

lemma truncate_minute_nonneg: "0 \<le> t \<Longrightarrow> 0 \<le> truncate_minute t"
proof -
  assume "0 \<le> t"
  then have "nano_minute * 0 \<le> nano_minute * (t div nano_minute)"
    by (intro mult_left_mono) (simp_all add: pos_imp_zdiv_nonneg_iff nano_minute_def)
  then show ?thesis by (simp add: truncate_minute_def minus_mod_eq_mult_div)
qed

lemma NextBoundaryAfter_found:
  assumes "0 \<le> t" "NextBoundaryAfter r t = b" "b \<noteq> zero_time"
  obtains k where "b = truncate_minute t + (int k + 1) * nano_minute"
    "windowID (WindowFor r b) \<noteq> windowID (WindowFor r t)"
    "\<forall>j < k. windowID (WindowFor r (truncate_minute t + (int j + 1) * nano_minute)) = windowID (WindowFor r t)"
proof -
  have "boundary_scan 11520 r (windowID (WindowFor r t))
      (truncate_minute t + 8 * 24 * 60 * nano_minute) (truncate_minute t) = b"
    using assms unfolding NextBoundaryAfter_def Let_def by (auto split: if_splits)
  from boundary_scan_found [OF this assms(3)] show ?thesis using that by blast
qed

lemma NextBoundaryAfter_none:
  assumes "0 \<le> t" "NextBoundaryAfter r t = zero_time" "Windows r \<noteq> []"
  shows "\<forall>j < 11520. windowID (WindowFor r (truncate_minute t + (int j + 1) * nano_minute)) =
    windowID (WindowFor r t)"
proof (rule boundary_scan_none)
  show "boundary_scan 11520 r (windowID (WindowFor r t))
      (truncate_minute t + 8 * 24 * 60 * nano_minute) (truncate_minute t) = zero_time"
    using assms nonneg_not_zero [OF assms(1)] unfolding NextBoundaryAfter_def Let_def
    by (auto split: if_splits)
  show "0 \<le> truncate_minute t" using truncate_minute_nonneg [OF assms(1)] .
qed simp

text \<open>Without validity dates the schedule repeats every week.\<close>

lemma Matches_week:
  assumes "EffectiveFrom w = None" "EffectiveUntil w = None" "0 \<le> t"
  shows "Matches w (t + int n * (10080 * nano_minute)) = Matches w t"
proof -
  have "(t + int n * (10080 * nano_minute)) div nano_minute = t div nano_minute + int n * 10080"
    using div_mult_self1 [of nano_minute t "int n * 10080"]
    unfolding mult.assoc [symmetric] by (simp add: nano_minute_def)
  then have m: "minute_of_day (t + int n * (10080 * nano_minute)) = minute_of_day t"
    using mod_mult_self1 [of "t div nano_minute" "int n * 7" 1440]
    by (simp add: minute_of_day_def mult.commute)
  have "int n * (10080 * nano_minute) = int n * 7 * nano_day"
    by (simp add: nano_day_def nano_minute_def)
  then have "(t + int n * (10080 * nano_minute)) div nano_day = (t + int n * 7 * nano_day) div nano_day"
    by (rule arg_cong)
  also have "\<dots> = t div nano_day + int n * 7" by (simp add: nano_day_def)
  finally have "(t + int n * (10080 * nano_minute)) div nano_day = t div nano_day + int n * 7" .
  then have "(t + int n * (10080 * nano_minute)) div nano_day + 4 = t div nano_day + 4 + int n * 7"
    by simp
  then have "Weekday (t + int n * (10080 * nano_minute)) = Weekday t"
    unfolding Weekday_def by (simp only: mod_mult_self1)
  moreover have "\<not> IsZero (t + int n * (10080 * nano_minute))" "\<not> IsZero t"
    using assms(3) by (auto intro!: nonneg_not_zero add_nonneg_nonneg simp: nano_minute_def)
  ultimately show ?thesis using assms m by (simp add: Matches_def weekdayBit_def)
qed

section \<open>A concrete rule set\<close>

definition example_rates :: Rates where
  "example_rates = \<lparr> InputPerMillion = 3000000000, OutputPerMillion = 15000000000,
     CacheReadPerMillion = 300000000, CacheWritePerMillion = 0, CacheRead5mPerMillion = 0,
     CacheWrite5mPerMillion = 0, CacheWrite1hPerMillion = 0 \<rparr>"

definition example_peak :: Window where
  "example_peak = \<lparr> w_ID = ''peak'', w_Label = ''Peak'', StartMinuteUTC = 960,
     EndMinuteUTC = 1320, WeekdayMask = 127, w_MultiplierNum = 2, w_MultiplierDen = 1,
     AppliesTo = [], Priority = 1, EffectiveFrom = None, EffectiveUntil = None \<rparr>"

definition example_night :: Window where
  "example_night = \<lparr> w_ID = ''night'', w_Label = ''Night'', StartMinuteUTC = 990,
     EndMinuteUTC = 30, WeekdayMask = 127, w_MultiplierNum = 1, w_MultiplierDen = 2,
     AppliesTo = [ClassOutput], Priority = 0, EffectiveFrom = None, EffectiveUntil = None \<rparr>"

definition example_rules :: RuleSet where
  "example_rules = \<lparr> rs_ID = ''m'', BaseRates = example_rates,
     Tiers = [\<lparr> MinInputTokensExclusive = 200000, t_Rates = example_rates \<rparr>],
     Windows = [example_peak, example_night], rs_Accounting = PromptInclusive \<rparr>"

lemma example_fields:
  "Windows example_rules = [example_peak, example_night]"
  "w_ID example_peak = ''peak''" "w_ID example_night = ''night''"
  "Priority example_peak = 1" "Priority example_night = 0"
  "EffectiveFrom example_peak = None" "EffectiveFrom example_night = None"
  "EffectiveUntil example_peak = None" "EffectiveUntil example_night = None"
  by (simp_all add: example_rules_def example_peak_def example_night_def)

text \<open>17:00 of the first day of the epoch, a Thursday.\<close>

lemmas match_defs = Matches_def IsZero_def zero_time_def weekdayBit_def Weekday_def nano_day_def
  coversMinute_def minute_of_day_def nano_minute_def

lemma example_matches:
  "Matches example_peak 61200000000000" "Matches example_night 61200000000000"
  by (simp_all add: match_defs example_peak_def example_night_def)

text \<open>22:00, the end of the peak window.\<close>

lemma example_boundary: "NextBoundaryAfter example_rules 79199000000000 = 79200000000000"
proof -
  have m: "Matches example_peak 79199000000000" "Matches example_night 79199000000000"
    "\<not> Matches example_peak 79200000000000" "Matches example_night 79200000000000"
    by (simp_all add: match_defs example_peak_def example_night_def)
  then have w: "windowID (WindowFor example_rules 79199000000000) = ''peak''"
    "windowID (WindowFor example_rules 79200000000000) = ''night''"
    by (simp_all add: WindowFor_def example_fields windowID_def)
  have "boundary_scan (Suc 11519) example_rules ''peak'' 770340000000000 79140000000000 = 79200000000000"
    unfolding boundary_scan.simps(2) by (simp add: w nano_minute_def)
  then show ?thesis
    by (simp add: NextBoundaryAfter_def w example_fields truncate_minute_def nano_minute_def
        IsZero_def zero_time_def)
qed

text \<open>A window without an end: every minute of every day.\<close>

definition example_always :: Window where
  "example_always = example_peak \<lparr> w_ID := ''always'', StartMinuteUTC := 0, EndMinuteUTC := 1440 \<rparr>"

lemma example_always_matches: "0 \<le> t \<Longrightarrow> Matches example_always t"
proof -
  assume t: "0 \<le> t"
  have "nat ((Weekday t + 6) mod 7) < 7" by (simp add: nat_less_iff)
  moreover have "k = 0 \<or> k = 1 \<or> k = 2 \<or> k = 3 \<or> k = 4 \<or> k = 5 \<or> k = 6" if "k < 7" for k :: nat
    using that by presburger
  moreover have "127 AND push_bit k 1 \<noteq> (0 :: int)"
    if "k = 0 \<or> k = 1 \<or> k = 2 \<or> k = 3 \<or> k = 4 \<or> k = 5 \<or> k = 6" for k :: nat
    using that by (elim disjE) simp_all
  ultimately have "127 AND weekdayBit t \<noteq> 0"
    unfolding weekdayBit_def by blast
  with t nonneg_not_zero(1) [OF t] minute_of_day_range [of t] show ?thesis
    by (simp add: Matches_def example_always_def example_peak_def coversMinute_def)
qed

lemma example_always_boundary:
  assumes "0 \<le> t"
  shows "NextBoundaryAfter (example_rules \<lparr> Windows := [example_always] \<rparr>) t = zero_time"
proof (rule ccontr)
  let ?r = "example_rules \<lparr> Windows := [example_always] \<rparr>"
  assume "NextBoundaryAfter ?r t \<noteq> zero_time"
  then obtain k where b: "NextBoundaryAfter ?r t = truncate_minute t + (int k + 1) * nano_minute"
    "windowID (WindowFor ?r (NextBoundaryAfter ?r t)) \<noteq> windowID (WindowFor ?r t)"
    using NextBoundaryAfter_found [OF assms refl, of ?r] by blast
  have "0 \<le> NextBoundaryAfter ?r t"
    unfolding b(1) using truncate_minute_nonneg [OF assms]
    by (auto intro!: add_nonneg_nonneg mult_nonneg_nonneg simp: nano_minute_def)
  then show False
    using b(2) example_always_matches [OF assms] example_always_matches
    by (simp add: WindowFor_def)
qed

section \<open>Properties\<close>

text \<open>C26: Exactly one window governs an instant: with distinct identifiers the chosen window
  is the matching one to which every other matching window gives way (lower priority, or the
  same priority and no smaller identifier), whatever the order of the windows, and none is
  chosen only when none matches.\<close>

theorem WindowFor_best:
  assumes "distinct (map w_ID (Windows r))"
  shows "(WindowFor r t = None \<longleftrightarrow> (\<forall>w \<in> set (Windows r). \<not> Matches w t)) \<and>
    (WindowFor r t = Some w \<longleftrightarrow> w \<in> set (Windows r) \<and> Matches w t \<and>
       (\<forall>v \<in> set (Windows r). Matches v t \<longrightarrow> Priority v < Priority w \<or>
          (Priority v = Priority w \<and> w_ID w \<le> w_ID v)))"
proof -
  have "inj_on w_ID (set (Windows r))" using assms by (simp add: distinct_map)
  from WindowFor_eq_iff [OF this] show ?thesis by (simp add: WindowFor_None_iff yields_to_def)
qed

theorem WindowFor_best_witness:
  "WindowFor example_rules 61200000000000 = Some example_peak"
proof -
  have "example_peak \<in> set (Windows example_rules) \<and> Matches example_peak 61200000000000 \<and>
    (\<forall>v \<in> set (Windows example_rules). Matches v 61200000000000 \<longrightarrow>
      Priority v < Priority example_peak \<or>
      (Priority v = Priority example_peak \<and> w_ID example_peak \<le> w_ID v))"
    by (simp add: example_matches example_fields)
  moreover have "distinct (map w_ID (Windows example_rules))"
    by (simp add: example_fields)
  ultimately show ?thesis
    using WindowFor_best [of example_rules 61200000000000 example_peak] by blast
qed

text \<open>C27: The boundary reported for an instant is the first minute at which the price may be another. It is
  a whole minute after the instant at which another window governs (or none does), and at every whole
  minute before it the window of the instant still does. When the validity dates of the windows are
  whole minutes as well, nothing changes in between at all: the boundary is the first change.\<close>

theorem NextBoundaryAfter_first_change:
  assumes "0 \<le> t" "NextBoundaryAfter r t = b" "b \<noteq> zero_time"
  shows "t < b \<and> nano_minute dvd b \<and> windowID (WindowFor r b) \<noteq> windowID (WindowFor r t) \<and>
    (\<forall>u. t \<le> u \<and> u < b \<and> (nano_minute dvd u \<or> whole_minute_dates r) \<longrightarrow>
       windowID (WindowFor r u) = windowID (WindowFor r t))"
proof -
  obtain k where b: "b = truncate_minute t + (int k + 1) * nano_minute"
    and ne: "windowID (WindowFor r b) \<noteq> windowID (WindowFor r t)"
    and same: "\<forall>j < k. windowID (WindowFor r (truncate_minute t + (int j + 1) * nano_minute)) =
      windowID (WindowFor r t)"
    by (rule NextBoundaryAfter_found [OF assms])
  have whole: "nano_minute dvd truncate_minute t" by (simp add: truncate_minute_dvd)
  have "nano_minute \<le> (int k + 1) * nano_minute" by simp
  then have "t < b" using truncate_minute_le(2) [of t] b by linarith
  moreover have "nano_minute dvd b" using whole by (simp add: b)
  moreover have "windowID (WindowFor r u) = windowID (WindowFor r t)"
    if u: "t \<le> u" "u < b" "nano_minute dvd u \<or> whole_minute_dates r" for u
  proof -
    obtain j where j: "u div nano_minute = (truncate_minute t + int j * nano_minute) div nano_minute"
      "truncate_minute t + int j * nano_minute \<le> u"
      using truncate_minute_le(1) [of t] u(1) by (auto intro: minute_point [of t u])
    have "int j * nano_minute < (int k + 1) * nano_minute" using j(2) u(2) b by linarith
    then have jk: "j < k + 1" by simp
    have nz: "\<not> IsZero u" "\<not> IsZero (truncate_minute t + int j * nano_minute)"
      using assms(1) u(1) truncate_minute_nonneg [OF assms(1)] nano_minute_pos
      by (auto intro!: nonneg_not_zero add_nonneg_nonneg mult_nonneg_nonneg simp: nano_minute_def)
    consider (minute) "nano_minute dvd u" | (dates) "whole_minute_dates r" using u(3) by blast
    then show ?thesis
    proof cases
      case minute
      then have point: "u = truncate_minute t + int j * nano_minute"
        using j(1) whole by (metis dvd_add dvd_div_mult_self dvd_triv_right)
      show ?thesis
      proof (cases j)
        case 0
        then show ?thesis using point u(1) truncate_minute_le(1) [of t] by (simp add: order_antisym)
      next
        case (Suc i)
        then show ?thesis using same jk by (simp add: point algebra_simps)
      qed
    next
      case dates
      note wu = WindowFor_same_minute [OF dates j(1) nz]
      show ?thesis
      proof (cases j)
        case 0
        then have "u div nano_minute = t div nano_minute" using j(1) by (simp add: truncate_minute_div)
        from WindowFor_same_minute [OF dates this nz(1)] show ?thesis
          using nonneg_not_zero(1) [OF assms(1)] by simp
      next
        case (Suc i)
        then show ?thesis using same jk wu by (simp add: algebra_simps)
      qed
    qed
  qed
  ultimately show ?thesis using ne by blast
qed

theorem NextBoundaryAfter_first_change_witness:
  "windowID (WindowFor example_rules 79200000000000) \<noteq> windowID (WindowFor example_rules 79199000000000)"
proof -
  have "(0::int) \<le> 79199000000000" "(79200000000000::int) \<noteq> zero_time"
    by (simp_all add: zero_time_def)
  then show ?thesis
    using NextBoundaryAfter_first_change [OF _ example_boundary] by blast
qed

text \<open>No boundary means no change ever: when the windows carry no validity dates and the
  scan of eight days finds nothing, the selection never changes again, since the schedule
  repeats every seven days.\<close>

theorem NextBoundaryAfter_none_forever:
  assumes "0 \<le> t" "t \<le> u" "NextBoundaryAfter r t = zero_time"
    and "\<forall>w \<in> set (Windows r). EffectiveFrom w = None \<and> EffectiveUntil w = None"
  shows "windowID (WindowFor r u) = windowID (WindowFor r t)"
proof (cases "Windows r = []")
  case True
  then show ?thesis by (simp add: WindowFor_def)
next
  case ne: False
  define week where "week = 10080 * nano_minute"
  have week: "0 < week" by (simp add: week_def)
  define n where "n = nat ((u - t) div week)"
  define v where "v = t + (u - t) mod week"
  have "0 \<le> (u - t) div week" using assms(2) week by (simp add: pos_imp_zdiv_nonneg_iff)
  then have "int n * week = (u - t) div week * week" by (simp add: n_def)
  then have u: "u = v + int n * week" by (simp add: v_def minus_mod_eq_div_mult [symmetric])
  have v: "t \<le> v" "v < t + week" using week by (simp_all add: v_def)
  have "WindowFor r u = WindowFor r v"
    unfolding u week_def using assms(1,4) v(1) by (intro WindowFor_cong ballI Matches_week) auto
  have dates: "whole_minute_dates r" using assms(4) by (auto simp: whole_minute_dates_def)
  obtain j where j: "v div nano_minute = (truncate_minute t + int j * nano_minute) div nano_minute"
    "truncate_minute t + int j * nano_minute \<le> v"
    using truncate_minute_le(1) [of t] v(1) by (auto intro: minute_point [of t v])
  have "int j * nano_minute < 10081 * nano_minute"
    using j(2) v(2) truncate_minute_le(2) [of t] unfolding week_def by linarith
  then have j2: "j < 10081" by simp
  have nz: "\<not> IsZero v" "\<not> IsZero (truncate_minute t + int j * nano_minute)"
    using assms(1) v(1) truncate_minute_nonneg [OF assms(1)] nano_minute_pos
    by (auto intro!: nonneg_not_zero add_nonneg_nonneg mult_nonneg_nonneg simp: nano_minute_def)
  have "windowID (WindowFor r v) = windowID (WindowFor r t)"
  proof (cases j)
    case 0
    then have "v div nano_minute = t div nano_minute" using j(1) by (simp add: truncate_minute_div)
    from WindowFor_same_minute [OF dates this nz(1)] show ?thesis
      using nonneg_not_zero(1) [OF assms(1)] by simp
  next
    case (Suc i)
    then have "windowID (WindowFor r (truncate_minute t + int j * nano_minute)) = windowID (WindowFor r t)"
      using NextBoundaryAfter_none [OF assms(1,3) ne] j2 by (simp add: algebra_simps)
    then show ?thesis using WindowFor_same_minute [OF dates j(1) nz] by simp
  qed
  with \<open>WindowFor r u = WindowFor r v\<close> show ?thesis by simp
qed

theorem NextBoundaryAfter_none_forever_witness:
  "windowID (WindowFor (example_rules \<lparr> Windows := [example_always] \<rparr>) 999999999999999) =
   windowID (WindowFor (example_rules \<lparr> Windows := [example_always] \<rparr>) 5)"
proof (rule NextBoundaryAfter_none_forever)
  show "NextBoundaryAfter (example_rules \<lparr> Windows := [example_always] \<rparr>) 5 = zero_time"
    by (rule example_always_boundary) simp
qed (simp_all add: example_always_def example_fields)

end
