(* ===== verification/Pricing.thy ===== *)
theory Pricing
  imports Window "HOL-Library.Multiset"
begin

text \<open>
  The pricing engine (src/pricing/pricing.go): validation and construction of a rule set, the
  context tier of a prompt, the quote of a usage at a pinned instant with its receipt
  (\<open>QuoteAt\<close>) and the binary search for the largest affordable output
  (\<open>MaxOutputTokensAt\<close>). The search is a \<open>partial_function\<close>, whose value \<open>None\<close> is a loop
  that never ends; the locale \<open>monotone_cost\<close> states what the search needs of a price and is
  interpreted on the quotes of a rule set.
\<close>

section \<open>Rule sets\<close>

datatype price_error =
    ErrMoney money_error | ErrNoRuleSetID | ErrAccounting PromptAccounting | ErrBaseRates
  | ErrTierNegative | ErrTierOrder | ErrTierRates | ErrWindow window_error | ErrDuplicateWindow

definition lift_money :: "money_error + 'a \<Rightarrow> price_error + 'a" where
  "lift_money m = (case m of Inl e \<Rightarrow> Inl (ErrMoney e) | Inr x \<Rightarrow> Inr x)"

record Spec =
  sp_ID :: string
  sp_Base :: Rates
  sp_Tiers :: "Tier list"
  sp_Windows :: "Window list"
  sp_Accounting :: PromptAccounting

fun validate_tiers :: "Tier list \<Rightarrow> int \<Rightarrow> price_error option" where
  "validate_tiers [] previous = None"
| "validate_tiers (tier # tiers) previous =
     (if MinInputTokensExclusive tier < 0 then Some ErrTierNegative
      else if MinInputTokensExclusive tier \<le> previous then Some ErrTierOrder
      else if \<not> validateRates (t_Rates tier) then Some ErrTierRates
      else validate_tiers tiers (MinInputTokensExclusive tier))"

fun validate_windows :: "Window list \<Rightarrow> string list \<Rightarrow> price_error option" where
  "validate_windows [] seen = None"
| "validate_windows (window # ws) seen =
     (case Window_Validate window of
        Some e \<Rightarrow> Some (ErrWindow e)
      | None \<Rightarrow> if w_ID window \<in> set seen then Some ErrDuplicateWindow
                else validate_windows ws (w_ID window # seen))"

definition RuleSet_Validate :: "RuleSet \<Rightarrow> price_error option" where
  "RuleSet_Validate r =
     (if rs_ID r = [] then Some ErrNoRuleSetID
      else if rs_Accounting r \<noteq> OtherAccounting [] \<and> \<not> PromptAccounting_Valid (rs_Accounting r)
      then Some (ErrAccounting (rs_Accounting r))
      else if \<not> validateRates (BaseRates r) then Some ErrBaseRates
      else
        (case validate_tiers (Tiers r) (-1) of
           Some e \<Rightarrow> Some e
         | None \<Rightarrow> validate_windows (Windows r) []))"

text \<open>\<open>sort.Slice\<close> is not stable; rows the order does not separate fail the validation.\<close>

definition sort_tiers :: "Tier list \<Rightarrow> Tier list" where
  "sort_tiers = sort_key MinInputTokensExclusive"

definition window_key :: "Window \<Rightarrow> int \<times> string" where
  "window_key w = (- Priority w, w_ID w)"

definition sort_windows :: "Window list \<Rightarrow> Window list" where
  "sort_windows = sort_key window_key"

definition New :: "Spec \<Rightarrow> price_error + RuleSet" where
  "New spec =
     (let tiers = sort_tiers (sp_Tiers spec);
          windows = sort_windows (sp_Windows spec);
          accounting = (if sp_Accounting spec = OtherAccounting [] then PromptInclusive
                        else sp_Accounting spec);
          rules = \<lparr> rs_ID = sp_ID spec, BaseRates = sp_Base spec, Tiers = tiers,
                    Windows = windows, rs_Accounting = accounting \<rparr>
      in case RuleSet_Validate rules of Some e \<Rightarrow> Inl e | None \<Rightarrow> Inr rules)"

definition NewRuleSet :: "string \<Rightarrow> Rates \<Rightarrow> Tier list \<Rightarrow> price_error + RuleSet" where
  "NewRuleSet ident base tiers =
     New \<lparr> sp_ID = ident, sp_Base = base, sp_Tiers = tiers, sp_Windows = [],
           sp_Accounting = OtherAccounting [] \<rparr>"

fun tier_loop :: "Tier list \<Rightarrow> int \<Rightarrow> Rates \<Rightarrow> int \<Rightarrow> Rates \<times> int" where
  "tier_loop [] promptTokens selected threshold = (selected, threshold)"
| "tier_loop (tier # tiers) promptTokens selected threshold =
     (if promptTokens \<le> MinInputTokensExclusive tier then (selected, threshold)
      else tier_loop tiers promptTokens (t_Rates tier) (MinInputTokensExclusive tier))"

definition RatesForPromptTotal :: "RuleSet \<Rightarrow> int \<Rightarrow> Rates \<times> int" where
  "RatesForPromptTotal r promptTokens = tier_loop (Tiers r) promptTokens (BaseRates r) BaseTierThreshold"

section \<open>Quotes\<close>

record PriceLine =
  pl_Class :: TokenClass
  pl_Tokens :: int
  pl_RatePerMillion :: nano_usd
  pl_Cost :: nano_usd

record Receipt =
  RuleSetID :: string
  PricedAt :: instant
  TierThreshold :: int
  WindowID :: string
  WindowLabel :: string
  MultiplierNum :: int
  MultiplierDen :: int
  Accounting :: PromptAccounting
  Lines :: "PriceLine list"
  Total :: nano_usd

record Quote =
  q_RuleSetID :: string
  q_Rates :: Rates
  q_Usage :: Usage
  q_Cost :: nano_usd
  q_Receipt :: Receipt

definition window_scale :: "Window option \<Rightarrow> TokenClass \<Rightarrow> int \<times> int" where
  "window_scale window class = (case window of None \<Rightarrow> (1, 1) | Some w \<Rightarrow> scaleFor w class)"

fun quote_loop ::
  "Rates \<Rightarrow> Window option \<Rightarrow> Usage \<Rightarrow> TokenClass list \<Rightarrow> nano_usd \<Rightarrow> PriceLine list
     \<Rightarrow> price_error + (nano_usd \<times> PriceLine list)" where
  "quote_loop rates window usage [] tot lines = Inr (tot, lines)"
| "quote_loop rates window usage (class # classes) tot lines =
     (let tokens = TokensFor usage class
      in if tokens = 0 then quote_loop rates window usage classes tot lines
         else
           (let rate = RateFor rates class;
                (num, den) = window_scale window class
            in ebind (lift_money (CostForTokensScaled tokens rate num den)) (\<lambda>cost.
               ebind (lift_money (Add tot cost)) (\<lambda>tot.
               quote_loop rates window usage classes tot
                 (lines @ [\<lparr> pl_Class = class, pl_Tokens = tokens, pl_RatePerMillion = rate,
                             pl_Cost = cost \<rparr>])))))"

definition QuoteAt :: "RuleSet \<Rightarrow> Usage \<Rightarrow> instant \<Rightarrow> price_error + Quote" where
  "QuoteAt r usage t =
     (case RuleSet_Validate r of
        Some e \<Rightarrow> Inl e
      | None \<Rightarrow>
          if usage_negative usage then Inl (ErrMoney ErrNegative)
          else
            (let (rates, threshold) = RatesForPromptTotal r (PromptTotalTokens usage);
                 window = WindowFor r t;
                 receipt = \<lparr> RuleSetID = rs_ID r, PricedAt = t, TierThreshold = threshold,
                             WindowID = [], WindowLabel = [], MultiplierNum = 1, MultiplierDen = 1,
                             Accounting = rs_Accounting r, Lines = [], Total = 0 \<rparr>;
                 receipt = (case window of
                              None \<Rightarrow> receipt
                            | Some w \<Rightarrow> receipt \<lparr> WindowID := w_ID w, WindowLabel := w_Label w,
                                          MultiplierNum := w_MultiplierNum w,
                                          MultiplierDen := w_MultiplierDen w \<rparr>)
             in ebind (quote_loop rates window usage TokenClasses 0 []) (\<lambda>(tot, lines).
                Inr \<lparr> q_RuleSetID = rs_ID r, q_Rates = rates, q_Usage = usage, q_Cost = tot,
                      q_Receipt = receipt \<lparr> Lines := lines, Total := tot \<rparr> \<rparr>)))"

definition QuoteNoWindow :: "RuleSet \<Rightarrow> Usage \<Rightarrow> price_error + Quote" where
  "QuoteNoWindow r usage = QuoteAt r usage zero_time"

section \<open>The largest affordable output\<close>

definition output_cost :: "RuleSet \<Rightarrow> Usage \<Rightarrow> instant \<Rightarrow> int \<Rightarrow> price_error + nano_usd" where
  "output_cost r input t n =
     (case QuoteAt r (input \<lparr> OutputTokens := n \<rparr>) t of Inl e \<Rightarrow> Inl e | Inr q \<Rightarrow> Inr (q_Cost q))"

text \<open>The loop \<open>for low < high\<close>; its sums are \<open>int64\<close> sums.\<close>

partial_function (option) search_loop ::
  "(int \<Rightarrow> 'e + int) \<Rightarrow> int \<Rightarrow> int \<Rightarrow> int \<Rightarrow> ('e + int) option" where
  "search_loop cost budget low high =
     (if low < high then
        (let mid = i64 (low + i64 (high - low + 1) sdiv 2)
         in case cost mid of
              Inl e \<Rightarrow> Some (Inl e)
            | Inr c \<Rightarrow> if c \<le> budget then search_loop cost budget mid high
                       else search_loop cost budget low (i64 (mid - 1)))
      else Some (Inr low))"

definition MaxOutputTokensAt ::
  "RuleSet \<Rightarrow> Usage \<Rightarrow> int \<Rightarrow> nano_usd \<Rightarrow> instant \<Rightarrow> (price_error + int) option" where
  "MaxOutputTokensAt r input requested budget t =
     (if requested < 0 \<or> budget < 0 then Some (Inl (ErrMoney ErrNegative))
      else
        (case output_cost r input t 0 of
           Inl e \<Rightarrow> Some (Inl e)
         | Inr base \<Rightarrow>
             if base > budget then Some (Inr 0)
             else search_loop (output_cost r input t) budget 0 requested))"

definition MaxOutputTokens :: "RuleSet \<Rightarrow> Usage \<Rightarrow> int \<Rightarrow> nano_usd \<Rightarrow> (price_error + int) option" where
  "MaxOutputTokens r input requested budget = MaxOutputTokensAt r input requested budget zero_time"

section \<open>The contract of the search\<close>

locale monotone_cost =
  fixes cost :: "int \<Rightarrow> 'e + int"
  assumes cost_mono: "cost n = Inr c \<Longrightarrow> 0 \<le> m \<Longrightarrow> m \<le> n \<Longrightarrow> \<exists>d. cost m = Inr d \<and> d \<le> c"
begin

text \<open>The price of \<open>n\<close> is known and inside the budget.\<close>

definition affordable :: "int \<Rightarrow> int \<Rightarrow> bool" where
  "affordable budget n \<longleftrightarrow> (\<exists>c. cost n = Inr c \<and> c \<le> budget)"

lemma affordable_down: "affordable budget n \<Longrightarrow> 0 \<le> m \<Longrightarrow> m \<le> n \<Longrightarrow> affordable budget m"
  unfolding affordable_def using cost_mono order_trans by metis

lemma not_affordable_up: "\<not> affordable budget m \<Longrightarrow> 0 \<le> m \<Longrightarrow> m \<le> n \<Longrightarrow> \<not> affordable budget n"
  using affordable_down by blast

lemma mid_range:
  assumes "0 \<le> low" "low < high" "high < MaxInt64"
  defines "mid \<equiv> i64 (low + i64 (high - low + 1) sdiv 2)"
  shows "low < mid" "mid \<le> high" "i64 (mid - 1) = mid - 1"
proof -
  have "i64 (high - low + 1) = high - low + 1"
    using assms(1-3) by (intro i64_id) (simp add: in64_def MaxInt64_def MinInt64_def)
  moreover have "(high - low + 1) sdiv 2 = (high - low + 1) div 2"
    using assms(2) by (simp add: signed_divide_int_def sgn_if)
  moreover have b: "low < low + (high - low + 1) div 2" "low + (high - low + 1) div 2 \<le> high"
    using assms(2) by auto
  moreover have "in64 (low + (high - low + 1) div 2)"
    using b assms(1,3) by (simp add: in64_def MaxInt64_def MinInt64_def)
  ultimately have mid: "mid = low + (high - low + 1) div 2" by (simp add: mid_def i64_id)
  with b show "low < mid" "mid \<le> high" by simp_all
  then show "i64 (mid - 1) = mid - 1"
    using assms(1,3) by (intro i64_id) (simp add: in64_def MaxInt64_def MinInt64_def)
qed

text \<open>The search returns, with the largest price in the budget or the error of a price.\<close>

lemma search_loop_optimal:
  assumes "0 \<le> low" "low \<le> high" "high < MaxInt64" "affordable budget low"
  shows "(\<exists>n. search_loop cost budget low high = Some (Inr n) \<and> low \<le> n \<and> n \<le> high \<and>
      affordable budget n \<and> (\<forall>m. n < m \<and> m \<le> high \<longrightarrow> \<not> affordable budget m)) \<or>
    (\<exists>e m. search_loop cost budget low high = Some (Inl e) \<and> low < m \<and> m \<le> high \<and> cost m = Inl e)"
  using assms
proof (induction "nat (high - low)" arbitrary: low high rule: less_induct)
  case less
  show ?case
  proof (cases "low < high")
    case False
    then have "search_loop cost budget low high = Some (Inr low)"
      by (simp add: search_loop.simps)
    with False less.prems show ?thesis by auto
  next
    case True
    define mid where "mid = i64 (low + i64 (high - low + 1) sdiv 2)"
    note mid = mid_range [OF less.prems(1) True less.prems(3), folded mid_def]
    have step: "search_loop cost budget low high =
        (case cost mid of Inl e \<Rightarrow> Some (Inl e)
         | Inr c \<Rightarrow> if c \<le> budget then search_loop cost budget mid high
                   else search_loop cost budget low (mid - 1))"
      using True by (subst search_loop.simps) (simp only: if_True Let_def mid_def [symmetric] mid(3))
    show ?thesis
    proof (cases "cost mid")
      case (Inl e)
      with step mid show ?thesis by auto
    next
      case (Inr c)
      show ?thesis
      proof (cases "c \<le> budget")
        case True
        with Inr have w: "affordable budget mid" by (simp add: affordable_def)
        have eq: "search_loop cost budget low high = search_loop cost budget mid high"
          using step Inr True by simp
        have "nat (high - mid) < nat (high - low)" "0 \<le> mid" using mid less.prems(1) by simp_all
        from less.hyps [OF this mid(2) less.prems(3) w] show ?thesis
          unfolding eq using mid(1) by (meson less_imp_le less_trans order_trans)
      next
        case False
        with Inr have w: "\<not> affordable budget mid" by (simp add: affordable_def)
        have eq: "search_loop cost budget low high = search_loop cost budget low (mid - 1)"
          using step Inr False by simp
        have up: "\<not> affordable budget m" if "mid - 1 < m" for m
          using not_affordable_up [OF w, of m] that mid less.prems(1) by simp
        have "nat (mid - 1 - low) < nat (high - low)" "low \<le> mid - 1" "mid - 1 < MaxInt64"
          using mid less.prems(3) by simp_all
        note IH = less.hyps [OF this(1) less.prems(1) this(2,3) less.prems(4)]
        have "m \<le> high" if "m \<le> mid - 1" for m using that mid(2) by simp
        with IH up show ?thesis unfolding eq by (meson not_le)
      qed
    qed
  qed
qed

end

section \<open>Lemmas on rule sets\<close>

lemma validate_tiers_None:
  "validate_tiers ts p = None \<longleftrightarrow>
     sorted_wrt (<) (map MinInputTokensExclusive ts) \<and>
     (\<forall>t \<in> set ts. 0 \<le> MinInputTokensExclusive t \<and> p < MinInputTokensExclusive t \<and>
        validateRates (t_Rates t))"
  by (induction ts arbitrary: p) (auto dest: less_trans)

lemma validate_windows_None:
  "validate_windows ws seen = None \<longleftrightarrow>
     distinct (map w_ID ws) \<and> (\<forall>w \<in> set ws. Window_Validate w = None \<and> w_ID w \<notin> set seen)"
  by (induction ws arbitrary: seen) (auto simp: image_def split: option.splits)

text \<open>What a rule set that validates satisfies.\<close>

lemma RuleSet_ValidateD:
  assumes "RuleSet_Validate r = None"
  shows "rs_ID r \<noteq> []" "validateRates (BaseRates r)"
    and "sorted_wrt (<) (map MinInputTokensExclusive (Tiers r))"
    and "\<forall>t \<in> set (Tiers r). 0 \<le> MinInputTokensExclusive t \<and> validateRates (t_Rates t)"
    and "distinct (map w_ID (Windows r))" "\<forall>w \<in> set (Windows r). Window_Validate w = None"
  using assms
  by (auto simp: RuleSet_Validate_def validate_tiers_None validate_windows_None
      split: if_splits option.splits)

lemma Window_ValidateD:
  assumes "Window_Validate w = None"
  shows "0 < w_MultiplierDen w" "0 \<le> w_MultiplierNum w"
  using assms by (auto simp: Window_Validate_def split: if_splits)

lemma scale_valid:
  assumes "RuleSet_Validate r = None"
  shows "0 \<le> fst (window_scale (WindowFor r t) c) \<and> 0 < snd (window_scale (WindowFor r t) c)"
proof (cases "WindowFor r t")
  case (Some w)
  then have "Window_Validate w = None"
    using RuleSet_ValidateD(6) [OF assms] WindowFor_SomeD(1) [OF Some] by blast
  from Window_ValidateD [OF this] Some show ?thesis by (simp add: window_scale_def scaleFor_def)
qed (simp add: window_scale_def)

lemma tier_loop_spec:
  assumes "sorted_wrt (<) (map MinInputTokensExclusive ts)"
  shows "tier_loop ts p sel th =
    (let below = filter (\<lambda>t. MinInputTokensExclusive t < p) ts
     in if below = [] then (sel, th)
        else (t_Rates (last below), MinInputTokensExclusive (last below)))"
  using assms
proof (induction ts arbitrary: sel th)
  case (Cons t ts)
  show ?case
  proof (cases "p \<le> MinInputTokensExclusive t")
    case True
    then have "filter (\<lambda>t. MinInputTokensExclusive t < p) (t # ts) = []"
      using Cons.prems by (auto simp: filter_empty_conv)
    with True show ?thesis by (simp add: Let_def)
  next
    case False
    with Cons show ?thesis by (simp add: Let_def)
  qed
qed simp

lemma RatesForPromptTotal_cases:
  assumes "RuleSet_Validate r = None"
  obtains "RatesForPromptTotal r p = (BaseRates r, BaseTierThreshold)"
    "\<forall>t \<in> set (Tiers r). p \<le> MinInputTokensExclusive t"
  | t where "t \<in> set (Tiers r)" "MinInputTokensExclusive t < p"
    "RatesForPromptTotal r p = (t_Rates t, MinInputTokensExclusive t)"
    "\<forall>u \<in> set (Tiers r). MinInputTokensExclusive u < p \<longrightarrow> MinInputTokensExclusive u \<le> MinInputTokensExclusive t"
proof -
  define below where "below = filter (\<lambda>t. MinInputTokensExclusive t < p) (Tiers r)"
  note sorted = RuleSet_ValidateD(3) [OF assms]
  have eq: "RatesForPromptTotal r p = (if below = [] then (BaseRates r, BaseTierThreshold)
        else (t_Rates (last below), MinInputTokensExclusive (last below)))"
    using tier_loop_spec [OF sorted] by (simp add: RatesForPromptTotal_def below_def Let_def)
  show thesis
  proof (cases below rule: rev_cases)
    case Nil
    then have "\<forall>t \<in> set (Tiers r). p \<le> MinInputTokensExclusive t"
      by (auto simp: below_def filter_empty_conv not_less)
    with eq Nil that(1) show thesis by simp
  next
    case (snoc bs t)
    have t: "t \<in> set below" by (simp add: snoc)
    have "sorted_wrt (<) (map MinInputTokensExclusive below)"
      unfolding below_def using sorted by (simp add: sorted_wrt_map sorted_wrt_filter)
    then have "\<forall>u \<in> set below. MinInputTokensExclusive u \<le> MinInputTokensExclusive t"
      by (auto simp: snoc sorted_wrt_append)
    then have "\<forall>u \<in> set (Tiers r). MinInputTokensExclusive u < p \<longrightarrow>
        MinInputTokensExclusive u \<le> MinInputTokensExclusive t"
      by (auto simp: below_def)
    moreover from t have "t \<in> set (Tiers r)" "MinInputTokensExclusive t < p"
      by (auto simp: below_def)
    moreover have "RatesForPromptTotal r p = (t_Rates t, MinInputTokensExclusive t)"
      using eq by (simp add: snoc)
    ultimately show thesis using that(2) by blast
  qed
qed

lemma selected_rates_valid:
  assumes "RuleSet_Validate r = None"
  shows "validateRates (fst (RatesForPromptTotal r p))"
  using RatesForPromptTotal_cases [OF assms, of p] RuleSet_ValidateD(2,4) [OF assms]
  by (metis fst_conv)

section \<open>Lemmas on quotes\<close>

lemma lift_money_Inr [simp]: "lift_money m = Inr x \<longleftrightarrow> m = Inr x"
  by (cases m) (simp_all add: lift_money_def)

text \<open>A receipt line that prices its own tokens at its own rate.\<close>

definition line_exact :: "Rates \<Rightarrow> Window option \<Rightarrow> Usage \<Rightarrow> PriceLine \<Rightarrow> bool" where
  "line_exact rates window usage l \<longleftrightarrow>
     pl_Tokens l = TokensFor usage (pl_Class l) \<and>
     pl_RatePerMillion l = RateFor rates (pl_Class l) \<and>
     CostForTokensScaled (pl_Tokens l) (pl_RatePerMillion l)
       (fst (window_scale window (pl_Class l))) (snd (window_scale window (pl_Class l))) =
     Inr (pl_Cost l)"

lemma quote_loop_Cons_Inr:
  "quote_loop rates window usage (c # cs) tot lines = Inr res \<longleftrightarrow>
     (if TokensFor usage c = 0 then quote_loop rates window usage cs tot lines = Inr res
      else \<exists>cost tot'. CostForTokensScaled (TokensFor usage c) (RateFor rates c)
             (fst (window_scale window c)) (snd (window_scale window c)) = Inr cost \<and>
           Add tot cost = Inr tot' \<and>
           quote_loop rates window usage cs tot'
             (lines @ [\<lparr> pl_Class = c, pl_Tokens = TokensFor usage c,
                         pl_RatePerMillion = RateFor rates c, pl_Cost = cost \<rparr>]) = Inr res)"
  by (auto simp: Let_def ebind_eq_Inr split: prod.splits)

lemma quote_loop_Inr:
  assumes "quote_loop rates window usage cs tot lines = Inr (tot', lines')" "0 \<le> tot" "in64 tot"
  shows "\<exists>new. lines' = lines @ new \<and> tot' = tot + sum_list (map pl_Cost new) \<and> in64 tot' \<and>
    map pl_Class new = filter (\<lambda>c. TokensFor usage c \<noteq> 0) cs \<and>
    (\<forall>l \<in> set new. line_exact rates window usage l)"
  using assms
proof (induction cs arbitrary: tot lines)
  case (Cons c cs)
  show ?case
  proof (cases "TokensFor usage c = 0")
    case True
    then have "quote_loop rates window usage cs tot lines = Inr (tot', lines')"
      using Cons.prems(1) by simp
    from Cons.IH [OF this Cons.prems(2,3)] True show ?thesis by simp
  next
    case False
    define line where "line cost = \<lparr> pl_Class = c, pl_Tokens = TokensFor usage c,
        pl_RatePerMillion = RateFor rates c, pl_Cost = cost \<rparr>" for cost
    obtain cost tot1 where
      cost: "CostForTokensScaled (TokensFor usage c) (RateFor rates c)
             (fst (window_scale window c)) (snd (window_scale window c)) = Inr cost"
      and add: "Add tot cost = Inr tot1"
      and rest: "quote_loop rates window usage cs tot1 (lines @ [line cost]) = Inr (tot', lines')"
      using Cons.prems(1) False unfolding quote_loop_Cons_Inr line_def by auto
    note add_facts = Add_nonneg_InrD [OF add Cons.prems(3)]
    have tot1: "tot1 = tot + cost" "0 \<le> tot1" "in64 tot1"
      using add_facts Cons.prems(2) CostForTokensScaled_nonneg [OF cost] by simp_all
    from Cons.IH [OF rest tot1(2,3)] obtain new where new: "lines' = (lines @ [line cost]) @ new"
      "tot' = tot1 + sum_list (map pl_Cost new)" "in64 tot'"
      "map pl_Class new = filter (\<lambda>c. TokensFor usage c \<noteq> 0) cs"
      "\<forall>l \<in> set new. line_exact rates window usage l" by blast
    have "line_exact rates window usage (line cost)"
      using cost by (simp add: line_exact_def line_def)
    with new tot1 False show ?thesis
      by (intro exI [of _ "line cost # new"]) (simp add: line_def)
  qed
qed simp

text \<open>Fewer tokens in every class never cost more, and never fail where more succeed.\<close>

lemma quote_loop_mono:
  assumes "quote_loop rates window u cs tot lines = Inr (T, L)"
    and "\<forall>c. 0 \<le> TokensFor u' c \<and> TokensFor u' c \<le> TokensFor u c"
    and "0 \<le> tot'" "tot' \<le> tot" "in64 tot"
  shows "\<exists>T' L'. quote_loop rates window u' cs tot' lines' = Inr (T', L') \<and> T' \<le> T"
  using assms(1,3-5)
proof (induction cs arbitrary: tot tot' lines lines')
  case (Cons c cs)
  have le: "0 \<le> TokensFor u' c" "TokensFor u' c \<le> TokensFor u c" using assms(2) by auto
  have tot'64: "in64 tot'" using Cons.prems by (auto simp: in64_def MinInt64_def)
  show ?case
  proof (cases "TokensFor u c = 0")
    case True
    with le have "TokensFor u' c = 0" by simp
    with True Cons show ?thesis by simp
  next
    case False
    obtain cost tot1 lines1 where
      cost: "CostForTokensScaled (TokensFor u c) (RateFor rates c)
             (fst (window_scale window c)) (snd (window_scale window c)) = Inr cost"
      and add: "Add tot cost = Inr tot1"
      and rest: "quote_loop rates window u cs tot1 lines1 = Inr (T, L)"
      using Cons.prems(1) False unfolding quote_loop_Cons_Inr by auto
    have pos: "0 \<le> tot" using Cons.prems by simp
    note c64 = CostForTokensScaled_nonneg [OF cost]
    have tot1: "tot1 = tot + cost" "0 \<le> tot1" "in64 tot1"
      using Add_nonneg_InrD [OF add Cons.prems(4)] c64 pos by simp_all
    show ?thesis
    proof (cases "TokensFor u' c = 0")
      case True
      have "tot' \<le> tot1" using Cons.prems(3) tot1(1) c64 by simp
      from Cons.IH [OF rest Cons.prems(2) this tot1(3), of lines'] True show ?thesis by simp
    next
      case nz: False
      obtain cost' where cost': "CostForTokensScaled (TokensFor u' c) (RateFor rates c)
             (fst (window_scale window c)) (snd (window_scale window c)) = Inr cost'" "cost' \<le> cost"
        using CostForTokensScaled_mono [OF cost le] by blast
      note c'64 = CostForTokensScaled_nonneg [OF cost'(1)]
      have "in64 (tot' + cost')"
        using Cons.prems(2,3) cost'(2) c'64 tot1 by (auto simp: in64_def MinInt64_def)
      then have add': "Add tot' cost' = Inr (tot' + cost')"
        using tot'64 c'64 by (simp add: Add_exact)
      have "0 \<le> tot' + cost'" "tot' + cost' \<le> tot1"
        using Cons.prems(2,3) c'64 cost'(2) tot1(1) by simp_all
      from Cons.IH [OF rest this tot1(3)] show ?thesis
        using nz cost'(1) add' unfolding quote_loop_Cons_Inr by auto
    qed
  qed
qed simp

lemma QuoteAt_InrE:
  assumes "QuoteAt r u t = Inr q"
  obtains "RuleSet_Validate r = None" "\<not> usage_negative u" "q_Usage q = u"
    "q_Rates q = fst (RatesForPromptTotal r (PromptTotalTokens u))"
    "TierThreshold (q_Receipt q) = snd (RatesForPromptTotal r (PromptTotalTokens u))"
    "Total (q_Receipt q) = q_Cost q"
    "quote_loop (q_Rates q) (WindowFor r t) u TokenClasses 0 [] =
       Inr (q_Cost q, Lines (q_Receipt q))"
  using assms by (auto simp: QuoteAt_def Let_def ebind_eq_Inr split: option.splits if_splits prod.splits)

lemma QuoteAt_InrI:
  assumes "RuleSet_Validate r = None" "\<not> usage_negative u"
    and "quote_loop (fst (RatesForPromptTotal r (PromptTotalTokens u))) (WindowFor r t) u
      TokenClasses 0 [] = Inr (T, L)"
  obtains q where "QuoteAt r u t = Inr q" "q_Cost q = T" "Lines (q_Receipt q) = L"
proof -
  obtain rates th where R: "RatesForPromptTotal r (PromptTotalTokens u) = (rates, th)" by fastforce
  from assms that show thesis unfolding QuoteAt_def by (simp add: R Let_def)
qed

lemma TokensFor_output:
  "TokensFor (u \<lparr> OutputTokens := n \<rparr>) c = (if c = ClassOutput then n else TokensFor u c)"
  by (cases c) simp_all

lemma output_cost_mono:
  assumes "output_cost r u t n = Inr c" "0 \<le> m" "m \<le> n"
  shows "\<exists>d. output_cost r u t m = Inr d \<and> d \<le> c"
proof -
  obtain q where q: "QuoteAt r (u \<lparr> OutputTokens := n \<rparr>) t = Inr q" "q_Cost q = c"
    using assms(1) by (auto simp: output_cost_def split: sum.splits)
  let ?rates = "fst (RatesForPromptTotal r (PromptTotalTokens u))"
  have V: "RuleSet_Validate r = None" "\<not> usage_negative (u \<lparr> OutputTokens := n \<rparr>)"
    and loop: "quote_loop ?rates (WindowFor r t) (u \<lparr> OutputTokens := n \<rparr>) TokenClasses 0 [] =
       Inr (c, Lines (q_Receipt q))"
    using q by (auto elim!: QuoteAt_InrE)
  have nn: "\<forall>k. 0 \<le> TokensFor (u \<lparr> OutputTokens := m \<rparr>) k \<and>
      TokensFor (u \<lparr> OutputTokens := m \<rparr>) k \<le> TokensFor (u \<lparr> OutputTokens := n \<rparr>) k"
  proof
    fix k
    have "0 \<le> TokensFor (u \<lparr> OutputTokens := n \<rparr>) k"
      using V(2) by (simp add: TokensFor_nonneg_iff)
    then show "0 \<le> TokensFor (u \<lparr> OutputTokens := m \<rparr>) k \<and>
      TokensFor (u \<lparr> OutputTokens := m \<rparr>) k \<le> TokensFor (u \<lparr> OutputTokens := n \<rparr>) k"
      using assms(2,3) by (simp add: TokensFor_output split: if_splits)
  qed
  then have "\<not> usage_negative (u \<lparr> OutputTokens := m \<rparr>)"
    using V(2) by (simp add: TokensFor_nonneg_iff)
  moreover obtain T L where "quote_loop ?rates (WindowFor r t) (u \<lparr> OutputTokens := m \<rparr>)
      TokenClasses 0 [] = Inr (T, L)" "T \<le> c"
    using quote_loop_mono [OF loop nn, of 0 "[]"] by (auto simp: in64_def int64_consts)
  ultimately obtain q' where "QuoteAt r (u \<lparr> OutputTokens := m \<rparr>) t = Inr q'" "q_Cost q' \<le> c"
    using QuoteAt_InrI [OF V(1), of "u \<lparr> OutputTokens := m \<rparr>" t T L] by auto
  then show ?thesis by (simp add: output_cost_def)
qed

text \<open>The quotes of every rule set meet the contract of the search.\<close>

interpretation quote: monotone_cost "output_cost r input t" for r input t
  by unfold_locales (rule output_cost_mono)

text \<open>Rows with distinct keys have one sorted arrangement.\<close>

lemma sort_key_unique:
  assumes "mset xs = mset ys" "distinct (map f (sort_key f xs))"
  shows "sort_key f xs = sort_key f ys"
proof (rule properties_for_sort_key)
  have m: "mset (sort_key f xs) = mset xs" "mset (sort_key f ys) = mset xs"
    using assms(1) by simp_all
  then show "mset (sort_key f ys) = mset xs" by simp
  show "sorted (map f (sort_key f ys))" by simp
  have inj: "distinct xs" "inj_on f (set xs)"
    using assms(2) by (auto simp: distinct_map)
  fix k assume "k \<in> set (sort_key f ys)"
  then have k: "k \<in> set xs" using mset_eq_setD [OF assms(1)] by simp
  have "filter (\<lambda>x. f k = f x) zs = [k]" if "mset zs = mset xs" for zs
  proof -
    have "distinct zs" "set zs = set xs"
      using that inj(1) by (metis mset_eq_imp_distinct_iff, metis mset_eq_setD)
    then have "set (filter (\<lambda>x. f k = f x) zs) = {k}" "distinct (filter (\<lambda>x. f k = f x) zs)"
      using k inj(2) by (auto simp: inj_on_def)
    then show ?thesis by (cases "filter (\<lambda>x. f k = f x) zs") (auto simp: subset_singleton_iff)
  qed
  from this [OF m(2)] this [OF refl]
  show "filter (\<lambda>x. f k = f x) (sort_key f ys) = filter (\<lambda>x. f k = f x) xs" by simp
qed

lemma New_InrD:
  assumes "New spec = Inr r"
  shows "RuleSet_Validate r = None" "Tiers r = sort_tiers (sp_Tiers spec)"
    "Windows r = sort_windows (sp_Windows spec)" "rs_ID r = sp_ID spec" "BaseRates r = sp_Base spec"
  using assms by (auto simp: New_def Let_def split: option.splits)

lemma validated_keys_distinct:
  assumes "RuleSet_Validate r = None"
  shows "distinct (map MinInputTokensExclusive (Tiers r))" "distinct (map window_key (Windows r))"
proof -
  show "distinct (map MinInputTokensExclusive (Tiers r))"
    using RuleSet_ValidateD(3) [OF assms] strict_sorted_iff by blast
  have "distinct (map w_ID (Windows r))" by (rule RuleSet_ValidateD(5) [OF assms])
  then show "distinct (map window_key (Windows r))"
    by (auto simp: distinct_map inj_on_def window_key_def)
qed

section \<open>A concrete quote\<close>

definition example_usage :: Usage where
  "example_usage = InputUsage 1000"

lemma example_valid: "RuleSet_Validate example_rules = None"
  by (simp add: RuleSet_Validate_def example_rules_def example_rates_def example_peak_def
      example_night_def PromptAccounting_Valid_def validateRates_def Window_Validate_def
      MinutesPerDay_def allWeekdays_def validClass_def TokenClasses_def)

lemmas quote_defs = lift_money_def CostForTokensScaled_def ceilQuotient_def PerMillion_def
  Add_def window_scale_def scaleFor_def TokenClasses_def InputUsage_def zero_usage_def
  example_usage_def

lemma example_QuoteAt:
  "\<exists>q. QuoteAt example_rules example_usage 61200000000000 = Inr q \<and> q_Cost q = 6000000"
proof -
  have "WindowFor example_rules 61200000000000 = Some example_peak"
    by (simp add: WindowFor_def example_fields example_matches)
  moreover have "fst (RatesForPromptTotal example_rules 1000) = example_rates"
    by (simp add: RatesForPromptTotal_def example_rules_def)
  ultimately have "quote_loop (fst (RatesForPromptTotal example_rules (PromptTotalTokens example_usage)))
      (WindowFor example_rules 61200000000000) example_usage TokenClasses 0 [] =
      Inr (6000000, [\<lparr> pl_Class = ClassInputFresh, pl_Tokens = 1000,
        pl_RatePerMillion = 3000000000, pl_Cost = 6000000 \<rparr>])"
    by (simp add: quote_defs example_rates_def example_peak_def i64_def int64_consts in64_def)
  moreover have "\<not> usage_negative example_usage"
    by (simp add: usage_negative_def TokenClasses_def example_usage_def InputUsage_def zero_usage_def)
  ultimately show ?thesis using QuoteAt_InrI [OF example_valid] by metis
qed

section \<open>Properties\<close>

lemma New_mset:
  assumes "New spec = Inr r"
    and "mset (sp_Tiers spec') = mset (sp_Tiers spec)"
    and "mset (sp_Windows spec') = mset (sp_Windows spec)"
    and "sp_ID spec' = sp_ID spec" "sp_Base spec' = sp_Base spec" "sp_Accounting spec' = sp_Accounting spec"
  shows "New spec' = Inr r"
proof -
  note r = New_InrD [OF assms(1)]
  note keys = validated_keys_distinct [OF r(1)]
  have "sort_tiers (sp_Tiers spec') = sort_tiers (sp_Tiers spec)"
    unfolding sort_tiers_def using assms(2) keys(1)
    by (intro sort_key_unique [symmetric]) (simp_all add: r(2) sort_tiers_def)
  moreover have "sort_windows (sp_Windows spec') = sort_windows (sp_Windows spec)"
    unfolding sort_windows_def using assms(3) keys(2)
    by (intro sort_key_unique [symmetric]) (simp_all add: r(3) sort_windows_def)
  ultimately have "New spec' = New spec" using assms(4-6) by (simp add: New_def)
  then show ?thesis using assms(1) by simp
qed

lemma New_rename:
  assumes "New spec = Inr r" "i \<noteq> []"
  shows "New (spec \<lparr> sp_ID := i \<rparr>) = Inr (r \<lparr> rs_ID := i \<rparr>)"
  using assms by (auto simp: New_def RuleSet_Validate_def Let_def split: option.splits if_splits)

text \<open>C20: A rule set that \<open>New\<close> returns is well formed and independent of the order of the
  rows it was built from: its tiers are strictly increasing, its windows have distinct
  identifiers, no rate is negative, no row was lost or added, and the same rows in any other
  order give the same rule set.\<close>

theorem New_canonical:
  assumes "New spec = Inr r"
    and "mset (sp_Tiers spec') = mset (sp_Tiers spec)"
    and "mset (sp_Windows spec') = mset (sp_Windows spec)"
    and "sp_ID spec' = sp_ID spec" "sp_Base spec' = sp_Base spec" "sp_Accounting spec' = sp_Accounting spec"
  shows "sorted_wrt (<) (map MinInputTokensExclusive (Tiers r)) \<and> distinct (map w_ID (Windows r)) \<and>
    validateRates (BaseRates r) \<and> (\<forall>t \<in> set (Tiers r). validateRates (t_Rates t)) \<and>
    mset (Tiers r) = mset (sp_Tiers spec) \<and> mset (Windows r) = mset (sp_Windows spec) \<and>
    New spec' = Inr r"
proof -
  note r = New_InrD [OF assms(1)]
  note V = RuleSet_ValidateD [OF r(1)]
  show ?thesis
    using V New_mset [OF assms] by (simp add: r(2,3) sort_tiers_def sort_windows_def)
qed

theorem New_canonical_witness:
  "New \<lparr> sp_ID = ''m'', sp_Base = example_rates, sp_Tiers = [\<lparr> MinInputTokensExclusive = 200000, t_Rates = example_rates \<rparr>],
      sp_Windows = [example_night, example_peak], sp_Accounting = PromptInclusive \<rparr> = Inr example_rules"
proof -
  have "sort_windows [example_peak, example_night] = [example_peak, example_night]"
    by (simp add: sort_windows_def window_key_def example_fields)
  then have "New \<lparr> sp_ID = ''m'', sp_Base = example_rates, sp_Tiers = [\<lparr> MinInputTokensExclusive = 200000, t_Rates = example_rates \<rparr>],
      sp_Windows = [example_peak, example_night], sp_Accounting = PromptInclusive \<rparr> = Inr example_rules"
    using example_valid by (simp add: New_def sort_tiers_def example_rules_def)
  from New_canonical [OF this] show ?thesis by simp
qed

text \<open>The tier of a prompt is the one with the largest threshold strictly below the prompt
  total, and the base rates apply exactly when no threshold is below it.\<close>

theorem RatesForPromptTotal_largest:
  assumes "RuleSet_Validate r = None" "RatesForPromptTotal r p = (rates, threshold)"
  shows "(threshold = BaseTierThreshold \<and> rates = BaseRates r \<and>
      (\<forall>t \<in> set (Tiers r). p \<le> MinInputTokensExclusive t)) \<or>
    (\<exists>t \<in> set (Tiers r). rates = t_Rates t \<and> threshold = MinInputTokensExclusive t \<and>
      threshold < p \<and>
      (\<forall>u \<in> set (Tiers r). MinInputTokensExclusive u < p \<longrightarrow> MinInputTokensExclusive u \<le> threshold))"
  by (rule RatesForPromptTotal_cases [OF assms(1), of p]) (use assms(2) in auto)

theorem RatesForPromptTotal_largest_witness:
  "\<exists>t \<in> set (Tiers example_rules). 200000 = MinInputTokensExclusive t"
proof -
  have "RatesForPromptTotal example_rules 200001 = (example_rates, 200000)"
    by (simp add: RatesForPromptTotal_def example_rules_def)
  from RatesForPromptTotal_largest [OF example_valid this] show ?thesis
    by (auto simp: BaseTierThreshold_def)
qed

text \<open>C18: A quote is the exact sum of its receipt lines: the lines are strictly ordered by
  token class, there is one for each class with tokens and none else, each carries the class's
  tokens and catalogue rate and costs the exact ceiling of tokens times rate times the window's
  scale, and the total is the sum of the lines' costs.\<close>

theorem QuoteAt_itemised:
  assumes "QuoteAt r u t = Inr q"
  shows "q_Cost q = sum_list (map pl_Cost (Lines (q_Receipt q))) \<and>
    Total (q_Receipt q) = q_Cost q \<and>
    sorted_wrt (<) (map pl_Class (Lines (q_Receipt q))) \<and>
    map pl_Class (Lines (q_Receipt q)) = filter (\<lambda>c. TokensFor u c \<noteq> 0) TokenClasses \<and>
    (\<forall>l \<in> set (Lines (q_Receipt q)).
       pl_Tokens l = TokensFor u (pl_Class l) \<and> pl_RatePerMillion l = RateFor (q_Rates q) (pl_Class l) \<and>
       CostForTokensScaled (pl_Tokens l) (pl_RatePerMillion l)
         (fst (window_scale (WindowFor r t) (pl_Class l)))
         (snd (window_scale (WindowFor r t) (pl_Class l))) = Inr (pl_Cost l))"
proof -
  have loop: "quote_loop (q_Rates q) (WindowFor r t) u TokenClasses 0 [] =
       Inr (q_Cost q, Lines (q_Receipt q))" and tot: "Total (q_Receipt q) = q_Cost q"
    by (rule QuoteAt_InrE [OF assms], assumption)+
  from quote_loop_Inr [OF loop]
  have lines: "q_Cost q = sum_list (map pl_Cost (Lines (q_Receipt q)))"
    "map pl_Class (Lines (q_Receipt q)) = filter (\<lambda>c. TokensFor u c \<noteq> 0) TokenClasses"
    "\<forall>l \<in> set (Lines (q_Receipt q)). line_exact (q_Rates q) (WindowFor r t) u l"
    by (auto simp: in64_def int64_consts)
  have "sorted_wrt (<) (map pl_Class (Lines (q_Receipt q)))"
    unfolding lines(2) by (rule sorted_wrt_filter [OF TokenClasses_sorted])
  with lines tot show ?thesis unfolding line_exact_def by blast
qed

theorem QuoteAt_itemised_witness:
  "\<exists>q. QuoteAt example_rules example_usage 61200000000000 = Inr q \<and>
     sum_list (map pl_Cost (Lines (q_Receipt q))) = 6000000"
  using example_QuoteAt QuoteAt_itemised by metis

text \<open>The search returns the largest allowance the budget covers.\<close>

lemma MaxOutputTokensAt_largest:
  assumes "0 \<le> requested" "requested < MaxInt64" "0 \<le> budget"
    and "output_cost r input t requested = Inr top_cost"
  shows "\<exists>n. MaxOutputTokensAt r input requested budget t = Some (Inr n) \<and>
    0 \<le> n \<and> n \<le> requested \<and>
    (n = 0 \<or> (\<exists>c. output_cost r input t n = Inr c \<and> c \<le> budget)) \<and>
    (\<forall>m. n < m \<and> m \<le> requested \<longrightarrow> (\<exists>c. output_cost r input t m = Inr c \<and> budget < c))"
proof -
  have ok: "\<exists>c. output_cost r input t m = Inr c" if "0 \<le> m" "m \<le> requested" for m
    using output_cost_mono [OF assms(4) that] by blast
  have over: "\<exists>c. output_cost r input t m = Inr c \<and> budget < c"
    if "0 \<le> m" "m \<le> requested" "\<not> quote.affordable r input t budget m" for m
    using ok [OF that(1,2)] that(3) by (auto simp: quote.affordable_def not_le)
  obtain base where base: "output_cost r input t 0 = Inr base" using ok assms(1) by blast
  show ?thesis
  proof (cases "base > budget")
    case True
    then have "\<not> quote.affordable r input t budget 0" by (simp add: quote.affordable_def base)
    then have "\<not> quote.affordable r input t budget m" if "0 < m" for m
      using quote.not_affordable_up that by simp
    moreover have "MaxOutputTokensAt r input requested budget t = Some (Inr 0)"
      using assms(1,3) base True by (simp add: MaxOutputTokensAt_def)
    ultimately show ?thesis using assms(1) over by simp
  next
    case False
    then have aff: "quote.affordable r input t budget 0" by (simp add: quote.affordable_def base)
    have eq: "MaxOutputTokensAt r input requested budget t =
        search_loop (output_cost r input t) budget 0 requested"
      using assms(1,3) base False by (simp add: MaxOutputTokensAt_def)
    have "\<not> (\<exists>e m. 0 < m \<and> m \<le> requested \<and> output_cost r input t m = Inl e)"
      using ok by (metis Inl_Inr_False less_imp_le)
    then obtain n where "search_loop (output_cost r input t) budget 0 requested = Some (Inr n)"
      "0 \<le> n" "n \<le> requested" "quote.affordable r input t budget n"
      "\<forall>m. n < m \<and> m \<le> requested \<longrightarrow> \<not> quote.affordable r input t budget m"
      using quote.search_loop_optimal [OF order_refl assms(1,2) aff] by blast
    then show ?thesis unfolding eq using over by (auto simp: quote.affordable_def)
  qed
qed

text \<open>C19: The affordable output is optimal: for a request below the largest \<open>int64\<close> whose
  own quote succeeds, the search returns, and its answer is the largest allowance up to the
  request whose quote stays inside the budget (0 when even the input does not).\<close>

theorem MaxOutputTokensAt_optimal:
  assumes "0 \<le> requested" "requested < MaxInt64" "0 \<le> budget"
    and "output_cost r input t requested = Inr top_cost"
  shows "\<exists>n. MaxOutputTokensAt r input requested budget t = Some (Inr n) \<and>
    0 \<le> n \<and> n \<le> requested \<and>
    (n = 0 \<or> (\<exists>c. output_cost r input t n = Inr c \<and> c \<le> budget)) \<and>
    (\<forall>m. n < m \<and> m \<le> requested \<longrightarrow> (\<exists>c. output_cost r input t m = Inr c \<and> budget < c))"
  by (rule MaxOutputTokensAt_largest [OF assms])

theorem MaxOutputTokensAt_optimal_witness:
  "\<exists>n. MaxOutputTokensAt example_rules example_usage 0 6000000 61200000000000 = Some (Inr n) \<and> n \<le> 0"
proof -
  have "example_usage \<lparr> OutputTokens := 0 \<rparr> = example_usage"
    by (simp add: example_usage_def InputUsage_def zero_usage_def)
  then have "output_cost example_rules example_usage 61200000000000 0 = Inr 6000000"
    using example_QuoteAt by (auto simp: output_cost_def)
  from MaxOutputTokensAt_optimal [OF _ _ _ this, of 6000000] show ?thesis
    by (auto simp: MaxInt64_def)
qed

text \<open>A receipt alone does not determine its charge. It records the window's multiplier but
  not the classes the window applies to: two rule sets can issue receipts that agree in
  everything except the amounts, for different amounts.\<close>

definition erase_costs :: "Receipt \<Rightarrow> Receipt" where
  "erase_costs rc = rc \<lparr> Lines := map (\<lambda>l. l \<lparr> pl_Cost := 0 \<rparr>) (Lines rc), Total := 0 \<rparr>"

theorem receipt_underdetermined:
  "\<exists>r r' u t q q'. QuoteAt r u t = Inr q \<and> QuoteAt r' u t = Inr q' \<and>
     erase_costs (q_Receipt q) = erase_costs (q_Receipt q') \<and> q_Cost q \<noteq> q_Cost q'"
proof -
  define r' where "r' = example_rules \<lparr> Windows := [example_peak \<lparr> AppliesTo := [ClassOutput] \<rparr>] \<rparr>"
  define r where "r = example_rules \<lparr> Windows := [example_peak] \<rparr>"
  have valid: "RuleSet_Validate r = None" "RuleSet_Validate r' = None"
    by (simp_all add: r_def r'_def RuleSet_Validate_def example_rules_def example_rates_def example_peak_def
      PromptAccounting_Valid_def validateRates_def Window_Validate_def
      MinutesPerDay_def allWeekdays_def validClass_def TokenClasses_def)
  have "Matches (example_peak \<lparr> AppliesTo := [ClassOutput] \<rparr>) 61200000000000"
    by (simp add: match_defs example_peak_def)
  then have w: "WindowFor r 61200000000000 = Some example_peak"
    "WindowFor r' 61200000000000 = Some (example_peak \<lparr> AppliesTo := [ClassOutput] \<rparr>)"
    by (simp_all add: WindowFor_def r_def r'_def example_matches)
  have nn: "\<not> usage_negative example_usage"
    by (simp add: usage_negative_def TokenClasses_def example_usage_def InputUsage_def zero_usage_def)
  have rf: "rs_ID r = ''m''" "BaseRates r = example_rates" "rs_Accounting r = PromptInclusive"
    "Tiers r = [\<lparr> MinInputTokensExclusive = 200000, t_Rates = example_rates \<rparr>]"
    "rs_ID r' = ''m''" "BaseRates r' = example_rates" "rs_Accounting r' = PromptInclusive"
    "Tiers r' = [\<lparr> MinInputTokensExclusive = 200000, t_Rates = example_rates \<rparr>]"
    by (simp_all add: r_def r'_def example_rules_def)
  have eu: "PromptTotalTokens example_usage = 1000" "TokensFor example_usage ClassInputFresh = 1000"
    "TokensFor example_usage ClassOutput = 0" "TokensFor example_usage ClassCacheRead = 0"
    "TokensFor example_usage ClassCacheRead5m = 0" "TokensFor example_usage ClassCacheWrite = 0"
    "TokensFor example_usage ClassCacheWrite5m = 0" "TokensFor example_usage ClassCacheWrite1h = 0"
    by (simp_all add: example_usage_def InputUsage_def zero_usage_def)
  have rate: "RateFor example_rates ClassInputFresh = 3000000000" by (simp add: example_rates_def)
  obtain q where "QuoteAt r example_usage 61200000000000 = Inr q" "q_Cost q = 6000000"
    "erase_costs (q_Receipt q) = \<lparr> RuleSetID = ''m'', PricedAt = 61200000000000, TierThreshold = -1,
       WindowID = ''peak'', WindowLabel = ''Peak'', MultiplierNum = 2, MultiplierDen = 1,
       Accounting = PromptInclusive, Lines = [\<lparr> pl_Class = ClassInputFresh, pl_Tokens = 1000,
         pl_RatePerMillion = 3000000000, pl_Cost = 0 \<rparr>], Total = 0 \<rparr>"
    using nn by (simp add: QuoteAt_def valid w rf eu rate RatesForPromptTotal_def BaseTierThreshold_def
      TokenClasses_def window_scale_def scaleFor_def lift_money_def CostForTokensScaled_def
      ceilQuotient_def PerMillion_def Add_def erase_costs_def i64_def int64_consts in64_def
      example_peak_def del: TokensFor.simps RateFor.simps)
  moreover obtain q' where "QuoteAt r' example_usage 61200000000000 = Inr q'" "q_Cost q' = 3000000"
    "erase_costs (q_Receipt q') = \<lparr> RuleSetID = ''m'', PricedAt = 61200000000000, TierThreshold = -1,
       WindowID = ''peak'', WindowLabel = ''Peak'', MultiplierNum = 2, MultiplierDen = 1,
       Accounting = PromptInclusive, Lines = [\<lparr> pl_Class = ClassInputFresh, pl_Tokens = 1000,
         pl_RatePerMillion = 3000000000, pl_Cost = 0 \<rparr>], Total = 0 \<rparr>"
    using nn by (simp add: QuoteAt_def valid w rf eu rate RatesForPromptTotal_def BaseTierThreshold_def
      TokenClasses_def window_scale_def scaleFor_def lift_money_def CostForTokensScaled_def
      ceilQuotient_def PerMillion_def Add_def erase_costs_def i64_def int64_consts in64_def
      example_peak_def del: TokensFor.simps RateFor.simps)
  ultimately show ?thesis by (intro exI [of _ r] exI [of _ r'] exI [of _ example_usage]
      exI [of _ 61200000000000] exI [of _ q] exI [of _ q']) simp
qed

end
