(* ===== verification/Billing.thy ===== *)
theory Billing
  imports GoTime Money "HOL-Library.Product_Lexorder" "HOL-Library.Option_ord"
begin

text \<open>
  The store of the gateway and its budget periods (src/db/billing.go, src/db/exact_money.go and
  the money queries of src/db/db.go). A \<open>store\<close> record holds the tables the code reads and
  writes, each as the list of its rows; a NULL string column is the empty string, since the
  code writes NULL exactly for it. \<open>now\<close> is the clock of the process, \<open>dbnow\<close> the \<open>now()\<close> of the
  database. The 45 columns of a request log are grouped: the columns only passed through are
  in \<open>LogOrigin\<close> and \<open>LogMeter\<close>, the price derivation in \<open>LogPricing\<close>. A statement that fails
  leaves the transaction to be rolled back, so an \<open>Inl\<close> carries no store.
\<close>

section \<open>Rows\<close>

record db_user =
  u_ID :: string
  u_Name :: string
  u_Email :: string
  u_PlanID :: string
  u_Status :: string
  u_PlanAssignedAt :: instant
  u_UsageResetAt :: "instant option"

record BudgetWindow =
  bw_ID :: string
  bw_PlanID :: string
  bw_Name :: string
  bw_DurationSeconds :: int
  bw_BudgetUSD :: f64
  bw_BudgetNanoUSD :: nano_usd

record UserTopup =
  tu_ID :: string
  tu_UserID :: string
  tu_Credits :: f64
  tu_UsedCredits :: f64
  tu_AmountNanoUSD :: nano_usd
  tu_UsedNanoUSD :: nano_usd
  tu_CreatedAt :: instant
  tu_ExpiresAt :: "instant option"
  tu_DeletedAt :: "instant option"
  tu_IdemKey :: "string option"

record RequestPriceLine =
  rpl_TokenClass :: string
  rpl_Tokens :: int
  rpl_RatePerMillion :: nano_usd
  rpl_Cost :: nano_usd

record LogOrigin =
  VirtualKeyID :: string
  OwnerName :: string
  SessionID :: string
  ClientRequestID :: string
  RequestPath :: string
  ClientApp :: string
  RequestedModel :: string
  Complexity :: string
  ThinkingLevel :: string

record LogMeter =
  Streamed :: bool
  CacheEpoch :: int
  lm_InputTokens :: int
  lm_OutputTokens :: int
  lm_CacheReadTokens :: int
  lm_CacheWriteTokens :: int
  CacheMissTokens :: "int option"
  ReasoningTokens :: "int option"
  FirstTokenMS :: "int option"
  LatencyMS :: int
  FailoverAttempts :: int

record LogPricing =
  PricingRuleSetID :: string
  PricingTierThreshold :: "int option"
  PriceWindowID :: string
  PriceMultiplierNum :: int
  PriceMultiplierDen :: int
  lp_PricedAt :: "instant option"
  lp_PromptAccounting :: string
  PricingLines :: "RequestPriceLine list"
  UsageAnomaly :: string
  UpstreamCostNanoUSD :: "nano_usd option"

record RequestLog =
  rl_ID :: string
  UserID :: string
  AttemptNumber :: int
  ModelID :: string
  ProviderID :: string
  StatusCode :: int
  RequestStatus :: string
  Cost :: f64
  CostNanoUSD :: nano_usd
  ChargeCeilingNanoUSD :: nano_usd
  ErrorMessage :: string
  UsageEstimated :: bool
  UpstreamProvider :: string
  BudgetWindowID :: string
  BudgetWindowStartedAt :: "instant option"
  BudgetWindowResetAt :: "instant option"
  rl_CreatedAt :: instant
  Origin :: LogOrigin
  Meter :: LogMeter
  Pricing :: LogPricing

record UsageReset =
  ur_ID :: string
  ur_Scope :: string
  ur_UserID :: string
  ur_Note :: string

record Plan =
  p_ID :: string
  p_Name :: string
  p_RPMLimit :: int
  p_TPMLimit :: int

record store =
  users :: "db_user list"
  plans :: "Plan list"
  budget_windows :: "BudgetWindow list"
  user_topups :: "UserTopup list"
  request_logs :: "RequestLog list"
  request_pricing_lines :: "(string \<times> RequestPriceLine) list"
  usage_resets :: "UsageReset list"

datatype db_error =
    ErrNoRows | ErrNoBudgetWindow | ErrScan | ErrConstraint | ErrAmount money_error
  | ErrUsedExceedsTotal

definition lift_amount :: "money_error + 'a \<Rightarrow> db_error + 'a" where
  "lift_amount m = (case m of Inl e \<Rightarrow> Inl (ErrAmount e) | Inr x \<Rightarrow> Inr x)"

text \<open>Reading a numeric sum into an \<open>int64\<close>.\<close>

definition scan_int64 :: "int \<Rightarrow> db_error + int" where
  "scan_int64 n = (if in64 n then Inr n else Inl ErrScan)"

section \<open>Budget periods\<close>

definition windowPeriodStart :: "instant \<Rightarrow> int \<Rightarrow> instant \<Rightarrow> instant" where
  "windowPeriodStart planAssignedAt durationSeconds now =
     (if durationSeconds \<le> 0 \<or> IsZero planAssignedAt then planAssignedAt
      else if now < planAssignedAt then planAssignedAt
      else
        (let duration = i64 (durationSeconds * nano_second);
             elapsed = time_sub now planAssignedAt;
             periods = elapsed sdiv duration
         in planAssignedAt + i64 (periods * duration)))"

definition effectiveFloor :: "instant \<Rightarrow> instant option \<Rightarrow> instant" where
  "effectiveFloor periodStart usageResetAt =
     (case usageResetAt of
        Some t \<Rightarrow> if t > periodStart then t else periodStart
      | None \<Rightarrow> periodStart)"

definition ResetAllUsersUsage :: "store \<Rightarrow> instant \<Rightarrow> string \<Rightarrow> string \<Rightarrow> int \<times> store" where
  "ResetAllUsersUsage db dbnow uuid note =
     (int (length (users db)),
      db \<lparr> users := map (\<lambda>u. u \<lparr> u_UsageResetAt := Some dbnow \<rparr>) (users db),
           usage_resets := usage_resets db @
             [\<lparr> ur_ID = uuid, ur_Scope = ''all'', ur_UserID = [], ur_Note = note \<rparr>] \<rparr>)"

definition ResetUserUsage :: "store \<Rightarrow> instant \<Rightarrow> string \<Rightarrow> string \<Rightarrow> string \<Rightarrow> db_error + store" where
  "ResetUserUsage db dbnow uuid userID note =
     (if \<not> list_ex (\<lambda>u. u_ID u = userID) (users db) then Inl ErrNoRows
      else Inr (db \<lparr> users := map (\<lambda>u. if u_ID u = userID then u \<lparr> u_UsageResetAt := Some dbnow \<rparr> else u) (users db),
           usage_resets := usage_resets db @
             [\<lparr> ur_ID = uuid, ur_Scope = ''user'', ur_UserID = userID, ur_Note = note \<rparr>] \<rparr>))"

definition activeTopup :: "instant \<Rightarrow> UserTopup \<Rightarrow> bool" where
  "activeTopup dbnow t \<longleftrightarrow>
     tu_DeletedAt t = None \<and> (case tu_ExpiresAt t of None \<Rightarrow> True | Some e \<Rightarrow> e > dbnow)"

section \<open>The exact and the legacy amounts\<close>

text \<open>One amount that is kept both ways: the exact value wins when both are set.\<close>

definition normalize_pair ::
  "(f64 \<Rightarrow> money_error + nano_usd) \<Rightarrow> (nano_usd \<Rightarrow> f64) \<Rightarrow> f64 \<Rightarrow> nano_usd
     \<Rightarrow> db_error + (f64 \<times> nano_usd)" where
  "normalize_pair of_float to_float legacy exact =
     (if exact < 0 \<or> f64_neg legacy then Inl (ErrAmount ErrNegative)
      else
        ebind (if exact = 0 \<and> \<not> f64_is0 legacy then lift_amount (of_float legacy) else Inr exact)
          (\<lambda>exact. Inr (to_float exact, exact)))"

definition normalizeBudgetWindowMoney :: "BudgetWindow \<Rightarrow> db_error + BudgetWindow" where
  "normalizeBudgetWindowMoney w =
     ebind (normalize_pair FromUSD USD (bw_BudgetUSD w) (bw_BudgetNanoUSD w))
       (\<lambda>(legacy, exact). Inr (w \<lparr> bw_BudgetUSD := legacy, bw_BudgetNanoUSD := exact \<rparr>))"

text \<open>The five prices of a model, in the order of the code's table.\<close>

definition normalizeModelMoney :: "(f64 \<times> nano_usd) list \<Rightarrow> db_error + (f64 \<times> nano_usd) list" where
  "normalizeModelMoney pairs =
     foldr (\<lambda>(legacy, exact) rest.
         ebind (normalize_pair FromUSD USD legacy exact) (\<lambda>p. ebind rest (\<lambda>ps. Inr (p # ps))))
       pairs (Inr [])"

definition normalizeRequestLogMoney :: "RequestLog \<Rightarrow> db_error + RequestLog" where
  "normalizeRequestLogMoney e =
     ebind (normalize_pair FromUSD USD (Cost e) (CostNanoUSD e))
       (\<lambda>(legacy, exact). Inr (e \<lparr> Cost := legacy, CostNanoUSD := exact \<rparr>))"

definition normalizeTopupMoney :: "UserTopup \<Rightarrow> db_error + UserTopup" where
  "normalizeTopupMoney t =
     (if tu_AmountNanoUSD t < 0 \<or> tu_UsedNanoUSD t < 0 \<or> f64_neg (tu_Credits t) \<or> f64_neg (tu_UsedCredits t)
      then Inl (ErrAmount ErrNegative)
      else
        ebind (if tu_AmountNanoUSD t = 0 \<and> \<not> f64_is0 (tu_Credits t)
               then lift_amount (FromCredits (tu_Credits t)) else Inr (tu_AmountNanoUSD t)) (\<lambda>amount.
        ebind (if tu_UsedNanoUSD t = 0 \<and> \<not> f64_is0 (tu_UsedCredits t)
               then lift_amount (FromCredits (tu_UsedCredits t)) else Inr (tu_UsedNanoUSD t)) (\<lambda>used.
        if used > amount then Inl ErrUsedExceedsTotal
        else Inr (t \<lparr> tu_AmountNanoUSD := amount, tu_UsedNanoUSD := used,
                      tu_Credits := Credits amount, tu_UsedCredits := Credits used \<rparr>))))"

section \<open>Top-ups\<close>

text \<open>The primary key rejects a second row with the same identifier, and the table's CHECK
  (src/db/migrations/023_exact_money_foundation.sql) a row whose amounts are not in order.\<close>

definition CreateUserTopup :: "store \<Rightarrow> UserTopup \<Rightarrow> db_error + store" where
  "CreateUserTopup db t =
     ebind (normalizeTopupMoney t) (\<lambda>t.
       if tu_IdemKey t \<noteq> None \<and> list_ex (\<lambda>u. tu_IdemKey u = tu_IdemKey t) (user_topups db) then Inr db
       else if list_ex (\<lambda>u. tu_ID u = tu_ID t) (user_topups db) \<or>
               tu_AmountNanoUSD t < 0 \<or> tu_UsedNanoUSD t < 0 then Inl ErrConstraint
       else Inr (db \<lparr> user_topups := user_topups db @ [t \<lparr> tu_DeletedAt := None \<rparr>] \<rparr>))"

definition DeleteUserTopup :: "store \<Rightarrow> instant \<Rightarrow> string \<Rightarrow> store" where
  "DeleteUserTopup db dbnow ident =
     db \<lparr> user_topups := map (\<lambda>t. if tu_ID t = ident \<and> tu_DeletedAt t = None
                                then t \<lparr> tu_DeletedAt := Some dbnow \<rparr> else t) (user_topups db) \<rparr>"

definition SetUserTopupExpiry :: "store \<Rightarrow> string \<Rightarrow> instant option \<Rightarrow> store" where
  "SetUserTopupExpiry db ident expiresAt =
     db \<lparr> user_topups := map (\<lambda>t. if tu_ID t = ident then t \<lparr> tu_ExpiresAt := expiresAt \<rparr> else t)
                          (user_topups db) \<rparr>"

definition topup_remaining :: "UserTopup \<Rightarrow> int" where
  "topup_remaining t = tu_AmountNanoUSD t - tu_UsedNanoUSD t"

definition activeTopups :: "store \<Rightarrow> instant \<Rightarrow> string \<Rightarrow> UserTopup list" where
  "activeTopups db dbnow userID = filter (\<lambda>t. tu_UserID t = userID \<and> activeTopup dbnow t) (user_topups db)"

definition GetRemainingExtraNanoUSD :: "store \<Rightarrow> instant \<Rightarrow> string \<Rightarrow> db_error + nano_usd" where
  "GetRemainingExtraNanoUSD db dbnow userID =
     scan_int64 (sum_list (map topup_remaining (activeTopups db dbnow userID)))"

section \<open>Spending queries\<close>

definition successful :: "RequestLog \<Rightarrow> bool" where
  "successful e \<longleftrightarrow> StatusCode e \<ge> 200 \<and> StatusCode e < 300"

definition spend_rows :: "store \<Rightarrow> string \<Rightarrow> instant \<Rightarrow> RequestLog list" where
  "spend_rows db userID floor_at =
     filter (\<lambda>e. UserID e = userID \<and> rl_CreatedAt e \<ge> floor_at \<and> successful e) (request_logs db)"

definition spend_sum :: "store \<Rightarrow> string \<Rightarrow> instant \<Rightarrow> int" where
  "spend_sum db userID floor_at = sum_list (map CostNanoUSD (spend_rows db userID floor_at))"

definition GetUserSpendingNanoInWindow :: "store \<Rightarrow> string \<Rightarrow> int \<Rightarrow> instant \<Rightarrow> db_error + nano_usd" where
  "GetUserSpendingNanoInWindow db userID durationSeconds now =
     (case find (\<lambda>u. u_ID u = userID) (users db) of
        None \<Rightarrow> Inl ErrNoRows
      | Some u \<Rightarrow>
          scan_int64 (spend_sum db userID
            (effectiveFloor (windowPeriodStart (u_PlanAssignedAt u) durationSeconds now) (u_UsageResetAt u))))"

record UserBudgetUsage =
  bu_WindowID :: string
  bu_Name :: string
  bu_DurationSeconds :: int
  bu_BudgetUSD :: f64
  bu_BudgetNanoUSD :: nano_usd
  CurrentSpent :: f64
  CurrentSpentNanoUSD :: nano_usd
  ResetTime :: instant

fun budget_usage_loop ::
  "store \<Rightarrow> db_user \<Rightarrow> instant \<Rightarrow> BudgetWindow list \<Rightarrow> db_error + UserBudgetUsage list" where
  "budget_usage_loop db u now [] = Inr []"
| "budget_usage_loop db u now (w # ws) =
     (let periodStart = windowPeriodStart (u_PlanAssignedAt u) (bw_DurationSeconds w) now;
          resetTime = periodStart + i64 (bw_DurationSeconds w * nano_second);
          floor_at = effectiveFloor periodStart (u_UsageResetAt u)
      in ebind (scan_int64 (spend_sum db (u_ID u) floor_at)) (\<lambda>spent.
         ebind (budget_usage_loop db u now ws) (\<lambda>rest.
         Inr (\<lparr> bu_WindowID = bw_ID w, bu_Name = bw_Name w, bu_DurationSeconds = bw_DurationSeconds w,
               bu_BudgetUSD = bw_BudgetUSD w, bu_BudgetNanoUSD = bw_BudgetNanoUSD w,
               CurrentSpent = USD spent, CurrentSpentNanoUSD = spent, ResetTime = resetTime \<rparr> # rest))))"

text \<open>\<open>ORDER BY duration_seconds\<close> leaves the order of equal durations to the database.\<close>

definition ListBudgetWindowsByPlan :: "store \<Rightarrow> string \<Rightarrow> BudgetWindow list" where
  "ListBudgetWindowsByPlan db planID =
     sort_key bw_DurationSeconds (filter (\<lambda>w. bw_PlanID w = planID) (budget_windows db))"

definition CreateBudgetWindow :: "store \<Rightarrow> BudgetWindow \<Rightarrow> db_error + store" where
  "CreateBudgetWindow db w =
     ebind (normalizeBudgetWindowMoney w) (\<lambda>w.
       if list_ex (\<lambda>v. bw_ID v = bw_ID w) (budget_windows db) \<or> bw_BudgetNanoUSD w < 0
       then Inl ErrConstraint
       else Inr (db \<lparr> budget_windows := budget_windows db @ [w] \<rparr>))"

definition UpdateBudgetWindow :: "store \<Rightarrow> BudgetWindow \<Rightarrow> db_error + store" where
  "UpdateBudgetWindow db w =
     ebind (normalizeBudgetWindowMoney w) (\<lambda>w.
       if list_ex (\<lambda>v. bw_ID v = bw_ID w) (budget_windows db) \<and> bw_BudgetNanoUSD w < 0
       then Inl ErrConstraint
       else Inr (db \<lparr> budget_windows :=
              map (\<lambda>v. if bw_ID v = bw_ID w then w else v) (budget_windows db) \<rparr>))"

definition DeleteBudgetWindow :: "store \<Rightarrow> string \<Rightarrow> store" where
  "DeleteBudgetWindow db ident =
     db \<lparr> budget_windows := filter (\<lambda>v. bw_ID v \<noteq> ident) (budget_windows db) \<rparr>"

definition GetUserBudgetUsage ::
  "store \<Rightarrow> string \<Rightarrow> string \<Rightarrow> instant \<Rightarrow> db_error + UserBudgetUsage list" where
  "GetUserBudgetUsage db userID planID now =
     (case find (\<lambda>u. u_ID u = userID) (users db) of
        None \<Rightarrow> Inl ErrNoRows
      | Some u \<Rightarrow> budget_usage_loop db u now (ListBudgetWindowsByPlan db planID))"

section \<open>Users and plans\<close>

record UserUsage =
  BudgetUsage :: "UserBudgetUsage list"
  ExtraCreditsNanoUSD :: nano_usd
  RemainingExtraNanoUSD :: nano_usd

definition hydrateUserUsage :: "store \<Rightarrow> instant \<Rightarrow> instant \<Rightarrow> db_user \<Rightarrow> db_error + UserUsage" where
  "hydrateUserUsage db dbnow now u =
     ebind (GetUserBudgetUsage db (u_ID u) (u_PlanID u) now) (\<lambda>usage.
     ebind (scan_int64 (sum_list (map tu_AmountNanoUSD (activeTopups db dbnow (u_ID u))))) (\<lambda>extra.
     ebind (GetRemainingExtraNanoUSD db dbnow (u_ID u)) (\<lambda>remaining.
     Inr \<lparr> BudgetUsage = usage, ExtraCreditsNanoUSD = extra, RemainingExtraNanoUSD = remaining \<rparr>)))"

text \<open>A missing user is a nil pointer without an error.\<close>

definition GetUser :: "store \<Rightarrow> instant \<Rightarrow> instant \<Rightarrow> string \<Rightarrow> db_error + (db_user \<times> UserUsage) option" where
  "GetUser db dbnow now ident =
     (case find (\<lambda>u. u_ID u = ident) (users db) of
        None \<Rightarrow> Inr None
      | Some u \<Rightarrow> ebind (hydrateUserUsage db dbnow now u) (\<lambda>usage. Inr (Some (u, usage))))"

definition GetPlan :: "store \<Rightarrow> string \<Rightarrow> (Plan \<times> BudgetWindow list) option" where
  "GetPlan db ident =
     (case find (\<lambda>p. p_ID p = ident) (plans db) of
        None \<Rightarrow> None | Some p \<Rightarrow> Some (p, ListBudgetWindowsByPlan db (p_ID p)))"

text \<open>The period start the batched query of the user list computes in SQL.\<close>

definition sql_period_start :: "instant \<Rightarrow> int \<Rightarrow> instant \<Rightarrow> instant" where
  "sql_period_start assigned dur dbnow =
     assigned + ((dbnow - assigned) div (dur * nano_second)) * (dur * nano_second)"

fun sql_usage_loop ::
  "store \<Rightarrow> db_user \<Rightarrow> instant \<Rightarrow> BudgetWindow list \<Rightarrow> db_error + UserBudgetUsage list" where
  "sql_usage_loop db u dbnow [] = Inr []"
| "sql_usage_loop db u dbnow (w # ws) =
     (let period = sql_period_start (u_PlanAssignedAt u) (bw_DurationSeconds w) dbnow;
          floor_at = max period (case u_UsageResetAt u of None \<Rightarrow> period | Some r \<Rightarrow> r)
      in ebind (scan_int64 (spend_sum db (u_ID u) floor_at)) (\<lambda>spent.
         ebind (sql_usage_loop db u dbnow ws) (\<lambda>usages.
         Inr (\<lparr> bu_WindowID = bw_ID w, bu_Name = bw_Name w, bu_DurationSeconds = bw_DurationSeconds w,
               bu_BudgetUSD = bw_BudgetUSD w, bu_BudgetNanoUSD = bw_BudgetNanoUSD w,
               CurrentSpent = USD spent, CurrentSpentNanoUSD = spent,
               ResetTime = period + bw_DurationSeconds w * nano_second \<rparr> # usages))))"

definition loadUserBudgetSummaries :: "store \<Rightarrow> instant \<Rightarrow> db_user \<Rightarrow> db_error + UserBudgetUsage list" where
  "loadUserBudgetSummaries db dbnow u =
     sql_usage_loop db u dbnow
       (filter (\<lambda>w. bw_DurationSeconds w > 0) (ListBudgetWindowsByPlan db (u_PlanID u)))"

definition CreateUser :: "store \<Rightarrow> instant \<Rightarrow> db_user \<Rightarrow> db_error + store" where
  "CreateUser db now u =
     (let u = (if IsZero (u_PlanAssignedAt u) then u \<lparr> u_PlanAssignedAt := now \<rparr> else u)
      in if list_ex (\<lambda>v. u_ID v = u_ID u) (users db) then Inl ErrConstraint
         else Inr (db \<lparr> users := users db @ [u \<lparr> u_UsageResetAt := None \<rparr>] \<rparr>))"

definition UpdateUser :: "store \<Rightarrow> instant \<Rightarrow> db_user \<Rightarrow> db_error + store" where
  "UpdateUser db dbnow u =
     (case find (\<lambda>v. u_ID v = u_ID u) (users db) of
        None \<Rightarrow> Inl ErrNoRows
      | Some existing \<Rightarrow>
          if u_PlanID existing = u_PlanID u
          then Inr (db \<lparr> users := map (\<lambda>v. if u_ID v = u_ID u
                 then v \<lparr> u_Name := u_Name u, u_Email := u_Email u, u_Status := u_Status u \<rparr> else v) (users db) \<rparr>)
          else Inr (db \<lparr> users := map (\<lambda>v. if u_ID v = u_ID u
                 then v \<lparr> u_Name := u_Name u, u_Email := u_Email u, u_PlanID := u_PlanID u,
                          u_Status := u_Status u, u_PlanAssignedAt := dbnow, u_UsageResetAt := None \<rparr>
                 else v) (users db) \<rparr>))"

definition DeleteUser :: "store \<Rightarrow> string \<Rightarrow> store" where
  "DeleteUser db ident = db \<lparr> users := filter (\<lambda>v. u_ID v \<noteq> ident) (users db) \<rparr>"

definition RequestStatusForHTTP :: "int \<Rightarrow> string" where
  "RequestStatusForHTTP statusCode =
     (if statusCode \<ge> 200 \<and> statusCode < 300 then ''succeeded''
      else if statusCode = 402 then ''rejected_budget''
      else if statusCode = 429 then ''rejected_rate_limit''
      else if statusCode = 499 then ''cancelled''
      else if statusCode = 504 then ''timed_out''
      else ''failed'')"

section \<open>Lemmas\<close>

lemma lift_amount_Inr [simp]: "lift_amount m = Inr x \<longleftrightarrow> m = Inr x"
  by (cases m) (simp_all add: lift_amount_def)

lemma scan_int64_Inr [simp]: "scan_int64 n = Inr m \<longleftrightarrow> in64 n \<and> m = n"
  by (auto simp: scan_int64_def)

lemma effectiveFloor_max: "effectiveFloor p r = (case r of None \<Rightarrow> p | Some t \<Rightarrow> max p t)"
  by (auto simp: effectiveFloor_def max_def split: option.splits)

text \<open>The period that contains \<open>now\<close>, where the durations fit.\<close>

lemma windowPeriodStart_contains:
  assumes "0 < dur" "in64 (dur * nano_second)" "\<not> IsZero assigned" "assigned \<le> now"
    and "in64 (now - assigned)"
  shows "\<exists>k \<ge> 0. windowPeriodStart assigned dur now = assigned + k * (dur * nano_second) \<and>
    windowPeriodStart assigned dur now \<le> now \<and>
    now < windowPeriodStart assigned dur now + dur * nano_second"
proof -
  define d where "d = dur * nano_second"
  define e where "e = now - assigned"
  have d: "0 < d" using assms(1) by (simp add: d_def nano_second_def)
  have e: "0 \<le> e" using assms(4) by (simp add: e_def)
  define q where "q = e div d"
  have sq: "e sdiv d = q"
    using d e by (auto simp: q_def signed_divide_int_def sgn_if)
  have q: "0 \<le> q" using d e by (simp add: q_def pos_imp_zdiv_nonneg_iff)
  have m: "e = q * d + e mod d" by (simp add: q_def)
  have r: "0 \<le> e mod d" "e mod d < d" using d by simp_all
  have "0 \<le> q * d" using q d by simp
  moreover have "q * d \<le> e" using m r by linarith
  ultimately have "in64 (q * d)" using assms(5) by (auto simp: in64_def MinInt64_def e_def)
  then have "windowPeriodStart assigned dur now = assigned + q * d"
    using assms by (simp add: windowPeriodStart_def Let_def i64_id time_sub_exact sq
        flip: d_def e_def)
  moreover have "assigned + q * d \<le> now" "now < assigned + q * d + d"
    using m r by (simp_all add: e_def)
  ultimately show ?thesis using q by (auto simp: d_def)
qed

lemma normalize_pair_nonneg:
  assumes "normalize_pair (from_float unit) g legacy exact = Inr (l, x)"
    and "\<And>n. from_float unit legacy = Inr n \<Longrightarrow> 0 \<le> n"
  shows "0 \<le> x" "l = g x" "0 < exact \<longrightarrow> x = exact"
  using assms by (auto simp: normalize_pair_def ebind_eq_Inr split: if_splits)

lemma spend_sum_append:
  "spend_sum (db \<lparr> request_logs := request_logs db @ [e] \<rparr>) userID f =
     spend_sum db userID f +
     (if UserID e = userID \<and> rl_CreatedAt e \<ge> f \<and> successful e then CostNanoUSD e else 0)"
  by (simp add: spend_sum_def spend_rows_def)

text \<open>The period the batched query computes is the period of the code.\<close>

lemma sql_period_start_eq:
  assumes "0 < dur" "in64 (dur * nano_second)" "\<not> IsZero assigned" "assigned \<le> now"
    and "in64 (now - assigned)"
  shows "sql_period_start assigned dur now = windowPeriodStart assigned dur now"
proof -
  define d where "d = dur * nano_second"
  have d: "0 < d" using assms(1) by (simp add: d_def nano_second_def)
  obtain k where k: "windowPeriodStart assigned dur now = assigned + k * d"
    "assigned + k * d \<le> now" "now < assigned + k * d + d"
    using windowPeriodStart_contains [OF assms, folded d_def] by metis
  have "\<not> now - assigned < d * k" "now - assigned < d * (k + 1)"
    using k(2,3) by (simp_all add: algebra_simps)
  then have "(now - assigned) div d = k"
    using less_mult_iff_div_less [OF d, of "now - assigned" k]
      less_mult_iff_div_less [OF d, of "now - assigned" "k + 1"] by simp
  then show ?thesis by (simp add: sql_period_start_def k(1) flip: d_def)
qed

lemma sql_usage_loop_eq:
  assumes "\<forall>w \<in> set ws. 0 < bw_DurationSeconds w \<and> in64 (bw_DurationSeconds w * nano_second)"
    and "\<not> IsZero (u_PlanAssignedAt u)" "u_PlanAssignedAt u \<le> now" "in64 (now - u_PlanAssignedAt u)"
  shows "sql_usage_loop db u now ws = budget_usage_loop db u now ws"
  using assms(1)
proof (induction ws)
  case (Cons w ws)
  have "sql_period_start (u_PlanAssignedAt u) (bw_DurationSeconds w) now =
      windowPeriodStart (u_PlanAssignedAt u) (bw_DurationSeconds w) now"
    using Cons.prems assms(2-4) by (intro sql_period_start_eq) simp_all
  moreover have "effectiveFloor p r = max p (case r of None \<Rightarrow> p | Some t \<Rightarrow> t)" for p r
    by (simp add: effectiveFloor_max split: option.splits)
  ultimately show ?case using Cons by (simp add: Let_def i64_id)
qed simp

section \<open>Properties\<close>

text \<open>The budget period of an instant contains it: it starts a whole number of window
  lengths after the plan was assigned, not after the instant, and ends after it; so every
  settled request falls into exactly one period of each window.\<close>

theorem windowPeriodStart_period:
  assumes "0 < dur" "in64 (dur * nano_second)" "\<not> IsZero assigned" "assigned \<le> now"
    and "in64 (now - assigned)"
  shows "\<exists>k \<ge> 0. windowPeriodStart assigned dur now = assigned + k * (dur * nano_second) \<and>
    windowPeriodStart assigned dur now \<le> now \<and>
    now < windowPeriodStart assigned dur now + dur * nano_second"
  using assms by (rule windowPeriodStart_contains)

theorem windowPeriodStart_period_witness:
  "windowPeriodStart 0 86400 100000000000000 \<le> 100000000000000"
  using windowPeriodStart_period [of 86400 0 100000000000000]
  by (auto simp: nano_second_def in64_def int64_consts IsZero_def zero_time_def)

text \<open>The user list and the single-user page agree: for windows of positive length and a
  plan assigned in the past, the batched SQL query computes the same usage, period by period,
  as the per-user code.\<close>

theorem batched_usage_agrees:
  assumes "find (\<lambda>v. u_ID v = u_ID u) (users db) = Some u"
    and "\<forall>w \<in> set (ListBudgetWindowsByPlan db (u_PlanID u)).
          0 < bw_DurationSeconds w \<and> in64 (bw_DurationSeconds w * nano_second)"
    and "\<not> IsZero (u_PlanAssignedAt u)" "u_PlanAssignedAt u \<le> now" "in64 (now - u_PlanAssignedAt u)"
  shows "loadUserBudgetSummaries db now u = GetUserBudgetUsage db (u_ID u) (u_PlanID u) now"
proof -
  have "filter (\<lambda>w. bw_DurationSeconds w > 0) (ListBudgetWindowsByPlan db (u_PlanID u)) =
      ListBudgetWindowsByPlan db (u_PlanID u)"
    using assms(2) by simp
  then show ?thesis
    using sql_usage_loop_eq [OF assms(2-5)] assms(1)
    by (simp add: loadUserBudgetSummaries_def GetUserBudgetUsage_def)
qed

theorem batched_usage_agrees_witness:
  "let u = \<lparr> u_ID = ''u'', u_Name = [], u_Email = [], u_PlanID = ''p'', u_Status = ''active'',
             u_PlanAssignedAt = 0, u_UsageResetAt = None \<rparr>;
       w = \<lparr> bw_ID = ''w'', bw_PlanID = ''p'', bw_Name = ''day'', bw_DurationSeconds = 86400,
             bw_BudgetUSD = FFin 0, bw_BudgetNanoUSD = 1000 \<rparr>;
       db = \<lparr> users = [u], plans = [], budget_windows = [w], user_topups = [], request_logs = [],
              request_pricing_lines = [], usage_resets = [] \<rparr>
   in loadUserBudgetSummaries db 5000 u = GetUserBudgetUsage db (u_ID u) (u_PlanID u) 5000"
  unfolding Let_def
  by (rule batched_usage_agrees)
    (simp_all add: ListBudgetWindowsByPlan_def nano_second_def in64_def int64_consts IsZero_def zero_time_def)

end
