(* ===== verification/Settlement.thy ===== *)
theory Settlement
  imports Billing "HOL-Library.Multiset"
begin

text \<open>
  Settlement of a request (src/db/billing_atomic.go and the request-log insert of
  src/db/db.go): what a user may still spend (\<open>budgetAvailability\<close>), and the transaction that
  charges the overage of a request to the user's top-ups and records its log row
  (\<open>SettleUsageAndLog\<close>). Each query of the transaction is a definition over the \<open>store\<close>. The
  locale \<open>prepaid\<close> is the contract of a balance that is drawn down; the top-ups of a user
  interpret it.
\<close>

section \<open>What may be spent\<close>

record BudgetAvailability =
  Available :: nano_usd
  WindowID :: string
  WindowName :: string
  WindowStartedAt :: instant
  WindowResetAt :: instant

definition no_availability :: BudgetAvailability where
  "no_availability = \<lparr> Available = 0, WindowID = [], WindowName = [], WindowStartedAt = zero_time,
     WindowResetAt = zero_time \<rparr>"

definition budgetWindowLimits :: "store \<Rightarrow> string \<Rightarrow> BudgetWindow list" where
  "budgetWindowLimits db planID =
     sort_key (\<lambda>w. (bw_DurationSeconds w, bw_ID w))
       (filter (\<lambda>w. bw_PlanID w = planID \<and> bw_DurationSeconds w > 0 \<and> bw_BudgetNanoUSD w > 0)
         (budget_windows db))"

definition successfulSpendSince :: "store \<Rightarrow> string \<Rightarrow> instant \<Rightarrow> db_error + nano_usd" where
  "successfulSpendSince db userID floor_at = scan_int64 (spend_sum db userID floor_at)"

fun availability_loop ::
  "store \<Rightarrow> db_user \<Rightarrow> instant \<Rightarrow> nano_usd \<Rightarrow> BudgetWindow list \<Rightarrow> BudgetAvailability
     \<Rightarrow> db_error + BudgetAvailability" where
  "availability_loop db u now topups [] result = Inr result"
| "availability_loop db u now topups (window # ws) result =
     (let periodStart = windowPeriodStart (u_PlanAssignedAt u) (bw_DurationSeconds window) now;
          startedAt = effectiveFloor periodStart (u_UsageResetAt u)
      in ebind (successfulSpendSince db (u_ID u) startedAt) (\<lambda>spent.
           let candidate = i64 (i64 (bw_BudgetNanoUSD window - spent) + topups);
               candidate = (if candidate < 0 then 0 else candidate)
           in availability_loop db u now topups ws
                (if candidate < Available result
                 then \<lparr> Available = candidate, WindowID = bw_ID window, WindowName = bw_Name window,
                        WindowStartedAt = startedAt,
                        WindowResetAt = periodStart + i64 (bw_DurationSeconds window * nano_second) \<rparr>
                 else result)))"

definition budgetAvailability ::
  "store \<Rightarrow> instant \<Rightarrow> instant \<Rightarrow> string \<Rightarrow> db_error + BudgetAvailability" where
  "budgetAvailability db dbnow now userID =
     (case find (\<lambda>u. u_ID u = userID \<and> u_Status u = ''active'') (users db) of
        None \<Rightarrow> Inl ErrNoRows
      | Some u \<Rightarrow>
          ebind (GetRemainingExtraNanoUSD db dbnow userID) (\<lambda>topups.
            let windows = budgetWindowLimits db (u_PlanID u)
            in if windows = [] then Inl ErrNoBudgetWindow
               else availability_loop db u now topups windows (no_availability \<lparr> Available := MaxInt64 \<rparr>)))"

definition AvailableBudgetNano :: "store \<Rightarrow> instant \<Rightarrow> instant \<Rightarrow> string \<Rightarrow> db_error + nano_usd" where
  "AvailableBudgetNano db dbnow now userID =
     ebind (budgetAvailability db dbnow now userID) (\<lambda>a. Inr (Available a))"

section \<open>The log row\<close>

definition zero_failed :: "RequestLog \<Rightarrow> RequestLog" where
  "zero_failed e =
     (if StatusCode e < 200 \<or> StatusCode e \<ge> 300
      then e \<lparr> Cost := FFin 0, CostNanoUSD := 0 \<rparr> else e)"

definition default_status :: "RequestLog \<Rightarrow> RequestLog" where
  "default_status e =
     (if RequestStatus e = [] then e \<lparr> RequestStatus := RequestStatusForHTTP (StatusCode e) \<rparr> else e)"

definition cap_charge :: "RequestLog \<Rightarrow> RequestLog" where
  "cap_charge e =
     (if ChargeCeilingNanoUSD e > 0 \<and> CostNanoUSD e > ChargeCeilingNanoUSD e
      then e \<lparr> CostNanoUSD := ChargeCeilingNanoUSD e, Cost := USD (ChargeCeilingNanoUSD e),
               UsageEstimated := True,
               ErrorMessage := ErrorMessage e
                 @ (if ErrorMessage e \<noteq> [] then ''; '' else [])
                 @ ''provider usage exceeded the affordable request ceiling; customer charge capped'' \<rparr>
      else e)"

definition normalizeSettledEntry :: "RequestLog \<Rightarrow> db_error + RequestLog" where
  "normalizeSettledEntry entry =
     ebind (normalizeRequestLogMoney entry) (\<lambda>e. Inr (cap_charge (default_status (zero_failed e))))"

definition requestLogExists :: "store \<Rightarrow> string \<Rightarrow> bool" where
  "requestLogExists db requestID \<longleftrightarrow> list_ex (\<lambda>e. rl_ID e = requestID) (request_logs db)"

fun insert_price_lines :: "store \<Rightarrow> string \<Rightarrow> RequestPriceLine list \<Rightarrow> store" where
  "insert_price_lines db ident [] = db"
| "insert_price_lines db ident (line # rest) =
     insert_price_lines
       (if list_ex (\<lambda>(i, l). i = ident \<and> rpl_TokenClass l = rpl_TokenClass line) (request_pricing_lines db)
        then db
        else db \<lparr> request_pricing_lines := request_pricing_lines db @ [(ident, line)] \<rparr>)
       ident rest"

definition log_row :: "RequestLog \<Rightarrow> RequestLog" where
  "log_row entry =
     (let e = (if AttemptNumber entry \<le> 0 then entry \<lparr> AttemptNumber := 1 \<rparr> else entry);
          e = (if RequestStatus e = [] then e \<lparr> RequestStatus := RequestStatusForHTTP (StatusCode e) \<rparr> else e);
          p = Pricing e;
          p = (if PriceMultiplierNum p \<le> 0 \<and> PriceMultiplierDen p \<le> 0
               then p \<lparr> PriceMultiplierNum := 1, PriceMultiplierDen := 1 \<rparr> else p);
          p = (if PriceMultiplierDen p \<le> 0 then p \<lparr> PriceMultiplierDen := 1 \<rparr> else p);
          p = (if lp_PromptAccounting p = [] then p \<lparr> lp_PromptAccounting := ''inclusive'' \<rparr> else p)
      in e \<lparr> Pricing := p \<rparr>)"

text \<open>The constraints of src/db/migrations 023, 030 and 035 on the row: its CHECKs, and one row per key, client
  request and attempt. Foreign keys and the columns' lengths are not modelled, and the CHECKs on a price
  line hold of every line of a quote.\<close>

definition log_row_checked :: "RequestLog \<Rightarrow> bool" where
  "log_row_checked e \<longleftrightarrow>
     CostNanoUSD e \<ge> 0 \<and> PriceMultiplierNum (Pricing e) \<ge> 0 \<and> PriceMultiplierDen (Pricing e) > 0 \<and>
     (case UpstreamCostNanoUSD (Pricing e) of None \<Rightarrow> True | Some c \<Rightarrow> c \<ge> 0) \<and>
     AttemptNumber e > 0 \<and> CacheEpoch (Meter e) \<ge> 0 \<and>
     lm_InputTokens (Meter e) \<ge> 0 \<and> lm_OutputTokens (Meter e) \<ge> 0 \<and> lm_CacheReadTokens (Meter e) \<ge> 0 \<and>
     lm_CacheWriteTokens (Meter e) \<ge> 0 \<and>
     (case CacheMissTokens (Meter e) of None \<Rightarrow> True | Some n \<Rightarrow> n \<ge> 0) \<and>
     RequestStatus e \<in> {''succeeded'', ''failed'', ''cancelled'', ''timed_out'', ''rejected_budget'', ''rejected_rate_limit''}"

definition attempt_taken :: "store \<Rightarrow> RequestLog \<Rightarrow> bool" where
  "attempt_taken db e \<longleftrightarrow> ClientRequestID (Origin e) \<noteq> [] \<and>
     list_ex (\<lambda>r. VirtualKeyID (Origin r) = VirtualKeyID (Origin e) \<and> ClientRequestID (Origin r) = ClientRequestID (Origin e) \<and>
       AttemptNumber r = AttemptNumber e) (request_logs db)"

definition insertRequestLog :: "store \<Rightarrow> RequestLog \<Rightarrow> db_error + store" where
  "insertRequestLog db entry =
     (let e = log_row entry
      in if \<not> log_row_checked e then Inl ErrConstraint
         else if requestLogExists db (rl_ID e) then Inr db
         else if attempt_taken db e then Inl ErrConstraint
         else Inr (insert_price_lines (db \<lparr> request_logs := request_logs db @ [e] \<rparr>)
                     (rl_ID e) (PricingLines (Pricing e))))"

definition InsertRequestLog :: "store \<Rightarrow> RequestLog \<Rightarrow> db_error + store" where
  "InsertRequestLog db entry = ebind (normalizeRequestLogMoney entry) (insertRequestLog db)"

section \<open>The charge\<close>

fun marginal_loop ::
  "store \<Rightarrow> db_user \<Rightarrow> RequestLog \<Rightarrow> BudgetWindow list \<Rightarrow> nano_usd \<Rightarrow> db_error + nano_usd" where
  "marginal_loop db u entry [] maximum = Inr maximum"
| "marginal_loop db u entry (window # ws) maximum =
     (let floor_at = effectiveFloor
            (windowPeriodStart (u_PlanAssignedAt u) (bw_DurationSeconds window) (rl_CreatedAt entry))
            (u_UsageResetAt u)
      in ebind (successfulSpendSince db (UserID entry) floor_at) (\<lambda>spent.
           let before = Max_nano 0 (i64 (spent - bw_BudgetNanoUSD window));
               after = Max_nano 0 (i64 (i64 (spent + CostNanoUSD entry) - bw_BudgetNanoUSD window));
               delta = i64 (after - before)
           in marginal_loop db u entry ws (if delta > maximum then delta else maximum)))"

definition marginalTopupCharge :: "store \<Rightarrow> RequestLog \<Rightarrow> db_error + nano_usd" where
  "marginalTopupCharge db entry =
     (case find (\<lambda>u. u_ID u = UserID entry) (users db) of
        None \<Rightarrow> Inl ErrNoRows
      | Some u \<Rightarrow> marginal_loop db u entry (budgetWindowLimits db (u_PlanID u)) 0)"

text \<open>\<open>ORDER BY expires_at ASC NULLS LAST, created_at ASC\<close>.\<close>

definition topup_key :: "UserTopup \<Rightarrow> bool \<times> instant \<times> instant" where
  "topup_key t =
     (case tu_ExpiresAt t of
        None \<Rightarrow> (True, 0, tu_CreatedAt t)
      | Some e \<Rightarrow> (False, e, tu_CreatedAt t))"

definition spendable :: "store \<Rightarrow> instant \<Rightarrow> string \<Rightarrow> UserTopup list" where
  "spendable db dbnow userID =
     sort_key topup_key (filter (\<lambda>t. tu_UsedNanoUSD t < tu_AmountNanoUSD t) (activeTopups db dbnow userID))"

definition use_topup :: "string \<Rightarrow> nano_usd \<Rightarrow> UserTopup list \<Rightarrow> UserTopup list" where
  "use_topup ident consume tops =
     map (\<lambda>t. if tu_ID t = ident
              then t \<lparr> tu_UsedNanoUSD := tu_UsedNanoUSD t + consume,
                       tu_UsedCredits := f64_div (f64_of_int (tu_UsedNanoUSD t + consume)) (f64_of_int PerCredit) \<rparr>
              else t) tops"

fun deduct_loop :: "UserTopup list \<Rightarrow> nano_usd \<Rightarrow> UserTopup list \<Rightarrow> UserTopup list" where
  "deduct_loop [] remaining tops = tops"
| "deduct_loop (current # rest) remaining tops =
     (let consume = Min_nano remaining (tu_AmountNanoUSD current - tu_UsedNanoUSD current);
          tops = use_topup (tu_ID current) consume tops;
          remaining = remaining - consume
      in if remaining = 0 then tops else deduct_loop rest remaining tops)"

definition deductNanoFromTopups :: "store \<Rightarrow> instant \<Rightarrow> string \<Rightarrow> nano_usd \<Rightarrow> store" where
  "deductNanoFromTopups db dbnow userID amount =
     (if amount \<le> 0 then db
      else db \<lparr> user_topups := deduct_loop (spendable db dbnow userID) amount (user_topups db) \<rparr>)"

definition SettleUsageAndLog :: "store \<Rightarrow> instant \<Rightarrow> RequestLog \<Rightarrow> db_error + store" where
  "SettleUsageAndLog db dbnow entry =
     ebind (normalizeSettledEntry entry) (\<lambda>e.
       if requestLogExists db (rl_ID e) then Inr db
       else
         ebind (if CostNanoUSD e > 0
                then ebind (marginalTopupCharge db e) (\<lambda>charge.
                       Inr (deductNanoFromTopups db dbnow (UserID e) charge))
                else Inr db)
           (\<lambda>db. insertRequestLog db e))"

section \<open>A balance that is drawn down\<close>

locale prepaid =
  fixes draw :: "int \<Rightarrow> 's \<Rightarrow> 's" and balance :: "'s \<Rightarrow> int" and good :: "'s \<Rightarrow> bool"
  assumes draw_good: "good s \<Longrightarrow> good (draw a s)"
    and draw_balance: "good s \<Longrightarrow> balance (draw a s) = balance s - min (max 0 a) (balance s)"
    and balance_nonneg: "good s \<Longrightarrow> 0 \<le> balance s"
begin

fun draws :: "int list \<Rightarrow> 's \<Rightarrow> 's" where
  "draws [] s = s"
| "draws (a # as) s = draws as (draw a s)"

text \<open>Any sequence of draws takes the sum of its amounts, or all there is.\<close>

lemma draws_balance:
  assumes "good s" "\<forall>a \<in> set as. 0 \<le> a"
  shows "good (draws as s) \<and> balance (draws as s) = balance s - min (sum_list as) (balance s)"
  using assms
proof (induction as arbitrary: s)
  case Nil
  then show ?case using balance_nonneg by simp
next
  case (Cons a as)
  have "good (draw a s)" using draw_good Cons.prems(1) .
  moreover have "0 \<le> sum_list as" using Cons.prems(2) by (simp add: sum_list_nonneg)
  ultimately show ?case
    using Cons.IH [of "draw a s"] Cons.prems draw_balance [OF Cons.prems(1), of a]
      balance_nonneg [OF Cons.prems(1)] by auto
qed

end

section \<open>Lemmas on the deduction\<close>

text \<open>What the table guarantees of its rows.\<close>

definition topups_ok :: "UserTopup list \<Rightarrow> bool" where
  "topups_ok tops \<longleftrightarrow> distinct (map tu_ID tops) \<and>
     (\<forall>t \<in> set tops. 0 \<le> tu_UsedNanoUSD t \<and> tu_UsedNanoUSD t \<le> tu_AmountNanoUSD t)"

definition topup_balance :: "instant \<Rightarrow> string \<Rightarrow> store \<Rightarrow> int" where
  "topup_balance dbnow userID db = sum_list (map topup_remaining (activeTopups db dbnow userID))"

lemma map_tu_ID_use_topup [simp]: "map tu_ID (use_topup i c tops) = map tu_ID tops"
  by (simp add: use_topup_def)

lemma use_topup_other: "t \<in> set tops \<Longrightarrow> tu_ID t \<noteq> i \<Longrightarrow> t \<in> set (use_topup i c tops)"
  by (force simp: use_topup_def)

lemma use_topup_hit:
  "t \<in> set tops \<Longrightarrow> tu_ID t = i \<Longrightarrow>
   \<exists>t' \<in> set (use_topup i c tops). tu_ID t' = i \<and> topup_remaining t' = topup_remaining t - c"
  by (rule bexI [of _ "t \<lparr> tu_UsedNanoUSD := tu_UsedNanoUSD t + c,
        tu_UsedCredits := f64_div (f64_of_int (tu_UsedNanoUSD t + c)) (f64_of_int PerCredit) \<rparr>"])
    (auto simp: use_topup_def topup_remaining_def image_iff)

lemma use_topup_absent: "i \<notin> tu_ID ` set tops \<Longrightarrow> use_topup i c tops = tops"
  by (auto simp: use_topup_def intro!: map_idI)

lemma same_row: "topups_ok tops \<Longrightarrow> s \<in> set tops \<Longrightarrow> t \<in> set tops \<Longrightarrow> tu_ID s = tu_ID t \<Longrightarrow> s = t"
  by (auto simp: topups_ok_def distinct_map inj_on_def)

lemma use_topup_sum:
  assumes "distinct (map tu_ID tops)" "t \<in> set tops"
  shows "sum_list (map topup_remaining (use_topup (tu_ID t) c tops)) =
    sum_list (map topup_remaining tops) - c"
  using assms
proof (induction tops)
  case (Cons a tops)
  show ?case
  proof (cases "tu_ID a = tu_ID t")
    case True
    with Cons.prems have "tu_ID t \<notin> tu_ID ` set tops" by auto
    then have "use_topup (tu_ID t) c tops = tops" by (rule use_topup_absent)
    with True show ?thesis by (simp add: use_topup_def topup_remaining_def)
  next
    case False
    with Cons show ?thesis by (auto simp: use_topup_def)
  qed
qed simp

text \<open>A selection of rows that does not look at what was used.\<close>

definition blind :: "(UserTopup \<Rightarrow> bool) \<Rightarrow> bool" where
  "blind P \<longleftrightarrow> (\<forall>t x y. P (t \<lparr> tu_UsedNanoUSD := x, tu_UsedCredits := y \<rparr>) = P t)"

lemma filter_use_topup: "blind P \<Longrightarrow> filter P (use_topup i c tops) = use_topup i c (filter P tops)"
  by (induction tops) (auto simp: use_topup_def blind_def)

lemma use_topup_ok:
  assumes "topups_ok tops" "t \<in> set tops" "0 \<le> c" "c \<le> topup_remaining t"
  shows "topups_ok (use_topup (tu_ID t) c tops)"
proof -
  have "0 \<le> tu_UsedNanoUSD u \<and> tu_UsedNanoUSD u \<le> tu_AmountNanoUSD u"
    if "u \<in> set (use_topup (tu_ID t) c tops)" for u
  proof -
    obtain v where v: "v \<in> set tops" and u: "u = (if tu_ID v = tu_ID t then
        v \<lparr> tu_UsedNanoUSD := tu_UsedNanoUSD v + c,
            tu_UsedCredits := f64_div (f64_of_int (tu_UsedNanoUSD v + c)) (f64_of_int PerCredit) \<rparr> else v)"
      using \<open>u \<in> set (use_topup (tu_ID t) c tops)\<close> by (auto simp: use_topup_def)
    have "0 \<le> tu_UsedNanoUSD v \<and> tu_UsedNanoUSD v \<le> tu_AmountNanoUSD v"
      using assms(1) v by (simp add: topups_ok_def)
    moreover have "tu_ID v = tu_ID t \<Longrightarrow> v = t" using same_row [OF assms(1) v assms(2)] .
    ultimately show ?thesis using assms(3,4) by (auto simp: u topup_remaining_def)
  qed
  then show ?thesis using assms(1) by (simp add: topups_ok_def)
qed

text \<open>Rows to draw from: rows of the table, each once, with something left.\<close>

definition drawable :: "UserTopup list \<Rightarrow> UserTopup list \<Rightarrow> bool" where
  "drawable sel tops \<longleftrightarrow>
     set sel \<subseteq> set tops \<and> distinct (map tu_ID sel) \<and> (\<forall>s \<in> set sel. 0 < topup_remaining s)"

lemma drawable_Cons:
  assumes "drawable (s # sel) tops"
  shows "s \<in> set tops" "0 < topup_remaining s" "drawable sel (use_topup (tu_ID s) c tops)"
  using assms by (auto simp: drawable_def image_iff intro!: use_topup_other)

lemma deduct_loop_balance:
  assumes "topups_ok tops" "drawable sel tops" "\<forall>s \<in> set sel. P s" "blind P" "0 \<le> a"
  shows "topups_ok (deduct_loop sel a tops) \<and>
    sum_list (map topup_remaining (filter P (deduct_loop sel a tops))) =
    sum_list (map topup_remaining (filter P tops)) - min a (sum_list (map topup_remaining sel))"
  using assms(1-3,5)
proof (induction sel arbitrary: a tops)
  case (Cons s sel)
  define c where "c = Min_nano a (topup_remaining s)"
  define tops' where "tops' = use_topup (tu_ID s) c tops"
  note d = drawable_Cons(1,2) [OF Cons.prems(2)] drawable_Cons(3) [OF Cons.prems(2), of c, folded tops'_def]
  have c: "c = min a (topup_remaining s)" by (simp add: c_def Min_nano_def min_def)
  have ok: "topups_ok tops'"
    unfolding tops'_def using Cons.prems(1,4) d(1,2) by (intro use_topup_ok) (simp_all add: c)
  have "s \<in> set (filter P tops)" using d(1) Cons.prems(3) by simp
  moreover have "distinct (map tu_ID (filter P tops))"
    using Cons.prems(1) by (simp add: topups_ok_def distinct_map_filter)
  ultimately have sum: "sum_list (map topup_remaining (filter P tops')) =
      sum_list (map topup_remaining (filter P tops)) - c"
    unfolding tops'_def filter_use_topup [OF assms(4)] by (intro use_topup_sum)
  have pos: "0 \<le> sum_list (map topup_remaining sel)"
    using Cons.prems(2) by (intro sum_list_nonneg) (auto simp: drawable_def intro: less_imp_le)
  have step: "deduct_loop (s # sel) a tops = (if a - c = 0 then tops' else deduct_loop sel (a - c) tops')"
    by (simp add: Let_def tops'_def c_def topup_remaining_def)
  show ?case
  proof (cases "a - c = 0")
    case True
    then have "min a (sum_list (map topup_remaining (s # sel))) = c" using pos c by simp
    with True step ok sum show ?thesis by simp
  next
    case False
    have "min a (sum_list (map topup_remaining (s # sel))) = c + min (a - c) (sum_list (map topup_remaining sel))"
      using False pos c by auto
    with Cons.IH [OF ok d(3)] Cons.prems(3,4) False step sum c show ?thesis by auto
  qed
qed simp

lemma blind_active: "blind (\<lambda>t. tu_UserID t = userID \<and> activeTopup dbnow t)"
  by (simp add: blind_def activeTopup_def)

lemma sum_spendable:
  assumes "topups_ok (user_topups db)"
  shows "sum_list (map topup_remaining (spendable db dbnow userID)) = topup_balance dbnow userID db"
proof -
  have "sum_list (map topup_remaining (filter (\<lambda>t. tu_UsedNanoUSD t < tu_AmountNanoUSD t) ts)) =
      sum_list (map topup_remaining ts)"
    if "\<forall>t \<in> set ts. tu_UsedNanoUSD t \<le> tu_AmountNanoUSD t" for ts
    using that by (induction ts) (auto simp: topup_remaining_def)
  moreover have "\<forall>t \<in> set (activeTopups db dbnow userID). tu_UsedNanoUSD t \<le> tu_AmountNanoUSD t"
    using assms by (auto simp: topups_ok_def activeTopups_def)
  moreover have "sum_list (map f (sort_key k xs)) = sum_list (map f xs)" for f :: "UserTopup \<Rightarrow> int" and k :: "UserTopup \<Rightarrow> bool \<times> int \<times> int" and xs
    by (metis mset_map mset_sort sum_mset_sum_list)
  ultimately show ?thesis by (simp add: spendable_def topup_balance_def)
qed

lemma drawable_spendable:
  assumes "topups_ok (user_topups db)"
  shows "drawable (spendable db dbnow userID) (user_topups db)"
proof -
  have "distinct (map tu_ID (user_topups db))" using assms by (simp add: topups_ok_def)
  then have "distinct (map tu_ID (filter P (user_topups db)))" for P by (rule distinct_map_filter)
  then have "distinct (map tu_ID (filter (\<lambda>t. tu_UsedNanoUSD t < tu_AmountNanoUSD t) (activeTopups db dbnow userID)))"
    by (simp add: activeTopups_def)
  then have "distinct (map tu_ID (spendable db dbnow userID))"
    by (simp add: spendable_def distinct_map)
  then show ?thesis
    by (auto simp: drawable_def spendable_def activeTopups_def topup_remaining_def)
qed

lemma deduct_balance:
  assumes "topups_ok (user_topups db)"
  shows "topups_ok (user_topups (deductNanoFromTopups db dbnow userID a))"
    and "topup_balance dbnow userID (deductNanoFromTopups db dbnow userID a) =
      topup_balance dbnow userID db - min (max 0 a) (topup_balance dbnow userID db)"
proof -
  have pos: "0 \<le> topup_balance dbnow userID db"
    using assms unfolding topup_balance_def
    by (intro sum_list_nonneg) (auto simp: topups_ok_def activeTopups_def topup_remaining_def)
  have sel: "\<forall>s \<in> set (spendable db dbnow userID). tu_UserID s = userID \<and> activeTopup dbnow s"
    by (auto simp: spendable_def activeTopups_def)
  note loop = deduct_loop_balance [OF assms drawable_spendable [OF assms] sel blind_active, of a]
  show "topups_ok (user_topups (deductNanoFromTopups db dbnow userID a))"
    using loop assms by (simp add: deductNanoFromTopups_def)
  show "topup_balance dbnow userID (deductNanoFromTopups db dbnow userID a) =
      topup_balance dbnow userID db - min (max 0 a) (topup_balance dbnow userID db)"
    using loop pos sum_spendable [OF assms]
    by (simp add: deductNanoFromTopups_def topup_balance_def activeTopups_def)
qed

interpretation topups: prepaid "\<lambda>a db. deductNanoFromTopups db dbnow userID a"
  "topup_balance dbnow userID" "\<lambda>db. topups_ok (user_topups db)" for dbnow userID
proof
  fix s :: store
  assume "topups_ok (user_topups s)"
  then show "0 \<le> topup_balance dbnow userID s"
    unfolding topup_balance_def
    by (intro sum_list_nonneg) (auto simp: topups_ok_def activeTopups_def topup_remaining_def)
qed (simp_all add: deduct_balance)

text \<open>Rows outside the selection keep their contents; a selection is drawn from front to back.\<close>

lemma deduct_loop_frame:
  "t \<in> set tops \<Longrightarrow> tu_ID t \<notin> tu_ID ` set sel \<Longrightarrow> t \<in> set (deduct_loop sel a tops)"
  by (induction sel arbitrary: a tops) (auto simp: Let_def use_topup_other)

lemma deduct_loop_exhausts:
  assumes "drawable (xs @ s # ys) tops" "topups_ok tops" "0 < a"
    and "sum_list (map topup_remaining (xs @ [s])) \<le> a"
  shows "\<exists>s' \<in> set (deduct_loop (xs @ s # ys) a tops). tu_ID s' = tu_ID s \<and> topup_remaining s' = 0"
  using assms
proof (induction xs arbitrary: a tops)
  case Nil
  have s: "s \<in> set tops" "0 < topup_remaining s" using Nil.prems(1) by (simp_all add: drawable_def)
  have "Min_nano a (tu_AmountNanoUSD s - tu_UsedNanoUSD s) = topup_remaining s"
    using Nil.prems(4) by (simp add: Min_nano_def topup_remaining_def)
  moreover obtain s' where "s' \<in> set (use_topup (tu_ID s) (topup_remaining s) tops)"
    "tu_ID s' = tu_ID s" "topup_remaining s' = 0"
    using use_topup_hit [OF s(1) refl, of "topup_remaining s"] by auto
  moreover have "tu_ID s \<notin> tu_ID ` set ys" using Nil.prems(1) by (simp add: drawable_def)
  ultimately show ?case using deduct_loop_frame [of s' _ ys] by (auto simp: Let_def)
next
  case (Cons x xs)
  have x: "x \<in> set tops" "0 < topup_remaining x" using drawable_Cons(1,2) Cons.prems(1) by auto
  have "\<forall>z \<in> set xs. 0 \<le> topup_remaining z" using Cons.prems(1) by (auto simp: drawable_def less_imp_le)
  then have nn: "0 \<le> sum_list (map topup_remaining xs)" "0 < topup_remaining s"
    using Cons.prems(1) by (auto simp: drawable_def intro!: sum_list_nonneg)
  then have lt: "topup_remaining x < a" using Cons.prems(4) by simp
  then have c: "Min_nano a (tu_AmountNanoUSD x - tu_UsedNanoUSD x) = topup_remaining x"
    by (simp add: Min_nano_def topup_remaining_def)
  define tops' where "tops' = use_topup (tu_ID x) (topup_remaining x) tops"
  have "drawable (xs @ s # ys) tops'"
    using drawable_Cons(3) Cons.prems(1) unfolding tops'_def by simp
  moreover have "topups_ok tops'"
    unfolding tops'_def using Cons.prems(2) x by (intro use_topup_ok) auto
  ultimately have "\<exists>s' \<in> set (deduct_loop (xs @ s # ys) (a - topup_remaining x) tops').
      tu_ID s' = tu_ID s \<and> topup_remaining s' = 0"
    using Cons.IH [of tops' "a - topup_remaining x"] Cons.prems(4) lt by simp
  then show ?case using c lt by (simp add: Let_def tops'_def)
qed

lemma deduct_loop_untouched:
  assumes "drawable (xs @ ys) tops" "0 < a" "a \<le> sum_list (map topup_remaining xs)" "t \<in> set ys"
    "t \<in> set tops"
  shows "t \<in> set (deduct_loop (xs @ ys) a tops)"
  using assms
proof (induction xs arbitrary: a tops)
  case (Cons x xs)
  have x: "tu_ID t \<noteq> tu_ID x" using Cons.prems(1,4) by (auto simp: drawable_def image_iff)
  define c where "c = Min_nano a (tu_AmountNanoUSD x - tu_UsedNanoUSD x)"
  have t: "t \<in> set (use_topup (tu_ID x) c tops)" using use_topup_other [OF Cons.prems(5) x] .
  show ?case
  proof (cases "a - c = 0")
    case True
    with t show ?thesis by (simp add: Let_def c_def)
  next
    case False
    then have "c = topup_remaining x" "0 < a - c"
      by (auto simp: c_def Min_nano_def topup_remaining_def split: if_splits)
    moreover have "drawable (xs @ ys) (use_topup (tu_ID x) c tops)"
      using drawable_Cons(3) Cons.prems(1) by simp
    ultimately have "t \<in> set (deduct_loop (xs @ ys) (a - c) (use_topup (tu_ID x) c tops))"
      using Cons.prems(3,4) t by (intro Cons.IH) auto
    with False show ?thesis by (simp add: Let_def c_def)
  qed
qed simp

section \<open>Lemmas on the settlement\<close>

lemma insert_price_lines_logs [simp]:
  "request_logs (insert_price_lines db i ls) = request_logs db"
  "user_topups (insert_price_lines db i ls) = user_topups db"
  "users (insert_price_lines db i ls) = users db"
  "budget_windows (insert_price_lines db i ls) = budget_windows db"
  by (induction ls arbitrary: db) simp_all

lemma deduct_frame [simp]:
  "request_logs (deductNanoFromTopups db n u a) = request_logs db"
  "users (deductNanoFromTopups db n u a) = users db"
  "budget_windows (deductNanoFromTopups db n u a) = budget_windows db"
  by (simp_all add: deductNanoFromTopups_def)

lemma log_row_fields [simp]:
  "rl_ID (log_row e) = rl_ID e" "CostNanoUSD (log_row e) = CostNanoUSD e"
  "UserID (log_row e) = UserID e" "StatusCode (log_row e) = StatusCode e"
  "rl_CreatedAt (log_row e) = rl_CreatedAt e"
  "PricingLines (Pricing (log_row e)) = PricingLines (Pricing e)"
  by (simp_all add: log_row_def Let_def)

lemma normalizeRequestLogMoney_fields:
  assumes "normalizeRequestLogMoney entry = Inr e"
  shows "rl_ID e = rl_ID entry" "UserID e = UserID entry" "StatusCode e = StatusCode entry"
    "rl_CreatedAt e = rl_CreatedAt entry" "ChargeCeilingNanoUSD e = ChargeCeilingNanoUSD entry"
    "Pricing e = Pricing entry"
  using assms by (auto simp: normalizeRequestLogMoney_def ebind_eq_Inr)

lemma settle_step_fields [simp]:
  "rl_ID (zero_failed e) = rl_ID e" "UserID (zero_failed e) = UserID e"
  "StatusCode (zero_failed e) = StatusCode e" "rl_CreatedAt (zero_failed e) = rl_CreatedAt e"
  "ChargeCeilingNanoUSD (zero_failed e) = ChargeCeilingNanoUSD e" "Pricing (zero_failed e) = Pricing e"
  "CostNanoUSD (zero_failed e) = (if successful e then CostNanoUSD e else 0)"
  "rl_ID (default_status e) = rl_ID e" "UserID (default_status e) = UserID e"
  "StatusCode (default_status e) = StatusCode e" "rl_CreatedAt (default_status e) = rl_CreatedAt e"
  "ChargeCeilingNanoUSD (default_status e) = ChargeCeilingNanoUSD e"
  "Pricing (default_status e) = Pricing e" "CostNanoUSD (default_status e) = CostNanoUSD e"
  "rl_ID (cap_charge e) = rl_ID e" "UserID (cap_charge e) = UserID e"
  "StatusCode (cap_charge e) = StatusCode e" "rl_CreatedAt (cap_charge e) = rl_CreatedAt e"
  "ChargeCeilingNanoUSD (cap_charge e) = ChargeCeilingNanoUSD e" "Pricing (cap_charge e) = Pricing e"
  "CostNanoUSD (cap_charge e) =
     (if ChargeCeilingNanoUSD e > 0 then min (ChargeCeilingNanoUSD e) (CostNanoUSD e) else CostNanoUSD e)"
  by (auto simp: zero_failed_def default_status_def cap_charge_def successful_def)

lemma normalizeSettledEntry_fields:
  assumes "normalizeSettledEntry entry = Inr e"
  shows "rl_ID e = rl_ID entry" "UserID e = UserID entry" "StatusCode e = StatusCode entry"
    "rl_CreatedAt e = rl_CreatedAt entry" "ChargeCeilingNanoUSD e = ChargeCeilingNanoUSD entry"
    "Pricing e = Pricing entry"
    and "\<not> successful e \<longrightarrow> CostNanoUSD e = 0"
    and "0 < ChargeCeilingNanoUSD e \<longrightarrow> CostNanoUSD e \<le> ChargeCeilingNanoUSD e"
proof -
  obtain e0 where e0: "normalizeRequestLogMoney entry = Inr e0"
    and e: "e = cap_charge (default_status (zero_failed e0))"
    using assms by (auto simp: normalizeSettledEntry_def ebind_eq_Inr)
  note f = normalizeRequestLogMoney_fields [OF e0]
  show "rl_ID e = rl_ID entry" "UserID e = UserID entry" "StatusCode e = StatusCode entry"
    "rl_CreatedAt e = rl_CreatedAt entry" "ChargeCeilingNanoUSD e = ChargeCeilingNanoUSD entry"
    "Pricing e = Pricing entry"
    unfolding e by (simp_all add: f)
  show "\<not> successful e \<longrightarrow> CostNanoUSD e = 0"
    unfolding e by (simp add: successful_def)
  show "0 < ChargeCeilingNanoUSD e \<longrightarrow> CostNanoUSD e \<le> ChargeCeilingNanoUSD e"
    unfolding e by simp
qed

lemma insertRequestLog_InrD:
  assumes "insertRequestLog db e = Inr db'" "\<not> requestLogExists db (rl_ID e)"
  shows "request_logs db' = request_logs db @ [log_row e]" "0 \<le> CostNanoUSD e"
    "user_topups db' = user_topups db" "users db' = users db" "budget_windows db' = budget_windows db"
  using assms by (auto simp: insertRequestLog_def Let_def log_row_checked_def split: if_splits)

lemma SettleUsageAndLog_InrE:
  assumes "SettleUsageAndLog db dbnow entry = Inr db'" "\<not> requestLogExists db (rl_ID entry)"
  obtains e charge where "normalizeSettledEntry entry = Inr e"
    "if 0 < CostNanoUSD e then marginalTopupCharge db e = Inr charge else charge = 0"
    "insertRequestLog (deductNanoFromTopups db dbnow (UserID e) charge) e = Inr db'"
proof -
  obtain e where e: "normalizeSettledEntry entry = Inr e"
    using assms(1) by (auto simp: SettleUsageAndLog_def ebind_eq_Inr)
  have new: "\<not> requestLogExists db (rl_ID e)" using assms(2) normalizeSettledEntry_fields(1) [OF e] by simp
  show thesis
  proof (cases "0 < CostNanoUSD e")
    case True
    with assms(1) e new obtain charge where "marginalTopupCharge db e = Inr charge"
      "insertRequestLog (deductNanoFromTopups db dbnow (UserID e) charge) e = Inr db'"
      by (auto simp: SettleUsageAndLog_def ebind_eq_Inr)
    with True e show thesis by (intro that [of e charge]) simp_all
  next
    case False
    with assms(1) e new have "insertRequestLog db e = Inr db'"
      by (simp add: SettleUsageAndLog_def)
    with False e show thesis by (intro that [of e 0]) (simp_all add: deductNanoFromTopups_def)
  qed
qed

lemma failed_settles_free:
  assumes "SettleUsageAndLog db dbnow entry = Inr db'" "\<not> requestLogExists db (rl_ID entry)" "\<not> successful entry"
  shows "\<exists>row. request_logs db' = request_logs db @ [row] \<and> rl_ID row = rl_ID entry \<and> CostNanoUSD row = 0"
    "user_topups db' = user_topups db"
proof -
  obtain e charge where e: "normalizeSettledEntry entry = Inr e"
    and charge: "if 0 < CostNanoUSD e then marginalTopupCharge db e = Inr charge else charge = 0"
    and ins: "insertRequestLog (deductNanoFromTopups db dbnow (UserID e) charge) e = Inr db'"
    by (rule SettleUsageAndLog_InrE [OF assms(1,2)])
  note f = normalizeSettledEntry_fields [OF e]
  have "successful e = successful entry" using f(3) by (simp add: successful_def)
  with f assms(3) have free: "CostNanoUSD e = 0" by simp
  then have "deductNanoFromTopups db dbnow (UserID e) charge = db" using charge by (simp add: deductNanoFromTopups_def)
  then have ins: "insertRequestLog db e = Inr db'" using ins by simp
  have "\<not> requestLogExists db (rl_ID e)" using assms(2) f(1) by simp
  note i = insertRequestLog_InrD [OF ins this]
  show "\<exists>row. request_logs db' = request_logs db @ [row] \<and> rl_ID row = rl_ID entry \<and> CostNanoUSD row = 0"
    using i f(1) free by (intro exI [of _ "log_row e"]) simp
  show "user_topups db' = user_topups db" using i(3) .
qed

text \<open>The charge of a window, without wrap-around.\<close>

definition overage :: "int \<Rightarrow> int \<Rightarrow> int \<Rightarrow> int" where
  "overage budget spent cost = max 0 (spent + cost - budget) - max 0 (spent - budget)"

lemma overage_bounds: "0 \<le> cost \<Longrightarrow> 0 \<le> overage b s cost \<and> overage b s cost \<le> cost"
  by (auto simp: overage_def max_def)

lemma marginal_loop_bounds:
  assumes "marginal_loop db u e ws m = Inr charge" "0 \<le> CostNanoUSD e" "0 \<le> m" "m \<le> CostNanoUSD e"
    and "\<forall>w \<in> set ws. 0 \<le> bw_BudgetNanoUSD w \<and> in64 (bw_BudgetNanoUSD w)"
    and "\<forall>f. 0 \<le> spend_sum db (UserID e) f \<and> in64 (spend_sum db (UserID e) f + CostNanoUSD e)"
  shows "0 \<le> charge \<and> charge \<le> CostNanoUSD e"
  using assms
proof (induction ws arbitrary: m)
  case (Cons w ws)
  define f where "f = effectiveFloor
        (windowPeriodStart (u_PlanAssignedAt u) (bw_DurationSeconds w) (rl_CreatedAt e)) (u_UsageResetAt u)"
  define sp where "sp = spend_sum db (UserID e) f"
  have sp: "0 \<le> sp" "in64 (sp + CostNanoUSD e)" using Cons.prems(6) by (simp_all add: sp_def)
  have b: "0 \<le> bw_BudgetNanoUSD w" "in64 (bw_BudgetNanoUSD w)" using Cons.prems(5) by simp_all
  have "in64 (sp - bw_BudgetNanoUSD w)" "in64 (sp + CostNanoUSD e - bw_BudgetNanoUSD w)"
    using sp b Cons.prems(2) by (auto simp: in64_def int64_consts)
  moreover have o: "0 \<le> overage (bw_BudgetNanoUSD w) sp (CostNanoUSD e) \<and>
      overage (bw_BudgetNanoUSD w) sp (CostNanoUSD e) \<le> CostNanoUSD e"
    using overage_bounds [OF Cons.prems(2)] .
  moreover have "in64 (overage (bw_BudgetNanoUSD w) sp (CostNanoUSD e))"
    using o sp by (auto simp: in64_def int64_consts)
  moreover have "Max_nano 0 x = max 0 x" for x by (simp add: Max_nano_def)
  ultimately have eq: "i64 (Max_nano 0 (i64 (i64 (sp + CostNanoUSD e) - bw_BudgetNanoUSD w)) -
      Max_nano 0 (i64 (sp - bw_BudgetNanoUSD w))) = overage (bw_BudgetNanoUSD w) sp (CostNanoUSD e)"
    using sp by (simp add: i64_id overage_def)
  have "marginal_loop db u e ws (if overage (bw_BudgetNanoUSD w) sp (CostNanoUSD e) > m
      then overage (bw_BudgetNanoUSD w) sp (CostNanoUSD e) else m) = Inr charge"
    using Cons.prems(1) eq
    by (auto simp: Let_def ebind_eq_Inr successfulSpendSince_def sp_def f_def)
  from Cons.IH [OF this Cons.prems(2)] o Cons.prems show ?case by (auto split: if_splits)
qed simp

text \<open>One more settled request of cost \<open>c\<close>, all of it overage, seen by the availability.\<close>

lemma availability_single:
  assumes "find (\<lambda>u. u_ID u = i \<and> u_Status u = ''active'') (users db) = Some u" "u_ID u = i"
    and "budgetWindowLimits db (u_PlanID u) = [w]"
    and "spent = spend_sum db i (effectiveFloor
           (windowPeriodStart (u_PlanAssignedAt u) (bw_DurationSeconds w) now) (u_UsageResetAt u))"
    and "in64 (topup_balance dbnow i db)" "in64 spent" "in64 (bw_BudgetNanoUSD w - spent)"
    and "in64 (bw_BudgetNanoUSD w - spent + topup_balance dbnow i db)"
  shows "AvailableBudgetNano db dbnow now i =
    Inr (max 0 (bw_BudgetNanoUSD w - spent + topup_balance dbnow i db))"
  using assms
  by (auto simp: AvailableBudgetNano_def budgetAvailability_def GetRemainingExtraNanoUSD_def
      topup_balance_def successfulSpendSince_def i64_id no_availability_def in64_def Let_def scan_int64_def)

section \<open>A concrete store\<close>

definition example_user :: db_user where
  "example_user = \<lparr> u_ID = ''u'', u_Name = [], u_Email = [], u_PlanID = ''p'', u_Status = ''active'', u_PlanAssignedAt = 0,
     u_UsageResetAt = None \<rparr>"

definition example_window :: BudgetWindow where
  "example_window = \<lparr> bw_ID = ''w'', bw_PlanID = ''p'', bw_Name = ''day'', bw_DurationSeconds = 86400,
     bw_BudgetUSD = FFin 0, bw_BudgetNanoUSD = 1000 \<rparr>"

definition example_topup :: "string \<Rightarrow> instant option \<Rightarrow> UserTopup" where
  "example_topup i e = \<lparr> tu_ID = i, tu_UserID = ''u'', tu_Credits = FFin 0, tu_UsedCredits = FFin 0,
     tu_AmountNanoUSD = 500, tu_UsedNanoUSD = 0, tu_CreatedAt = 0, tu_ExpiresAt = e,
     tu_DeletedAt = None, tu_IdemKey = None \<rparr>"

definition example_log :: "string \<Rightarrow> int \<Rightarrow> nano_usd \<Rightarrow> RequestLog" where
  "example_log i status cost = \<lparr> rl_ID = i, UserID = ''u'', AttemptNumber = 1, ModelID = ''m'', ProviderID = ''pr'',
     StatusCode = status, RequestStatus = ''succeeded'', Cost = FFin 0, CostNanoUSD = cost,
     ChargeCeilingNanoUSD = 2000, ErrorMessage = [], UsageEstimated = False, UpstreamProvider = [],
     BudgetWindowID = ''w'', BudgetWindowStartedAt = None, BudgetWindowResetAt = None, rl_CreatedAt = 50,
     Origin = \<lparr> VirtualKeyID = ''k'', OwnerName = [], SessionID = [], ClientRequestID = [],
       RequestPath = ''/v1/chat/completions'', ClientApp = [], RequestedModel = ''m'', Complexity = [],
       ThinkingLevel = [] \<rparr>,
     Meter = \<lparr> Streamed = False, CacheEpoch = 0, lm_InputTokens = 0, lm_OutputTokens = 0,
       lm_CacheReadTokens = 0, lm_CacheWriteTokens = 0, CacheMissTokens = None, ReasoningTokens = None,
       FirstTokenMS = None, LatencyMS = 0, FailoverAttempts = 0 \<rparr>,
     Pricing = \<lparr> PricingRuleSetID = ''m'', PricingTierThreshold = None, PriceWindowID = [],
       PriceMultiplierNum = 1, PriceMultiplierDen = 1, lp_PricedAt = None, lp_PromptAccounting = ''inclusive'',
       PricingLines = [\<lparr> rpl_TokenClass = ''output'', rpl_Tokens = 1, rpl_RatePerMillion = 1, rpl_Cost = cost \<rparr>],
       UsageAnomaly = [], UpstreamCostNanoUSD = None \<rparr> \<rparr>"

definition example_store :: store where
  "example_store = \<lparr> users = [example_user],
     plans = [\<lparr> p_ID = ''p'', p_Name = ''Plan'', p_RPMLimit = 2, p_TPMLimit = 1000 \<rparr>], budget_windows = [example_window],
     user_topups = [example_topup ''late'' None, example_topup ''soon'' (Some 1000)],
     request_logs = [], request_pricing_lines = [], usage_resets = [] \<rparr>"

lemma example_topups_ok: "topups_ok (user_topups example_store)"
  by (simp add: topups_ok_def example_store_def example_topup_def)

lemma example_windows: "budgetWindowLimits example_store ''p'' = [example_window]"
  by (simp add: budgetWindowLimits_def example_store_def example_window_def)

lemma example_spendable:
  "spendable example_store 60 ''u'' = [example_topup ''soon'' (Some 1000), example_topup ''late'' None]"
  by (simp add: spendable_def activeTopups_def example_store_def example_topup_def activeTopup_def topup_key_def)

lemma example_start: "effectiveFloor (windowPeriodStart (u_PlanAssignedAt example_user)
    (bw_DurationSeconds example_window) 60) (u_UsageResetAt example_user) = 0"
  by (simp add: example_user_def example_window_def windowPeriodStart_def IsZero_def zero_time_def
      nano_second_def i64_def time_sub_def int64_consts effectiveFloor_def)

lemma example_user_fields: "u_ID example_user = ''u''" "u_Status example_user = ''active''" "u_PlanID example_user = ''p''"
  by (simp_all add: example_user_def)

lemma example_balance: "topup_balance 60 ''u'' example_store = 1000"
  by (simp add: topup_balance_def activeTopups_def example_store_def example_topup_def activeTopup_def
      topup_remaining_def)

lemma example_available: "AvailableBudgetNano example_store 60 60 ''u'' = Inr 2000"
proof -
  have "users example_store = [example_user]" "bw_BudgetNanoUSD example_window = 1000"
    "spend_sum example_store ''u'' 0 = 0"
    by (simp_all add: example_store_def example_window_def spend_sum_def spend_rows_def)
  then show ?thesis
    using availability_single [of "''u''" example_store example_user example_window 0 60 60]
    by (simp add: example_user_fields example_windows example_start example_balance in64_def int64_consts)
qed

definition example_after :: store where
  "example_after = deductNanoFromTopups example_store 60 ''u'' 500"

text \<open>A request of 1500 against a budget of 1000: 500 of overage.\<close>

lemma example_charge:
  "marginalTopupCharge example_store (example_log i 200 1500 \<lparr> Cost := c \<rparr>) = Inr 500"
  by (simp add: marginalTopupCharge_def example_windows successfulSpendSince_def spend_sum_def spend_rows_def
      scan_int64_def in64_def int64_consts Max_nano_def i64_def)
    (simp add: example_store_def example_user_def example_log_def example_windows
      example_window_def budgetWindowLimits_def successfulSpendSince_def spend_sum_def spend_rows_def
      scan_int64_def in64_def int64_consts Max_nano_def i64_def)

definition example_row :: RequestLog where
  "example_row = log_row (cap_charge (default_status (zero_failed (example_log ''a'' 200 1500 \<lparr> Cost := USD 1500 \<rparr>))))"

lemma example_row_eq: "example_row = example_log ''a'' 200 1500 \<lparr> Cost := USD 1500 \<rparr>"
  by (simp add: example_row_def log_row_def cap_charge_def default_status_def zero_failed_def
      example_log_def Let_def)

lemma example_settle:
  "SettleUsageAndLog example_store 60 (example_log ''a'' 200 1500) =
     Inr (insert_price_lines (example_after \<lparr> request_logs := [example_row] \<rparr>) ''a''
       (PricingLines (Pricing (example_log ''a'' 200 1500))))"
proof -
  have n: "normalizeSettledEntry (example_log ''a'' 200 1500) = Inr (example_log ''a'' 200 1500 \<lparr> Cost := USD 1500 \<rparr>)"
    by (simp add: normalizeSettledEntry_def normalizeRequestLogMoney_def normalize_pair_def example_log_def
        f64_neg_def f64_is0_def cap_charge_def default_status_def zero_failed_def)
  have f: "rl_ID (example_log ''a'' 200 1500 \<lparr> Cost := c \<rparr>) = ''a''"
    "UserID (example_log ''a'' 200 1500 \<lparr> Cost := c \<rparr>) = ''u''"
    "CostNanoUSD (example_log ''a'' 200 1500 \<lparr> Cost := c \<rparr>) = 1500" for c
    by (simp_all add: example_log_def)
  have r: "log_row (example_log ''a'' 200 1500 \<lparr> Cost := USD 1500 \<rparr>) = example_row"
    by (simp add: example_row_eq) (simp add: log_row_def example_log_def Let_def)
  have "log_row_checked example_row" "rl_ID example_row = ''a''"
    "PricingLines (Pricing example_row) = PricingLines (Pricing (example_log ''a'' 200 1500))"
    by (simp_all add: example_row_eq log_row_checked_def) (simp_all add: example_log_def)
  moreover have "\<not> requestLogExists example_store ''a''" "\<not> requestLogExists example_after ''a''"
    "request_logs example_after = []"
    by (simp_all add: requestLogExists_def example_after_def example_store_def)
  ultimately show ?thesis
    by (simp add: SettleUsageAndLog_def n f r example_charge insertRequestLog_def attempt_taken_def flip: example_after_def)
qed

section \<open>Properties\<close>

text \<open>Drawing an amount from a user's top-ups takes exactly that amount, or all that is left:
  the spendable balance drops by the smaller of the two, and no top-up is ever used beyond its
  amount or below zero.\<close>

theorem deduct_exact:
  assumes "topups_ok (user_topups db)"
  shows "topup_balance dbnow userID (deductNanoFromTopups db dbnow userID a) =
      topup_balance dbnow userID db - min (max 0 a) (topup_balance dbnow userID db) \<and>
    0 \<le> topup_balance dbnow userID (deductNanoFromTopups db dbnow userID a) \<and>
    topups_ok (user_topups (deductNanoFromTopups db dbnow userID a))"
  using topups.draw_balance [OF assms] topups.draw_good [OF assms] topups.balance_nonneg
  by blast

theorem deduct_exact_witness:
  "topup_balance 60 ''u'' (deductNanoFromTopups example_store 60 ''u'' 700) = 300"
  using deduct_exact [OF example_topups_ok, of 60 "''u''" 700]
  by (simp add: topup_balance_def activeTopups_def example_store_def example_topup_def activeTopup_def
      topup_remaining_def)

text \<open>Top-ups are used in order of expiry: a draw touches a top-up only if every one that
  comes before it (earlier expiry, never-expiring last, older first) is used up by it.\<close>

theorem deduct_in_order:
  assumes "topups_ok (user_topups db)" "0 < a" "spendable db dbnow userID = xs @ s # ys" "t \<in> set ys"
  shows "t \<in> set (user_topups (deductNanoFromTopups db dbnow userID a)) \<or>
    (\<exists>s' \<in> set (user_topups (deductNanoFromTopups db dbnow userID a)).
       tu_ID s' = tu_ID s \<and> tu_UsedNanoUSD s' = tu_AmountNanoUSD s')"
proof -
  have d: "drawable (xs @ s # ys) (user_topups db)"
    using drawable_spendable [OF assms(1), of dbnow userID] by (simp add: assms(3))
  have eq: "user_topups (deductNanoFromTopups db dbnow userID a) =
      deduct_loop (xs @ s # ys) a (user_topups db)"
    using assms(2,3) by (simp add: deductNanoFromTopups_def)
  show ?thesis
  proof (cases "sum_list (map topup_remaining (xs @ [s])) \<le> a")
    case True
    then show ?thesis
      using deduct_loop_exhausts [OF d assms(1,2)] unfolding eq by (auto simp: topup_remaining_def)
  next
    case False
    moreover have "t \<in> set (user_topups db)" using d assms(4) by (auto simp: drawable_def)
    ultimately show ?thesis
      using deduct_loop_untouched [of "xs @ [s]" ys "user_topups db" a t] d assms(2,4)
      unfolding eq by simp
  qed
qed

theorem deduct_in_order_witness:
  "example_topup ''late'' None \<in> set (user_topups (deductNanoFromTopups example_store 60 ''u'' 700)) \<or>
   (\<exists>s' \<in> set (user_topups (deductNanoFromTopups example_store 60 ''u'' 700)).
       tu_ID s' = tu_ID (example_topup ''soon'' (Some 1000)) \<and> tu_UsedNanoUSD s' = tu_AmountNanoUSD s')"
  by (rule deduct_in_order [OF example_topups_ok, where xs = "[]" and ys = "[example_topup ''late'' None]"])
    (simp_all add: example_spendable)

text \<open>C16: Settling a new request adds exactly one log row and draws exactly its overage: the
  row's cost is never negative, never above the admission ceiling and zero for any status
  outside 2xx; the user's top-ups lose the smaller of the computed overage and their balance.\<close>

theorem SettleUsageAndLog_effect:
  assumes "SettleUsageAndLog db dbnow entry = Inr db'" "\<not> requestLogExists db (rl_ID entry)"
    and "topups_ok (user_topups db)"
  shows "\<exists>row charge. request_logs db' = request_logs db @ [row] \<and>
    rl_ID row = rl_ID entry \<and> UserID row = UserID entry \<and> 0 \<le> CostNanoUSD row \<and>
    (0 < ChargeCeilingNanoUSD entry \<longrightarrow> CostNanoUSD row \<le> ChargeCeilingNanoUSD entry) \<and>
    (\<not> successful entry \<longrightarrow> CostNanoUSD row = 0) \<and>
    (if 0 < CostNanoUSD row then marginalTopupCharge db (entry \<lparr> CostNanoUSD := CostNanoUSD row \<rparr>) = Inr charge
     else charge = 0) \<and>
    topup_balance dbnow (UserID entry) db' =
      topup_balance dbnow (UserID entry) db - min (max 0 charge) (topup_balance dbnow (UserID entry) db) \<and>
    topups_ok (user_topups db')"
proof -
  obtain e charge where e: "normalizeSettledEntry entry = Inr e"
    and charge: "if 0 < CostNanoUSD e then marginalTopupCharge db e = Inr charge else charge = 0"
    and ins: "insertRequestLog (deductNanoFromTopups db dbnow (UserID e) charge) e = Inr db'"
    by (rule SettleUsageAndLog_InrE [OF assms(1,2)])
  note f = normalizeSettledEntry_fields [OF e]
  have "\<not> requestLogExists (deductNanoFromTopups db dbnow (UserID e) charge) (rl_ID e)"
    using assms(2) f(1) by (simp add: requestLogExists_def)
  note i = insertRequestLog_InrD [OF ins this]
  have "marginal_loop db u e ws m = marginal_loop db u (entry \<lparr> CostNanoUSD := CostNanoUSD e \<rparr>) ws m" for u ws m
    by (induction ws arbitrary: m) (simp_all add: f(2,4))
  then have "marginalTopupCharge db e = marginalTopupCharge db (entry \<lparr> CostNanoUSD := CostNanoUSD e \<rparr>)"
    by (simp add: marginalTopupCharge_def f(2) split: option.split)
  moreover have "topup_balance dbnow u db' = topup_balance dbnow u (deductNanoFromTopups db dbnow (UserID e) charge)" for u
    by (simp add: topup_balance_def activeTopups_def i(3))
  moreover have "successful e = successful entry" by (simp add: successful_def f(3))
  ultimately show ?thesis
    using i f charge deduct_balance [OF assms(3), of dbnow "UserID e" charge]
    by (intro exI [of _ "log_row e"] exI [of _ charge]) (simp split: if_splits)
qed

theorem SettleUsageAndLog_effect_witness:
  "\<exists>db'. SettleUsageAndLog example_store 60 (example_log ''a'' 200 1500) = Inr db' \<and> topups_ok (user_topups db')"
  using SettleUsageAndLog_effect [OF example_settle _ example_topups_ok] example_settle
  by (auto simp: requestLogExists_def example_store_def)

text \<open>C17: Settling is idempotent: once a request has been settled, settling the same request
  again, at any later time, changes nothing.\<close>

theorem SettleUsageAndLog_idempotent:
  assumes "SettleUsageAndLog db dbnow entry = Inr db'"
  shows "SettleUsageAndLog db' dbnow' entry = Inr db'"
proof -
  obtain e where e: "normalizeSettledEntry entry = Inr e"
    using assms by (auto simp: SettleUsageAndLog_def ebind_eq_Inr)
  have id: "rl_ID e = rl_ID entry" using normalizeSettledEntry_fields(1) [OF e] .
  have "requestLogExists db' (rl_ID entry)"
  proof (cases "requestLogExists db (rl_ID entry)")
    case True
    then show ?thesis using assms e id by (simp add: SettleUsageAndLog_def)
  next
    case False
    obtain f charge where f: "normalizeSettledEntry entry = Inr f"
      and ins: "insertRequestLog (deductNanoFromTopups db dbnow (UserID f) charge) f = Inr db'"
      by (rule SettleUsageAndLog_InrE [OF assms False])
    have "f = e" using e f by simp
    then have "request_logs db' = request_logs db @ [log_row e]"
      using insertRequestLog_InrD(1) [OF ins] False id by (simp add: requestLogExists_def)
    then show ?thesis by (simp add: requestLogExists_def id)
  qed
  then show ?thesis using e id by (simp add: SettleUsageAndLog_def)
qed

theorem SettleUsageAndLog_idempotent_witness:
  "\<exists>db'. SettleUsageAndLog db' 99 (example_log ''a'' 200 1500) = Inr db'"
  using SettleUsageAndLog_idempotent [OF example_settle] by blast

text \<open>The overage charged for a request never exceeds its cost, in any window, as long as
  the sums stay inside an \<open>int64\<close>.\<close>

theorem marginalTopupCharge_bounded:
  assumes "marginalTopupCharge db e = Inr charge" "0 \<le> CostNanoUSD e"
    and "\<forall>w \<in> set (budget_windows db). in64 (bw_BudgetNanoUSD w)"
    and "\<forall>f. 0 \<le> spend_sum db (UserID e) f \<and> in64 (spend_sum db (UserID e) f + CostNanoUSD e)"
  shows "0 \<le> charge \<and> charge \<le> CostNanoUSD e"
proof -
  obtain u where "marginal_loop db u e (budgetWindowLimits db (u_PlanID u)) 0 = Inr charge"
    using assms(1) by (auto simp: marginalTopupCharge_def split: option.splits)
  moreover have "\<forall>w \<in> set (budgetWindowLimits db (u_PlanID u)). 0 \<le> bw_BudgetNanoUSD w \<and> in64 (bw_BudgetNanoUSD w)"
    using assms(3) by (simp add: budgetWindowLimits_def)
  ultimately show ?thesis using marginal_loop_bounds [of db u e _ 0] assms(2,4) by blast
qed

theorem marginalTopupCharge_bounded_witness:
  "(0::int) \<le> 500 \<and> 500 \<le> CostNanoUSD (example_log ''a'' 200 1500 \<lparr> Cost := FFin 0 \<rparr>)"
  by (rule marginalTopupCharge_bounded [OF example_charge])
    (simp_all add: example_log_def example_store_def example_window_def spend_sum_def spend_rows_def
      in64_def int64_consts)

text \<open>Overage is held against the user twice. It is deducted from the top-ups when it is
  settled, and it stays in the spending the availability subtracts: a user with a budget of
  1000 and top-ups of 1000 has 2000 available; after one request of 1500 the top-ups still
  hold 500, yet nothing is available.\<close>

theorem overage_counted_twice:
  "\<exists>db'. AvailableBudgetNano example_store 60 60 ''u'' = Inr 2000 \<and>
     SettleUsageAndLog example_store 60 (example_log ''a'' 200 1500) = Inr db' \<and>
     GetRemainingExtraNanoUSD db' 60 ''u'' = Inr 500 \<and>
     AvailableBudgetNano db' 60 60 ''u'' = Inr 0"
proof -
  define db' where "db' = insert_price_lines (example_after \<lparr> request_logs := [example_row] \<rparr>) ''a''
       (PricingLines (Pricing (example_log ''a'' 200 1500)))"
  have users: "users db' = [example_user]" "users example_store = [example_user]"
    "budget_windows db' = [example_window]" "request_logs db' = [example_row]"
    by (simp_all add: db'_def example_after_def example_store_def)
  have win: "budgetWindowLimits db' ''p'' = [example_window]" "bw_BudgetNanoUSD example_window = 1000"
    by (simp_all add: budgetWindowLimits_def users example_window_def)
  have spend: "spend_sum example_store ''u'' 0 = 0" "spend_sum db' ''u'' 0 = 1500"
    by (simp_all add: spend_sum_def spend_rows_def users)
      (simp_all add: example_store_def example_row_eq example_log_def successful_def)
  have "topup_balance 60 ''u'' example_store = 1000" by (rule example_balance)
  moreover from this have "topup_balance 60 ''u'' example_after = 500"
    using deduct_balance(2) [OF example_topups_ok] by (simp add: example_after_def)
  then have "topup_balance 60 ''u'' db' = 500"
    by (simp add: db'_def topup_balance_def activeTopups_def)
  moreover from this have "GetRemainingExtraNanoUSD db' 60 ''u'' = Inr 500"
    by (simp add: GetRemainingExtraNanoUSD_def topup_balance_def in64_def int64_consts)
  ultimately show ?thesis
    using example_available
      availability_single [of "''u''" db' example_user example_window 1500 60 60] example_settle
    by (simp add: users example_user_fields win example_windows example_start spend in64_def int64_consts flip: db'_def)
qed

text \<open>When a charge is capped at its ceiling the stored derivation no longer adds up: the
  log row keeps the pricing lines of the uncapped quote next to the capped cost.\<close>

theorem capped_lines_diverge:
  assumes "normalizeSettledEntry entry = Inr e" "successful entry"
    and "0 < ChargeCeilingNanoUSD entry" "ChargeCeilingNanoUSD entry < CostNanoUSD entry"
    and "sum_list (map rpl_Cost (PricingLines (Pricing entry))) = CostNanoUSD entry"
  shows "CostNanoUSD (log_row e) = ChargeCeilingNanoUSD entry \<and>
    sum_list (map rpl_Cost (PricingLines (Pricing (log_row e)))) = CostNanoUSD entry \<and>
    sum_list (map rpl_Cost (PricingLines (Pricing (log_row e)))) \<noteq> CostNanoUSD (log_row e)"
proof -
  obtain e0 where e0: "normalizeRequestLogMoney entry = Inr e0"
    and e: "e = cap_charge (default_status (zero_failed e0))"
    using assms(1) by (auto simp: normalizeSettledEntry_def ebind_eq_Inr)
  note f = normalizeRequestLogMoney_fields [OF e0]
  have "CostNanoUSD e0 = CostNanoUSD entry"
    using e0 assms(3,4) by (auto simp: normalizeRequestLogMoney_def normalize_pair_def ebind_eq_Inr split: if_splits)
  moreover have "successful e0" using assms(2) f(3) by (simp add: successful_def)
  ultimately show ?thesis using assms(3-5) f by (simp add: e)
qed

theorem capped_lines_diverge_witness:
  "CostNanoUSD (log_row (cap_charge (default_status (zero_failed (example_log ''b'' 200 3000 \<lparr> Cost := USD 3000 \<rparr>))))) = 2000"
proof -
  have n: "normalizeSettledEntry (example_log ''b'' 200 3000) =
      Inr (cap_charge (default_status (zero_failed (example_log ''b'' 200 3000 \<lparr> Cost := USD 3000 \<rparr>))))"
    by (simp add: normalizeSettledEntry_def normalizeRequestLogMoney_def normalize_pair_def)
      (simp add: example_log_def f64_neg_def f64_is0_def)
  have "ChargeCeilingNanoUSD (example_log ''b'' 200 3000) = 2000" by (simp add: example_log_def)
  moreover have "successful (example_log ''b'' 200 3000)" "CostNanoUSD (example_log ''b'' 200 3000) = 3000"
    "sum_list (map rpl_Cost (PricingLines (Pricing (example_log ''b'' 200 3000)))) = 3000"
    by (simp_all add: example_log_def successful_def)
  ultimately show ?thesis using capped_lines_diverge [OF n] by simp
qed

end
