(* ===== verification/Limiter.thy ===== *)
theory Limiter
  imports Billing
begin

text \<open>
  The rate limiter (src/proxy/limiter.go): the sliding one-minute window kept in memory and by
  the atomic Redis script, the cached user and plan definitions, and the whole admission check
  \<open>CheckLimit\<close>. A sorted set of Redis is the list of its members with their scores; the script
  itself is modelled, while whether Redis answers is an argument. The locale
  \<open>sliding_window\<close> is the contract both windows keep and carries the proof that no window ever
  admits more than its limits.
\<close>

datatype LimitKind = LimitThroughput | LimitBudget | LimitSuspended | LimitInfrastructure

text \<open>A classified error, or one that is not a \<open>LimitError\<close> (a failed lookup).\<close>

datatype limit_error = LimitError LimitKind | OtherError db_error | UserNotFound | PlanNotFound

definition KindOf :: "limit_error \<Rightarrow> LimitKind" where
  "KindOf e = (case e of LimitError k \<Rightarrow> k | _ \<Rightarrow> LimitThroughput)"

section \<open>The window in memory\<close>

record KeyLimiter =
  requests :: "instant list"
  tokens :: "(instant \<times> int) list"

definition empty_limiter :: KeyLimiter where
  "empty_limiter = \<lparr> requests = [], tokens = [] \<rparr>"

text \<open>The pruning loop: the index of the first record after the limit, or the length.\<close>

fun prune_index :: "('a \<Rightarrow> instant) \<Rightarrow> instant \<Rightarrow> 'a list \<Rightarrow> nat" where
  "prune_index ts oneMinAgo [] = 0"
| "prune_index ts oneMinAgo (r # rs) =
     (if ts r > oneMinAgo then 0 else Suc (prune_index ts oneMinAgo rs))"

definition checkInMemoryLimits ::
  "int \<Rightarrow> int \<Rightarrow> int \<Rightarrow> instant \<Rightarrow> KeyLimiter \<Rightarrow> limit_error option \<times> KeyLimiter" where
  "checkInMemoryLimits rpmLimit tpmLimit promptTokens now kl =
     (let oneMinAgo = now - 60 * nano_second;
          kl = kl \<lparr> requests := drop (prune_index id oneMinAgo (requests kl)) (requests kl) \<rparr>;
          kl = kl \<lparr> tokens := drop (prune_index fst oneMinAgo (tokens kl)) (tokens kl) \<rparr>
      in if rpmLimit > 0 \<and> int (length (requests kl)) \<ge> rpmLimit then (Some (LimitError LimitThroughput), kl)
         else
           (let currentTPM = i64 (sum_list (map snd (tokens kl)))
            in if tpmLimit > 0 \<and> i64 (currentTPM + promptTokens) > tpmLimit
               then (Some (LimitError LimitThroughput), kl)
               else
                 (let kl = kl \<lparr> requests := requests kl @ [now] \<rparr>;
                      kl = (if promptTokens > 0 then kl \<lparr> tokens := tokens kl @ [(now, promptTokens)] \<rparr> else kl)
                  in (None, kl))))"

section \<open>The window in Redis\<close>

type_synonym zset = "(string \<times> int) list"

definition ZREMRANGEBYSCORE :: "int \<Rightarrow> int \<Rightarrow> zset \<Rightarrow> zset" where
  "ZREMRANGEBYSCORE low high z = filter (\<lambda>(m, s). \<not> (low \<le> s \<and> s \<le> high)) z"

text \<open>\<open>ZADD\<close> of a member that is present only changes its score.\<close>

definition ZADD :: "int \<Rightarrow> string \<Rightarrow> zset \<Rightarrow> zset" where
  "ZADD score member z =
     (if list_ex (\<lambda>(m, s). m = member) z
      then map (\<lambda>(m, s). if m = member then (m, score) else (m, s)) z
      else z @ [(member, score)])"

text \<open>The number behind the first colon of a token member (\<open>string.find\<close>, \<open>tonumber\<close>); the
  members are decimal numerals, whose values a Lua number holds exactly up to 2 to the 53.\<close>

definition lua_tonumber :: "string \<Rightarrow> int option" where
  "lua_tonumber s =
     (let neg = HasPrefix s ''-''; ds = (if neg then drop 1 s else s)
      in if ds = [] \<or> \<not> list_all is_digit ds then None
         else Some (if neg then - int (dec_val ds) else int (dec_val ds)))"

definition member_tokens :: "string \<Rightarrow> int" where
  "member_tokens m =
     (case dropWhile (\<lambda>c. c \<noteq> CHR '':'') m of
        [] \<Rightarrow> 0
      | c # rest \<Rightarrow> (case lua_tonumber rest of None \<Rightarrow> 0 | Some t \<Rightarrow> t))"

record redis_window =
  rpm_set :: zset
  tpm_set :: zset

definition empty_redis :: redis_window where
  "empty_redis = \<lparr> rpm_set = [], tpm_set = [] \<rparr>"

text \<open>\<open>atomicLimitScript\<close>: the code it returns, and the sets it leaves behind.\<close>

definition atomicLimitScript ::
  "int \<Rightarrow> int \<Rightarrow> int \<Rightarrow> int \<Rightarrow> int \<Rightarrow> string \<Rightarrow> string \<Rightarrow> redis_window \<Rightarrow> int \<times> redis_window" where
  "atomicLimitScript now_ms one_min_ago_ms rpm_limit tpm_limit prompt_tokens req_member tok_member w =
     (let w = \<lparr> rpm_set = ZREMRANGEBYSCORE 0 one_min_ago_ms (rpm_set w),
                tpm_set = ZREMRANGEBYSCORE 0 one_min_ago_ms (tpm_set w) \<rparr>
      in if rpm_limit > 0 \<and> int (length (rpm_set w)) \<ge> rpm_limit then (1, w)
         else
           (let current_tpm = sum_list (map (\<lambda>(m, s). member_tokens m) (tpm_set w))
            in if tpm_limit > 0 \<and> current_tpm + prompt_tokens > tpm_limit then (2, w)
               else
                 (let w = w \<lparr> rpm_set := ZADD now_ms req_member (rpm_set w) \<rparr>;
                      w = (if prompt_tokens > 0 then w \<lparr> tpm_set := ZADD now_ms tok_member (tpm_set w) \<rparr> else w)
                  in (0, w))))"

definition req_member :: "instant \<Rightarrow> string" where
  "req_member now = show_int now"

definition tok_member :: "instant \<Rightarrow> int \<Rightarrow> string" where
  "tok_member now promptTokens = show_int now @ '':'' @ show_int promptTokens"

definition runLimitScript ::
  "int \<Rightarrow> int \<Rightarrow> int \<Rightarrow> instant \<Rightarrow> redis_window \<Rightarrow> limit_error option \<times> redis_window" where
  "runLimitScript rpmLimit tpmLimit promptTokens now w =
     (let nowMs = now div 1000000;
          (code, w) = atomicLimitScript nowMs (nowMs - 60000) rpmLimit tpmLimit promptTokens
                        (req_member now) (tok_member now promptTokens) w
      in (if code = 1 \<or> code = 2 then Some (LimitError LimitThroughput) else None, w))"

section \<open>The limiter\<close>

record limiterDefsEntry =
  e_user :: db_user
  e_plan :: Plan
  e_windows :: "BudgetWindow list"
  e_expires :: instant

record RateLimiter =
  limiters :: "string \<rightharpoonup> KeyLimiter"
  redis :: "string \<Rightarrow> redis_window"
  useRedis :: bool
  requireRedis :: bool
  redisInitErr :: bool
  defs :: "string \<rightharpoonup> limiterDefsEntry"

definition limiterDefsTTL :: int where
  "limiterDefsTTL = 5 * nano_second"

definition defs_get :: "RateLimiter \<Rightarrow> instant \<Rightarrow> string \<Rightarrow> limiterDefsEntry option" where
  "defs_get rl now userID =
     (case defs rl userID of
        None \<Rightarrow> None
      | Some e \<Rightarrow> if now > e_expires e then None else Some e)"

definition defs_set :: "RateLimiter \<Rightarrow> instant \<Rightarrow> string \<Rightarrow> limiterDefsEntry \<Rightarrow> RateLimiter" where
  "defs_set rl now userID e =
     rl \<lparr> defs := (defs rl)(userID \<mapsto> e \<lparr> e_expires := now + limiterDefsTTL \<rparr>) \<rparr>"

definition InvalidateUser :: "RateLimiter \<Rightarrow> string \<Rightarrow> RateLimiter" where
  "InvalidateUser rl userID = rl \<lparr> defs := (defs rl)(userID := None) \<rparr>"

definition InvalidateAll :: "RateLimiter \<Rightarrow> RateLimiter" where
  "InvalidateAll rl = rl \<lparr> defs := Map.empty \<rparr>"

definition isTruthy :: "string \<Rightarrow> bool" where
  "isTruthy v \<longleftrightarrow> ToLower (TrimSpace v) \<in> {''1'', ''true'', ''yes'', ''on''}"

definition getLimiter :: "RateLimiter \<Rightarrow> string \<Rightarrow> KeyLimiter" where
  "getLimiter rl keyID = (case limiters rl keyID of None \<Rightarrow> empty_limiter | Some kl \<Rightarrow> kl)"

definition checkKeyInMemory ::
  "RateLimiter \<Rightarrow> string \<Rightarrow> int \<Rightarrow> int \<Rightarrow> int \<Rightarrow> instant \<Rightarrow> limit_error option \<times> RateLimiter" where
  "checkKeyInMemory rl keyID rpmLimit tpmLimit promptTokens now =
     (let (err, kl) = checkInMemoryLimits rpmLimit tpmLimit promptTokens now (getLimiter rl keyID)
      in (err, rl \<lparr> limiters := (limiters rl)(keyID \<mapsto> kl) \<rparr>))"

text \<open>\<open>up\<close>: Redis ran the script and its reply was well formed.\<close>

definition checkRedisLimits ::
  "RateLimiter \<Rightarrow> bool \<Rightarrow> string \<Rightarrow> int \<Rightarrow> int \<Rightarrow> int \<Rightarrow> instant \<Rightarrow> limit_error option \<times> RateLimiter" where
  "checkRedisLimits rl up keyID rpmLimit tpmLimit promptTokens now =
     (if \<not> up then
        (if requireRedis rl then (Some (LimitError LimitInfrastructure), rl)
         else checkKeyInMemory rl keyID rpmLimit tpmLimit promptTokens now)
      else
        (let (err, w) = runLimitScript rpmLimit tpmLimit promptTokens now (redis rl keyID)
         in (err, rl \<lparr> redis := (redis rl)(keyID := w) \<rparr>)))"

text \<open>The cached or freshly read definitions of a user.\<close>

definition loadDefs ::
  "RateLimiter \<Rightarrow> store \<Rightarrow> instant \<Rightarrow> instant \<Rightarrow> string
     \<Rightarrow> (limit_error + (db_user \<times> Plan \<times> BudgetWindow list)) \<times> RateLimiter" where
  "loadDefs rl db dbnow now userID =
     (case defs_get rl now userID of
        Some e \<Rightarrow> (Inr (e_user e, e_plan e, e_windows e), rl)
      | None \<Rightarrow>
          (case GetUser db dbnow now userID of
             Inl e \<Rightarrow> (Inl (OtherError e), rl)
           | Inr None \<Rightarrow> (Inl UserNotFound, rl)
           | Inr (Some (user, usage)) \<Rightarrow>
               (case GetPlan db (u_PlanID user) of
                  None \<Rightarrow> (Inl PlanNotFound, rl)
                | Some (plan, _) \<Rightarrow>
                    (let windows = ListBudgetWindowsByPlan db (p_ID plan)
                     in (Inr (user, plan, windows),
                         defs_set rl now userID
                           \<lparr> e_user = user, e_plan = plan, e_windows = windows, e_expires = 0 \<rparr>)))))"

text \<open>The first budget window that is spent, if any.\<close>

fun budget_exceeded_loop ::
  "store \<Rightarrow> string \<Rightarrow> instant \<Rightarrow> BudgetWindow list \<Rightarrow> limit_error + bool" where
  "budget_exceeded_loop db userID now [] = Inr False"
| "budget_exceeded_loop db userID now (w # ws) =
     (if bw_BudgetNanoUSD w > 0 then
        (case GetUserSpendingNanoInWindow db userID (bw_DurationSeconds w) now of
           Inl e \<Rightarrow> Inl (OtherError e)
         | Inr spending \<Rightarrow>
             if spending \<ge> bw_BudgetNanoUSD w then Inr True
             else budget_exceeded_loop db userID now ws)
      else budget_exceeded_loop db userID now ws)"

definition CheckLimit ::
  "RateLimiter \<Rightarrow> store \<Rightarrow> bool \<Rightarrow> instant \<Rightarrow> instant \<Rightarrow> string \<Rightarrow> string \<Rightarrow> int
     \<Rightarrow> limit_error option \<times> RateLimiter" where
  "CheckLimit rl db up dbnow now keyID userID promptTokens =
     (if requireRedis rl \<and> redisInitErr rl then (Some (LimitError LimitInfrastructure), rl)
      else
        (case loadDefs rl db dbnow now userID of
           (Inl e, rl) \<Rightarrow> (Some e, rl)
         | (Inr (user, plan, windows), rl) \<Rightarrow>
             if u_Status user \<noteq> ''active'' then (Some (LimitError LimitSuspended), rl)
             else
               (case budget_exceeded_loop db (u_ID user) now windows of
                  Inl e \<Rightarrow> (Some e, rl)
                | Inr exceeded \<Rightarrow>
                    (case (if exceeded then GetRemainingExtraNanoUSD db dbnow (u_ID user) else Inr 1) of
                       Inl e \<Rightarrow> (Some (OtherError e), rl)
                     | Inr remaining \<Rightarrow>
                         if exceeded \<and> remaining \<le> 0 then (Some (LimitError LimitBudget), rl)
                         else if useRedis rl
                         then checkRedisLimits rl up keyID (p_RPMLimit plan) (p_TPMLimit plan) promptTokens now
                         else checkKeyInMemory rl keyID (p_RPMLimit plan) (p_TPMLimit plan) promptTokens now))))"

text \<open>One pass of the sweeper over the windows in memory.\<close>

definition last_activity :: "KeyLimiter \<Rightarrow> instant" where
  "last_activity kl =
     (let a = (if requests kl = [] then zero_time else last (requests kl))
      in if tokens kl \<noteq> [] \<and> fst (last (tokens kl)) > a then fst (last (tokens kl)) else a)"

definition sweepInMemoryLimiters :: "RateLimiter \<Rightarrow> instant \<Rightarrow> RateLimiter" where
  "sweepInMemoryLimiters rl now =
     rl \<lparr> limiters := (\<lambda>i. case limiters rl i of
            None \<Rightarrow> None
          | Some kl \<Rightarrow> if last_activity kl < now - 300 * nano_second then None else Some kl) \<rparr>"

section \<open>The contract of a sliding window\<close>

text \<open>The requests a window admits, in order, when a sequence of them arrives.\<close>

fun admitted ::
  "(int \<Rightarrow> instant \<Rightarrow> 's \<Rightarrow> limit_error option \<times> 's) \<Rightarrow> (instant \<times> int) list \<Rightarrow> 's \<Rightarrow> (instant \<times> int) list" where
  "admitted check [] s = []"
| "admitted check ((now, p) # arrivals) s =
     (case check p now s of
        (None, s') \<Rightarrow> (now, p) # admitted check arrivals s'
      | (Some e, s') \<Rightarrow> admitted check arrivals s')"

fun final_state ::
  "(int \<Rightarrow> instant \<Rightarrow> 's \<Rightarrow> limit_error option \<times> 's) \<Rightarrow> (instant \<times> int) list \<Rightarrow> 's \<Rightarrow> 's" where
  "final_state check [] s = s"
| "final_state check ((now, p) # arrivals) s = final_state check arrivals (snd (check p now s))"

definition in_window :: "(instant \<Rightarrow> instant \<Rightarrow> bool) \<Rightarrow> instant \<Rightarrow> (instant \<times> int) list \<Rightarrow> (instant \<times> int) list" where
  "in_window inside T adm = filter (\<lambda>(t, p). inside t T) adm"

locale sliding_window =
  fixes check :: "int \<Rightarrow> int \<Rightarrow> int \<Rightarrow> instant \<Rightarrow> 's \<Rightarrow> limit_error option \<times> 's"
    and reqs :: "instant \<Rightarrow> 's \<Rightarrow> int" and toks :: "instant \<Rightarrow> 's \<Rightarrow> int"
    and good :: "instant \<Rightarrow> 's \<Rightarrow> bool"
    and inside :: "instant \<Rightarrow> instant \<Rightarrow> bool" and before :: "instant \<Rightarrow> instant \<Rightarrow> bool"
    and countable :: "int \<Rightarrow> int \<Rightarrow> bool"
  assumes inside_mono: "inside t T' \<Longrightarrow> T \<le> T' \<Longrightarrow> inside t T"
    and before_le: "before t u \<Longrightarrow> t \<le> u"
    and admit_rpm: "check rpm tpm p now s = (None, s') \<Longrightarrow> good now s \<Longrightarrow> 0 < rpm \<Longrightarrow> reqs now s < rpm"
    and admit_tpm: "check rpm tpm p now s = (None, s') \<Longrightarrow> good now s \<Longrightarrow> 0 < tpm \<Longrightarrow>
      toks now s \<le> tpm \<Longrightarrow> countable tpm p \<Longrightarrow> toks now s + p \<le> tpm"
    and admit_reqs: "check rpm tpm p now s = (None, s') \<Longrightarrow> good now s \<Longrightarrow> now \<le> T \<Longrightarrow>
      reqs T s' = reqs T s + (if inside now T then 1 else 0)"
    and admit_toks: "check rpm tpm p now s = (None, s') \<Longrightarrow> good now s \<Longrightarrow> now \<le> T \<Longrightarrow>
      toks T s' = toks T s + (if inside now T then max 0 p else 0)"
    and refuse: "check rpm tpm p now s = (Some e, s') \<Longrightarrow> good now s \<Longrightarrow> now \<le> T \<Longrightarrow>
      reqs T s' = reqs T s \<and> toks T s' = toks T s"
    and check_good: "good now s \<Longrightarrow> before now u \<Longrightarrow> good u (snd (check rpm tpm p now s))"
    and reqs_mono: "good now s \<Longrightarrow> now \<le> T \<Longrightarrow> T \<le> T' \<Longrightarrow> reqs T' s \<le> reqs T s"
    and toks_mono: "good now s \<Longrightarrow> now \<le> T \<Longrightarrow> T \<le> T' \<Longrightarrow> toks T' s \<le> toks T s"
begin

text \<open>The state counts exactly the admitted requests that are still inside the window.\<close>

lemma counts_admitted:
  assumes "good (fst (hd arrivals)) s" "sorted_wrt before (map fst arrivals)" "arrivals \<noteq> []"
    and "\<forall>(t, p) \<in> set arrivals. t \<le> T"
  shows "reqs T (final_state (check rpm tpm) arrivals s) =
      reqs T s + int (length (in_window inside T (admitted (check rpm tpm) arrivals s))) \<and>
    toks T (final_state (check rpm tpm) arrivals s) =
      toks T s + sum_list (map (\<lambda>(t, p). max 0 p) (in_window inside T (admitted (check rpm tpm) arrivals s)))"
  using assms
proof (induction arrivals arbitrary: s)
  case (Cons a arrivals)
  obtain now p where a: "a = (now, p)" by fastforce
  obtain res s' where c: "check rpm tpm p now s = (res, s')" by fastforce
  have good: "good now s" and T: "now \<le> T" using Cons.prems(1,4) a by auto
  have step: "reqs T s' = reqs T s + (if res = None \<and> inside now T then 1 else 0)"
    "toks T s' = toks T s + (if res = None \<and> inside now T then max 0 p else 0)"
    using admit_reqs [OF _ good T] admit_toks [OF _ good T] refuse [OF _ good T] c by (cases res; force)+
  have rest: "reqs T (final_state (check rpm tpm) arrivals s') =
      reqs T s' + int (length (in_window inside T (admitted (check rpm tpm) arrivals s'))) \<and>
    toks T (final_state (check rpm tpm) arrivals s') =
      toks T s' + sum_list (map (\<lambda>(t, p). max 0 p) (in_window inside T (admitted (check rpm tpm) arrivals s')))"
  proof (cases "arrivals = []")
    case False
    have "before now (fst (hd arrivals))" using Cons.prems(2) a False by (cases arrivals) auto
    then have "good (fst (hd arrivals)) s'" using check_good [OF good] c by (metis snd_conv)
    with Cons.IH [of s'] Cons.prems(2,4) False show ?thesis by simp
  qed (simp add: in_window_def)
  show ?case
    using rest step c by (cases res) (auto simp: a in_window_def)
qed simp

lemma final_good:
  assumes "good (fst (hd arrivals)) s" "sorted_wrt before (map fst arrivals)" "arrivals \<noteq> []"
    and "\<forall>(t, p) \<in> set arrivals. before t u"
  shows "good u (final_state (check rpm tpm) arrivals s)"
  using assms
proof (induction arrivals arbitrary: s)
  case (Cons a arrivals)
  obtain now p where a: "a = (now, p)" by fastforce
  have good: "good now s" using Cons.prems(1) a by simp
  show ?case
  proof (cases "arrivals = []")
    case True
    then show ?thesis using check_good [OF good, of u] Cons.prems(4) a by simp
  next
    case False
    have "before now (fst (hd arrivals))" using Cons.prems(2) a False by (cases arrivals) auto
    then have "good (fst (hd arrivals)) (snd (check rpm tpm p now s))" by (rule check_good [OF good])
    with Cons.IH Cons.prems(2,4) False a show ?thesis by simp
  qed
qed simp

text \<open>Whatever arrives, the window never counts more than its limits.\<close>

lemma never_exceeds:
  assumes "good (fst (hd arrivals)) s" "sorted_wrt before (map fst arrivals)" "arrivals \<noteq> []"
    and "\<forall>(t, p) \<in> set arrivals. t \<le> T"
    and "0 < rpm \<longrightarrow> (\<forall>U \<ge> fst (hd arrivals). reqs U s \<le> rpm)"
    and "0 < tpm \<longrightarrow> (\<forall>U \<ge> fst (hd arrivals). toks U s \<le> tpm)"
    and "0 < tpm \<longrightarrow> (\<forall>(t, p) \<in> set arrivals. countable tpm p)"
  shows "(0 < rpm \<longrightarrow> reqs T (final_state (check rpm tpm) arrivals s) \<le> rpm) \<and>
    (0 < tpm \<longrightarrow> toks T (final_state (check rpm tpm) arrivals s) \<le> tpm)"
  using assms
proof (induction arrivals arbitrary: s)
  case (Cons a arrivals)
  obtain now p where a: "a = (now, p)" by fastforce
  obtain res s' where c: "check rpm tpm p now s = (res, s')" by fastforce
  have good: "good now s" and T: "now \<le> T" using Cons.prems(1,4) a by auto
  have rpm: "reqs U s' \<le> rpm" if "0 < rpm" "now \<le> U" for U
  proof (cases res)
    case None
    have "reqs U s' \<le> reqs U s + 1" using admit_reqs [OF c [unfolded None] good that(2)] by simp
    also have "\<dots> \<le> reqs now s + 1" using reqs_mono [OF good order_refl that(2)] by simp
    also have "\<dots> \<le> rpm" using admit_rpm [OF c [unfolded None] good that(1)] by simp
    finally show ?thesis .
  next
    case (Some e)
    then show ?thesis using refuse [OF c [unfolded Some] good that(2)] Cons.prems(5) that a by simp
  qed
  have tpm: "toks U s' \<le> tpm" if "0 < tpm" "now \<le> U" for U
  proof (cases res)
    case None
    have "toks U s' \<le> toks U s + max 0 p" using admit_toks [OF c [unfolded None] good that(2)] by simp
    also have "\<dots> \<le> toks now s + max 0 p" using toks_mono [OF good order_refl that(2)] by simp
    also have "\<dots> \<le> tpm"
      using admit_tpm [OF c [unfolded None] good that(1)] Cons.prems(6,7) that(1) a by (auto simp: max_def)
    finally show ?thesis .
  next
    case (Some e)
    then show ?thesis using refuse [OF c [unfolded Some] good that(2)] Cons.prems(6) that a by simp
  qed
  show ?case
  proof (cases "arrivals = []")
    case True
    then show ?thesis using rpm tpm T c by (simp add: a)
  next
    case False
    have b: "before now (fst (hd arrivals))" using Cons.prems(2) a False by (cases arrivals) auto
    then have "good (fst (hd arrivals)) s'" using check_good [OF good] c by (metis snd_conv)
    moreover have "now \<le> fst (hd arrivals)" by (rule before_le [OF b])
    ultimately show ?thesis
      using Cons.IH [of s'] Cons.prems(2,4,7) False rpm tpm by (simp add: a c)
  qed
qed simp

lemma window_bounded:
  assumes "good (fst (hd arrivals)) s" "sorted_wrt before (map fst arrivals)" "arrivals \<noteq> []"
    and "\<forall>(t, p) \<in> set arrivals. t \<le> T" and "\<forall>U. reqs U s = 0 \<and> toks U s = 0"
    and "0 < tpm \<longrightarrow> (\<forall>(t, p) \<in> set arrivals. countable tpm p)"
  shows "(0 < rpm \<longrightarrow> int (length (in_window inside T (admitted (check rpm tpm) arrivals s))) \<le> rpm) \<and>
    (0 < tpm \<longrightarrow> sum_list (map (\<lambda>(t, p). max 0 p) (in_window inside T (admitted (check rpm tpm) arrivals s))) \<le> tpm)"
  using counts_admitted [OF assms(1-4), of rpm tpm] never_exceeds [OF assms(1-4), of rpm tpm] assms(5,6)
  by simp

end

section \<open>Both windows keep the contract\<close>

definition inside_memory :: "instant \<Rightarrow> instant \<Rightarrow> bool" where
  "inside_memory t T \<longleftrightarrow> t > T - 60 * nano_second"

definition memory_reqs :: "instant \<Rightarrow> KeyLimiter \<Rightarrow> int" where
  "memory_reqs T kl = int (length (filter (\<lambda>t. inside_memory t T) (requests kl)))"

definition memory_toks :: "instant \<Rightarrow> KeyLimiter \<Rightarrow> int" where
  "memory_toks T kl = sum_list (map snd (filter (\<lambda>(t, p). inside_memory t T) (tokens kl)))"

definition memory_good :: "instant \<Rightarrow> KeyLimiter \<Rightarrow> bool" where
  "memory_good now kl \<longleftrightarrow>
     sorted (requests kl) \<and> sorted (map fst (tokens kl)) \<and>
     (\<forall>t \<in> set (requests kl). t \<le> now) \<and> (\<forall>(t, p) \<in> set (tokens kl). t \<le> now \<and> 0 < p)"

text \<open>A request whose tokens, on top of a full window, stay inside an \<open>int64\<close>.\<close>

definition memory_countable :: "int \<Rightarrow> int \<Rightarrow> bool" where
  "memory_countable tpm p \<longleftrightarrow> MinInt64 \<le> p \<and> tpm + max 0 p \<le> MaxInt64"

lemma drop_prune:
  assumes "sorted (map ts rs)"
  shows "drop (prune_index ts since rs) rs = filter (\<lambda>r. ts r > since) rs"
  using assms
proof (induction rs)
  case (Cons r rs)
  show ?case
  proof (cases "ts r > since")
    case True
    with Cons.prems have "\<forall>x \<in> set rs. ts x > since" by auto
    with True show ?thesis by simp
  next
    case False
    with Cons show ?thesis by simp
  qed
qed simp

lemma length_filter_imp: "(\<And>x. P x \<Longrightarrow> Q x) \<Longrightarrow> length (filter P xs) \<le> length (filter Q xs)"
  by (induction xs) (auto intro: le_SucI)

lemma sum_filter_imp:
  assumes "\<And>x. P x \<Longrightarrow> Q x" "\<forall>x \<in> set xs. 0 \<le> f x"
  shows "sum_list (map f (filter P xs)) \<le> (sum_list (map f (filter Q xs)) :: int)"
  using assms(2) by (induction xs) (auto dest: assms(1))

lemma filter_twice_memory:
  "now \<le> T \<Longrightarrow> filter (\<lambda>t. inside_memory t T) (filter (\<lambda>t. t > now - 60 * nano_second) ts) =
    filter (\<lambda>t. inside_memory t T) ts"
  by (induction ts) (auto simp: inside_memory_def)

lemma filter_twice_memory_pairs:
  "now \<le> T \<Longrightarrow> filter (\<lambda>(t, p). inside_memory t T) (filter (\<lambda>x. fst x > now - 60 * nano_second) ts) =
    filter (\<lambda>(t, p). inside_memory t T) ts"
  by (induction ts) (auto simp: inside_memory_def)

text \<open>The check on a good window, in terms of the surviving records.\<close>

lemma checkInMemoryLimits_good:
  assumes "memory_good now kl"
  defines "rs \<equiv> filter (\<lambda>t. t > now - 60 * nano_second) (requests kl)"
    and "ts \<equiv> filter (\<lambda>x. fst x > now - 60 * nano_second) (tokens kl)"
  shows "checkInMemoryLimits rpm tpm p now kl =
    (if rpm > 0 \<and> int (length rs) \<ge> rpm \<or> tpm > 0 \<and> i64 (i64 (sum_list (map snd ts)) + p) > tpm
     then (Some (LimitError LimitThroughput), \<lparr> requests = rs, tokens = ts \<rparr>)
     else (None, \<lparr> requests = rs @ [now], tokens = ts @ (if p > 0 then [(now, p)] else []) \<rparr>))"
  using assms(1) drop_prune [of id "requests kl" "now - 60 * nano_second"]
    drop_prune [of fst "tokens kl" "now - 60 * nano_second"]
  by (cases kl) (simp add: checkInMemoryLimits_def Let_def memory_good_def rs_def ts_def list.map_id0
      del: length_drop)

interpretation memory: sliding_window checkInMemoryLimits memory_reqs memory_toks memory_good
  inside_memory "(\<le>)" memory_countable
proof
  fix rpm tpm p now T T' u e and s s' :: KeyLimiter
  define rs where "rs = filter (\<lambda>t. t > now - 60 * nano_second) (requests s)"
  define ts where "ts = filter (\<lambda>x. fst x > now - 60 * nano_second) (tokens s)"
  have now_reqs: "memory_reqs now s = int (length rs)"
    by (simp add: memory_reqs_def rs_def inside_memory_def)
  have now_toks: "memory_toks now s = sum_list (map snd ts)"
    by (simp add: memory_toks_def ts_def inside_memory_def split_def)
  have keep: "memory_reqs T \<lparr> requests = rs @ r, tokens = x \<rparr> = memory_reqs T s + int (length (filter (\<lambda>t. inside_memory t T) r))"
    "memory_toks T \<lparr> requests = y, tokens = ts @ q \<rparr> = memory_toks T s + sum_list (map snd (filter (\<lambda>(t, p). inside_memory t T) q))"
    if "now \<le> T" for r x y q T
    using that
    by (simp_all add: memory_reqs_def memory_toks_def rs_def ts_def filter_twice_memory
        filter_twice_memory_pairs del: filter_filter)
  {
    assume good: "memory_good now s"
    note check = checkInMemoryLimits_good [OF good, of rpm tpm p, folded rs_def ts_def]
    show "0 < rpm \<Longrightarrow> checkInMemoryLimits rpm tpm p now s = (None, s') \<Longrightarrow> memory_reqs now s < rpm"
      using check now_reqs by (simp split: if_splits)
    have "0 \<le> memory_toks now s"
      unfolding memory_toks_def using good by (fastforce simp: memory_good_def intro!: sum_list_nonneg)
    then have "i64 (i64 (memory_toks now s) + p) = memory_toks now s + p"
      if "memory_toks now s \<le> tpm" "memory_countable tpm p" "0 < tpm"
      using that by (auto simp: memory_countable_def i64_id in64_def int64_consts max_def split: if_splits)
    then show "0 < tpm \<Longrightarrow> checkInMemoryLimits rpm tpm p now s = (None, s') \<Longrightarrow> memory_toks now s \<le> tpm \<Longrightarrow>
        memory_countable tpm p \<Longrightarrow> memory_toks now s + p \<le> tpm"
      using check now_toks by (simp split: if_splits)
    show "now \<le> T \<Longrightarrow> checkInMemoryLimits rpm tpm p now s = (None, s') \<Longrightarrow>
        memory_reqs T s' = memory_reqs T s + (if inside_memory now T then 1 else 0)"
      using check keep(1) [of T "[now]"] by (auto split: if_splits)
    show "now \<le> T \<Longrightarrow> checkInMemoryLimits rpm tpm p now s = (None, s') \<Longrightarrow>
        memory_toks T s' = memory_toks T s + (if inside_memory now T then max 0 p else 0)"
      using check keep(2) [of T "rs @ [now]" "[]"] keep(2) [of T "rs @ [now]" "[(now, p)]"] by (auto split: if_splits)
    show "now \<le> T \<Longrightarrow> checkInMemoryLimits rpm tpm p now s = (Some e, s') \<Longrightarrow>
        memory_reqs T s' = memory_reqs T s \<and> memory_toks T s' = memory_toks T s"
      using check keep(1) [of T "[]" ts] keep(2) [of T rs "[]"] by (auto split: if_splits)
    have "sorted rs" "sorted (map fst ts)" "\<forall>t \<in> set rs. t \<le> now" "\<forall>x \<in> set ts. fst x \<le> now \<and> 0 < snd x"
      using good by (auto simp: memory_good_def rs_def ts_def sorted_filter sorted_wrt_filter)
    then show "now \<le> u \<Longrightarrow> memory_good u (snd (checkInMemoryLimits rpm tpm p now s))"
      unfolding check by (fastforce simp: memory_good_def sorted_append)
    show "now \<le> T \<Longrightarrow> T \<le> T' \<Longrightarrow> memory_reqs T' s \<le> memory_reqs T s"
      unfolding memory_reqs_def of_nat_le_iff by (rule length_filter_imp) (simp add: inside_memory_def)
    show "now \<le> T \<Longrightarrow> T \<le> T' \<Longrightarrow> memory_toks T' s \<le> memory_toks T s"
      unfolding memory_toks_def
      by (rule sum_filter_imp) (use good in \<open>auto simp: inside_memory_def memory_good_def\<close>)
  }
qed (auto simp: inside_memory_def)

text \<open>The script, where the members are those the code writes, one for every instant.\<close>

definition redis_inside :: "instant \<Rightarrow> instant \<Rightarrow> bool" where
  "redis_inside t T \<longleftrightarrow> t div 1000000 > T div 1000000 - 60000"

definition redis_reqs :: "instant \<Rightarrow> redis_window \<Rightarrow> int" where
  "redis_reqs T w = int (length (filter (\<lambda>x. snd x > T div 1000000 - 60000) (rpm_set w)))"

definition redis_toks :: "instant \<Rightarrow> redis_window \<Rightarrow> int" where
  "redis_toks T w =
     sum_list (map (\<lambda>x. member_tokens (fst x)) (filter (\<lambda>x. snd x > T div 1000000 - 60000) (tpm_set w)))"

definition redis_good :: "instant \<Rightarrow> redis_window \<Rightarrow> bool" where
  "redis_good now w \<longleftrightarrow> 0 \<le> now \<and>
     (\<forall>x \<in> set (rpm_set w). \<exists>t \<ge> 0. t < now \<and> x = (req_member t, t div 1000000)) \<and>
     (\<forall>x \<in> set (tpm_set w). \<exists>t \<ge> 0. \<exists>p > 0. t < now \<and> x = (tok_member t p, t div 1000000))"

lemma show_int_nonneg: "0 \<le> n \<Longrightarrow> show_int n = show_nat (nat n)"
  by (simp add: show_int_def)

lemma req_member_inj: "0 \<le> t \<Longrightarrow> 0 \<le> u \<Longrightarrow> req_member t = req_member u \<Longrightarrow> t = u"
  by (metis req_member_def show_int_nonneg dec_val_show_nat int_nat_eq)

lemma no_colon: "CHR '':'' \<notin> set (show_nat n)"
  using show_nat_digits [of n] by (auto simp: list_all_iff is_digit_def)

lemma tok_member_split:
  assumes "0 \<le> t"
  shows "takeWhile (\<lambda>c. c \<noteq> CHR '':'') (tok_member t p) = show_int t"
    "dropWhile (\<lambda>c. c \<noteq> CHR '':'') (tok_member t p) = CHR '':'' # show_int p"
proof -
  have a: "\<forall>c \<in> set (show_int t). c \<noteq> CHR '':''"
    using no_colon assms by (auto simp: show_int_nonneg)
  show "takeWhile (\<lambda>c. c \<noteq> CHR '':'') (tok_member t p) = show_int t"
    "dropWhile (\<lambda>c. c \<noteq> CHR '':'') (tok_member t p) = CHR '':'' # show_int p"
    using a by (simp_all add: tok_member_def takeWhile_append dropWhile_append)
qed

lemma tok_member_inj: "0 \<le> t \<Longrightarrow> 0 \<le> u \<Longrightarrow> tok_member t p = tok_member u q \<Longrightarrow> t = u"
  using tok_member_split(1) req_member_inj by (metis req_member_def)

lemma member_tokens_tok [simp]: "0 \<le> t \<Longrightarrow> 0 < p \<Longrightarrow> member_tokens (tok_member t p) = p"
proof -
  assume t: "0 \<le> t" and p: "0 < p"
  have d: "list_all is_digit (show_nat (nat p))" by (rule show_nat_digits)
  have "\<not> HasPrefix (show_nat (nat p)) ''-''"
  proof
    assume "HasPrefix (show_nat (nat p)) ''-''"
    then obtain r where "show_nat (nat p) = CHR ''-'' # r" by (auto simp: HasPrefix_iff)
    with d show False by (simp add: is_digit_def)
  qed
  then have "lua_tonumber (show_nat (nat p)) = Some p"
    using p d by (simp add: lua_tonumber_def dec_val_show_nat)
  then show ?thesis
    using t p by (simp add: member_tokens_def tok_member_split(2) show_int_nonneg)
qed

lemma ZADD_fresh: "(\<forall>x \<in> set z. fst x \<noteq> m) \<Longrightarrow> ZADD s m z = z @ [(m, s)]"
  by (auto simp: ZADD_def list_ex_iff)

lemma runLimitScript_good:
  assumes "redis_good now w"
  defines "rs \<equiv> filter (\<lambda>x. snd x > now div 1000000 - 60000) (rpm_set w)"
    and "ts \<equiv> filter (\<lambda>x. snd x > now div 1000000 - 60000) (tpm_set w)"
  shows "runLimitScript rpm tpm p now w =
    (if rpm > 0 \<and> int (length rs) \<ge> rpm \<or> tpm > 0 \<and> sum_list (map (\<lambda>x. member_tokens (fst x)) ts) + p > tpm
     then (Some (LimitError LimitThroughput), \<lparr> rpm_set = rs, tpm_set = ts \<rparr>)
     else (None, \<lparr> rpm_set = rs @ [(req_member now, now div 1000000)],
                   tpm_set = ts @ (if p > 0 then [(tok_member now p, now div 1000000)] else []) \<rparr>))"
proof -
  have nn: "0 \<le> snd x" if "x \<in> set (rpm_set w) \<union> set (tpm_set w)" for x
    using assms(1) that by (fastforce simp: redis_good_def pos_imp_zdiv_nonneg_iff)
  have z: "ZREMRANGEBYSCORE 0 (now div 1000000 - 60000) (rpm_set w) = rs"
    "ZREMRANGEBYSCORE 0 (now div 1000000 - 60000) (tpm_set w) = ts"
    unfolding ZREMRANGEBYSCORE_def rs_def ts_def split_def
    by (intro filter_cong refl; use nn in force)+
  have now: "0 \<le> now" using assms(1) by (simp add: redis_good_def)
  have "\<forall>x \<in> set rs. fst x \<noteq> req_member now"
  proof
    fix x assume "x \<in> set rs"
    then obtain t where "0 \<le> t" "t < now" "fst x = req_member t"
      using assms(1) by (auto simp: redis_good_def rs_def)
    then show "fst x \<noteq> req_member now" using req_member_inj [of t now] now by auto
  qed
  then have a: "ZADD s (req_member now) rs = rs @ [(req_member now, s)]" for s by (rule ZADD_fresh)
  have "\<forall>x \<in> set ts. fst x \<noteq> tok_member now p"
  proof
    fix x assume "x \<in> set ts"
    then obtain t q where "0 \<le> t" "t < now" "fst x = tok_member t q"
      using assms(1) unfolding redis_good_def ts_def by fastforce
    then show "fst x \<noteq> tok_member now p" using tok_member_inj [of t now q p] now by auto
  qed
  then have b: "ZADD s (tok_member now p) ts = ts @ [(tok_member now p, s)]" for s by (rule ZADD_fresh)
  show ?thesis
    by (simp add: runLimitScript_def atomicLimitScript_def Let_def z a b split_def)
qed

interpretation redis: sliding_window runLimitScript redis_reqs redis_toks redis_good redis_inside "(<)" "\<lambda>tpm p. True"
proof
  fix rpm tpm p now T T' u e and s s' :: redis_window
  define rs where "rs = filter (\<lambda>x. snd x > now div 1000000 - 60000) (rpm_set s)"
  define ts where "ts = filter (\<lambda>x. snd x > now div 1000000 - 60000) (tpm_set s)"
  show "redis_inside now T' \<Longrightarrow> T \<le> T' \<Longrightarrow> redis_inside now T"
    unfolding redis_inside_def using zdiv_mono1 [of T T' 1000000] by simp
  have mono: "T \<le> T' \<Longrightarrow> snd x > T' div 1000000 - 60000 \<Longrightarrow> snd x > T div 1000000 - 60000"
    for T T' and x :: "string \<times> int"
    using zdiv_mono1 [of T T' 1000000] by simp
  have twice: "filter (\<lambda>x. snd x > T div 1000000 - 60000) rs = filter (\<lambda>x. snd x > T div 1000000 - 60000) (rpm_set s)"
    "filter (\<lambda>x. snd x > T div 1000000 - 60000) ts = filter (\<lambda>x. snd x > T div 1000000 - 60000) (tpm_set s)"
    if "now \<le> T" for T
    unfolding rs_def ts_def filter_filter using mono [OF that] by (metis (mono_tags, lifting))+
  have now_reqs: "redis_reqs now s = int (length rs)" by (simp add: redis_reqs_def rs_def)
  have now_toks: "redis_toks now s = sum_list (map (\<lambda>x. member_tokens (fst x)) ts)"
    by (simp add: redis_toks_def ts_def)
  have keep: "redis_reqs T \<lparr> rpm_set = rs @ r, tpm_set = x \<rparr> =
      redis_reqs T s + int (length (filter (\<lambda>x. snd x > T div 1000000 - 60000) r))"
    "redis_toks T \<lparr> rpm_set = y, tpm_set = ts @ q \<rparr> =
      redis_toks T s + sum_list (map (\<lambda>x. member_tokens (fst x)) (filter (\<lambda>x. snd x > T div 1000000 - 60000) q))"
    if "now \<le> T" for r x y q T
    by (simp_all add: redis_reqs_def redis_toks_def twice [OF that])
  {
    assume good: "redis_good now s"
    have nn: "0 \<le> now" using good by (simp add: redis_good_def)
    note check = runLimitScript_good [OF good, of rpm tpm p, folded rs_def ts_def]
    show "0 < rpm \<Longrightarrow> runLimitScript rpm tpm p now s = (None, s') \<Longrightarrow> redis_reqs now s < rpm"
      using check now_reqs by (simp split: if_splits)
    show "0 < tpm \<Longrightarrow> runLimitScript rpm tpm p now s = (None, s') \<Longrightarrow> redis_toks now s + p \<le> tpm"
      using check now_toks by (simp split: if_splits)
    show "now \<le> T \<Longrightarrow> runLimitScript rpm tpm p now s = (None, s') \<Longrightarrow>
        redis_reqs T s' = redis_reqs T s + (if redis_inside now T then 1 else 0)"
      using check keep(1) [of T "[(req_member now, now div 1000000)]"]
      by (auto simp: redis_inside_def split: if_splits)
    show "now \<le> T \<Longrightarrow> runLimitScript rpm tpm p now s = (None, s') \<Longrightarrow>
        redis_toks T s' = redis_toks T s + (if redis_inside now T then max 0 p else 0)"
      using check keep(2) [of T "rs @ [(req_member now, now div 1000000)]" "[]"] nn
        keep(2) [of T "rs @ [(req_member now, now div 1000000)]" "[(tok_member now p, now div 1000000)]"]
      by (auto simp: redis_inside_def split: if_splits)
    show "now \<le> T \<Longrightarrow> runLimitScript rpm tpm p now s = (Some e, s') \<Longrightarrow>
        redis_reqs T s' = redis_reqs T s \<and> redis_toks T s' = redis_toks T s"
      using check keep(1) [of T "[]" ts] keep(2) [of T rs "[]"] by (auto split: if_splits)
    show "now < u \<Longrightarrow> redis_good u (snd (runLimitScript rpm tpm p now s))"
      unfolding check using good by (fastforce simp: redis_good_def rs_def ts_def)
    show "T \<le> T' \<Longrightarrow> redis_reqs T' s \<le> redis_reqs T s"
      unfolding redis_reqs_def of_nat_le_iff by (rule length_filter_imp) (rule mono)
    have "\<forall>x \<in> set (tpm_set s). 0 \<le> member_tokens (fst x)"
      using good by (fastforce simp: redis_good_def)
    then show "T \<le> T' \<Longrightarrow> redis_toks T' s \<le> redis_toks T s"
      unfolding redis_toks_def by (intro sum_filter_imp) (rule mono)
  }
qed simp_all

section \<open>Properties\<close>

lemma empty_limiter_counts: "memory_reqs T empty_limiter = 0" "memory_toks T empty_limiter = 0"
  "memory_good t empty_limiter"
  by (simp_all add: memory_reqs_def memory_toks_def memory_good_def empty_limiter_def)

lemma empty_redis_counts: "redis_reqs T empty_redis = 0" "redis_toks T empty_redis = 0"
  "0 \<le> t \<Longrightarrow> redis_good t empty_redis"
  by (simp_all add: redis_reqs_def redis_toks_def redis_good_def empty_redis_def)

text \<open>C30: The in-memory window never lets a key exceed its limits: however requests arrive, at
  every later instant the admitted requests of the preceding minute are at most the RPM limit
  and their tokens at most the TPM limit (a limit of zero or less is no limit), as long as no
  request's tokens overflow an \<open>int64\<close> on top of a full window.\<close>

theorem memory_limits_hold:
  fixes rpm tpm :: int
  assumes "sorted (map fst arrivals)" "\<forall>(t, p) \<in> set arrivals. t \<le> T"
    and "0 < tpm \<longrightarrow> (\<forall>(t, p) \<in> set arrivals. memory_countable tpm p)"
  defines "recent \<equiv> in_window inside_memory T (admitted (checkInMemoryLimits rpm tpm) arrivals empty_limiter)"
  shows "(0 < rpm \<longrightarrow> int (length recent) \<le> rpm) \<and>
    (0 < tpm \<longrightarrow> sum_list (map (\<lambda>(t, p). max 0 p) recent) \<le> tpm)"
proof (cases "arrivals = []")
  case True
  then show ?thesis by (simp add: recent_def in_window_def)
next
  case False
  then show ?thesis
    unfolding recent_def
    using memory.window_bounded [OF empty_limiter_counts(3) _ False assms(2) _ assms(3)] assms(1) empty_limiter_counts
    by blast
qed

theorem memory_limits_hold_witness:
  "int (length (in_window inside_memory 9 (admitted (checkInMemoryLimits 2 100) [(1, 5), (3, 5), (9, 5)] empty_limiter))) \<le> 2"
  using memory_limits_hold [of "[(1, 5), (3, 5), (9, 5)]" 9 100 2]
  by (simp add: memory_countable_def int64_consts)

text \<open>The Redis window keeps the same promise, for requests that arrive at distinct
  nanoseconds: the script commits a request only when it still fits, so in every minute at most
  the RPM limit of requests and the TPM limit of tokens are admitted.\<close>

theorem redis_limits_hold:
  fixes rpm tpm :: int
  assumes "sorted_wrt (<) (map fst arrivals)" "\<forall>(t, p) \<in> set arrivals. 0 \<le> t \<and> t \<le> T"
  defines "recent \<equiv> in_window redis_inside T (admitted (runLimitScript rpm tpm) arrivals empty_redis)"
  shows "(0 < rpm \<longrightarrow> int (length recent) \<le> rpm) \<and>
    (0 < tpm \<longrightarrow> sum_list (map (\<lambda>(t, p). max 0 p) recent) \<le> tpm)"
proof (cases "arrivals = []")
  case True
  then show ?thesis by (simp add: recent_def in_window_def)
next
  case False
  then have "0 \<le> fst (hd arrivals)" using assms(2) by (cases arrivals) auto
  moreover have "\<forall>(t, p) \<in> set arrivals. t \<le> T" using assms(2) by blast
  ultimately show ?thesis
    unfolding recent_def
    using redis.window_bounded [OF empty_redis_counts(3) assms(1) False] empty_redis_counts(1,2)
    by blast
qed

theorem redis_limits_hold_witness:
  "int (length (in_window redis_inside 9 (admitted (runLimitScript 2 100) [(1, 5), (3, 5), (9, 5)] empty_redis))) \<le> 2"
  using redis_limits_hold [of "[(1, 5), (3, 5), (9, 5)]" 9 2 100] by simp

text \<open>Requests that arrive at the same nanosecond are counted once in Redis, since the
  member of a request is its time alone: any number of them passes any RPM limit above one.\<close>

theorem redis_same_instant:
  assumes "1 < rpm" "0 \<le> t"
  shows "length (admitted (runLimitScript rpm 0) (replicate n (t, 0)) empty_redis) = n"
proof -
  define w where "w = \<lparr> rpm_set = [(req_member t, t div 1000000)], tpm_set = [] \<rparr>"
  have z: "ZREMRANGEBYSCORE 0 (t div 1000000 - 60000) [(req_member t, t div 1000000)] =
      [(req_member t, t div 1000000)]"
    by (simp add: ZREMRANGEBYSCORE_def)
  have again: "runLimitScript rpm 0 0 t w = (None, w)"
    using assms(1) by (simp add: runLimitScript_def atomicLimitScript_def Let_def w_def z ZADD_def)
      (simp add: ZREMRANGEBYSCORE_def)
  have first: "runLimitScript rpm 0 0 t empty_redis = (None, w)"
    using assms(1) by (simp add: runLimitScript_def atomicLimitScript_def Let_def w_def empty_redis_def
        ZADD_def ZREMRANGEBYSCORE_def)
  have "length (admitted (runLimitScript rpm 0) (replicate m (t, 0)) w) = m" for m
    by (induction m) (simp_all add: again)
  then show ?thesis by (cases n) (simp_all add: first)
qed

theorem redis_same_instant_witness:
  "length (admitted (runLimitScript 2 0) (replicate 5 (7, 0)) empty_redis) = 5"
  by (rule redis_same_instant) simp_all

text \<open>With Redis required the limiter fails closed: a Redis that failed to start or does not
  answer never lets a request through, and the window in memory is not consulted.\<close>

theorem CheckLimit_fails_closed:
  assumes "requireRedis rl" "redisInitErr rl \<or> useRedis rl \<and> \<not> up"
  shows "fst (CheckLimit rl db up dbnow now keyID userID promptTokens) \<noteq> None \<and>
    limiters (snd (CheckLimit rl db up dbnow now keyID userID promptTokens)) = limiters rl"
proof (cases "redisInitErr rl")
  case True
  with assms(1) show ?thesis by (simp add: CheckLimit_def)
next
  case False
  obtain res rl' where L: "loadDefs rl db dbnow now userID = (res, rl')" by fastforce
  then have "limiters rl' = limiters rl \<and> requireRedis rl' = requireRedis rl \<and> useRedis rl' = useRedis rl"
    by (auto simp: loadDefs_def defs_set_def Let_def split: option.splits sum.splits prod.splits)
  with assms False show ?thesis
    by (simp add: CheckLimit_def L checkRedisLimits_def split: sum.split prod.split)
qed

theorem CheckLimit_fails_closed_witness:
  "fst (CheckLimit \<lparr> limiters = Map.empty, redis = (\<lambda>_. empty_redis), useRedis = True, requireRedis = True,
      redisInitErr = False, defs = Map.empty \<rparr>
    \<lparr> users = [], plans = [], budget_windows = [], user_topups = [], request_logs = [],
      request_pricing_lines = [], usage_resets = [] \<rparr> False 0 0 ''k'' ''u'' 10) \<noteq> None"
  by (rule CheckLimit_fails_closed [THEN conjunct1]) simp_all

end
