(* ===== verification/Guard.thy ===== *)
theory Guard
  imports Limiter
begin

text \<open>
  The generation guard (src/proxy/limiter.go), which lets one billable generation of a user run
  at a time: the map in memory, and the lease in Redis with its renew and release scripts. A
  run is a step relation with the set of generations in flight (\<open>guard_run\<close>); a lease lapses
  when time passes its expiry. The locale \<open>execution_guard\<close> holds the laws of a guard and the
  proof of mutual exclusion, and both guards interpret it.
\<close>

type_synonym active = "string \<rightharpoonup> string"

definition tryInMemoryGeneration :: "instant \<Rightarrow> string \<Rightarrow> string \<Rightarrow> active \<Rightarrow> bool \<times> active" where
  "tryInMemoryGeneration now userID requestID st =
     (case st userID of Some _ \<Rightarrow> (False, st) | None \<Rightarrow> (True, st(userID \<mapsto> requestID)))"

definition releaseInMemoryGeneration :: "instant \<Rightarrow> string \<Rightarrow> string \<Rightarrow> active \<Rightarrow> active" where
  "releaseInMemoryGeneration now userID requestID st =
     (if st userID = Some requestID then st(userID := None) else st)"

text \<open>A lease is the request that holds it and the instant it expires.\<close>

type_synonym leases = "string \<rightharpoonup> string \<times> instant"

definition generationLeaseTTL :: int where
  "generationLeaseTTL = 120 * nano_second"

definition generationLeaseHeartbeat :: int where
  "generationLeaseHeartbeat = 30 * nano_second"

definition redis_GET :: "instant \<Rightarrow> leases \<Rightarrow> string \<Rightarrow> string option" where
  "redis_GET now st key =
     (case st key of None \<Rightarrow> None | Some (v, expiry) \<Rightarrow> if now < expiry then Some v else None)"

text \<open>\<open>SET key value NX\<close> with the lease's time to live.\<close>

definition tryRedisGeneration :: "instant \<Rightarrow> string \<Rightarrow> string \<Rightarrow> leases \<Rightarrow> bool \<times> leases" where
  "tryRedisGeneration now userID requestID st =
     (case redis_GET now st userID of
        Some _ \<Rightarrow> (False, st)
      | None \<Rightarrow> (True, st(userID \<mapsto> (requestID, now + generationLeaseTTL))))"

definition renewGenerationScript :: "instant \<Rightarrow> string \<Rightarrow> string \<Rightarrow> leases \<Rightarrow> leases" where
  "renewGenerationScript now userID requestID st =
     (if redis_GET now st userID = Some requestID
      then st(userID \<mapsto> (requestID, now + generationLeaseTTL)) else st)"

definition releaseGenerationScript :: "instant \<Rightarrow> string \<Rightarrow> string \<Rightarrow> leases \<Rightarrow> leases" where
  "releaseGenerationScript now userID requestID st =
     (if redis_GET now st userID = Some requestID then st(userID := None) else st)"

section \<open>Waiting\<close>

text \<open>\<open>AcquireGeneration\<close> against the outcomes of its successive polls; the list ends where the
  context of the request is done.\<close>

datatype acquire_result = Acquired | AcquireFailed limit_error | Cancelled

fun acquire_polls :: "(limit_error + bool) list \<Rightarrow> acquire_result" where
  "acquire_polls [] = Cancelled"
| "acquire_polls (Inl e # polls) = AcquireFailed e"
| "acquire_polls (Inr acquired # polls) = (if acquired then Acquired else acquire_polls polls)"

definition AcquireGeneration :: "RateLimiter \<Rightarrow> (limit_error + bool) list \<Rightarrow> acquire_result" where
  "AcquireGeneration rl polls =
     (if requireRedis rl \<and> redisInitErr rl then AcquireFailed (LimitError LimitInfrastructure)
      else if requireRedis rl \<and> \<not> useRedis rl then AcquireFailed (LimitError LimitInfrastructure)
      else acquire_polls polls)"

section \<open>Runs\<close>

text \<open>
  \<open>AcquireGeneration\<close> polls until an attempt succeeds, so a run consists of successful attempts,
  renewals and releases by generations in flight, and the passing of time; \<open>may_pass\<close> says up to
  which instant time may pass. Request identifiers are fresh (UUIDs).
\<close>

inductive guard_run ::
  "(instant \<Rightarrow> string \<Rightarrow> string \<Rightarrow> 's \<Rightarrow> bool \<times> 's) \<Rightarrow> (instant \<Rightarrow> string \<Rightarrow> string \<Rightarrow> 's \<Rightarrow> 's) \<Rightarrow>
   (instant \<Rightarrow> string \<Rightarrow> string \<Rightarrow> 's \<Rightarrow> 's) \<Rightarrow> (instant \<Rightarrow> 's \<Rightarrow> (string \<times> string) set \<Rightarrow> bool) \<Rightarrow> 's \<Rightarrow>
   instant \<Rightarrow> 's \<Rightarrow> (string \<times> string) set \<Rightarrow> bool"
  for attempt renew release may_pass start
where
  run_start: "guard_run attempt renew release may_pass start 0 start {}"
| run_acquire: "guard_run attempt renew release may_pass start now s inflight \<Longrightarrow>
    attempt now u r s = (True, s') \<Longrightarrow> \<forall>v. (v, r) \<notin> inflight \<Longrightarrow>
    guard_run attempt renew release may_pass start now s' (insert (u, r) inflight)"
| run_renew: "guard_run attempt renew release may_pass start now s inflight \<Longrightarrow> (u, r) \<in> inflight \<Longrightarrow>
    guard_run attempt renew release may_pass start now (renew now u r s) inflight"
| run_release: "guard_run attempt renew release may_pass start now s inflight \<Longrightarrow> (u, r) \<in> inflight \<Longrightarrow>
    guard_run attempt renew release may_pass start now (release now u r s) (inflight - {(u, r)})"
| run_tick: "guard_run attempt renew release may_pass start now s inflight \<Longrightarrow> now \<le> later \<Longrightarrow>
    may_pass later s inflight \<Longrightarrow>
    guard_run attempt renew release may_pass start later s inflight"

locale execution_guard =
  fixes attempt :: "instant \<Rightarrow> string \<Rightarrow> string \<Rightarrow> 's \<Rightarrow> bool \<times> 's"
    and renew release :: "instant \<Rightarrow> string \<Rightarrow> string \<Rightarrow> 's \<Rightarrow> 's"
    and may_pass :: "instant \<Rightarrow> 's \<Rightarrow> (string \<times> string) set \<Rightarrow> bool"
    and start :: 's
    and holder :: "instant \<Rightarrow> 's \<Rightarrow> string \<Rightarrow> string option"
  assumes start_free: "holder now start u = None"
    and attempt_holder: "attempt now u r s = (True, s') \<Longrightarrow>
      holder now s u = None \<and> (\<forall>v. holder now s' v = (if v = u then Some r else holder now s v))"
    and renew_holder: "holder now (renew now u r s) v = holder now s v"
    and release_holder: "holder now (release now u r s) v =
      (if v = u \<and> holder now s u = Some r then None else holder now s v)"
    and lapse: "now \<le> later \<Longrightarrow> holder later s u = Some r \<Longrightarrow> holder now s u = Some r"
    and kept: "may_pass later s inflight \<Longrightarrow> (u, r) \<in> inflight \<Longrightarrow> now \<le> later \<Longrightarrow>
      holder now s u = Some r \<Longrightarrow> holder later s u = Some r"
begin

text \<open>The generations in flight are exactly the holders.\<close>

lemma inflight_holders:
  "guard_run attempt renew release may_pass start now s inflight \<Longrightarrow>
   (u, r) \<in> inflight \<longleftrightarrow> holder now s u = Some r"
proof (induction arbitrary: u r rule: guard_run.induct)
  case run_start
  then show ?case by (simp add: start_free)
next
  case (run_acquire now s inflight u' r' s')
  note a = attempt_holder [OF run_acquire.hyps(2)]
  have "(u', x) \<notin> inflight" for x using run_acquire.IH [of u' x] a by simp
  then show ?case using run_acquire.IH [of u r] a by auto
next
  case (run_renew now s inflight u' r')
  then show ?case by (simp add: renew_holder)
next
  case (run_release now s inflight u' r')
  have "holder now s u' = Some r'" using run_release.hyps(2) run_release.IH by blast
  then show ?case using run_release.IH [of u r] by (auto simp: release_holder)
next
  case (run_tick now s inflight later)
  then show ?case using lapse kept by blast
qed

lemma mutual_exclusion:
  assumes "guard_run attempt renew release may_pass start now s inflight"
    and "(u, r) \<in> inflight" "(u, r') \<in> inflight"
  shows "r = r'"
  using inflight_holders [OF assms(1)] assms(2,3) by force

end

definition always :: "instant \<Rightarrow> 's \<Rightarrow> (string \<times> string) set \<Rightarrow> bool" where
  "always later s inflight \<longleftrightarrow> True"

definition no_renewal :: "instant \<Rightarrow> string \<Rightarrow> string \<Rightarrow> 's \<Rightarrow> 's" where
  "no_renewal now userID requestID s = s"

text \<open>The leases of the generations in flight are alive. That the heartbeats keep them alive is \<open>lease_of_beat\<close>.\<close>

definition leases_alive :: "instant \<Rightarrow> leases \<Rightarrow> (string \<times> string) set \<Rightarrow> bool" where
  "leases_alive later st inflight \<longleftrightarrow> (\<forall>(u, r) \<in> inflight. redis_GET later st u = Some r)"

interpretation memory_guard: execution_guard tryInMemoryGeneration no_renewal releaseInMemoryGeneration
  always Map.empty "\<lambda>now st. st"
  by unfold_locales
    (auto simp: tryInMemoryGeneration_def releaseInMemoryGeneration_def no_renewal_def split: option.splits)

lemma generationLeaseTTL_pos: "0 < generationLeaseTTL"
  by (simp add: generationLeaseTTL_def nano_second_def)

interpretation lease_guard: execution_guard tryRedisGeneration renewGenerationScript releaseGenerationScript
  leases_alive Map.empty redis_GET
  by unfold_locales
    (use generationLeaseTTL_pos in \<open>auto simp: tryRedisGeneration_def renewGenerationScript_def
       releaseGenerationScript_def redis_GET_def leases_alive_def split: option.splits if_splits\<close>)

section \<open>Properties\<close>

text \<open>In memory at most one generation of a user is ever in flight, whatever the interleaving
  of attempts and releases, and it is the one the map records.\<close>

theorem memory_generations_exclusive:
  assumes "guard_run tryInMemoryGeneration no_renewal releaseInMemoryGeneration always Map.empty now s inflight"
    and "(u, r) \<in> inflight" "(u, r') \<in> inflight"
  shows "r = r' \<and> s u = Some r"
  using memory_guard.mutual_exclusion [OF assms] memory_guard.inflight_holders [OF assms(1)] assms(2)
  by blast

theorem memory_generations_exclusive_witness: "[''u'' \<mapsto> ''r''] ''u'' = Some ''r''"
proof -
  have "guard_run tryInMemoryGeneration no_renewal releaseInMemoryGeneration always Map.empty 0
      [''u'' \<mapsto> ''r''] {(''u'', ''r'')}"
    by (rule run_acquire [OF run_start]) (simp_all add: tryInMemoryGeneration_def)
  from memory_generations_exclusive [OF this, of "''u''" "''r''" "''r''"] show ?thesis by simp
qed

section \<open>The lease and its heartbeat\<close>

text \<open>
  A run of the guard in Redis with the heartbeats that keep its leases: \<open>beat\<close> is the instant at which each
  generation in flight last set or renewed its lease, and no more than \<open>gap\<close> passes between two of them.
  A renewal that fails (src/proxy/limiter.go, \<open>renewGenerationLease\<close> only logs it) is no step. A release may
  be lost on its way to Redis; the lease then stays until it expires.
\<close>

inductive lease_run :: "int \<Rightarrow> instant \<Rightarrow> leases \<Rightarrow> (string \<times> string \<rightharpoonup> instant) \<Rightarrow> bool" for gap
where
  lease_start: "lease_run gap 0 Map.empty Map.empty"
| lease_acquire: "lease_run gap now s beat \<Longrightarrow> tryRedisGeneration now u r s = (True, s') \<Longrightarrow>
    lease_run gap now s' (beat((u, r) \<mapsto> now))"
| lease_renew: "lease_run gap now s beat \<Longrightarrow> beat (u, r) = Some t \<Longrightarrow>
    lease_run gap now (renewGenerationScript now u r s) (beat((u, r) \<mapsto> now))"
| lease_release: "lease_run gap now s beat \<Longrightarrow> beat (u, r) = Some t \<Longrightarrow>
    lease_run gap now (releaseGenerationScript now u r s) (beat((u, r) := None))"
| lease_release_lost: "lease_run gap now s beat \<Longrightarrow> beat (u, r) = Some t \<Longrightarrow>
    lease_run gap now s (beat((u, r) := None))"
| lease_tick: "lease_run gap now s beat \<Longrightarrow> now \<le> later \<Longrightarrow> \<forall>k t. beat k = Some t \<longrightarrow> later \<le> t + gap \<Longrightarrow>
    lease_run gap later s beat"

text \<open>Every generation in flight holds a lease that expires one time to live after its last heartbeat.\<close>

lemma lease_of_beat:
  assumes "lease_run gap now s beat" "gap < generationLeaseTTL"
  shows "\<forall>u r t. beat (u, r) = Some t \<longrightarrow> s u = Some (r, t + generationLeaseTTL) \<and> now < t + generationLeaseTTL"
  using assms(1)
proof induction
  case lease_start
  then show ?case by simp
next
  case (lease_acquire now s beat u r s')
  have "beat (u, x) = None" for x
  proof (cases "beat (u, x)")
    case (Some t)
    with lease_acquire.IH have "redis_GET now s u = Some x" by (simp add: redis_GET_def)
    then show ?thesis using lease_acquire.hyps(2) by (simp add: tryRedisGeneration_def)
  qed
  moreover have "s' = s(u \<mapsto> (r, now + generationLeaseTTL))"
    using lease_acquire.hyps(2) by (simp add: tryRedisGeneration_def split: option.splits)
  ultimately show ?case using lease_acquire.IH generationLeaseTTL_pos by auto
next
  case (lease_renew now s beat u r t)
  then have "s u = Some (r, t + generationLeaseTTL)" "now < t + generationLeaseTTL" by blast+
  then have "renewGenerationScript now u r s = s(u \<mapsto> (r, now + generationLeaseTTL))"
    by (simp add: renewGenerationScript_def redis_GET_def)
  moreover have "x = r" if "beat (u, x) = Some t'" for x t'
    using lease_renew.IH [rule_format, OF that] lease_renew.IH [rule_format, OF lease_renew.hyps(2)] by simp
  ultimately show ?case using lease_renew.IH generationLeaseTTL_pos by (auto split: if_splits)
next
  case (lease_release now s beat u r t)
  have "beat (u, x) = None" if "x \<noteq> r" for x
    using that lease_release.IH [rule_format, of u x] lease_release.IH [rule_format, OF lease_release.hyps(2)]
    by (cases "beat (u, x)") auto
  then show ?case using lease_release.IH by (auto simp: releaseGenerationScript_def split: if_splits)
next
  case (lease_release_lost now s beat u r t)
  then show ?case by simp
next
  case (lease_tick now s beat later)
  then show ?case using assms(2) by (meson add_strict_left_mono order_le_less_trans)
qed

text \<open>C31: Across replicas one generation of a user runs at a time. As long as every generation in flight
  renews its lease before a time to live has passed since the last renewal (a heartbeat is due four times
  as often, so that two in a row may fail), two generations in flight for one user are the same, it holds
  the lease, and neither a release nor a renewal by another request touches it.\<close>

theorem lease_generations_exclusive:
  assumes "lease_run gap now s beat" "gap < generationLeaseTTL"
    and "beat (u, r) = Some t" "beat (u, r') = Some t'"
  shows "r = r' \<and> redis_GET now s u = Some r \<and>
    (\<forall>x. x \<noteq> r \<longrightarrow> releaseGenerationScript now u x s = s \<and> renewGenerationScript now u x s = s)"
proof -
  note lease = lease_of_beat [OF assms(1,2), rule_format]
  have "redis_GET now s u = Some r" using lease [OF assms(3)] by (simp add: redis_GET_def)
  moreover have "r = r'" using lease [OF assms(3)] lease [OF assms(4)] by simp
  ultimately show ?thesis by (simp add: releaseGenerationScript_def renewGenerationScript_def)
qed

theorem lease_generations_exclusive_witness:
  "\<exists>s. lease_run (3 * generationLeaseHeartbeat) (3 * generationLeaseHeartbeat) s [(''u'', ''r'') \<mapsto> 0] \<and>
     redis_GET (3 * generationLeaseHeartbeat) s ''u'' = Some ''r''"
proof -
  have "lease_run (3 * generationLeaseHeartbeat) 0 [''u'' \<mapsto> (''r'', generationLeaseTTL)] [(''u'', ''r'') \<mapsto> 0]"
    by (rule lease_acquire [OF lease_start, where u = "''u''" and r = "''r''", simplified])
      (simp add: tryRedisGeneration_def redis_GET_def)
  then have run: "lease_run (3 * generationLeaseHeartbeat) (3 * generationLeaseHeartbeat)
      [''u'' \<mapsto> (''r'', generationLeaseTTL)] [(''u'', ''r'') \<mapsto> 0]"
    by (rule lease_tick) (simp_all add: generationLeaseHeartbeat_def nano_second_def split: if_splits)
  have "3 * generationLeaseHeartbeat < generationLeaseTTL"
    by (simp add: generationLeaseHeartbeat_def generationLeaseTTL_def nano_second_def)
  from lease_generations_exclusive [OF run this, of "''u''" "''r''" 0 "''r''" 0] run show ?thesis by auto
qed

text \<open>The bound is sharp: a generation whose renewals fail for two minutes loses its lease without being
  stopped, and a second generation of the same user then runs beside it.\<close>

lemma lapsed_lease_admits_two:
  "\<exists>s beat. lease_run generationLeaseTTL generationLeaseTTL s beat \<and>
     beat (u, ''a'') \<noteq> None \<and> beat (u, ''b'') \<noteq> None"
proof -
  have "lease_run generationLeaseTTL 0 [u \<mapsto> (''a'', generationLeaseTTL)] (Map.empty((u, ''a'') \<mapsto> 0))"
    by (rule lease_acquire [OF lease_start]) (simp add: tryRedisGeneration_def redis_GET_def)
  then have "lease_run generationLeaseTTL generationLeaseTTL [u \<mapsto> (''a'', generationLeaseTTL)] (Map.empty((u, ''a'') \<mapsto> 0))"
    by (rule lease_tick) (auto simp: less_imp_le [OF generationLeaseTTL_pos] split: if_splits)
  then have "lease_run generationLeaseTTL generationLeaseTTL [u \<mapsto> (''b'', generationLeaseTTL + generationLeaseTTL)]
      (Map.empty((u, ''a'') \<mapsto> 0, (u, ''b'') \<mapsto> generationLeaseTTL))"
    by (rule lease_acquire) (simp add: tryRedisGeneration_def redis_GET_def)
  then show ?thesis by (intro exI conjI) (assumption, simp_all)
qed

end
