(* ===== verification/Buffers.thy ===== *)
theory Buffers
  imports Settlement
begin

text \<open>
  Two bounded resources of the process. The byte budget (src/proxy/bytebudget.go) hands out the
  memory request bodies may occupy; its state is the free bytes and one slot per request, and
  an event is one locked round of the code (\<open>bb_step\<close>). The outbox (src/proxy/outbox.go) retries
  log rows that could not be written; its state is the queue, the store and the loss counter.
\<close>

section \<open>The byte budget\<close>

definition byteBudgetUnit :: int where
  "byteBudgetUnit = 1048576"

definition defaultMaxInflightRequestBytes :: int where
  "defaultMaxInflightRequestBytes = 268435456"

definition maxChatRequestBytes :: int where
  "maxChatRequestBytes = 25165824"

definition maxTranscriptionRequestBytes :: int where
  "maxTranscriptionRequestBytes = 104857600"

text \<open>\<open>env\<close> is the value of MAX_INFLIGHT_REQUEST_BYTES.\<close>

definition maxInflightRequestBytes :: "string \<Rightarrow> int" where
  "maxInflightRequestBytes env =
     (let raw = TrimSpace env
      in if raw = [] then defaultMaxInflightRequestBytes
         else (case ParseInt raw of
                 None \<Rightarrow> defaultMaxInflightRequestBytes
               | Some n \<Rightarrow> if n < byteBudgetUnit then defaultMaxInflightRequestBytes else n))"

definition newByteBudget :: "int \<Rightarrow> int" where
  "newByteBudget tot = (if tot < byteBudgetUnit then byteBudgetUnit else tot)"

text \<open>One pass through the lock of \<open>Acquire\<close>: the free bytes and the bytes acquired after it.\<close>

definition Acquire_round :: "int \<Rightarrow> int \<Rightarrow> int \<Rightarrow> int \<times> int" where
  "Acquire_round avail n acquired =
     (if avail > 0 then
        (let take = (if avail > n - acquired then n - acquired else avail)
         in (avail - take, acquired + take))
      else (avail, acquired))"

definition Release :: "int \<Rightarrow> int \<Rightarrow> int" where
  "Release avail n = (if n \<le> 0 then avail else avail + n)"

datatype slot = Waiting int int | Holding int | Gone

datatype bb_event = Arrive int | Round nat | Finish nat | Cancel nat

type_synonym byte_budget = "int \<times> slot list"

text \<open>A slot waits in the loop of \<open>Acquire\<close>, holds its bytes until the deferred \<open>Release\<close>, or is
  gone. \<open>None\<close>: the event is not possible.\<close>

definition bb_step :: "bb_event \<Rightarrow> byte_budget \<Rightarrow> byte_budget option" where
  "bb_step e st =
     (let (avail, slots) = st
      in case e of
           Arrive n \<Rightarrow> Some (avail, slots @ [if 0 < n then Waiting n 0 else Holding n])
         | Round i \<Rightarrow>
             (if i < length slots then
                (case slots ! i of
                   Waiting n acquired \<Rightarrow>
                     (let (avail', acquired') = Acquire_round avail n acquired
                      in Some (avail', slots[i := if acquired' < n then Waiting n acquired' else Holding n]))
                 | _ \<Rightarrow> None)
              else None)
         | Finish i \<Rightarrow>
             (if i < length slots then
                (case slots ! i of Holding n \<Rightarrow> Some (Release avail n, slots[i := Gone]) | _ \<Rightarrow> None)
              else None)
         | Cancel i \<Rightarrow>
             (if i < length slots then
                (case slots ! i of
                   Waiting n acquired \<Rightarrow> Some (Release avail acquired, slots[i := Gone])
                 | _ \<Rightarrow> None)
              else None))"

fun bb_run :: "bb_event list \<Rightarrow> byte_budget \<Rightarrow> byte_budget option" where
  "bb_run [] st = Some st"
| "bb_run (e # es) st = Option.bind (bb_step e st) (bb_run es)"

fun held :: "slot \<Rightarrow> int" where
  "held (Waiting n acquired) = acquired"
| "held (Holding n) = max 0 n"
| "held Gone = 0"

fun slot_ok :: "slot \<Rightarrow> bool" where
  "slot_ok (Waiting n acquired) \<longleftrightarrow> 0 \<le> acquired \<and> acquired < n"
| "slot_ok (Holding n) \<longleftrightarrow> True"
| "slot_ok Gone \<longleftrightarrow> True"

definition bb_inv :: "int \<Rightarrow> byte_budget \<Rightarrow> bool" where
  "bb_inv tot st \<longleftrightarrow>
     (case st of (avail, slots) \<Rightarrow>
        0 \<le> avail \<and> (\<forall>s \<in> set slots. slot_ok s) \<and> avail + sum_list (map held slots) = tot)"

lemma sum_list_held_update:
  "i < length slots \<Longrightarrow>
   sum_list (map held (slots[i := s])) = sum_list (map held slots) - held (slots ! i) + held s"
  by (induction slots arbitrary: i) (auto split: nat.split)

lemma bb_step_inv:
  assumes "bb_inv tot st" "bb_step e st = Some st'"
  shows "bb_inv tot st'"
proof -
  obtain avail slots where st: "st = (avail, slots)" by fastforce
  have inv: "0 \<le> avail" "\<forall>s \<in> set slots. slot_ok s" "avail + sum_list (map held slots) = tot"
    using assms(1) by (simp_all add: bb_inv_def st)
  have upd: "\<forall>s \<in> set (slots[i := x]). slot_ok s" if "slot_ok x" for i x
    using inv(2) that set_update_subset_insert [of slots i x] by blast
  have at: "slot_ok (slots ! i)" if "i < length slots" for i using inv(2) that by simp
  show ?thesis
  proof (cases e)
    case (Arrive n)
    with assms(2) inv show ?thesis by (auto simp: bb_step_def st bb_inv_def)
  next
    case (Round i)
    then obtain n a where i: "i < length slots" "slots ! i = Waiting n a"
      using assms(2) by (auto simp: bb_step_def st split: if_splits slot.splits)
    define t where "t = (if avail > 0 then min avail (n - a) else 0)"
    have a: "0 \<le> a" "a < n" using at [OF i(1)] i(2) by simp_all
    have r: "Acquire_round avail n a = (avail - t, a + t)" "0 \<le> t" "t \<le> avail" "a + t \<le> n"
      using inv(1) a by (auto simp: Acquire_round_def t_def)
    define x where "x = (if a + t < n then Waiting n (a + t) else Holding n)"
    have st': "st' = (avail - t, slots[i := x])"
      using assms(2) i by (simp add: bb_step_def st Round r x_def)
    have "slot_ok x" "held x = a + t" using a r by (auto simp: x_def)
    then show ?thesis
      using upd inv r sum_list_held_update [OF i(1), of x] i(2) by (simp add: bb_inv_def st')
  next
    case (Finish i)
    then obtain n where i: "i < length slots" "slots ! i = Holding n"
      "st' = (Release avail n, slots[i := Gone])"
      using assms(2) by (auto simp: bb_step_def st split: if_splits slot.splits)
    then show ?thesis
      using upd [of Gone i] inv sum_list_held_update [OF i(1), of Gone] by (auto simp: bb_inv_def Release_def)
  next
    case (Cancel i)
    then obtain n a where i: "i < length slots" "slots ! i = Waiting n a"
      "st' = (Release avail a, slots[i := Gone])"
      using assms(2) by (auto simp: bb_step_def st split: if_splits slot.splits)
    then show ?thesis
      using upd [of Gone i] inv sum_list_held_update [OF i(1), of Gone] at [OF i(1)]
      by (auto simp: bb_inv_def Release_def)
  qed
qed

lemma bb_run_inv: "bb_inv tot st \<Longrightarrow> bb_run es st = Some st' \<Longrightarrow> bb_inv tot st'"
  by (induction es arbitrary: st) (auto simp: bind_eq_Some_conv dest: bb_step_inv)

section \<open>The outbox\<close>

definition logOutboxCapacity :: nat where
  "logOutboxCapacity = 4096"

definition outboxWorkers :: nat where
  "outboxWorkers = 8"

text \<open>The immediate attempt of \<open>retry\<close> and the four after the pauses of its ladder.\<close>

definition retry_attempts :: nat where
  "retry_attempts = 5"

text \<open>Beside the queue and the counter: the store the workers write to, the entries a worker
  is busy with and the attempts each has failed, and the entries written so far.\<close>

record outbox =
  queue :: "RequestLog list"
  busy :: "(RequestLog \<times> nat) list"
  written :: "RequestLog list"
  BillingLossCount :: int
  db_state :: store

definition newLogOutbox :: "store \<Rightarrow> outbox" where
  "newLogOutbox db =
     \<lparr> queue = [], busy = [], written = [], BillingLossCount = 0, db_state = db \<rparr>"

definition persist :: "RequestLog \<Rightarrow> instant \<Rightarrow> store \<Rightarrow> db_error + store" where
  "persist entry dbnow db =
     (if ChargeCeilingNanoUSD entry \<le> 0 then InsertRequestLog db entry
      else SettleUsageAndLog db dbnow entry)"

definition enqueue :: "RequestLog \<Rightarrow> outbox \<Rightarrow> outbox" where
  "enqueue entry ob =
     (if length (queue ob) < logOutboxCapacity then ob \<lparr> queue := queue ob @ [entry] \<rparr>
      else ob \<lparr> BillingLossCount := BillingLossCount ob + 1 \<rparr>)"

text \<open>An idle worker receives the next entry of the queue.\<close>

definition outbox_take :: "outbox \<Rightarrow> outbox" where
  "outbox_take ob =
     (case queue ob of
        [] \<Rightarrow> ob
      | entry # rest \<Rightarrow>
          if length (busy ob) < outboxWorkers then ob \<lparr> queue := rest, busy := busy ob @ [(entry, 0)] \<rparr>
          else ob)"

text \<open>One attempt of \<open>retry\<close>; \<open>up\<close> says whether the database answers, \<open>dbnow\<close> is its clock.\<close>

definition retry_attempt :: "nat \<Rightarrow> bool \<Rightarrow> instant \<Rightarrow> outbox \<Rightarrow> outbox" where
  "retry_attempt i up dbnow ob =
     (if i < length (busy ob) then
        (let (entry, failed) = busy ob ! i;
             others = take i (busy ob) @ drop (Suc i) (busy ob)
         in case (if up then persist entry dbnow (db_state ob) else Inl ErrScan) of
              Inr db' \<Rightarrow> ob \<lparr> db_state := db', busy := others, written := written ob @ [entry] \<rparr>
            | Inl _ \<Rightarrow>
                if failed + 1 < retry_attempts then ob \<lparr> busy := (busy ob)[i := (entry, failed + 1)] \<rparr>
                else ob \<lparr> busy := others, BillingLossCount := BillingLossCount ob + 1 \<rparr>)
      else ob)"

datatype outbox_event = Enqueue RequestLog | Take | Attempt nat bool instant

fun outbox_step :: "outbox_event \<Rightarrow> outbox \<Rightarrow> outbox" where
  "outbox_step (Enqueue entry) = enqueue entry"
| "outbox_step Take = outbox_take"
| "outbox_step (Attempt i up dbnow) = retry_attempt i up dbnow"

definition outbox_run :: "outbox_event list \<Rightarrow> outbox \<Rightarrow> outbox" where
  "outbox_run es ob = fold outbox_step es ob"

fun handed_over :: "outbox_event list \<Rightarrow> nat" where
  "handed_over [] = 0"
| "handed_over (Enqueue entry # es) = handed_over es + 1"
| "handed_over (_ # es) = handed_over es"

definition accounted :: "outbox \<Rightarrow> int" where
  "accounted ob =
     int (length (queue ob)) + int (length (busy ob)) + int (length (written ob)) + BillingLossCount ob"

definition outbox_ok :: "outbox \<Rightarrow> bool" where
  "outbox_ok ob \<longleftrightarrow>
     length (queue ob) \<le> logOutboxCapacity \<and> length (busy ob) \<le> outboxWorkers \<and>
     (\<forall>entry \<in> set (written ob). requestLogExists (db_state ob) (rl_ID entry))"

lemma insertRequestLog_exists:
  assumes "insertRequestLog db e = Inr db'"
  shows "requestLogExists db' (rl_ID e)" "requestLogExists db i \<Longrightarrow> requestLogExists db' i"
  using assms by (auto simp: insertRequestLog_def Let_def requestLogExists_def split: if_splits)

lemma persist_exists:
  assumes "persist entry dbnow db = Inr db'"
  shows "requestLogExists db' (rl_ID entry) \<and> (\<forall>i. requestLogExists db i \<longrightarrow> requestLogExists db' i)"
proof (cases "ChargeCeilingNanoUSD entry \<le> 0")
  case True
  then obtain e where "normalizeRequestLogMoney entry = Inr e" "insertRequestLog db e = Inr db'"
    using assms by (auto simp: persist_def InsertRequestLog_def ebind_eq_Inr)
  then show ?thesis
    using insertRequestLog_exists normalizeRequestLogMoney_fields(1) by metis
next
  case False
  then have settle: "SettleUsageAndLog db dbnow entry = Inr db'" using assms by (simp add: persist_def)
  show ?thesis
  proof (cases "requestLogExists db (rl_ID entry)")
    case True
    then have "db' = db"
      using settle normalizeSettledEntry_fields(1) by (auto simp: SettleUsageAndLog_def ebind_eq_Inr split: if_splits)
    with True show ?thesis by simp
  next
    case False
    obtain e charge where e: "normalizeSettledEntry entry = Inr e"
      "insertRequestLog (deductNanoFromTopups db dbnow (UserID e) charge) e = Inr db'"
      by (rule SettleUsageAndLog_InrE [OF settle False])
    then show ?thesis
      using insertRequestLog_exists [OF e(2)] normalizeSettledEntry_fields(1) [OF e(1)]
      by (simp add: requestLogExists_def)
  qed
qed

lemma accounted_step: "accounted (outbox_step e ob) = accounted ob + int (handed_over [e])"
proof (cases e)
  case (Attempt i up dbnow)
  then show ?thesis
    by (auto simp: retry_attempt_def accounted_def Let_def split: sum.splits prod.splits)
qed (auto simp: enqueue_def outbox_take_def accounted_def split: list.splits)

lemma outbox_ok_step: "outbox_ok ob \<Longrightarrow> outbox_ok (outbox_step e ob)"
proof (cases e)
  case (Attempt i up dbnow)
  assume "outbox_ok ob"
  then show ?thesis
    using Attempt persist_exists
    by (auto simp: retry_attempt_def outbox_ok_def Let_def split: sum.splits prod.splits if_splits)
qed (auto simp: enqueue_def outbox_take_def outbox_ok_def split: list.splits)

lemma handed_over_Cons: "handed_over (e # es) = handed_over [e] + handed_over es"
  by (cases e) simp_all

lemma outbox_run_accounted: "accounted (outbox_run es ob) = accounted ob + int (handed_over es)"
proof (induction es arbitrary: ob)
  case (Cons e es)
  then show ?case
    using accounted_step [of e ob] handed_over_Cons [of e es] by (simp add: outbox_run_def)
qed (simp add: outbox_run_def)

lemma outbox_run_ok: "outbox_ok ob \<Longrightarrow> outbox_ok (outbox_run es ob)"
  unfolding outbox_run_def by (induction es arbitrary: ob) (simp_all add: outbox_ok_step)

section \<open>Properties\<close>

text \<open>Whatever requests arrive, finish or are cancelled, and however their rounds interleave,
  the byte budget is conserved: free bytes and held bytes add up to the capacity, and the free
  bytes are never negative.\<close>

theorem byte_budget_conserved:
  assumes "bb_run es (newByteBudget tot, []) = Some (avail, slots)"
  shows "0 \<le> avail \<and> avail + sum_list (map held slots) = newByteBudget tot \<and> byteBudgetUnit \<le> newByteBudget tot"
proof -
  have "bb_inv (newByteBudget tot) (newByteBudget tot, [])"
    by (simp add: bb_inv_def newByteBudget_def byteBudgetUnit_def)
  from bb_run_inv [OF this assms] show ?thesis
    by (simp add: bb_inv_def newByteBudget_def)
qed

definition cut_short :: "bb_event list" where
  "cut_short = [Arrive 5, Round 0, Arrive 2097152, Round 1, Cancel 1, Finish 0]"

theorem byte_budget_conserved_witness:
  "\<exists>slots. bb_run cut_short (newByteBudget 1048576, []) = Some (1048576, slots) \<and>
     (0::int) \<le> 1048576 \<and> 1048576 + sum_list (map held slots) = newByteBudget 1048576"
proof -
  have run: "bb_run cut_short (newByteBudget 1048576, []) = Some (1048576, [Gone, Gone])"
    by (simp add: cut_short_def bb_step_def newByteBudget_def byteBudgetUnit_def Acquire_round_def Release_def)
  show ?thesis using byte_budget_conserved [OF run] run by auto
qed

text \<open>C32: Acquiring piece by piece can lock up. With the default capacity and the two body
  limits of the handler, this schedule of eight requests ends with no free byte while four of
  them hold part of what they need: no round of any of them acquires anything again, and only a
  cancelled client lets the others go on.\<close>

definition lock_up :: "bb_event list" where
  "lock_up =
     [Arrive maxTranscriptionRequestBytes, Round 0, Arrive maxTranscriptionRequestBytes, Round 1,
      Arrive maxTranscriptionRequestBytes, Round 2, Finish 0,
      Arrive maxChatRequestBytes, Round 3, Arrive maxTranscriptionRequestBytes, Round 4, Finish 1,
      Arrive maxChatRequestBytes, Round 5, Arrive maxTranscriptionRequestBytes, Round 6,
      Finish 3, Finish 5, Arrive maxTranscriptionRequestBytes, Round 7]"

definition is_waiting :: "slot \<Rightarrow> bool" where
  "is_waiting s = (case s of Waiting _ _ \<Rightarrow> True | _ \<Rightarrow> False)"

lemma Acquire_round_stuck: "Acquire_round 0 n a = (0, a)"
  by (simp add: Acquire_round_def)

lemma lock_up_state:
  "bb_run lock_up (newByteBudget (maxInflightRequestBytes ''''), []) =
     Some (0, [Gone, Gone, Waiting 104857600 58720256, Gone, Waiting 104857600 79691776, Gone,
               Waiting 104857600 79691776, Waiting 104857600 50331648])"
  by (simp add: lock_up_def bb_step_def newByteBudget_def byteBudgetUnit_def Acquire_round_def Release_def
      maxInflightRequestBytes_def TrimSpace_def defaultMaxInflightRequestBytes_def
      maxTranscriptionRequestBytes_def maxChatRequestBytes_def Let_def)

lemma stuck_rounds:
  assumes "\<forall>s \<in> set slots. slot_ok s" "\<forall>i \<in> set is. i < length slots \<and> is_waiting (slots ! i)"
  shows "bb_run (map Round is) (0, slots) = Some (0, slots)"
  using assms(2)
proof (induction "is")
  case (Cons i rest)
  then obtain n a where i: "i < length slots" "slots ! i = Waiting n a"
    by (auto simp: is_waiting_def split: slot.splits)
  then have "a < n" using assms(1) by (metis nth_mem slot_ok.simps(1))
  then have "bb_step (Round i) (0, slots) = Some (0, slots)"
    using i by (simp add: bb_step_def Acquire_round_def list_update_same_conv)
  then show ?case using Cons by simp
qed simp

theorem byte_budget_locks_up:
  "\<exists>slots. bb_run lock_up (newByteBudget (maxInflightRequestBytes ''''), []) = Some (0, slots) \<and>
     filter is_waiting slots =
       [Waiting 104857600 58720256, Waiting 104857600 79691776, Waiting 104857600 79691776,
        Waiting 104857600 50331648] \<and>
     \<not> list_ex (\<lambda>s. case s of Holding n \<Rightarrow> True | _ \<Rightarrow> False) slots \<and>
     bb_run (concat (replicate rounds [Round 2, Round 4, Round 6, Round 7])) (0, slots) = Some (0, slots)"
proof -
  let ?slots = "[Gone, Gone, Waiting 104857600 58720256, Gone, Waiting 104857600 79691776, Gone,
    Waiting 104857600 79691776, Waiting 104857600 50331648]"
  have ok: "\<forall>s \<in> set ?slots. slot_ok s" by simp
  have "\<forall>i \<in> set (concat (replicate rounds [2, 4, 6, 7])). i < length ?slots \<and> is_waiting (?slots ! i)"
    by (auto simp: is_waiting_def)
  from stuck_rounds [OF ok this]
  have "bb_run (concat (replicate rounds [Round 2, Round 4, Round 6, Round 7])) (0, ?slots) = Some (0, ?slots)"
    by (simp add: map_concat)
  then show ?thesis
    using lock_up_state by (intro exI [of _ ?slots]) (simp add: is_waiting_def)
qed

text \<open>C33: No billing row leaves the outbox unnoticed: after any sequence of hand-overs, worker
  steps and attempts, every entry handed over is still queued, with a worker, written or counted
  as lost; queue and workers stay within their bounds, and every entry counted as written has its
  row in the request log.\<close>

theorem outbox_accounts_for_every_row:
  "accounted (outbox_run es (newLogOutbox db)) = int (handed_over es) \<and>
   outbox_ok (outbox_run es (newLogOutbox db))"
  using outbox_run_accounted [of es "newLogOutbox db"] outbox_run_ok [of "newLogOutbox db" es]
  by (simp add: newLogOutbox_def accounted_def outbox_ok_def)

end
