(* ===== verification/Json.thy ===== *)
theory Json
  imports F64 "HOL-Library.AList"
begin

text \<open>
  The JSON values the gateway rewrites (\<open>interface{}\<close> and \<open>map[string]interface{}\<close> of Go). A number
  that was decoded is a float64 (\<open>JNum\<close>); one the code stores itself is a Go \<open>int\<close>
  (\<open>JInt\<close>), which a type assertion to float64 rejects. An object is an association list; a write
  to a Go map is \<open>obj_set\<close>, a \<open>delete\<close> is \<open>obj_del\<close>.
\<close>

datatype json =
    JNull | JBool bool | JNum f64 | JInt int | JStr string
  | JArr "json list" | JObj "(string \<times> json) list"

type_synonym body = "(string \<times> json) list"

definition obj_get :: "body \<Rightarrow> string \<Rightarrow> json option" where
  "obj_get b k = map_of b k"

definition obj_set :: "body \<Rightarrow> string \<Rightarrow> json \<Rightarrow> body" where
  "obj_set b k v = AList.update k v b"

definition obj_del :: "body \<Rightarrow> string \<Rightarrow> body" where
  "obj_del b k = AList.delete k b"

lemma obj_get_set [simp]: "obj_get (obj_set b k v) j = (if j = k then Some v else obj_get b j)"
  by (simp add: obj_get_def obj_set_def update_conv)

lemma obj_get_del [simp]: "obj_get (obj_del b k) j = (if j = k then None else obj_get b j)"
  by (simp add: obj_get_def obj_del_def delete_conv)

lemma obj_get_Nil [simp]: "obj_get [] k = None"
  by (simp add: obj_get_def)

lemma obj_get_Cons [simp]: "obj_get ((j, v) # b) k = (if k = j then Some v else obj_get b k)"
  by (auto simp: obj_get_def)

text \<open>The comma-ok type assertions.\<close>

definition as_string :: "json option \<Rightarrow> string" where
  "as_string j = (case j of Some (JStr s) \<Rightarrow> s | _ \<Rightarrow> [])"

definition as_bool :: "json option \<Rightarrow> bool" where
  "as_bool j = (case j of Some (JBool x) \<Rightarrow> x | _ \<Rightarrow> False)"

definition as_object :: "json option \<Rightarrow> body option" where
  "as_object j = (case j of Some (JObj m) \<Rightarrow> Some m | _ \<Rightarrow> None)"

definition as_array :: "json option \<Rightarrow> json list option" where
  "as_array j = (case j of Some (JArr xs) \<Rightarrow> Some xs | _ \<Rightarrow> None)"

lemma as_object_Some [simp]: "as_object j = Some m \<longleftrightarrow> j = Some (JObj m)"
  by (auto simp: as_object_def split: option.splits json.splits)

lemma as_array_Some [simp]: "as_array j = Some xs \<longleftrightarrow> j = Some (JArr xs)"
  by (auto simp: as_array_def split: option.splits json.splits)

lemma as_simps [simp]:
  "as_string (Some (JStr s)) = s" "as_string None = []"
  "as_bool (Some (JBool x)) = x" "as_bool None = False"
  "as_object (Some (JObj m)) = Some m" "as_object None = None"
  "as_array (Some (JArr xs)) = Some xs" "as_array None = None"
  by (simp_all add: as_string_def as_bool_def as_object_def as_array_def)

section \<open>Rewrites of a request body\<close>

text \<open>
  Every provider dialect is produced by a rewrite of the body that owns some fields: it leaves
  every other field alone, and what it leaves in its own fields depends on the body in a way
  that a second application does not change. A retry of a failed attempt rewrites the body again.
\<close>

locale body_rewrite =
  fixes rewrite :: "body \<Rightarrow> body" and owned :: "string set"
  assumes frame: "k \<notin> owned \<Longrightarrow> obj_get (rewrite b) k = obj_get b k"
    and settled: "obj_get (rewrite (rewrite b)) k = obj_get (rewrite b) k"
    and extensional: "(\<And>k. obj_get b k = obj_get b' k) \<Longrightarrow> obj_get (rewrite b) k = obj_get (rewrite b') k"
begin

lemma attempts_frame: "k \<notin> owned \<Longrightarrow> obj_get ((rewrite ^^ n) b) k = obj_get b k"
  by (induction n) (simp_all add: frame)

lemma attempts_same: "0 < n \<Longrightarrow> obj_get ((rewrite ^^ n) b) k = obj_get (rewrite b) k"
proof (induction n arbitrary: k)
  case (Suc n)
  show ?case
  proof (cases "n = 0")
    case False
    then have "obj_get (rewrite ((rewrite ^^ n) b)) k = obj_get (rewrite (rewrite b)) k"
      using Suc.IH by (intro extensional) simp
    then show ?thesis by (simp add: settled)
  qed simp
qed simp

end

text \<open>An edit whose values do not depend on the body: for some fields it fixes what they hold.\<close>

definition constant_edit :: "string set \<Rightarrow> (body \<Rightarrow> body) \<Rightarrow> bool" where
  "constant_edit owned f \<longleftrightarrow>
     (\<exists>u. (\<forall>k. k \<notin> owned \<longrightarrow> u k = None) \<and>
          (\<forall>b k. obj_get (f b) k = (case u k of None \<Rightarrow> obj_get b k | Some r \<Rightarrow> r)))"

named_theorems edits "closure of constant edits"

lemma constant_edit_id [edits]: "constant_edit F (\<lambda>b. b)"
  unfolding constant_edit_def by (rule exI [of _ "\<lambda>_. None"]) simp

lemma constant_edit_set [edits]:
  assumes "constant_edit F f" "k \<in> F"
  shows "constant_edit F (\<lambda>b. obj_set (f b) k v)"
proof -
  obtain u where "\<forall>k. k \<notin> F \<longrightarrow> u k = None"
    "\<And>b k. obj_get (f b) k = (case u k of None \<Rightarrow> obj_get b k | Some r \<Rightarrow> r)"
    using assms(1) unfolding constant_edit_def by blast
  then show ?thesis
    unfolding constant_edit_def using assms(2) by (intro exI [of _ "u(k \<mapsto> Some v)"]) simp
qed

lemma constant_edit_del [edits]:
  assumes "constant_edit F f" "k \<in> F"
  shows "constant_edit F (\<lambda>b. obj_del (f b) k)"
proof -
  obtain u where "\<forall>k. k \<notin> F \<longrightarrow> u k = None"
    "\<And>b k. obj_get (f b) k = (case u k of None \<Rightarrow> obj_get b k | Some r \<Rightarrow> r)"
    using assms(1) unfolding constant_edit_def by blast
  then show ?thesis
    unfolding constant_edit_def using assms(2) by (intro exI [of _ "u(k \<mapsto> None)"]) simp
qed

lemma constant_edit_if [edits]:
  assumes "c \<Longrightarrow> constant_edit F (\<lambda>b. fst (f b))" "\<not> c \<Longrightarrow> constant_edit F (\<lambda>b. fst (g b))"
  shows "constant_edit F (\<lambda>b. fst (if c then f b else g b))"
  using assms by (cases c) simp_all

lemma constant_edit_fst [edits]: "constant_edit F f \<Longrightarrow> constant_edit F (\<lambda>b. fst (f b, r))"
  by simp

lemma constant_edit_rewrite:
  assumes "constant_edit F f"
  shows "body_rewrite f F"
proof -
  obtain u where u: "\<forall>k. k \<notin> F \<longrightarrow> u k = None"
    "\<And>b k. obj_get (f b) k = (case u k of None \<Rightarrow> obj_get b k | Some r \<Rightarrow> r)"
    using assms unfolding constant_edit_def by blast
  show ?thesis by unfold_locales (use u in \<open>simp_all split: option.split\<close>)
qed

end
