(* ===== verification/Thinking.thy ===== *)
theory Thinking
  imports Prelude Json
begin

text \<open>
  Thinking levels (src/proxy/thinking.go) and the DeepSeek conditioning (src/proxy/deepseek.go):
  the canonical levels, the classification of an upstream, and the rewrites that turn a level
  into the parameter the provider understands. A rewrite returns the new body with the setting
  it reports as applied. The locale \<open>body_rewrite\<close> is interpreted on all three rewrites.
\<close>

section \<open>Levels\<close>

definition NormalizeThinkingLevel :: "string \<Rightarrow> string" where
  "NormalizeThinkingLevel value =
     (let v = ToLower (TrimSpace value)
      in if v \<in> {''none'', ''off'', ''min'', ''minimal''} then ''minimal''
         else if v = ''low'' then ''low''
         else if v \<in> {''medium'', ''mid''} then ''medium''
         else if v \<in> {''high'', ''ultra''} then ''high''
         else if v \<in> {''max'', ''xhigh''} then ''max''
         else [])"

definition thinkingRank :: "string \<Rightarrow> int" where
  "thinkingRank level =
     (if level = ''minimal'' then 0 else if level = ''low'' then 1 else if level = ''medium'' then 2
      else if level = ''high'' then 3 else if level = ''max'' then 4 else -1)"

text \<open>\<open>header\<close> is the value of X-Muhiya-Effort, empty when there is none.\<close>

definition ResolveThinkingLevel :: "string \<Rightarrow> string option \<Rightarrow> string" where
  "ResolveThinkingLevel header bodyEffort =
     (if header \<noteq> [] \<and> NormalizeThinkingLevel header \<noteq> [] then NormalizeThinkingLevel header
      else case bodyEffort of
             None \<Rightarrow> []
           | Some e \<Rightarrow> if NormalizeThinkingLevel e \<noteq> [] then NormalizeThinkingLevel e else [])"

definition clientRequestsThinking :: "string option \<Rightarrow> bool" where
  "clientRequestsThinking thinking_type =
     (case thinking_type of None \<Rightarrow> False | Some t \<Rightarrow> \<not> EqualFold t ''disabled'')"

definition ThinkingRequestsReasoning :: "string \<Rightarrow> bool" where
  "ThinkingRequestsReasoning level \<longleftrightarrow> thinkingRank level \<ge> 2"

definition ThinkingLogValue :: "string \<Rightarrow> string \<Rightarrow> string" where
  "ThinkingLogValue requested applied =
     (if requested = [] then []
      else if applied = [] \<or> applied = requested then requested
      else requested @ ''>'' @ applied)"

section \<open>Upstreams\<close>

definition isOpenRouterBase :: "string \<Rightarrow> bool" where
  "isOpenRouterBase baseURL \<longleftrightarrow> Contains (ToLower baseURL) ''openrouter.ai''"

datatype upstreamFamily =
    famUnknown | famDeepseek | famGLM | famMiniMax | famOpenAI | famQwen | famKimi | famGrok
  | famGemini | famAnthropic

definition classifyUpstream :: "string \<Rightarrow> string \<Rightarrow> upstreamFamily" where
  "classifyUpstream baseURL targetModel =
     (let host = ToLower baseURL; model = ToLower targetModel
      in if HasPrefix model ''deepseek'' then famDeepseek
         else if HasPrefix model ''glm'' then famGLM
         else if HasPrefix model ''minimax'' \<or> HasPrefix model ''abab'' then famMiniMax
         else if list_ex (HasPrefix model) [''gpt-'', ''o1'', ''o3'', ''o4'', ''codex''] then famOpenAI
         else if HasPrefix model ''qwen'' \<or> HasPrefix model ''qwq'' then famQwen
         else if HasPrefix model ''kimi'' \<or> HasPrefix model ''moonshot'' then famKimi
         else if HasPrefix model ''grok'' then famGrok
         else if HasPrefix model ''gemini'' then famGemini
         else if HasPrefix model ''claude'' then famAnthropic
         else if Contains host ''deepseek'' then famDeepseek
         else if Contains host ''bigmodel'' \<or> Contains host ''z.ai'' then famGLM
         else if Contains host ''minimax'' then famMiniMax
         else if Contains host ''api.openai.com'' then famOpenAI
         else if Contains host ''dashscope'' \<or> Contains host ''aliyuncs'' then famQwen
         else if Contains host ''moonshot'' \<or> Contains host ''kimi'' then famKimi
         else if Contains host ''x.ai'' then famGrok
         else if Contains host ''googleapis'' \<or> Contains host ''generativelanguage'' then famGemini
         else if Contains host ''anthropic'' then famAnthropic
         else famUnknown)"

definition isDeepseekReasoner :: "string \<Rightarrow> bool" where
  "isDeepseekReasoner model \<longleftrightarrow> Contains model ''reasoner'' \<or> Contains model ''r1''"

definition deepseekSupportsLowEffort :: "string \<Rightarrow> bool" where
  "deepseekSupportsLowEffort model \<longleftrightarrow> Contains model ''v4-flash''"

definition modelSupportsThinking :: "bool \<Rightarrow> string \<Rightarrow> bool" where
  "modelSupportsThinking operatorFlag model \<longleftrightarrow> operatorFlag \<or> isDeepseekReasoner model"

definition openAISupportsReasoningEffort :: "string \<Rightarrow> bool" where
  "openAISupportsReasoningEffort model \<longleftrightarrow>
     list_ex (HasPrefix model) [''o1'', ''o3'', ''o4'', ''gpt-5'', ''gpt-6'', ''codex'']"

definition anthropicSupportsThinking :: "string \<Rightarrow> bool" where
  "anthropicSupportsThinking model \<longleftrightarrow>
     Contains model ''claude-3-7'' \<or>
     list_ex (Contains model)
       [''sonnet-4'', ''opus-4'', ''haiku-4'', ''sonnet-5'', ''opus-5'', ''haiku-5'', ''claude-4'', ''claude-5'']"

definition anthropicAdaptiveOnly :: "string \<Rightarrow> bool" where
  "anthropicAdaptiveOnly model \<longleftrightarrow>
     list_ex (Contains model) [''-4-6'', ''-4-7'', ''-4-8'', ''sonnet-5'', ''opus-5'', ''haiku-5'']"

section \<open>The OpenAI dialect\<close>

definition obj_dels :: "body \<Rightarrow> string list \<Rightarrow> body" where
  "obj_dels b ks = foldl obj_del b ks"

definition typed :: "string \<Rightarrow> json" where
  "typed t = JObj [(''type'', JStr t)]"

definition effort_object :: "string \<Rightarrow> json" where
  "effort_object e = JObj [(''effort'', JStr e)]"

text \<open>The three-rung ladder low, medium, high of several providers.\<close>

definition three_rungs :: "int \<Rightarrow> string" where
  "three_rungs rank = (if rank \<le> 1 then ''low'' else if rank \<ge> 3 then ''high'' else ''medium'')"

definition openrouter_effort :: "int \<Rightarrow> string" where
  "openrouter_effort rank =
     (if rank = 0 then ''none'' else if rank = 1 then ''low'' else if rank = 2 then ''medium''
      else if rank = 4 then ''xhigh'' else ''high'')"

definition deepseek_effort :: "int \<Rightarrow> string \<Rightarrow> string" where
  "deepseek_effort rank model =
     (if rank \<ge> 4 then ''max''
      else if rank \<le> 2 \<and> deepseekSupportsLowEffort model then ''low'' else ''high'')"

definition openai_effort :: "string \<Rightarrow> string \<Rightarrow> string" where
  "openai_effort level model =
     (let applied = (if level = ''max'' then ''high'' else level)
      in if applied = ''minimal'' \<and> \<not> list_ex (HasPrefix model) [''gpt-5'', ''gpt-6'', ''codex'']
         then ''low'' else applied)"

definition ApplyThinkingOpenAI :: "body \<Rightarrow> string \<Rightarrow> string \<Rightarrow> string \<Rightarrow> bool \<Rightarrow> body \<times> string" where
  "ApplyThinkingOpenAI bodyMap baseURL targetModel level supportsThinking =
     (let family = classifyUpstream baseURL targetModel;
          model = ToLower targetModel;
          rank = thinkingRank level;
          stripped = obj_dels bodyMap [''reasoning_effort'', ''thinking'']
      in if isOpenRouterBase baseURL then
           (let b = obj_del stripped ''enable_thinking''
            in if level = [] then (b, [])
               else (obj_set b ''reasoning'' (effort_object (openrouter_effort rank)), openrouter_effort rank))
         else if family = famDeepseek then
           (if level = [] then (bodyMap, [])
            else if \<not> modelSupportsThinking supportsThinking model then (stripped, ''unsupported'')
            else if rank = 0 then (obj_set stripped ''thinking'' (typed ''disabled''), ''disabled'')
            else
              (obj_set (obj_set stripped ''thinking'' (typed ''enabled''))
                 ''reasoning_effort'' (JStr (deepseek_effort rank model)),
               deepseek_effort rank model))
         else if family = famMiniMax then
           (obj_set stripped ''reasoning_split'' (JBool True), ''always-on'')
         else if level = [] then (bodyMap, [])
         else
           (case family of
              famGLM \<Rightarrow>
                (let b = obj_set stripped ''thinking'' (typed ''enabled'')
                 in if HasPrefix model ''glm-5''
                    then (obj_set b ''reasoning_effort'' (JStr (three_rungs rank)), three_rungs rank)
                    else (b, ''enabled''))
            | famOpenAI \<Rightarrow>
                if \<not> openAISupportsReasoningEffort model then (stripped, ''unsupported'')
                else (obj_set stripped ''reasoning_effort'' (JStr (openai_effort level model)), openai_effort level model)
            | famQwen \<Rightarrow> (obj_set stripped ''enable_thinking'' (JBool True), ''enabled'')
            | famKimi \<Rightarrow>
                if Contains model ''k2.7-code'' then (stripped, ''always-on'')
                else (obj_set stripped ''thinking'' (typed ''enabled''), ''enabled'')
            | famGrok \<Rightarrow>
                if HasPrefix model ''grok-3-mini''
                then (if rank \<ge> 3 then (obj_set stripped ''reasoning_effort'' (JStr ''high''), ''high'')
                      else (obj_set stripped ''reasoning_effort'' (JStr ''low''), ''low''))
                else if HasPrefix model ''grok-4.5'' \<or> HasPrefix model ''grok-5''
                then (obj_set stripped ''reasoning_effort'' (JStr (three_rungs rank)), three_rungs rank)
                else (stripped, ''unsupported'')
            | famGemini \<Rightarrow> (obj_set stripped ''reasoning_effort'' (JStr (three_rungs rank)), three_rungs rank)
            | _ \<Rightarrow> (stripped, ''unsupported'')))"

section \<open>The Anthropic dialect\<close>

definition anthropic_budget :: "int \<Rightarrow> int" where
  "anthropic_budget rank =
     (if rank \<ge> 4 then 24576 else if rank \<ge> 3 then 16384 else if rank \<le> 1 then 4096 else 8192)"

definition adaptive_effort :: "int \<Rightarrow> string" where
  "adaptive_effort rank =
     (if rank \<le> 1 then ''low'' else if rank = 3 then ''high'' else if rank \<ge> 4 then ''max'' else ''medium'')"

definition deepseek_anthropic_effort :: "int \<Rightarrow> string \<Rightarrow> string" where
  "deepseek_anthropic_effort rank model =
     (if rank = 0 then ''none'' else if rank \<ge> 4 then ''max''
      else if rank = 1 \<and> deepseekSupportsLowEffort model then ''low'' else ''high'')"

definition sampling_fields :: "string list" where
  "sampling_fields = [''temperature'', ''top_p'', ''top_k'']"

definition decoded_int :: "json option \<Rightarrow> int" where
  "decoded_int j = (case j of Some (JNum x) \<Rightarrow> f64_to_int64 x | _ \<Rightarrow> 0)"

definition ApplyThinkingAnthropic :: "body \<Rightarrow> string \<Rightarrow> string \<Rightarrow> string \<Rightarrow> bool \<Rightarrow> body \<times> string" where
  "ApplyThinkingAnthropic bodyMap baseURL targetModel level supportsThinking =
     (let b = obj_del bodyMap ''reasoning_effort''
      in if level = [] then (b, [])
         else
           (let model = ToLower targetModel; rank = thinkingRank level
            in if classifyUpstream baseURL targetModel = famDeepseek then
                 (if \<not> modelSupportsThinking supportsThinking model then (b, ''unsupported'')
                  else
                    (obj_set (obj_dels b [''thinking'', ''output_config''])
                       ''reasoning'' (effort_object (deepseek_anthropic_effort rank model)),
                     deepseek_anthropic_effort rank model))
               else if \<not> anthropicSupportsThinking model then (b, ''unsupported'')
               else if anthropicAdaptiveOnly model then
                 (let b = obj_set b ''thinking'' (typed ''adaptive'');
                      b = obj_set b ''output_config'' (effort_object (adaptive_effort rank))
                  in (obj_dels b sampling_fields, ''adaptive-'' @ adaptive_effort rank))
               else
                 (let budget = anthropic_budget rank;
                      b = obj_set b ''thinking''
                            (JObj [(''type'', JStr ''enabled''), (''budget_tokens'', JInt budget)]);
                      b = obj_dels b sampling_fields;
                      maxTokens = decoded_int (obj_get b ''max_tokens'')
                  in (if maxTokens \<le> budget then obj_set b ''max_tokens'' (JInt (budget + 4096)) else b,
                      ''budget-'' @ show_int budget))))"

section \<open>DeepSeek\<close>

definition deepSeekThinkingDisabled :: "body \<Rightarrow> bool" where
  "deepSeekThinkingDisabled b =
     (case as_object (obj_get b ''thinking'') of
        None \<Rightarrow> False | Some t \<Rightarrow> as_string (obj_get t ''type'') = ''disabled'')"

definition deepSeekUnsupportedFields :: "string list" where
  "deepSeekUnsupportedFields =
     [''function_call'', ''functions'', ''include'', ''input'', ''instructions'',
      ''logit_bias'', ''max_output_tokens'', ''metadata'', ''modalities'', ''n'',
      ''output_config'', ''parallel_tool_calls'', ''previous_response_id'', ''reasoning'',
      ''seed'', ''service_tier'', ''store'', ''truncation'']"

definition stripUnsupportedDeepSeekResponseFormat :: "body \<Rightarrow> body" where
  "stripUnsupportedDeepSeekResponseFormat b =
     (case as_object (obj_get b ''response_format'') of
        None \<Rightarrow> b
      | Some rf \<Rightarrow>
          if as_string (obj_get rf ''type'') \<in> {''json_object'', ''text''} then b
          else obj_del b ''response_format'')"

definition move_output_limit :: "body \<Rightarrow> body" where
  "move_output_limit b =
     (case obj_get b ''max_completion_tokens'' of
        None \<Rightarrow> b
      | Some limit \<Rightarrow>
          obj_del (if obj_get b ''max_tokens'' = None then obj_set b ''max_tokens'' limit else b)
            ''max_completion_tokens'')"

definition conditionDeepSeekChatCompletion :: "body \<Rightarrow> body" where
  "conditionDeepSeekChatCompletion b =
     (let b = move_output_limit b;
          b = obj_dels b deepSeekUnsupportedFields;
          b = stripUnsupportedDeepSeekResponseFormat b;
          b = (if deepSeekThinkingDisabled b then b else obj_dels b [''temperature'', ''top_p''])
      in if as_bool (obj_get b ''stream'') then b else obj_del b ''stream_options'')"

section \<open>What the rewrites leave in the body\<close>

lemma get_dels [simp]: "obj_get (obj_dels b ks) k = (if k \<in> set ks then None else obj_get b k)"
  unfolding obj_dels_def by (induction ks arbitrary: b) auto

definition thinking_fields :: "string set" where
  "thinking_fields = {''reasoning_effort'', ''thinking'', ''enable_thinking'', ''reasoning'', ''reasoning_split''}"

definition anthropic_fields :: "string set" where
  "anthropic_fields =
     {''reasoning_effort'', ''thinking'', ''output_config'', ''reasoning'', ''temperature'', ''top_p'',
      ''top_k'', ''max_tokens''}"

definition deepseek_fields :: "string set" where
  "deepseek_fields =
     set deepSeekUnsupportedFields \<union>
     {''max_completion_tokens'', ''max_tokens'', ''response_format'', ''temperature'', ''top_p'', ''stream_options''}"

lemma not_unsupported:
  "''response_format'' \<notin> set deepSeekUnsupportedFields" "''thinking'' \<notin> set deepSeekUnsupportedFields"
  "''temperature'' \<notin> set deepSeekUnsupportedFields" "''top_p'' \<notin> set deepSeekUnsupportedFields"
  "''stream'' \<notin> set deepSeekUnsupportedFields" "''max_tokens'' \<notin> set deepSeekUnsupportedFields"
  "''stream_options'' \<notin> set deepSeekUnsupportedFields"
  by (simp_all add: deepSeekUnsupportedFields_def)

lemma deepseek_get:
  "obj_get (conditionDeepSeekChatCompletion b) k =
     (if k \<in> set deepSeekUnsupportedFields \<or> k = ''max_completion_tokens'' then None
      else if k = ''max_tokens'' then
        (if obj_get b k = None then obj_get b ''max_completion_tokens'' else obj_get b k)
      else if k = ''response_format'' then
        (case as_object (obj_get b k) of
           None \<Rightarrow> obj_get b k
         | Some rf \<Rightarrow> if as_string (obj_get rf ''type'') \<in> {''json_object'', ''text''} then obj_get b k else None)
      else if k \<in> {''temperature'', ''top_p''} then
        (if deepSeekThinkingDisabled b then obj_get b k else None)
      else if k = ''stream_options'' then (if as_bool (obj_get b ''stream'') then obj_get b k else None)
      else obj_get b k)"
proof -
  define m where "m = obj_dels (move_output_limit b) deepSeekUnsupportedFields"
  define f where "f = stripUnsupportedDeepSeekResponseFormat m"
  have m: "obj_get m k =
     (if k \<in> set deepSeekUnsupportedFields \<or> k = ''max_completion_tokens'' then None
      else if k = ''max_tokens'' \<and> obj_get b k = None then obj_get b ''max_completion_tokens''
      else obj_get b k)" for k
    by (auto simp: m_def move_output_limit_def split: option.split)
  have f: "obj_get f k =
     (if k = ''response_format'' then
        (case as_object (obj_get m k) of
           None \<Rightarrow> obj_get m k
         | Some rf \<Rightarrow> if as_string (obj_get rf ''type'') \<in> {''json_object'', ''text''} then obj_get m k else None)
      else obj_get m k)" for k
    by (simp add: f_def stripUnsupportedDeepSeekResponseFormat_def split: option.split)
  note fields = not_unsupported
  have "deepSeekThinkingDisabled f = deepSeekThinkingDisabled b"
    by (simp add: deepSeekThinkingDisabled_def f m fields)
  moreover have "obj_get f ''stream'' = obj_get b ''stream''" by (simp add: f m fields)
  moreover have "conditionDeepSeekChatCompletion b =
      (let d = (if deepSeekThinkingDisabled f then f else obj_dels f [''temperature'', ''top_p''])
       in if as_bool (obj_get d ''stream'') then d else obj_del d ''stream_options'')"
    by (simp add: conditionDeepSeekChatCompletion_def f_def m_def Let_def)
  ultimately show ?thesis
    by (auto simp: Let_def f m fields split: option.split)
qed

lemma disabled_cong: "obj_get b ''thinking'' = obj_get b' ''thinking'' \<Longrightarrow>
  deepSeekThinkingDisabled b = deepSeekThinkingDisabled b'"
  by (simp add: deepSeekThinkingDisabled_def)

lemma deepseek_keeps:
  "obj_get (conditionDeepSeekChatCompletion b) ''thinking'' = obj_get b ''thinking''"
  "obj_get (conditionDeepSeekChatCompletion b) ''stream'' = obj_get b ''stream''"
  by (simp_all add: deepseek_get deepSeekUnsupportedFields_def)

lemma deepseek_twice:
  "obj_get (conditionDeepSeekChatCompletion (conditionDeepSeekChatCompletion b)) k =
     obj_get (conditionDeepSeekChatCompletion b) k"
proof -
  note disabled = disabled_cong [OF deepseek_keeps(1) [of b]]
  consider "k \<in> set deepSeekUnsupportedFields \<or> k = ''max_completion_tokens''" | "k = ''max_tokens''"
    | "k = ''response_format''" | "k \<in> {''temperature'', ''top_p''}" | "k = ''stream_options''"
    | "k \<notin> deepseek_fields"
    by (auto simp: deepseek_fields_def)
  then show ?thesis
  proof cases
    case 1
    then show ?thesis by (simp add: deepseek_get)
  next
    case 2
    then show ?thesis using not_unsupported by (simp add: deepseek_get)
  next
    case 3
    then show ?thesis using not_unsupported by (simp add: deepseek_get split: option.split)
  next
    case 4
    then have "k \<notin> set deepSeekUnsupportedFields" using not_unsupported by auto
    with 4 show ?thesis using disabled by (auto simp: deepseek_get)
  next
    case 5
    then show ?thesis using not_unsupported deepseek_keeps(2) [of b] by (simp add: deepseek_get)
  next
    case 6
    then show ?thesis by (simp add: deepseek_get deepseek_fields_def)
  qed
qed

interpretation deepseek_rewrite: body_rewrite conditionDeepSeekChatCompletion deepseek_fields
proof
  show "obj_get (conditionDeepSeekChatCompletion b) k = obj_get b k" if "k \<notin> deepseek_fields" for k b
    using that by (simp add: deepseek_get deepseek_fields_def)
  show "obj_get (conditionDeepSeekChatCompletion (conditionDeepSeekChatCompletion b)) k =
      obj_get (conditionDeepSeekChatCompletion b) k" for k b
    by (rule deepseek_twice)
  show "obj_get (conditionDeepSeekChatCompletion b) k = obj_get (conditionDeepSeekChatCompletion b') k"
    if "\<And>k. obj_get b k = obj_get b' k" for k b b'
    unfolding deepseek_get that disabled_cong [OF that] by (rule refl)
qed

lemma constant_edit_dels [edits]:
  "constant_edit F f \<Longrightarrow> set ks \<subseteq> F \<Longrightarrow> constant_edit F (\<lambda>b. obj_dels (f b) ks)"
proof (induction ks arbitrary: f)
  case (Cons k ks)
  then have "constant_edit F (\<lambda>b. obj_del (f b) k)" by (intro edits) simp_all
  from Cons.IH [OF this] Cons.prems show ?case by (simp add: obj_dels_def)
qed (simp add: obj_dels_def)

lemma openai_constant:
  "constant_edit thinking_fields (\<lambda>b. fst (ApplyThinkingOpenAI b baseURL targetModel level supportsThinking))"
  unfolding ApplyThinkingOpenAI_def Let_def
  by (cases "classifyUpstream baseURL targetModel"; simp only: upstreamFamily.case;
      intro edits; simp add: thinking_fields_def)

interpretation openai_rewrite:
  body_rewrite "\<lambda>b. fst (ApplyThinkingOpenAI b baseURL targetModel level supportsThinking)" thinking_fields
  for baseURL targetModel level supportsThinking
  by (rule constant_edit_rewrite [OF openai_constant])

text \<open>The rewrite of the budget models, whose output limit depends on the body.\<close>

definition budget_rewrite :: "int \<Rightarrow> body \<Rightarrow> body" where
  "budget_rewrite budget bodyMap =
     (let b = obj_del bodyMap ''reasoning_effort'';
          b = obj_set b ''thinking'' (JObj [(''type'', JStr ''enabled''), (''budget_tokens'', JInt budget)]);
          b = obj_dels b sampling_fields;
          maxTokens = decoded_int (obj_get b ''max_tokens'')
      in if maxTokens \<le> budget then obj_set b ''max_tokens'' (JInt (budget + 4096)) else b)"

lemma budget_get:
  "obj_get (budget_rewrite budget b) k =
     (if k = ''reasoning_effort'' \<or> k \<in> set sampling_fields then None
      else if k = ''thinking'' then Some (JObj [(''type'', JStr ''enabled''), (''budget_tokens'', JInt budget)])
      else if k = ''max_tokens'' \<and> decoded_int (obj_get b k) \<le> budget then Some (JInt (budget + 4096))
      else obj_get b k)"
proof -
  have "''max_tokens'' \<notin> set sampling_fields" "''thinking'' \<notin> set sampling_fields"
    by (simp_all add: sampling_fields_def)
  then show ?thesis by (auto simp: budget_rewrite_def Let_def)
qed

lemma decoded_int_JInt: "decoded_int (Some (JInt n)) = 0"
  by (simp add: decoded_int_def)

lemma budget_settles:
  assumes "0 \<le> budget"
  shows "body_rewrite (budget_rewrite budget) anthropic_fields"
proof
  show "obj_get (budget_rewrite budget b) k = obj_get b k" if "k \<notin> anthropic_fields" for k b
    using that by (simp add: budget_get anthropic_fields_def sampling_fields_def)
  show "obj_get (budget_rewrite budget (budget_rewrite budget b)) k = obj_get (budget_rewrite budget b) k" for k b
    by (cases "k = ''max_tokens'' \<and> decoded_int (obj_get b k) \<le> budget")
      (use assms in \<open>auto simp: budget_get [of _ "budget_rewrite budget b"] budget_get [of _ b] decoded_int_JInt\<close>)
  show "obj_get (budget_rewrite budget b) k = obj_get (budget_rewrite budget b') k"
    if "\<And>k. obj_get b k = obj_get b' k" for k b b'
    unfolding budget_get that by (rule refl)
qed

definition budget_style :: "string \<Rightarrow> string \<Rightarrow> string \<Rightarrow> bool" where
  "budget_style baseURL targetModel level \<longleftrightarrow>
     level \<noteq> [] \<and> classifyUpstream baseURL targetModel \<noteq> famDeepseek \<and>
     anthropicSupportsThinking (ToLower targetModel) \<and> \<not> anthropicAdaptiveOnly (ToLower targetModel)"

lemma anthropic_budget_style:
  assumes "budget_style baseURL targetModel level"
  shows "fst (ApplyThinkingAnthropic b baseURL targetModel level supportsThinking) =
    budget_rewrite (anthropic_budget (thinkingRank level)) b"
  using assms by (simp add: budget_style_def ApplyThinkingAnthropic_def budget_rewrite_def Let_def)

lemma anthropic_constant:
  assumes "\<not> budget_style baseURL targetModel level"
  shows "constant_edit anthropic_fields
    (\<lambda>b. fst (ApplyThinkingAnthropic b baseURL targetModel level supportsThinking))"
  using assms unfolding ApplyThinkingAnthropic_def Let_def budget_style_def
  by (intro edits) (auto simp: anthropic_fields_def sampling_fields_def)

interpretation anthropic_rewrite:
  body_rewrite "\<lambda>b. fst (ApplyThinkingAnthropic b baseURL targetModel level supportsThinking)" anthropic_fields
  for baseURL targetModel level supportsThinking
proof (cases "budget_style baseURL targetModel level")
  case True
  then show "body_rewrite (\<lambda>b. fst (ApplyThinkingAnthropic b baseURL targetModel level supportsThinking)) anthropic_fields"
    using budget_settles by (simp add: anthropic_budget_style anthropic_budget_def)
next
  case False
  then show "body_rewrite (\<lambda>b. fst (ApplyThinkingAnthropic b baseURL targetModel level supportsThinking)) anthropic_fields"
    by (intro constant_edit_rewrite anthropic_constant)
qed

section \<open>Properties\<close>

text \<open>The effort a body asks the provider for, and how much that is.\<close>

definition forwarded_effort :: "string \<Rightarrow> body \<Rightarrow> string option" where
  "forwarded_effort baseURL b =
     (if isOpenRouterBase baseURL
      then (case as_object (obj_get b ''reasoning'') of
              None \<Rightarrow> None | Some r \<Rightarrow> Some (as_string (obj_get r ''effort'')))
      else (case obj_get b ''reasoning_effort'' of Some (JStr e) \<Rightarrow> Some e | _ \<Rightarrow> None))"

definition effort_rank :: "string \<Rightarrow> int" where
  "effort_rank e = (if e = ''none'' then 0 else if e = ''xhigh'' then 4 else thinkingRank e)"

text \<open>The least effort of a provider that has one.\<close>

definition effort_floor :: "string \<Rightarrow> string \<Rightarrow> int" where
  "effort_floor baseURL targetModel =
     (if isOpenRouterBase baseURL then 0
      else if classifyUpstream baseURL targetModel = famDeepseek \<and>
              \<not> deepseekSupportsLowEffort (ToLower targetModel) then 3
      else 1)"

text \<open>C34: In the OpenAI dialect a request never buys more than it asked for: whatever the
  client's own fields say, the effort that is forwarded is a rung of the canonical ladder and is
  at most the requested level, or the provider's floor if the request is below that.\<close>

theorem openai_effort_bounded:
  assumes "0 \<le> thinkingRank level"
    and "forwarded_effort baseURL (fst (ApplyThinkingOpenAI b baseURL targetModel level supportsThinking)) = Some e"
  shows "0 \<le> effort_rank e \<and> effort_rank e \<le> max (thinkingRank level) (effort_floor baseURL targetModel)"
proof -
  have level: "level \<in> {''minimal'', ''low'', ''medium'', ''high'', ''max''}"
    using assms(1) by (simp add: thinkingRank_def split: if_splits)
  show ?thesis
  proof (cases "isOpenRouterBase baseURL")
    case True
    then have "e = openrouter_effort (thinkingRank level)"
      using assms(2) level by (auto simp: ApplyThinkingOpenAI_def forwarded_effort_def effort_object_def Let_def)
    then show ?thesis
      using level True
      by (auto simp: openrouter_effort_def effort_rank_def effort_floor_def thinkingRank_def)
  next
    case False
    let ?m = "ToLower targetModel"
    have "(classifyUpstream baseURL targetModel = famDeepseek \<and> thinkingRank level \<noteq> 0 \<and>
             e = deepseek_effort (thinkingRank level) ?m) \<or>
          (classifyUpstream baseURL targetModel \<noteq> famDeepseek \<and>
             e \<in> {three_rungs (thinkingRank level), openai_effort level ?m,
                  if thinkingRank level \<ge> 3 then ''high'' else ''low''})"
      using assms(2) level False
      by (cases "classifyUpstream baseURL targetModel")
        (auto simp: ApplyThinkingOpenAI_def forwarded_effort_def Let_def split: if_splits)
    then show ?thesis
      using level False
      by (elim disjE conjE insertE)
        (auto simp: deepseek_effort_def three_rungs_def openai_effort_def effort_rank_def effort_floor_def
          thinkingRank_def)
  qed
qed

definition client_body :: body where
  "client_body = [(''model'', JStr ''m''), (''reasoning_effort'', JStr ''max''), (''thinking'', typed ''enabled'')]"

theorem openai_effort_bounded_witness:
  "effort_rank ''low'' \<le> max (thinkingRank ''medium'') (effort_floor ''https://api.deepseek.com'' ''deepseek-v4-flash'')"
proof -
  have "forwarded_effort ''https://api.deepseek.com''
      (fst (ApplyThinkingOpenAI client_body ''https://api.deepseek.com'' ''deepseek-v4-flash'' ''medium'' True)) =
    Some ''low''"
    by code_simp
  from openai_effort_bounded [OF _ this] show ?thesis by (simp add: thinkingRank_def)
qed

text \<open>The two dialects disagree on the same model: for every target whose name carries
  v4-flash and every body, a medium request is sent as low in the OpenAI dialect, and as high, a
  level above the one requested, in the Anthropic dialect.\<close>

theorem medium_escalates:
  assumes "Contains (ToLower targetModel) ''v4-flash''" "classifyUpstream baseURL targetModel = famDeepseek"
    and "\<not> isOpenRouterBase baseURL"
  shows "snd (ApplyThinkingOpenAI b baseURL targetModel ''medium'' True) = ''low'' \<and>
    snd (ApplyThinkingAnthropic b baseURL targetModel ''medium'' True) = ''high'' \<and>
    thinkingRank ''medium'' < thinkingRank ''high''"
  using assms
  by (simp add: ApplyThinkingOpenAI_def ApplyThinkingAnthropic_def Let_def thinkingRank_def deepseek_effort_def
      deepseek_anthropic_effort_def deepseekSupportsLowEffort_def modelSupportsThinking_def)

theorem medium_escalates_witness:
  "snd (ApplyThinkingAnthropic client_body ''https://api.deepseek.com'' ''deepseek-v4-flash'' ''medium'' True) = ''high''"
proof -
  have "Contains (ToLower ''deepseek-v4-flash'') ''v4-flash''"
    "classifyUpstream ''https://api.deepseek.com'' ''deepseek-v4-flash'' = famDeepseek"
    "\<not> isOpenRouterBase ''https://api.deepseek.com''"
    by code_simp+
  from medium_escalates [OF this] show ?thesis by blast
qed

text \<open>C35: A thinking request to a Claude model is always one the provider accepts: with a manual
  budget the output limit exceeds it, and neither style of thinking comes with sampling fields or
  with the gateway's own effort field.\<close>

theorem anthropic_thinking_accepted:
  assumes "level \<noteq> []" "classifyUpstream baseURL targetModel \<noteq> famDeepseek"
    and "anthropicSupportsThinking (ToLower targetModel)"
    and "b' = fst (ApplyThinkingAnthropic b baseURL targetModel level supportsThinking)"
  shows "(\<forall>k \<in> insert ''reasoning_effort'' (set sampling_fields). obj_get b' k = None) \<and>
    (if anthropicAdaptiveOnly (ToLower targetModel)
     then obj_get b' ''thinking'' = Some (typed ''adaptive'') \<and>
       obj_get b' ''output_config'' = Some (effort_object (adaptive_effort (thinkingRank level)))
     else \<exists>budget > 0. obj_get b' ''thinking'' =
             Some (JObj [(''type'', JStr ''enabled''), (''budget_tokens'', JInt budget)]) \<and>
       (case obj_get b' ''max_tokens'' of
          Some (JNum x) \<Rightarrow> budget < f64_to_int64 x | Some (JInt n) \<Rightarrow> budget < n | _ \<Rightarrow> False))"
proof (cases "anthropicAdaptiveOnly (ToLower targetModel)")
  case True
  then show ?thesis
    using assms by (simp add: ApplyThinkingAnthropic_def Let_def sampling_fields_def)
next
  case False
  then have b': "b' = budget_rewrite (anthropic_budget (thinkingRank level)) b"
    using assms by (simp add: anthropic_budget_style budget_style_def)
  define budget where "budget = anthropic_budget (thinkingRank level)"
  have "0 < budget" by (simp add: budget_def anthropic_budget_def)
  moreover have "case obj_get b' ''max_tokens'' of
      Some (JNum x) \<Rightarrow> budget < f64_to_int64 x | Some (JInt n) \<Rightarrow> budget < n | _ \<Rightarrow> False"
  proof (cases "decoded_int (obj_get b ''max_tokens'') \<le> budget")
    case True
    then show ?thesis by (simp add: b' budget_get sampling_fields_def flip: budget_def)
  next
    case False
    then obtain x where "obj_get b ''max_tokens'' = Some (JNum x)" "budget < f64_to_int64 x"
      using \<open>0 < budget\<close> by (auto simp: decoded_int_def split: option.splits json.splits)
    then show ?thesis
      by (simp add: b' budget_get sampling_fields_def decoded_int_def flip: budget_def)
  qed
  moreover have "obj_get b' ''thinking'' =
      Some (JObj [(''type'', JStr ''enabled''), (''budget_tokens'', JInt budget)])"
    by (simp add: b' budget_get budget_def sampling_fields_def)
  moreover have "\<forall>k \<in> insert ''reasoning_effort'' (set sampling_fields). obj_get b' k = None"
    by (simp add: b' budget_get)
  ultimately show ?thesis
    using False by (simp only: if_False) blast
qed

theorem anthropic_thinking_accepted_witness:
  "obj_get (fst (ApplyThinkingAnthropic [(''temperature'', JNum (FFin 1))] ''https://api.anthropic.com''
      ''claude-sonnet-4-5'' ''high'' False)) ''temperature'' = None"
proof -
  have "anthropicSupportsThinking (ToLower ''claude-sonnet-4-5'')"
    "classifyUpstream ''https://api.anthropic.com'' ''claude-sonnet-4-5'' \<noteq> famDeepseek"
    by code_simp+
  from anthropic_thinking_accepted [OF _ this(2,1) refl, of "''high''"] show ?thesis
    by (simp add: sampling_fields_def)
qed

text \<open>C36: The dialect rewrites touch only the fields they own, and rewriting the body once more
  for each attempt of a failover changes nothing further.\<close>

theorem wire_rewrites_settle:
  assumes "0 < n"
  shows "(\<forall>k. obj_get (((\<lambda>b. fst (ApplyThinkingOpenAI b baseURL targetModel level st)) ^^ n) b) k =
      obj_get (fst (ApplyThinkingOpenAI b baseURL targetModel level st)) k \<and>
      (k \<in> thinking_fields \<or> obj_get (fst (ApplyThinkingOpenAI b baseURL targetModel level st)) k = obj_get b k)) \<and>
    (\<forall>k. obj_get (((\<lambda>b. fst (ApplyThinkingAnthropic b baseURL targetModel level st)) ^^ n) b) k =
      obj_get (fst (ApplyThinkingAnthropic b baseURL targetModel level st)) k \<and>
      (k \<in> anthropic_fields \<or> obj_get (fst (ApplyThinkingAnthropic b baseURL targetModel level st)) k = obj_get b k)) \<and>
    (\<forall>k. obj_get ((conditionDeepSeekChatCompletion ^^ n) b) k = obj_get (conditionDeepSeekChatCompletion b) k \<and>
      (k \<in> deepseek_fields \<or> obj_get (conditionDeepSeekChatCompletion b) k = obj_get b k))"
  by (intro conjI allI;
      (rule openai_rewrite.attempts_same [OF assms] | rule anthropic_rewrite.attempts_same [OF assms]
       | rule deepseek_rewrite.attempts_same [OF assms] | (use openai_rewrite.frame in blast)
       | (use anthropic_rewrite.frame in blast) | (use deepseek_rewrite.frame in blast)))

theorem wire_rewrites_settle_witness:
  "obj_get ((conditionDeepSeekChatCompletion ^^ 3) client_body) ''model'' =
     obj_get (conditionDeepSeekChatCompletion client_body) ''model''"
  using wire_rewrites_settle [of 3 _ _ _ _ client_body] by simp

text \<open>What DeepSeek receives: none of the fields it rejects, one output limit that is the
  client's, a response format only of a kind it accepts, sampling fields only with thinking turned
  off, and stream options only on a stream.\<close>

theorem deepseek_accepts:
  fixes b defines "b' \<equiv> conditionDeepSeekChatCompletion b"
  shows "list_all (\<lambda>k. obj_get b' k = None) (''max_completion_tokens'' # deepSeekUnsupportedFields) \<and>
    obj_get b' ''max_tokens'' =
      (if obj_get b ''max_tokens'' = None then obj_get b ''max_completion_tokens'' else obj_get b ''max_tokens'') \<and>
    (case as_object (obj_get b' ''response_format'') of
       None \<Rightarrow> True | Some rf \<Rightarrow> as_string (obj_get rf ''type'') \<in> {''json_object'', ''text''}) \<and>
    (deepSeekThinkingDisabled b' \<or> obj_get b' ''temperature'' = None \<and> obj_get b' ''top_p'' = None) \<and>
    (as_bool (obj_get b' ''stream'') \<or> obj_get b' ''stream_options'' = None)"
proof -
  have d: "deepSeekThinkingDisabled b' = deepSeekThinkingDisabled b"
    unfolding b'_def by (rule disabled_cong) (rule deepseek_keeps(1))
  have "list_all (\<lambda>k. obj_get b' k = None) (''max_completion_tokens'' # deepSeekUnsupportedFields)"
    by (simp add: list_all_iff b'_def deepseek_get)
  moreover have "obj_get b' ''max_tokens'' =
      (if obj_get b ''max_tokens'' = None then obj_get b ''max_completion_tokens'' else obj_get b ''max_tokens'')"
    using not_unsupported by (simp add: b'_def deepseek_get)
  moreover have "case as_object (obj_get b' ''response_format'') of
       None \<Rightarrow> True | Some rf \<Rightarrow> as_string (obj_get rf ''type'') \<in> {''json_object'', ''text''}"
    using not_unsupported by (auto simp: b'_def deepseek_get split: option.split)
  moreover have "deepSeekThinkingDisabled b \<or> obj_get b' ''temperature'' = None \<and> obj_get b' ''top_p'' = None"
    by (simp add: b'_def deepseek_get)
  moreover have "as_bool (obj_get b' ''stream'') \<or> obj_get b' ''stream_options'' = None"
    using not_unsupported deepseek_keeps(2) [of b] by (simp add: b'_def deepseek_get)
  ultimately show ?thesis using d by blast
qed

end
