(* ===== verification/Cache.thy ===== *)
theory Cache
  imports Prelude Json
begin

text \<open>
  Prompt caching (src/proxy/cache.go). Claude upstreams cache only at explicit breakpoints, so
  the gateway tags the system prompt and the last message. A mutation of a nested map in place is
  the rewritten body; a function that reports whether it placed a breakpoint returns an option or
  a flag.
\<close>

definition anthropicSupportsCaching :: "string \<Rightarrow> bool" where
  "anthropicSupportsCaching targetModel =
     (let model = ToLower targetModel
      in if \<not> Contains model ''claude'' then False
         else \<not> Contains model ''claude-2'' \<and> \<not> Contains model ''claude-instant'')"

definition blockAcceptsCacheControl :: "body \<Rightarrow> bool" where
  "blockAcceptsCacheControl block \<longleftrightarrow>
     as_string (obj_get block ''type'') \<in>
       {''text'', ''image'', ''tool_use'', ''tool_result'', ''document'', ''search_result''}"

fun containsCacheControl :: "json \<Rightarrow> bool" where
  "containsCacheControl (JObj m) \<longleftrightarrow>
     list_ex (\<lambda>(k, v). k = ''cache_control'') m \<or> list_ex (\<lambda>(k, v). containsCacheControl v) m"
| "containsCacheControl (JArr xs) \<longleftrightarrow> list_ex containsCacheControl xs"
| "containsCacheControl _ \<longleftrightarrow> False"

definition anthropicFamilyTarget :: "string \<Rightarrow> bool" where
  "anthropicFamilyTarget targetModel =
     (let t = ToLower targetModel in Contains t ''claude'' \<or> HasPrefix t ''anthropic/'')"

definition ephemeral :: json where
  "ephemeral = JObj [(''type'', JStr ''ephemeral'')]"

text \<open>The scans from the end of an array: the last element that qualifies is rewritten.\<close>

fun update_last :: "('a \<Rightarrow> bool) \<Rightarrow> ('a \<Rightarrow> 'a) \<Rightarrow> 'a list \<Rightarrow> 'a list option" where
  "update_last P f [] = None"
| "update_last P f (x # xs) =
     (case update_last P f xs of
        Some ys \<Rightarrow> Some (x # ys)
      | None \<Rightarrow> if P x then Some (f x # xs) else None)"

definition object_with :: "(body \<Rightarrow> bool) \<Rightarrow> json \<Rightarrow> bool" where
  "object_with P j = (case j of JObj m \<Rightarrow> P m | _ \<Rightarrow> False)"

definition put_breakpoint :: "json \<Rightarrow> json" where
  "put_breakpoint j = (case j of JObj m \<Rightarrow> JObj (obj_set m ''cache_control'' ephemeral) | _ \<Rightarrow> j)"

definition tagged_text :: "string \<Rightarrow> json" where
  "tagged_text s =
     JArr [JObj [(''type'', JStr ''text''), (''text'', JStr s), (''cache_control'', ephemeral)]]"

definition setOpenAIContentCacheControl :: "body \<Rightarrow> body option" where
  "setOpenAIContentCacheControl msg =
     (case obj_get msg ''content'' of
        Some (JStr content) \<Rightarrow>
          if content = [] then None else Some (obj_set msg ''content'' (tagged_text content))
      | Some (JArr content) \<Rightarrow>
          map_option (\<lambda>c. obj_set msg ''content'' (JArr c))
            (update_last (object_with (\<lambda>p. as_string (obj_get p ''type'') = ''text'')) put_breakpoint content)
      | _ \<Rightarrow> None)"

text \<open>One attempt to tag a message: the message afterwards, and whether it was tagged.\<close>

definition try_tag :: "(body \<Rightarrow> body option) \<Rightarrow> json \<Rightarrow> json \<times> bool" where
  "try_tag tag j =
     (case j of JObj m \<Rightarrow> (case tag m of Some m' \<Rightarrow> (JObj m', True) | None \<Rightarrow> (j, False)) | _ \<Rightarrow> (j, False))"

definition is_system :: "json \<Rightarrow> bool" where
  "is_system = object_with (\<lambda>m. as_string (obj_get m ''role'') = ''system'')"

text \<open>The last message that satisfies \<open>P\<close> is tried, if there is one.\<close>

definition tag_message :: "(json \<Rightarrow> bool) \<Rightarrow> (body \<Rightarrow> body option) \<Rightarrow> json list \<Rightarrow> json list \<times> bool" where
  "tag_message P tag messages =
     (case find P (rev messages) of
        None \<Rightarrow> (messages, False)
      | Some j \<Rightarrow>
          (case update_last P (\<lambda>j. fst (try_tag tag j)) messages of
             None \<Rightarrow> (messages, False)
           | Some messages' \<Rightarrow> (messages', snd (try_tag tag j))))"

definition InjectOpenRouterAnthropicCache :: "body \<Rightarrow> bool \<Rightarrow> string \<Rightarrow> body \<times> bool" where
  "InjectOpenRouterAnthropicCache b isOpenRouter targetModel =
     (if \<not> isOpenRouter \<or> \<not> anthropicFamilyTarget targetModel then (b, False)
      else if containsCacheControl (JObj b) then (b, False)
      else
        (case as_array (obj_get b ''messages'') of
           None \<Rightarrow> (b, False)
         | Some [] \<Rightarrow> (b, False)
         | Some messages \<Rightarrow>
             (let (messages, first) = tag_message is_system setOpenAIContentCacheControl messages;
                  (messages, second) = tag_message (\<lambda>_. True) setOpenAIContentCacheControl messages
              in (obj_set b ''messages'' (JArr messages), first \<or> second))))"

text \<open>The content of an Anthropic system prompt or message.\<close>

definition tag_content :: "json \<Rightarrow> json option" where
  "tag_content j =
     (case j of
        JStr s \<Rightarrow> if s = [] then None else Some (tagged_text s)
      | JArr blocks \<Rightarrow> map_option JArr (update_last (object_with blockAcceptsCacheControl) put_breakpoint blocks)
      | _ \<Rightarrow> None)"

definition tag_field :: "string \<Rightarrow> body \<Rightarrow> body option" where
  "tag_field k m =
     (case obj_get m k of
        None \<Rightarrow> None | Some c \<Rightarrow> map_option (\<lambda>c'. obj_set m k c') (tag_content c))"

definition InjectAnthropicCacheControl :: "body \<Rightarrow> string \<Rightarrow> body \<times> bool" where
  "InjectAnthropicCacheControl b targetModel =
     (if \<not> anthropicSupportsCaching targetModel then (b, False)
      else if containsCacheControl (JObj b) then (b, False)
      else
        (let (b, first) = (case tag_field ''system'' b of Some b' \<Rightarrow> (b', True) | None \<Rightarrow> (b, False))
         in case as_array (obj_get b ''messages'') of
              None \<Rightarrow> (b, first)
            | Some [] \<Rightarrow> (b, first)
            | Some messages \<Rightarrow>
                (let (messages, second) = tag_message (\<lambda>_. True) (tag_field ''content'') messages
                 in (obj_set b ''messages'' (JArr messages), first \<or> second))))"

section \<open>Counting breakpoints\<close>

fun breakpoints :: "json \<Rightarrow> nat" where
  "breakpoints (JObj m) = sum_list (map (\<lambda>(k, v). (if k = ''cache_control'' then 1 else 0) + breakpoints v) m)"
| "breakpoints (JArr xs) = sum_list (map breakpoints xs)"
| "breakpoints _ = 0"

definition weight :: "string \<Rightarrow> json \<Rightarrow> nat" where
  "weight k v = (if k = ''cache_control'' then 1 else 0) + breakpoints v"

lemma breakpoints_obj: "breakpoints (JObj m) = sum_list (map (\<lambda>(k, v). weight k v) m)"
  by (simp add: weight_def)

lemma sum_list_pos: "(0::nat) < sum_list xs \<longleftrightarrow> (\<exists>x \<in> set xs. 0 < x)"
  by (induction xs) auto

lemma breakpoints_pos:
  "0 < breakpoints (JObj m) \<longleftrightarrow>
     list_ex (\<lambda>(k, v). k = ''cache_control'') m \<or> list_ex (\<lambda>(k, v). 0 < breakpoints v) m"
  by (induction m) auto

lemma contains_breakpoints: "containsCacheControl j \<longleftrightarrow> 0 < breakpoints j"
proof (induction j rule: containsCacheControl.induct)
  case (1 m)
  have "list_ex (\<lambda>(k, v). containsCacheControl v) m \<longleftrightarrow> list_ex (\<lambda>(k, v). 0 < breakpoints v) m"
    using 1 by (intro list_ex_cong) auto
  then show ?case by (simp only: breakpoints_pos containsCacheControl.simps)
next
  case (2 xs)
  then show ?case by (auto simp: list_ex_iff sum_list_pos)
qed simp_all

lemma member_zero: "breakpoints (JArr xs) = 0 \<Longrightarrow> x \<in> set xs \<Longrightarrow> breakpoints x = 0"
  by (simp add: sum_list_eq_0_iff)

lemma field_zero: "breakpoints (JObj m) = 0 \<Longrightarrow> obj_get m k = Some v \<Longrightarrow> breakpoints v = 0"
  by (auto simp: obj_get_def sum_list_eq_0_iff dest!: map_of_SomeD)

declare breakpoints.simps(1) [simp del] containsCacheControl.simps(1) [simp del]

lemma sum_update:
  "sum_list (map (\<lambda>(k, v). f k v) (AList.update k v m)) + (case map_of m k of None \<Rightarrow> 0 | Some w \<Rightarrow> f k w) =
     sum_list (map (\<lambda>(k, v). f k v) m) + (f k v :: nat)"
  by (induction m) auto

lemma breakpoints_set:
  "breakpoints (JObj (obj_set m k v)) + (case obj_get m k of None \<Rightarrow> 0 | Some w \<Rightarrow> weight k w) =
     breakpoints (JObj m) + weight k v"
  unfolding breakpoints_obj obj_set_def obj_get_def by (rule sum_update)

lemma breakpoints_replace:
  assumes "obj_get m k = Some w" "breakpoints v \<le> breakpoints w + n" "breakpoints w \<le> breakpoints v"
  shows "breakpoints (JObj (obj_set m k v)) \<le> breakpoints (JObj m) + n"
    "breakpoints (JObj m) + breakpoints v = breakpoints (JObj (obj_set m k v)) + breakpoints w"
  using breakpoints_set [of m k v] assms by (simp_all add: weight_def)

lemma breakpoints_ephemeral [simp]: "breakpoints ephemeral = 0"
  by (simp add: ephemeral_def breakpoints_obj weight_def)

lemma breakpoints_tagged_text [simp]: "breakpoints (tagged_text s) = 1"
  by (simp add: tagged_text_def breakpoints_obj weight_def)

text \<open>Tagging adds at most one breakpoint, and the tagged value has one.\<close>

definition tags :: "json \<Rightarrow> json \<Rightarrow> bool" where
  "tags j j' \<longleftrightarrow> breakpoints j' \<le> breakpoints j + 1 \<and> 0 < breakpoints j'"

lemma member_le: "obj_get m k = Some v \<Longrightarrow> weight k v \<le> breakpoints (JObj m)"
  unfolding breakpoints_obj obj_get_def by (induction m) (auto split: if_splits)

lemma tags_put_breakpoint: "tags (JObj m) (put_breakpoint (JObj m))"
  using breakpoints_set [of m "''cache_control''" ephemeral] member_le [of m "''cache_control''"]
  by (auto simp: tags_def put_breakpoint_def weight_def split: option.splits)

lemma tags_set_field: "obj_get m k = Some c \<Longrightarrow> tags c c' \<Longrightarrow> tags (JObj m) (JObj (obj_set m k c'))"
  using breakpoints_set [of m k c'] member_le [of m k c] by (simp add: tags_def weight_def)

lemma find_snoc:
  "find P (xs @ [y]) = (case find P xs of Some x \<Rightarrow> Some x | None \<Rightarrow> if P y then Some y else None)"
  by (induction xs) auto

lemma update_last_split:
  "find P (rev xs) = Some x \<Longrightarrow> \<exists>ys zs. xs = ys @ x # zs \<and> P x \<and> update_last P f xs = Some (ys @ f x # zs)"
  "find P (rev xs) = None \<longleftrightarrow> update_last P f xs = None"
proof (induction xs)
  case (Cons y xs)
  {
    case 1
    then consider "find P (rev xs) = Some x" | "find P (rev xs) = None" "P y" "x = y"
      by (auto simp: find_snoc split: option.splits if_splits)
    then show ?case
    proof cases
      case 1
      then obtain ys zs where "xs = ys @ x # zs" "P x" "update_last P f xs = Some (ys @ f x # zs)"
        using Cons.IH(1) by blast
      then show ?thesis by (intro exI [of _ "y # ys"] exI [of _ zs]) simp
    next
      case 2
      then show ?thesis using Cons.IH(2) by (intro exI [of _ "[]"] exI [of _ xs]) simp
    qed
  next
    case 2
    show ?case using Cons.IH(2) by (auto simp: find_snoc split: option.splits)
  }
qed simp_all

lemma tags_array:
  assumes "update_last P f xs = Some ys" "\<And>x. P x \<Longrightarrow> tags x (f x)"
  shows "tags (JArr xs) (JArr ys)"
proof -
  obtain x where "find P (rev xs) = Some x"
    using assms(1) update_last_split(2) [of P xs f] by (cases "find P (rev xs)") simp_all
  from update_last_split(1) [OF this, of f] show ?thesis
    using assms by (auto simp: tags_def)
qed

lemma tags_parts: "update_last (object_with P) put_breakpoint xs = Some ys \<Longrightarrow> tags (JArr xs) (JArr ys)"
  by (erule tags_array) (auto simp: object_with_def tags_put_breakpoint split: json.splits)

definition openai_content :: "json \<Rightarrow> json option" where
  "openai_content c =
     (case c of
        JStr s \<Rightarrow> if s = [] then None else Some (tagged_text s)
      | JArr xs \<Rightarrow> map_option JArr
          (update_last (object_with (\<lambda>p. as_string (obj_get p ''type'') = ''text'')) put_breakpoint xs)
      | _ \<Rightarrow> None)"

lemma setOpenAI_content:
  "setOpenAIContentCacheControl m =
     (case obj_get m ''content'' of
        None \<Rightarrow> None | Some c \<Rightarrow> map_option (\<lambda>c'. obj_set m ''content'' c') (openai_content c))"
  by (simp add: setOpenAIContentCacheControl_def openai_content_def option.map_comp comp_def
      split: option.split json.split)

lemma tags_contents:
  "openai_content c = Some c' \<Longrightarrow> tags c c'" "tag_content c = Some c' \<Longrightarrow> tags c c'"
  by (auto simp: openai_content_def tag_content_def tags_parts split: json.splits if_splits)
    (simp_all add: tags_def)

section \<open>What tagging leaves alone\<close>

text \<open>A value without its breakpoints, a plain text in its long form.\<close>

definition plain_part :: "json \<Rightarrow> json" where
  "plain_part j = (case j of JObj p \<Rightarrow> JObj (obj_del p ''cache_control'') | _ \<Rightarrow> j)"

definition plain_content :: "json \<Rightarrow> json" where
  "plain_content c =
     (case c of
        JStr s \<Rightarrow> JArr [JObj [(''type'', JStr ''text''), (''text'', JStr s)]]
      | JArr xs \<Rightarrow> JArr (map plain_part xs)
      | _ \<Rightarrow> c)"

definition plain_message :: "json \<Rightarrow> json" where
  "plain_message j =
     (case j of
        JObj m \<Rightarrow> (case obj_get m ''content'' of
                    None \<Rightarrow> j | Some c \<Rightarrow> JObj (obj_set m ''content'' (plain_content c)))
      | _ \<Rightarrow> j)"

lemma obj_set_set [simp]: "obj_set (obj_set m k v) k w = obj_set m k w"
  unfolding obj_set_def by (induction m) auto

lemma obj_del_set [simp]: "obj_del (obj_set m k v) k = obj_del m k"
  unfolding obj_set_def obj_del_def by (induction m) auto

lemma obj_set_same: "obj_get m k = Some v \<Longrightarrow> obj_set m k v = m"
  unfolding obj_set_def obj_get_def by (induction m) (auto split: if_splits)

lemma plain_put_breakpoint [simp]: "plain_part (put_breakpoint j) = plain_part j"
  by (cases j) (simp_all add: plain_part_def put_breakpoint_def)

lemma update_last_map:
  assumes "update_last P f xs = Some ys" "\<And>x. P x \<Longrightarrow> g (f x) = g x"
  shows "map g ys = map g xs"
  using assms by (induction xs arbitrary: ys) (auto split: option.splits if_splits)

lemma plain_parts: "update_last P put_breakpoint xs = Some ys \<Longrightarrow> map plain_part ys = map plain_part xs"
  by (erule update_last_map) simp

lemma plain_tagged: "plain_content (tagged_text s) = plain_content (JStr s)"
  by (simp add: plain_content_def tagged_text_def plain_part_def obj_del_def)

lemma plain_array: "map plain_part ys = map plain_part xs \<Longrightarrow> plain_content (JArr ys) = plain_content (JArr xs)"
  by (simp add: plain_content_def)

lemma plain_contents:
  "openai_content c = Some c' \<Longrightarrow> plain_content c' = plain_content c"
  "tag_content c = Some c' \<Longrightarrow> plain_content c' = plain_content c"
  by (cases c; auto simp: openai_content_def tag_content_def plain_tagged
      split: if_splits intro!: plain_array plain_parts)+

text \<open>A way to tag one field of a message or body.\<close>

definition tags_field :: "string \<Rightarrow> (body \<Rightarrow> body option) \<Rightarrow> bool" where
  "tags_field k tag \<longleftrightarrow>
     (\<forall>m m'. tag m = Some m' \<longrightarrow> (\<exists>c c'. obj_get m k = Some c \<and> m' = obj_set m k c' \<and>
        tags c c' \<and> plain_content c' = plain_content c))"

lemma tags_field_tag: "tags_field k (tag_field k)"
  by (auto simp: tags_field_def tag_field_def tags_contents plain_contents split: option.splits)

lemma tags_field_openai: "tags_field ''content'' setOpenAIContentCacheControl"
  by (auto simp: tags_field_def setOpenAI_content tags_contents plain_contents split: option.splits)

lemma try_tag_effect:
  assumes "tags_field ''content'' tag"
  shows "(if snd (try_tag tag j) then tags j (fst (try_tag tag j)) else fst (try_tag tag j) = j) \<and>
    plain_message (fst (try_tag tag j)) = plain_message j"
proof (cases "\<exists>m m'. j = JObj m \<and> tag m = Some m'")
  case True
  then obtain m m' where m: "j = JObj m" "tag m = Some m'" by blast
  with assms obtain c c' where "obj_get m ''content'' = Some c" "m' = obj_set m ''content'' c'"
    "tags c c'" "plain_content c' = plain_content c"
    unfolding tags_field_def by blast
  with m show ?thesis by (simp add: try_tag_def tags_set_field plain_message_def)
next
  case False
  then show ?thesis by (auto simp: try_tag_def split: json.splits option.splits)
qed

lemma tag_message_effect:
  assumes "tags_field ''content'' tag" "tag_message P tag ms = (ms', placed)"
  shows "(if placed then tags (JArr ms) (JArr ms') else ms' = ms) \<and> map plain_message ms' = map plain_message ms"
proof (cases "find P (rev ms)")
  case None
  with assms(2) show ?thesis by (simp add: tag_message_def)
next
  case (Some j)
  then obtain ys zs where s: "ms = ys @ j # zs"
    "update_last P (\<lambda>j. fst (try_tag tag j)) ms = Some (ys @ fst (try_tag tag j) # zs)"
    using update_last_split(1) [OF Some, of "\<lambda>j. fst (try_tag tag j)"] by blast
  with assms(2) Some have r: "ms' = ys @ fst (try_tag tag j) # zs" "placed = snd (try_tag tag j)"
    by (simp_all add: tag_message_def)
  show ?thesis
    using try_tag_effect [OF assms(1), of j] unfolding r s(1)
    by (cases "snd (try_tag tag j)") (auto simp: tags_def)
qed

lemma breakpoints_array_field:
  assumes "obj_get b k = Some (JArr ms)" "breakpoints (JArr ms') \<le> breakpoints (JArr ms) + n"
  shows "breakpoints (JObj (obj_set b k (JArr ms'))) \<le> breakpoints (JObj b) + n"
  using breakpoints_set [of b k "JArr ms'"] assms by (simp add: weight_def del: breakpoints.simps(2))

lemma breakpoints_field_pos:
  "0 < breakpoints v \<Longrightarrow> 0 < breakpoints (JObj (obj_set b k v))"
  using member_le [of "obj_set b k v" k v] by (simp add: weight_def)

text \<open>The effect of an injection, apart from what the injected breakpoints are.\<close>

definition injection_ok :: "body \<Rightarrow> body \<times> bool \<Rightarrow> bool" where
  "injection_ok b r \<longleftrightarrow>
     (let (b', injected) = r
      in (if injected then breakpoints (JObj b) = 0 \<and> 0 < breakpoints (JObj b') \<and> breakpoints (JObj b') \<le> 2
          else b' = b) \<and>
         (\<forall>k. k \<in> {''system'', ''messages''} \<or> obj_get b' k = obj_get b k) \<and>
         map_option plain_content (obj_get b' ''system'') = map_option plain_content (obj_get b ''system'') \<and>
         map_option (map plain_message) (as_array (obj_get b' ''messages'')) =
           map_option (map plain_message) (as_array (obj_get b ''messages'')))"

lemma injection_ok_none: "injection_ok b (b, False)"
  by (simp add: injection_ok_def)

lemma injection_messages:
  assumes "obj_get b ''messages'' = Some (JArr ms)" "map plain_message ms' = map plain_message ms"
    and "if placed then breakpoints (JObj b) = 0 \<and> 0 < breakpoints (JArr ms') \<and> breakpoints (JArr ms') \<le> 2
         else ms' = ms"
  shows "injection_ok b (obj_set b ''messages'' (JArr ms'), placed)"
proof (cases placed)
  case False
  with assms show ?thesis by (simp add: obj_set_same injection_ok_none)
next
  case True
  then have "breakpoints (JObj (obj_set b ''messages'' (JArr ms'))) \<le> breakpoints (JObj b) + 2"
    using assms by (intro breakpoints_array_field [OF assms(1)]) simp
  with True assms breakpoints_field_pos [of "JArr ms'" b "''messages''"] show ?thesis
    by (simp add: injection_ok_def del: breakpoints.simps(2))
qed

lemma openrouter_ok: "injection_ok b (InjectOpenRouterAnthropicCache b isOpenRouter targetModel)"
proof (cases "isOpenRouter \<and> anthropicFamilyTarget targetModel \<and> \<not> containsCacheControl (JObj b) \<and>
    (\<exists>m ms. obj_get b ''messages'' = Some (JArr (m # ms)))")
  case True
  then obtain m ms where ms: "obj_get b ''messages'' = Some (JArr (m # ms))" by blast
  have zero: "breakpoints (JObj b) = 0" using True by (simp add: contains_breakpoints)
  then have z: "breakpoints (JArr (m # ms)) = 0" by (rule field_zero [OF _ ms])
  obtain ms1 p1 where t1: "tag_message is_system setOpenAIContentCacheControl (m # ms) = (ms1, p1)"
    by fastforce
  obtain ms2 p2 where t2: "tag_message (\<lambda>_. True) setOpenAIContentCacheControl ms1 = (ms2, p2)"
    by fastforce
  note e1 = tag_message_effect [OF tags_field_openai t1] and e2 = tag_message_effect [OF tags_field_openai t2]
  have "InjectOpenRouterAnthropicCache b isOpenRouter targetModel =
      (obj_set b ''messages'' (JArr ms2), p1 \<or> p2)"
    using True ms t1 t2 by (simp add: InjectOpenRouterAnthropicCache_def)
  moreover have "injection_ok b (obj_set b ''messages'' (JArr ms2), p1 \<or> p2)"
    using e1 e2 z zero
    by (intro injection_messages [OF ms]) (auto simp: tags_def simp del: breakpoints.simps(2) split: if_splits)
  ultimately show ?thesis by simp
next
  case False
  then show ?thesis
    using injection_ok_none
    by (auto simp: InjectOpenRouterAnthropicCache_def as_array_def split: option.splits json.splits list.splits)
qed

lemma anthropic_system:
  fixes b defines "r \<equiv> (case tag_field ''system'' b of Some b' \<Rightarrow> (b', True) | None \<Rightarrow> (b, False))"
  assumes zero: "breakpoints (JObj b) = 0"
  shows "injection_ok b r" "breakpoints (JObj (fst r)) \<le> 1" "snd r \<or> fst r = b"
    "obj_get (fst r) ''messages'' = obj_get b ''messages''"
proof -
  have "injection_ok b r \<and> breakpoints (JObj (fst r)) \<le> 1 \<and> (snd r \<or> fst r = b) \<and>
      obj_get (fst r) ''messages'' = obj_get b ''messages''"
  proof (cases "tag_field ''system'' b")
    case None
    then show ?thesis by (simp add: r_def injection_ok_none zero)
  next
    case (Some b')
    then obtain c c' where c: "obj_get b ''system'' = Some c" "b' = obj_set b ''system'' c'" "tags c c'"
      "plain_content c' = plain_content c"
      using tags_field_tag unfolding tags_field_def by blast
    have "tags (JObj b) (JObj b')" unfolding c(2) by (rule tags_set_field [OF c(1,3)])
    then show ?thesis using Some c zero by (simp add: r_def injection_ok_def tags_def)
  qed
  then show "injection_ok b r" "breakpoints (JObj (fst r)) \<le> 1" "snd r \<or> fst r = b"
    "obj_get (fst r) ''messages'' = obj_get b ''messages''"
    by simp_all
qed

lemma injection_second:
  assumes first: "injection_ok b (b1, p1)" "breakpoints (JObj b1) \<le> 1" "breakpoints (JObj b) = 0"
    and ms: "obj_get b1 ''messages'' = Some (JArr ms)" "obj_get b ''messages'' = Some (JArr ms)"
    and second: "if p2 then tags (JArr ms) (JArr ms') else ms' = ms" "map plain_message ms' = map plain_message ms"
  shows "injection_ok b (obj_set b1 ''messages'' (JArr ms'), p1 \<or> p2)"
proof (cases p2)
  case False
  then show ?thesis using assms by (simp add: obj_set_same)
next
  case True
  have "breakpoints (JArr ms) = 0" by (rule field_zero [OF first(3) ms(2)])
  then have "breakpoints (JArr ms') \<le> breakpoints (JArr ms) + 1" "0 < breakpoints (JArr ms')"
    using True second(1) by (simp_all add: tags_def)
  then have "breakpoints (JObj (obj_set b1 ''messages'' (JArr ms'))) \<le> 2"
    "0 < breakpoints (JObj (obj_set b1 ''messages'' (JArr ms')))"
    using breakpoints_array_field [OF ms(1), of ms' 1] first(2) breakpoints_field_pos by simp_all
  moreover have "\<forall>k. k \<in> {''system'', ''messages''} \<or> obj_get (obj_set b1 ''messages'' (JArr ms')) k = obj_get b k"
    using first(1) unfolding injection_ok_def Let_def by auto
  moreover have "map_option plain_content (obj_get b1 ''system'') = map_option plain_content (obj_get b ''system'')"
    using first(1) by (simp add: injection_ok_def)
  ultimately show ?thesis
    using True first(3) ms second(2) by (simp add: injection_ok_def)
qed

lemma anthropic_ok: "injection_ok b (InjectAnthropicCacheControl b targetModel)"
proof (cases "anthropicSupportsCaching targetModel \<and> \<not> containsCacheControl (JObj b)")
  case False
  then show ?thesis by (auto simp: InjectAnthropicCacheControl_def injection_ok_none)
next
  case True
  then have zero: "breakpoints (JObj b) = 0" by (simp add: contains_breakpoints)
  obtain b1 p1 where r: "(case tag_field ''system'' b of Some b' \<Rightarrow> (b', True) | None \<Rightarrow> (b, False)) = (b1, p1)"
    by fastforce
  note first = anthropic_system [OF zero, unfolded r fst_conv snd_conv]
  show ?thesis
  proof (cases "\<exists>m ms. obj_get b ''messages'' = Some (JArr (m # ms))")
    case False
    then have "InjectAnthropicCacheControl b targetModel = (b1, p1)"
      using True r first(4)
      by (auto simp: InjectAnthropicCacheControl_def as_array_def split: option.splits json.splits list.splits)
    then show ?thesis using first(1) by simp
  next
    case ms: True
    then obtain m ms where ms: "obj_get b ''messages'' = Some (JArr (m # ms))" by blast
    obtain ms2 p2 where t2: "tag_message (\<lambda>_. True) (tag_field ''content'') (m # ms) = (ms2, p2)"
      by fastforce
    note e2 = tag_message_effect [OF tags_field_tag t2]
    have "InjectAnthropicCacheControl b targetModel = (obj_set b1 ''messages'' (JArr ms2), p1 \<or> p2)"
      using True r ms first(4) t2 by (simp add: InjectAnthropicCacheControl_def)
    then show ?thesis
      using injection_second [OF first(1,2) zero, of "m # ms" p2 ms2] ms e2 first(4) by simp
  qed
qed

section \<open>Properties\<close>

text \<open>C40: Injecting cache breakpoints, in either dialect, never costs a request: a body with
  breakpoints of its own is left as it is; otherwise at most two are added, the injection reports
  exactly whether it added any, and without them every message, the system prompt and every other
  field read as before.\<close>

theorem cache_injection_safe:
  "injection_ok b (InjectAnthropicCacheControl b targetModel) \<and>
   injection_ok b (InjectOpenRouterAnthropicCache b isOpenRouter targetModel)"
  by (intro conjI anthropic_ok openrouter_ok)

text \<open>A body that got breakpoints gets no more when it is rewritten for another attempt.\<close>

theorem cache_injection_once:
  assumes "InjectAnthropicCacheControl b targetModel = (b', True)"
  shows "InjectAnthropicCacheControl b' targetModel' = (b', False) \<and>
    InjectOpenRouterAnthropicCache b' isOpenRouter targetModel' = (b', False)"
proof -
  have "containsCacheControl (JObj b')"
    using anthropic_ok [of b targetModel] assms by (simp add: injection_ok_def contains_breakpoints)
  then show ?thesis by (simp add: InjectAnthropicCacheControl_def InjectOpenRouterAnthropicCache_def)
qed

theorem cache_injection_once_witness:
  "InjectAnthropicCacheControl [(''system'', tagged_text ''s'')] ''claude-3-opus'' =
     ([(''system'', tagged_text ''s'')], False)"
proof -
  have "InjectAnthropicCacheControl [(''system'', JStr ''s'')] ''claude-3-opus'' =
      ([(''system'', tagged_text ''s'')], True)"
    by code_simp
  from cache_injection_once [OF this] show ?thesis by blast
qed

end
