(* ===== verification/JsonText.thy ===== *)
theory JsonText
  imports Prelude
begin

text \<open>
  \<open>json.Valid\<close> of the Go library, which the code asks whether a text is JSON: a recursive descent
  over the bytes. Objects and arrays nest at most 10000 deep. Each call either consumes a byte or
  leads to one that does, so twice the length of the text is enough fuel.
\<close>

definition json_space :: "char \<Rightarrow> bool" where
  "json_space c \<longleftrightarrow> (of_char c :: nat) \<in> {9, 10, 13, 32}"

definition skip_space :: "string \<Rightarrow> string" where
  "skip_space s = dropWhile json_space s"

definition is_hex :: "char \<Rightarrow> bool" where
  "is_hex c \<longleftrightarrow> is_digit c \<or> (65 \<le> (of_char c :: nat) \<and> (of_char c :: nat) \<le> 70)
     \<or> (97 \<le> (of_char c :: nat) \<and> (of_char c :: nat) \<le> 102)"

text \<open>The rest of a string after its opening quote.\<close>

fun scan_string :: "string \<Rightarrow> string option" where
  "scan_string [] = None"
| "scan_string (c # cs) =
     (if c = byte 34 then Some cs
      else if c = byte 92 then
        (case cs of
           [] \<Rightarrow> None
         | e # es \<Rightarrow>
             if e \<in> set (byte 34 # byte 92 # ''/bfnrt'') then scan_string es
             else if e = CHR ''u'' \<and> 4 \<le> length es \<and> list_all is_hex (take 4 es)
             then scan_string (drop 4 es)
             else None)
      else if (of_char c :: nat) < 32 then None
      else scan_string cs)"

definition some_digits :: "string \<Rightarrow> string option" where
  "some_digits s = (case s of c # cs \<Rightarrow> if is_digit c then Some (dropWhile is_digit cs) else None | [] \<Rightarrow> None)"

definition scan_number :: "string \<Rightarrow> string option" where
  "scan_number s =
     (let s = TrimPrefix s ''-''
      in Option.bind
           (case s of
              [] \<Rightarrow> None
            | c # cs \<Rightarrow> if c = CHR ''0'' then Some cs else some_digits s)
           (\<lambda>s. Option.bind
             (case s of c # cs \<Rightarrow> if c = CHR ''.'' then some_digits cs else Some s | [] \<Rightarrow> Some s)
             (\<lambda>s. case s of
                 c # cs \<Rightarrow>
                   if c = CHR ''e'' \<or> c = CHR ''E''
                   then some_digits (case cs of d # ds \<Rightarrow> if d = CHR ''+'' \<or> d = CHR ''-'' then ds else cs | [] \<Rightarrow> [])
                   else Some s
               | [] \<Rightarrow> Some s)))"

definition scan_literal :: "string \<Rightarrow> string \<Rightarrow> string option" where
  "scan_literal word s = (if HasPrefix s word then Some (drop (length word) s) else None)"

fun scan_value :: "nat \<Rightarrow> nat \<Rightarrow> string \<Rightarrow> string option"
  and scan_members :: "nat \<Rightarrow> nat \<Rightarrow> string \<Rightarrow> string option"
  and scan_elements :: "nat \<Rightarrow> nat \<Rightarrow> string \<Rightarrow> string option" where
  "scan_value 0 depth s = None"
| "scan_value (Suc n) depth s =
     (case skip_space s of
        [] \<Rightarrow> None
      | c # cs \<Rightarrow>
          if c = byte 34 then scan_string cs
          else if c = CHR ''{'' then
            (if depth = 0 then None
             else if HasPrefix (skip_space cs) ''}'' then Some (drop 1 (skip_space cs))
             else scan_members n (depth - 1) cs)
          else if c = CHR ''['' then
            (if depth = 0 then None
             else if HasPrefix (skip_space cs) '']'' then Some (drop 1 (skip_space cs))
             else scan_elements n (depth - 1) cs)
          else if c = CHR ''t'' then scan_literal ''true'' (c # cs)
          else if c = CHR ''f'' then scan_literal ''false'' (c # cs)
          else if c = CHR ''n'' then scan_literal ''null'' (c # cs)
          else scan_number (c # cs))"
| "scan_members 0 depth s = None"
| "scan_members (Suc n) depth s =
     Option.bind (if HasPrefix (skip_space s) [byte 34] then scan_string (drop 1 (skip_space s)) else None) (\<lambda>r.
     Option.bind (if HasPrefix (skip_space r) '':'' then scan_value n depth (drop 1 (skip_space r)) else None) (\<lambda>r.
     if HasPrefix (skip_space r) '','' then scan_members n depth (drop 1 (skip_space r))
     else if HasPrefix (skip_space r) ''}'' then Some (drop 1 (skip_space r))
     else None))"
| "scan_elements 0 depth s = None"
| "scan_elements (Suc n) depth s =
     Option.bind (scan_value n depth s) (\<lambda>r.
     if HasPrefix (skip_space r) '','' then scan_elements n depth (drop 1 (skip_space r))
     else if HasPrefix (skip_space r) '']'' then Some (drop 1 (skip_space r))
     else None)"

definition valid_json :: "string \<Rightarrow> bool" where
  "valid_json s =
     (case scan_value (2 * length s + 2) 10000 s of None \<Rightarrow> False | Some r \<Rightarrow> skip_space r = [])"

lemma valid_json_examples:
  "valid_json ''{}''" "valid_json '' [1, -2.5e3, true, null] ''" "\<not> valid_json ''{''" "\<not> valid_json ''01''"
  "\<not> valid_json ''[1,]''" "\<not> valid_json ''''"
  by code_simp+

end
