(* ===== verification/Models.thy ===== *)
theory Models
  imports Pricing Billing JsonText
begin

text \<open>
  The model catalogue (src/db/db.go) and the prices a request resolves from it
  (\<open>pricingRulesForModel\<close> of src/proxy/handler.go): defaults and validation of a model row, the
  four tables a model is saved to and loaded from, and the rule set that prices it. The columns
  of a model are grouped, its purely descriptive ones (description, owner, deprecation) left out;
  a \<open>model_store\<close> holds the rows of the tables. \<open>snapshot\<close> stands for the hexadecimal SHA-256 of
  the printed price snapshot, \<open>address\<close> for where the thresholds of the lifetime rates lie in
  memory, \<open>uuids\<close> for the identifiers \<open>uuid.NewString\<close> draws.
\<close>

section \<open>Rows\<close>

record ModelPrices =
  InputCost :: "f64 \<times> nano_usd"
  OutputCost :: "f64 \<times> nano_usd"
  CacheReadCost :: "f64 \<times> nano_usd"
  CacheWriteCost :: "f64 \<times> nano_usd"
  PricePerMinute :: "f64 \<times> nano_usd"

record ModelCatalog =
  Tags :: "string list"
  ProviderFamily :: string
  AdapterVersion :: string
  CompatibilityEpoch :: int
  CacheContract :: string
  SupportedParameters :: "string list"
  mc_PricingRuleSetID :: string
  Health :: string

record ModelMedia =
  SupportsVision :: bool
  SupportsThinking :: bool
  SupportsAudio :: bool
  SupportsVideo :: bool
  SupportsDocuments :: bool
  MaxAttachmentMB :: int
  AcceptedMimeTypes :: string
  CodingTier :: f64
  SpeedScore :: f64

record Model =
  m_ID :: string
  m_Name :: string
  m_ProviderID :: string
  TargetModel :: string
  m_Status :: string
  RoutingTier :: string
  ModelType :: string
  Transcribe :: bool
  ContextWindow :: int
  m_MaxOutputTokens :: int
  DisplayName :: string
  MuhiyaCodeVisible :: bool
  MuhiyaChatVisible :: bool
  m_PromptAccounting :: string
  m_Prices :: ModelPrices
  PricingTiers :: "Tier list"
  CacheTTLRates :: "TTLRate list"
  PriceWindows :: "Window list"
  m_Catalog :: ModelCatalog
  m_Media :: ModelMedia

datatype model_error =
    ErrInvalidModelConfig | ErrModelAmount db_error | ErrModelConstraint | ErrModelMissing
  | ErrModelPricing price_error | ErrModelRequired

section \<open>Defaults\<close>

definition class_string :: "TokenClass \<Rightarrow> string" where
  "class_string c =
     (case c of
        ClassInputFresh \<Rightarrow> ''input_fresh'' | ClassOutput \<Rightarrow> ''output'' | ClassCacheRead \<Rightarrow> ''cache_read''
      | ClassCacheRead5m \<Rightarrow> ''cache_read_5m'' | ClassCacheWrite \<Rightarrow> ''cache_write''
      | ClassCacheWrite5m \<Rightarrow> ''cache_write_5m'' | ClassCacheWrite1h \<Rightarrow> ''cache_write_1h''
      | OtherClass s \<Rightarrow> s)"

text \<open>\<open>pricing.TokenClass(part)\<close>: a class is its text.\<close>

definition class_of :: "string \<Rightarrow> TokenClass" where
  "class_of s = (case find (\<lambda>c. class_string c = s) TokenClasses of Some c \<Rightarrow> c | None \<Rightarrow> OtherClass s)"

definition parseTokenClasses :: "string \<Rightarrow> TokenClass list" where
  "parseTokenClasses raw =
     (let raw = TrimSpace raw
      in if raw = [] then []
         else map class_of (filter (\<lambda>part. part \<noteq> []) (map TrimSpace (SplitByte (CHR '','') raw))))"

definition clampSpecScore :: "f64 \<Rightarrow> f64" where
  "clampSpecScore value =
     (if f64_neg value \<or> f64_IsNaN value then FFin 0
      else if f64_gt value (FFin 5) then FFin 5
      else f64_div (f64_Round (f64_mul value (FFin 10))) (FFin 10))"

definition defaultProviderFamily :: "string \<Rightarrow> string" where
  "defaultProviderFamily modelName =
     (if HasPrefix (ToLower modelName) ''minimax'' then ''minimax-openrouter''
      else if HasPrefix (ToLower modelName) ''deepseek'' then ''deepseek''
      else ''openai-compatible'')"

definition show_bool :: "bool \<Rightarrow> string" where
  "show_bool b = (if b then ''true'' else ''false'')"

definition quoted :: "string \<Rightarrow> string" where
  "quoted s = byte 34 # s @ [byte 34]"

definition defaultCacheContract :: "string \<Rightarrow> string" where
  "defaultCacheContract providerFamily =
     (let supportsCache = (providerFamily = ''minimax-openrouter'' \<or> providerFamily = ''deepseek'');
          routeScoped = (providerFamily = ''minimax-openrouter'')
      in ''{'' @ quoted ''prefix_order'' @ '':'' @ quoted ''system-tools-history-tail'' @ '','' @
         quoted ''route_scoped'' @ '':'' @ show_bool routeScoped @ '','' @
         quoted ''supports_prompt_cache'' @ '':'' @ show_bool supportsCache @ ''}'')"

definition default_catalog :: "Model \<Rightarrow> ModelCatalog" where
  "default_catalog m =
     (let c = m_Catalog m;
          family = (if ProviderFamily c = [] then defaultProviderFamily (m_Name m) else ProviderFamily c)
      in c \<lparr>
        AdapterVersion := if AdapterVersion c = [] then ''1'' else AdapterVersion c,
        CompatibilityEpoch := if CompatibilityEpoch c \<le> 0 then 1 else CompatibilityEpoch c,
        Health := if Health c = [] then if m_Status m = ''active'' then ''healthy'' else ''unavailable'' else Health c,
        ProviderFamily := family,
        CacheContract := if CacheContract c = [] then defaultCacheContract family else CacheContract c,
        mc_PricingRuleSetID := if mc_PricingRuleSetID c = [] then ''pricing:'' @ m_ID m else mc_PricingRuleSetID c,
        SupportedParameters := if SupportedParameters c = []
          then [''model'', ''messages'', ''stream'', ''tools'', ''tool_choice'', ''max_tokens'', ''temperature'', ''top_p'']
          else SupportedParameters c \<rparr>)"

definition default_accounting :: "string \<Rightarrow> string \<Rightarrow> string" where
  "default_accounting family accounting =
     (if accounting = []
      then (if EqualFold family ''anthropic'' then ''exclusive'' else ''inclusive'')
      else accounting)"

definition applyModelCatalogDefaults :: "Model \<Rightarrow> model_error + Model" where
  "applyModelCatalogDefaults m =
     (let c = default_catalog m;
          accounting = default_accounting (ProviderFamily c) (m_PromptAccounting m)
      in if Health c \<notin> {''healthy'', ''degraded'', ''unavailable'', ''unknown''}
         then Inl ErrInvalidModelConfig
         else if \<not> PromptAccounting_Valid (ParsePromptAccounting accounting) \<or>
                 (accounting \<noteq> ''inclusive'' \<and> accounting \<noteq> ''exclusive'')
         then Inl ErrInvalidModelConfig
         else Inr (m \<lparr> m_Catalog := c, m_PromptAccounting := accounting \<rparr>))"

fun tags_loop :: "string list \<Rightarrow> string list \<Rightarrow> string list" where
  "tags_loop [] tags = tags"
| "tags_loop (raw # raws) tags =
     (let tag = TrimSpace raw
      in if tag = [] \<or> EqualFold tag ''muhiyacode'' \<or> EqualFold tag ''muhiyachat'' \<or> tag \<in> set tags
         then tags_loop raws tags
         else tags_loop raws (tags @ [tag]))"

definition normalizedCatalogTags :: "Model \<Rightarrow> string list" where
  "normalizedCatalogTags m =
     (let tags = tags_loop (Tags (m_Catalog m)) [];
          tags = (if MuhiyaCodeVisible m then tags @ [''muhiyacode''] else tags)
      in if MuhiyaChatVisible m then tags @ [''muhiyachat''] else tags)"

section \<open>Validation of the prices\<close>

definition allWeekdayMask :: int where
  "allWeekdayMask = 127"

definition half_filled :: "Window \<Rightarrow> Window" where
  "half_filled w =
     (let w = (if w_MultiplierDen w = 0 then w \<lparr> w_MultiplierDen := 1 \<rparr> else w)
      in if WeekdayMask w = 0 then w \<lparr> WeekdayMask := allWeekdayMask \<rparr> else w)"

definition normalizedPriceWindows :: "Window list \<Rightarrow> Window list" where
  "normalizedPriceWindows ws =
     map (\<lambda>(i, w). half_filled (if w_ID w = [] then w \<lparr> w_ID := ''pending-'' @ show_nat i \<rparr> else w))
       (enumerate 0 ws)"

definition overlaid_tiers :: "TTLRate list \<Rightarrow> Tier list \<Rightarrow> Tier list" where
  "overlaid_tiers ttl tiers =
     map (\<lambda>t. t \<lparr> t_Rates := OverlayTTLRates (t_Rates t) ttl (Some (MinInputTokensExclusive t)) \<rparr>) tiers"

definition base_rates :: "nano_usd \<Rightarrow> nano_usd \<Rightarrow> nano_usd \<Rightarrow> nano_usd \<Rightarrow> Rates" where
  "base_rates input out cread cwrite =
     \<lparr> InputPerMillion = input, OutputPerMillion = out, CacheReadPerMillion = cread,
       CacheWritePerMillion = cwrite, CacheRead5mPerMillion = 0, CacheWrite5mPerMillion = 0,
       CacheWrite1hPerMillion = 0 \<rparr>"

text \<open>The rule set a model is validated with.\<close>

definition model_rules :: "Model \<Rightarrow> price_error + RuleSet" where
  "model_rules m =
     (let p = m_Prices m;
          base = OverlayTTLRates
            (base_rates (snd (InputCost p)) (snd (OutputCost p)) (snd (CacheReadCost p)) (snd (CacheWriteCost p)))
            (CacheTTLRates m) None
      in New \<lparr> sp_ID = mc_PricingRuleSetID (m_Catalog m), sp_Base = base,
               sp_Tiers = overlaid_tiers (CacheTTLRates m) (PricingTiers m),
               sp_Windows = normalizedPriceWindows (PriceWindows m),
               sp_Accounting = ParsePromptAccounting (m_PromptAccounting m) \<rparr>)"

definition validateModelPricingRules :: "Model \<Rightarrow> model_error option" where
  "validateModelPricingRules m =
     (if list_ex (\<lambda>rate. \<not> ValidTTL (TTL rate)) (CacheTTLRates m) then Some ErrInvalidModelConfig
      else (case model_rules m of Inl e \<Rightarrow> Some ErrInvalidModelConfig | Inr rules \<Rightarrow> None))"

definition normalizeModelCatalog :: "Model \<Rightarrow> model_error + Model" where
  "normalizeModelCatalog m =
     ebind (applyModelCatalogDefaults m) (\<lambda>m.
       if \<not> valid_json (CacheContract (m_Catalog m)) then Inl ErrInvalidModelConfig
       else
         (let m = m \<lparr> m_Catalog := (m_Catalog m) \<lparr> Tags := normalizedCatalogTags m \<rparr>,
                      m_Media := (m_Media m) \<lparr> CodingTier := clampSpecScore (CodingTier (m_Media m)),
                                          SpeedScore := clampSpecScore (SpeedScore (m_Media m)) \<rparr> \<rparr>
          in case validateModelPricingRules m of Some e \<Rightarrow> Inl e | None \<Rightarrow> Inr m))"

definition normalizePrices :: "ModelPrices \<Rightarrow> model_error + ModelPrices" where
  "normalizePrices p =
     (case normalizeModelMoney [InputCost p, OutputCost p, CacheReadCost p, CacheWriteCost p, PricePerMinute p] of
        Inr [i, out, cr, cw, pm] \<Rightarrow>
          Inr \<lparr> InputCost = i, OutputCost = out, CacheReadCost = cr, CacheWriteCost = cw, PricePerMinute = pm \<rparr>
      | Inr _ \<Rightarrow> Inl ErrInvalidModelConfig
      | Inl e \<Rightarrow> Inl (ErrModelAmount e))"

section \<open>Saving\<close>

text \<open>\<open>provider_ids\<close> are the rows the foreign key of a model may name. A price window is stored
  with its classes as one text.\<close>

record model_store =
  provider_ids :: "string list"
  model_rows :: "Model list"
  tier_rows :: "(string \<times> Tier) list"
  ttl_rows :: "(string \<times> TTLRate) list"
  window_rows :: "(string \<times> Window \<times> string) list"

definition stored_rates :: "Rates \<Rightarrow> Rates" where
  "stored_rates r = base_rates (InputPerMillion r) (OutputPerMillion r) (CacheReadPerMillion r) (CacheWritePerMillion r)"

definition stored_tier :: "Tier \<Rightarrow> Tier" where
  "stored_tier t = t \<lparr> t_Rates := stored_rates (t_Rates t) \<rparr>"

text \<open>The CHECK and UNIQUE constraints of src/db/migrations/025_model_pricing_tiers.sql.\<close>

fun insert_tiers :: "string \<Rightarrow> Tier list \<Rightarrow> (string \<times> Tier) list \<Rightarrow> model_error + (string \<times> Tier) list" where
  "insert_tiers ident [] rows = Inr rows"
| "insert_tiers ident (t # ts) rows =
     (if MinInputTokensExclusive t < 0 \<or> \<not> validateRates (stored_rates (t_Rates t)) \<or>
         list_ex (\<lambda>(i, u). i = ident \<and> MinInputTokensExclusive u = MinInputTokensExclusive t) rows
      then Inl ErrModelConstraint
      else insert_tiers ident ts (rows @ [(ident, stored_tier t)]))"

definition replaceModelPricingTiers :: "Model \<Rightarrow> model_store \<Rightarrow> model_error + model_store" where
  "replaceModelPricingTiers m db =
     ebind (insert_tiers (m_ID m) (PricingTiers m) (filter (\<lambda>(i, t). i \<noteq> m_ID m) (tier_rows db)))
       (\<lambda>rows. Inr (db \<lparr> tier_rows := rows \<rparr>))"

text \<open>The constraints of src/db/migrations/033_model_cache_ttl_rates.sql.\<close>

fun insert_ttl_rates ::
  "string \<Rightarrow> TTLRate list \<Rightarrow> (string \<times> TTLRate) list \<Rightarrow> model_error + (string \<times> TTLRate) list" where
  "insert_ttl_rates ident [] rows = Inr rows"
| "insert_ttl_rates ident (r # rs) rows =
     (if \<not> ValidTTL (TTL r) then Inl ErrInvalidModelConfig
      else if (case ttl_CacheReadPerMillion r of Some v \<Rightarrow> v < 0 | None \<Rightarrow> False) then Inl ErrInvalidModelConfig
      else if (case ttl_CacheWritePerMillion r of Some v \<Rightarrow> v < 0 | None \<Rightarrow> False) then Inl ErrInvalidModelConfig
      else if ttl_CacheReadPerMillion r = None \<and> ttl_CacheWritePerMillion r = None
      then insert_ttl_rates ident rs rows
      else if (case ttl_MinInputTokensExclusive r of Some v \<Rightarrow> v < 0 | None \<Rightarrow> False) \<or>
              list_ex (\<lambda>(i, u). i = ident \<and> TTL u = TTL r \<and>
                ttl_MinInputTokensExclusive u = ttl_MinInputTokensExclusive r) rows
      then Inl ErrModelConstraint
      else insert_ttl_rates ident rs (rows @ [(ident, r)]))"

definition replaceModelCacheTTLRates :: "Model \<Rightarrow> model_store \<Rightarrow> model_error + model_store" where
  "replaceModelCacheTTLRates m db =
     ebind (insert_ttl_rates (m_ID m) (CacheTTLRates m) (filter (\<lambda>(i, r). i \<noteq> m_ID m) (ttl_rows db)))
       (\<lambda>rows. Inr (db \<lparr> ttl_rows := rows \<rparr>))"

text \<open>A TIMESTAMP WITH TIME ZONE keeps microseconds.\<close>

definition pg_timestamp :: "instant \<Rightarrow> instant" where
  "pg_timestamp t = (t + 500) div 1000 * 1000"

definition stored_window :: "Window \<Rightarrow> Window \<times> string" where
  "stored_window w =
     (w \<lparr> AppliesTo := [], EffectiveFrom := map_option pg_timestamp (EffectiveFrom w),
         EffectiveUntil := map_option pg_timestamp (EffectiveUntil w) \<rparr>,
      JoinWith '','' (map class_string (AppliesTo w)))"

fun insert_windows ::
  "string \<Rightarrow> (nat \<Rightarrow> string) \<Rightarrow> nat \<Rightarrow> Window list \<Rightarrow> string list \<Rightarrow> (string \<times> Window \<times> string) list
     \<Rightarrow> model_error + (string \<times> Window \<times> string) list" where
  "insert_windows ident uuids n [] seen rows = Inr rows"
| "insert_windows ident uuids n (w # ws) seen rows =
     (let w = half_filled (if w_ID w = [] then w \<lparr> w_ID := ''price-window-'' @ uuids n \<rparr> else w)
      in if Window_Validate w \<noteq> None then Inl ErrInvalidModelConfig
         else if w_ID w \<in> set seen then Inl ErrInvalidModelConfig
         else if list_ex (\<lambda>(i, v, applies). w_ID v = w_ID w) rows then Inl ErrModelConstraint
         else insert_windows ident uuids (n + 1) ws (w_ID w # seen) (rows @ [(ident, stored_window w)]))"

definition replaceModelPriceWindows ::
  "(nat \<Rightarrow> string) \<Rightarrow> Model \<Rightarrow> model_store \<Rightarrow> model_error + model_store" where
  "replaceModelPriceWindows uuids m db =
     ebind (insert_windows (m_ID m) uuids 0 (PriceWindows m) []
              (filter (\<lambda>(i, w, applies). i \<noteq> m_ID m) (window_rows db)))
       (\<lambda>rows. Inr (db \<lparr> window_rows := rows \<rparr>))"

definition replace_pricing :: "(nat \<Rightarrow> string) \<Rightarrow> Model \<Rightarrow> model_store \<Rightarrow> model_error + model_store" where
  "replace_pricing uuids m db =
     ebind (replaceModelPricingTiers m db) (\<lambda>db.
     ebind (replaceModelCacheTTLRates m db) (\<lambda>db.
     replaceModelPriceWindows uuids m db))"

definition normalized_model :: "Model \<Rightarrow> model_error + Model" where
  "normalized_model m =
     ebind (normalizePrices (m_Prices m)) (\<lambda>p.
       let m = m \<lparr> m_Prices := p, RoutingTier := ''none'',
                   ModelType := (if ModelType m = [] then ''llm'' else ModelType m) \<rparr>
       in normalizeModelCatalog m)"

text \<open>The row of a model, without the lists kept in other tables.\<close>

definition model_row :: "Model \<Rightarrow> Model" where
  "model_row m = m \<lparr> PricingTiers := [], CacheTTLRates := [], PriceWindows := [] \<rparr>"

definition row_checked :: "model_store \<Rightarrow> Model \<Rightarrow> bool" where
  "row_checked db m \<longleftrightarrow> m_Status m \<in> {''active'', ''inactive''} \<and> m_ProviderID m \<in> set (provider_ids db)"

definition CreateModel :: "(nat \<Rightarrow> string) \<Rightarrow> Model \<Rightarrow> model_store \<Rightarrow> model_error + model_store" where
  "CreateModel uuids m db =
     ebind (normalized_model m) (\<lambda>m.
       if \<not> row_checked db m \<or> list_ex (\<lambda>r. m_ID r = m_ID m \<or> m_Name r = m_Name m) (model_rows db)
       then Inl ErrModelConstraint
       else replace_pricing uuids m (db \<lparr> model_rows := model_rows db @ [model_row m] \<rparr>))"

definition UpdateModel :: "(nat \<Rightarrow> string) \<Rightarrow> Model \<Rightarrow> model_store \<Rightarrow> model_error + model_store" where
  "UpdateModel uuids m db =
     ebind (normalized_model m) (\<lambda>m.
       if \<not> list_ex (\<lambda>r. m_ID r = m_ID m) (model_rows db) then Inl ErrModelMissing
       else if \<not> row_checked db m \<or> list_ex (\<lambda>r. m_ID r \<noteq> m_ID m \<and> m_Name r = m_Name m) (model_rows db)
       then Inl ErrModelConstraint
       else replace_pricing uuids m
              (db \<lparr> model_rows := map (\<lambda>r. if m_ID r = m_ID m then model_row m else r) (model_rows db) \<rparr>))"

text \<open>The pricing tables cascade.\<close>

definition DeleteModel :: "string \<Rightarrow> model_store \<Rightarrow> model_store" where
  "DeleteModel ident db =
     db \<lparr> model_rows := filter (\<lambda>r. m_ID r \<noteq> ident) (model_rows db),
          tier_rows := filter (\<lambda>(i, t). i \<noteq> ident) (tier_rows db),
          ttl_rows := filter (\<lambda>(i, r). i \<noteq> ident) (ttl_rows db),
          window_rows := filter (\<lambda>(i, w, applies). i \<noteq> ident) (window_rows db) \<rparr>"

section \<open>Loading\<close>

definition attachPricingTiers :: "model_store \<Rightarrow> Model \<Rightarrow> Model" where
  "attachPricingTiers db m =
     m \<lparr> PricingTiers := sort_key MinInputTokensExclusive
           (map snd (filter (\<lambda>(i, t). i = m_ID m) (tier_rows db))) \<rparr>"

text \<open>NULL thresholds come first.\<close>

definition ttl_key :: "TTLRate \<Rightarrow> bool \<times> int \<times> string" where
  "ttl_key r =
     (case ttl_MinInputTokensExclusive r of None \<Rightarrow> (False, 0, TTL r) | Some v \<Rightarrow> (True, v, TTL r))"

definition loadCacheTTLRates :: "model_store \<Rightarrow> string \<Rightarrow> TTLRate list" where
  "loadCacheTTLRates db ident =
     filter (\<lambda>r. ValidTTL (TTL r)) (sort_key ttl_key (map snd (filter (\<lambda>(i, r). i = ident) (ttl_rows db))))"

definition loaded_window :: "Window \<times> string \<Rightarrow> Window" where
  "loaded_window r = (case r of (w, applies) \<Rightarrow> w \<lparr> AppliesTo := parseTokenClasses applies \<rparr>)"

text \<open>A malformed window is skipped. Windows of equal priority are sorted by the collation of the
  database, which \<open>New\<close> does not depend on.\<close>

definition loadPriceWindows :: "model_store \<Rightarrow> string \<Rightarrow> Window list" where
  "loadPriceWindows db ident =
     filter (\<lambda>w. Window_Validate w = None)
       (sort_key window_key (map (loaded_window \<circ> snd) (filter (\<lambda>(i, r). i = ident) (window_rows db))))"

definition attach_all :: "model_store \<Rightarrow> Model \<Rightarrow> Model" where
  "attach_all db m =
     (attachPricingTiers db m)
       \<lparr> CacheTTLRates := loadCacheTTLRates db (m_ID m), PriceWindows := loadPriceWindows db (m_ID m) \<rparr>"

definition GetModel :: "model_store \<Rightarrow> string \<Rightarrow> Model option" where
  "GetModel db ident = map_option (attach_all db) (find (\<lambda>r. m_ID r = ident) (model_rows db))"

definition GetModelByName :: "model_store \<Rightarrow> string \<Rightarrow> Model option" where
  "GetModelByName db name =
     (let n = (if name = ''deepseek'' then ''deepseek-chat'' else name);
          matching = filter (\<lambda>r. m_Status r = ''active'' \<and>
            (m_Name r = n \<or> m_ID r = n \<or> ToLower (DisplayName r) = ToLower n)) (model_rows db)
      in map_option (attach_all db)
           (case find (\<lambda>r. m_Name r = n \<and> m_ID r = n) matching of
              Some r \<Rightarrow> Some r
            | None \<Rightarrow>
                (case find (\<lambda>r. m_Name r = n) matching of
                   Some r \<Rightarrow> Some r
                 | None \<Rightarrow>
                     (case find (\<lambda>r. m_ID r = n) matching of
                        Some r \<Rightarrow> Some r
                      | None \<Rightarrow> (case matching of r # rs \<Rightarrow> Some r | [] \<Rightarrow> None)))))"

section \<open>The rules of a request\<close>

definition exactRate :: "nano_usd \<Rightarrow> f64 \<Rightarrow> money_error + nano_usd" where
  "exactRate exact legacy = (if exact \<noteq> 0 \<or> f64_is0 legacy then Inr exact else FromUSD legacy)"

text \<open>What \<open>%v\<close> prints of a row: the rates through their \<open>String\<close> method, the threshold, a pointer to
  an \<open>int64\<close>, as its address.\<close>

definition printed_ttl_rates ::
  "(nat \<Rightarrow> nat) \<Rightarrow> TTLRate list \<Rightarrow> (nat option \<times> string \<times> nano_usd option \<times> nano_usd option) list" where
  "printed_ttl_rates address rs =
     map (\<lambda>(i, r). (map_option (\<lambda>v. address i) (ttl_MinInputTokensExclusive r), TTL r,
                    ttl_CacheReadPerMillion r, ttl_CacheWritePerMillion r)) (enumerate 0 rs)"

type_synonym price_snapshot =
  "string \<times> nano_usd list \<times> Tier list \<times>
     (nat option \<times> string \<times> nano_usd option \<times> nano_usd option) list \<times> Window list \<times> PromptAccounting"

definition pricingRulesForModel ::
  "(price_snapshot \<Rightarrow> string) \<Rightarrow> (nat \<Rightarrow> nat) \<Rightarrow> Model option \<Rightarrow> model_error + RuleSet" where
  "pricingRulesForModel snapshot address model =
     (case model of
        None \<Rightarrow> Inl ErrModelRequired
      | Some m \<Rightarrow>
          (let rate = (\<lambda>(legacy, exact). case exactRate exact legacy of
                         Inl e \<Rightarrow> Inl (ErrModelPricing (ErrMoney e)) | Inr v \<Rightarrow> Inr v)
           in ebind (rate (InputCost (m_Prices m))) (\<lambda>input.
              ebind (rate (OutputCost (m_Prices m))) (\<lambda>out.
              ebind (rate (CacheReadCost (m_Prices m))) (\<lambda>cread.
              ebind (rate (CacheWriteCost (m_Prices m))) (\<lambda>cwrite.
              let tiers = overlaid_tiers (CacheTTLRates m) (PricingTiers m);
                  accounting = ParsePromptAccounting (m_PromptAccounting m);
                  ident = ''pricing:'' @ snapshot (m_ID m, [input, out, cread, cwrite], tiers,
                            printed_ttl_rates address (CacheTTLRates m), PriceWindows m, accounting)
              in case New \<lparr> sp_ID = ident,
                            sp_Base = OverlayTTLRates (base_rates input out cread cwrite) (CacheTTLRates m) None,
                            sp_Tiers = tiers, sp_Windows = PriceWindows m, sp_Accounting = accounting \<rparr> of
                   Inl e \<Rightarrow> Inl (ErrModelPricing e) | Inr rules \<Rightarrow> Inr rules))))))"

end
