(* ===== verification/ModelStore.thy ===== *)
theory ModelStore
  imports Models
begin

text \<open>
  What saving and loading a model does to its prices: the rows of the four tables determine the
  rule set a later request is priced with, and for a model whose tiers carry no rates of their own
  per cache lifetime it is the rule set the model was validated with.
\<close>

section \<open>Token classes as text\<close>

lemma class_of_string: "validClass c \<Longrightarrow> class_of (class_string c) = c"
  by (auto simp: validClass_def TokenClasses_def class_of_def class_string_def)

lemma class_string_text:
  assumes "validClass c"
  shows "class_string c \<noteq> []" "CHR '','' \<notin> set (class_string c)" "TrimSpace (class_string c) = class_string c"
proof -
  have *: "class_string c \<noteq> []" "CHR '','' \<notin> set (class_string c)"
    "graphic (hd (class_string c))" "graphic (last (class_string c))"
    using assms by (auto simp: validClass_def TokenClasses_def class_string_def graphic_def)
  then show "class_string c \<noteq> []" "CHR '','' \<notin> set (class_string c)" "TrimSpace (class_string c) = class_string c"
    by (simp_all add: TrimSpace_graphic)
qed

lemma SplitByte_JoinWith:
  "xs \<noteq> [] \<Longrightarrow> \<forall>x \<in> set xs. c \<notin> set x \<Longrightarrow> SplitByte c (JoinWith [c] xs) = xs"
  by (induction "[c]" xs rule: JoinWith.induct) (simp_all add: SplitByte_no SplitByte_append)

lemma class_string_graphic:
  "validClass c \<Longrightarrow> graphic (hd (class_string c)) \<and> graphic (last (class_string c))"
  by (auto simp: validClass_def TokenClasses_def class_string_def graphic_def)

lemma joined_classes_graphic:
  assumes "cs \<noteq> []" "\<forall>c \<in> set cs. validClass c"
  defines "s \<equiv> JoinWith '','' (map class_string cs)"
  shows "s \<noteq> []" "graphic (hd s)" "graphic (last s)"
proof -
  have "s \<noteq> [] \<and> graphic (hd s) \<and> graphic (last s)"
    unfolding s_def using assms(1,2)
  proof (induction cs)
    case (Cons c cs)
    then show ?case
      using class_string_text(1) [of c] class_string_graphic [of c] by (cases cs) auto
  qed simp
  then show "s \<noteq> []" "graphic (hd s)" "graphic (last s)" by simp_all
qed

text \<open>The classes of a window survive the text they are stored as.\<close>

lemma parse_stored_classes:
  assumes "\<forall>c \<in> set cs. validClass c"
  shows "parseTokenClasses (JoinWith '','' (map class_string cs)) = cs"
proof (cases "cs = []")
  case False
  note g = joined_classes_graphic [OF False assms]
  have "SplitByte (CHR '','') (JoinWith '','' (map class_string cs)) = map class_string cs"
    using False assms by (intro SplitByte_JoinWith) (auto simp: class_string_text(2))
  moreover have "map (TrimSpace \<circ> class_string) cs = map class_string cs"
    using assms by (simp add: class_string_text(3))
  moreover have "filter (\<lambda>p. p \<noteq> []) (map class_string cs) = map class_string cs"
    using assms by (auto simp: class_string_text(1) filter_id_conv)
  ultimately show ?thesis
    using g assms by (simp add: parseTokenClasses_def TrimSpace_graphic Let_def class_of_string map_idI del: map_eq_conv)
qed (simp add: parseTokenClasses_def TrimSpace_def)

section \<open>The overlay does not depend on the order of its rows\<close>

lemma OverlayTTLRates_fold: "OverlayTTLRates base rates t = fold (overlay_one t) rates base"
  by (induction rates arbitrary: base) simp_all

definition hits :: "int option \<Rightarrow> string \<Rightarrow> TTLRate \<Rightarrow> bool" where
  "hits t ttl r \<longleftrightarrow> ttl_MinInputTokensExclusive r = t \<and> TTL r = ttl"

definition taken :: "bool \<Rightarrow> nano_usd option \<Rightarrow> nano_usd \<Rightarrow> nano_usd" where
  "taken hit rate old = (if hit then case rate of None \<Rightarrow> old | Some v \<Rightarrow> v else old)"

text \<open>A row writes the fields of its own lifetime.\<close>

lemma overlay_one_fields:
  "CacheReadPerMillion (overlay_one t r b) = taken (hits t TTLDefault r) (ttl_CacheReadPerMillion r) (CacheReadPerMillion b)"
  "CacheWritePerMillion (overlay_one t r b) = taken (hits t TTLDefault r) (ttl_CacheWritePerMillion r) (CacheWritePerMillion b)"
  "CacheRead5mPerMillion (overlay_one t r b) = taken (hits t TTL5m r) (ttl_CacheReadPerMillion r) (CacheRead5mPerMillion b)"
  "CacheWrite5mPerMillion (overlay_one t r b) = taken (hits t TTL5m r) (ttl_CacheWritePerMillion r) (CacheWrite5mPerMillion b)"
  "CacheWrite1hPerMillion (overlay_one t r b) = taken (hits t TTL1h r) (ttl_CacheWritePerMillion r) (CacheWrite1hPerMillion b)"
  by (cases "ttl_MinInputTokensExclusive r = t";
      simp add: overlay_one_foreign hits_def taken_def;
      simp add: overlay_one_def sameThreshold_def ttl_names Let_def split: option.splits)+

lemma overlay_one_commute:
  assumes "(ttl_MinInputTokensExclusive r, TTL r) \<noteq> (ttl_MinInputTokensExclusive s, TTL s)"
  shows "overlay_one t r \<circ> overlay_one t s = overlay_one t s \<circ> overlay_one t r"
proof (rule ext)
  fix b :: Rates
  have "\<not> (hits t ttl r \<and> hits t ttl s)" for ttl
    using assms by (auto simp: hits_def)
  then have swap: "taken (hits t ttl r) u (taken (hits t ttl s) v x) = taken (hits t ttl s) v (taken (hits t ttl r) u x)"
    for ttl u v x
    by (auto simp: taken_def split: option.splits)
  show "(overlay_one t r \<circ> overlay_one t s) b = (overlay_one t s \<circ> overlay_one t r) b"
    by (rule Rates.Rates.equality) (simp_all add: overlay_one_fields swap)
qed

definition carries_rate :: "TTLRate \<Rightarrow> bool" where
  "carries_rate r \<longleftrightarrow> ttl_CacheReadPerMillion r \<noteq> None \<or> ttl_CacheWritePerMillion r \<noteq> None"

definition ttl_row_key :: "TTLRate \<Rightarrow> int option \<times> string" where
  "ttl_row_key r = (ttl_MinInputTokensExclusive r, TTL r)"

lemma OverlayTTLRates_perm:
  assumes "mset ys = mset xs" "distinct (map ttl_row_key xs)"
  shows "OverlayTTLRates base ys t = OverlayTTLRates base xs t"
proof -
  have "fold (overlay_one t) xs = fold (overlay_one t) ys"
  proof (rule fold_multiset_equiv)
    fix r s assume "r \<in> set xs" "s \<in> set xs"
    then show "overlay_one t r \<circ> overlay_one t s = overlay_one t s \<circ> overlay_one t r"
      using assms(2) overlay_one_commute [of r s t]
      by (cases "r = s") (auto simp: distinct_map ttl_row_key_def inj_on_def)
  qed (simp add: assms(1))
  then show ?thesis by (simp add: OverlayTTLRates_fold)
qed

lemma OverlayTTLRates_carrying:
  "OverlayTTLRates base (filter carries_rate rs) t = OverlayTTLRates base rs t"
proof (induction rs arbitrary: base)
  case (Cons r rs)
  have "\<not> carries_rate r \<Longrightarrow> overlay_one t r base = base"
    by (auto simp: overlay_one_def carries_rate_def Let_def)
  with Cons show ?case by simp
qed simp

section \<open>The rows a save leaves\<close>

lemma insert_tiers_Inr:
  "insert_tiers i ts rows = Inr rows' \<Longrightarrow>
     rows' = rows @ map (\<lambda>t. (i, stored_tier t)) ts \<and> (\<forall>t \<in> set ts. validateRates (stored_rates (t_Rates t)))"
  by (induction i ts rows rule: insert_tiers.induct) (auto split: if_splits)

definition some_nonneg :: "nano_usd option \<Rightarrow> bool" where
  "some_nonneg r \<longleftrightarrow> (\<forall>v \<in> set_option r. 0 \<le> v)"

definition row_keys :: "string \<Rightarrow> (string \<times> TTLRate) list \<Rightarrow> (int option \<times> string) list" where
  "row_keys i rows = map (\<lambda>row. ttl_row_key (snd row)) (filter (\<lambda>row. fst row = i) rows)"

definition sound_row :: "TTLRate \<Rightarrow> bool" where
  "sound_row r \<longleftrightarrow> ValidTTL (TTL r) \<and> some_nonneg (ttl_CacheReadPerMillion r) \<and> some_nonneg (ttl_CacheWritePerMillion r)"

lemma row_keys_simps [simp]:
  "row_keys i [] = []"
  "row_keys i (rows @ rows') = row_keys i rows @ row_keys i rows'"
  "row_keys i ((i, r) # rows) = ttl_row_key r # row_keys i rows"
  by (simp_all add: row_keys_def)

lemma insert_ttl_rates_Cons_Inr:
  assumes "insert_ttl_rates i (r # rs) rows = Inr rows'"
  shows "sound_row r" "insert_ttl_rates i rs (rows @ (if carries_rate r then [(i, r)] else [])) = Inr rows'"
    "carries_rate r \<Longrightarrow> ttl_row_key r \<notin> set (row_keys i rows)"
proof -
  show "sound_row r" using assms
    by (auto simp: sound_row_def some_nonneg_def split: if_splits option.splits)
  show "insert_ttl_rates i rs (rows @ (if carries_rate r then [(i, r)] else [])) = Inr rows'"
    using assms by (auto simp: carries_rate_def split: if_splits)
  show "ttl_row_key r \<notin> set (row_keys i rows)" if "carries_rate r"
    using assms that
    by (auto simp: carries_rate_def ttl_row_key_def row_keys_def list_ex_iff split: if_splits)
qed

lemma insert_ttl_rates_Inr:
  "insert_ttl_rates i rs rows = Inr rows' \<Longrightarrow>
     rows' = rows @ map (Pair i) (filter carries_rate rs) \<and> (\<forall>r \<in> set rs. sound_row r) \<and>
     (distinct (row_keys i rows) \<longrightarrow> distinct (row_keys i rows'))"
proof (induction rs arbitrary: rows)
  case (Cons r rs)
  note step = insert_ttl_rates_Cons_Inr [OF Cons.prems]
  from Cons.IH [OF step(2)] step(1,3) show ?case by auto
qed simp

fun filled_windows :: "(nat \<Rightarrow> string) \<Rightarrow> nat \<Rightarrow> Window list \<Rightarrow> Window list" where
  "filled_windows uuids n [] = []"
| "filled_windows uuids n (w # ws) =
     half_filled (if w_ID w = [] then w \<lparr> w_ID := ''price-window-'' @ uuids n \<rparr> else w)
       # filled_windows uuids (n + 1) ws"

lemma insert_windows_Inr:
  "insert_windows i uuids n ws seen rows = Inr rows' \<Longrightarrow>
     rows' = rows @ map (\<lambda>w. (i, stored_window w)) (filled_windows uuids n ws) \<and>
     (\<forall>w \<in> set (filled_windows uuids n ws). Window_Validate w = None)"
  by (induction i uuids n ws seen rows rule: insert_windows.induct) (auto simp: Let_def split: if_splits)

lemma filled_windows_named:
  "\<forall>w \<in> set ws. w_ID w \<noteq> [] \<Longrightarrow> filled_windows uuids n ws = map half_filled ws"
  by (induction ws arbitrary: n) simp_all

lemma normalizedPriceWindows_named:
  "\<forall>w \<in> set ws. w_ID w \<noteq> [] \<Longrightarrow> normalizedPriceWindows ws = map half_filled ws"
proof -
  assume named: "\<forall>w \<in> set ws. w_ID w \<noteq> []"
  have "map (\<lambda>(i, w). half_filled (if w_ID w = [] then w \<lparr> w_ID := ''pending-'' @ show_nat i \<rparr> else w)) (enumerate k ws)
      = map half_filled ws" for k
    using named by (induction ws arbitrary: k) simp_all
  then show ?thesis by (simp add: normalizedPriceWindows_def)
qed

lemma replace_pricing_Inr:
  assumes "replace_pricing uuids m db = Inr db'"
  defines "others \<equiv> \<lambda>rows. filter (\<lambda>row. fst row \<noteq> m_ID m) rows"
  shows "model_rows db' = model_rows db"
    "tier_rows db' = others (tier_rows db) @ map (\<lambda>t. (m_ID m, stored_tier t)) (PricingTiers m)"
    "ttl_rows db' = filter (\<lambda>row. fst row \<noteq> m_ID m) (ttl_rows db)
       @ map (Pair (m_ID m)) (filter carries_rate (CacheTTLRates m))"
    "window_rows db' = filter (\<lambda>row. fst row \<noteq> m_ID m) (window_rows db)
       @ map (\<lambda>w. (m_ID m, stored_window w)) (filled_windows uuids 0 (PriceWindows m))"
    "\<forall>t \<in> set (PricingTiers m). validateRates (stored_rates (t_Rates t))"
    "\<forall>r \<in> set (CacheTTLRates m). sound_row r"
    "distinct (map ttl_row_key (filter carries_rate (CacheTTLRates m)))"
    "\<forall>w \<in> set (filled_windows uuids 0 (PriceWindows m)). Window_Validate w = None"
proof -
  have fst_case: "(\<lambda>(i, x). i \<noteq> m_ID m) = (\<lambda>row. fst row \<noteq> m_ID m)"
    "(\<lambda>(i, w, applies). i \<noteq> m_ID m) = (\<lambda>row. fst row \<noteq> m_ID m)"
    by (auto simp: fun_eq_iff)
  from assms(1) obtain tiers ttl windows where
    t: "insert_tiers (m_ID m) (PricingTiers m) (others (tier_rows db)) = Inr tiers" and
    r: "insert_ttl_rates (m_ID m) (CacheTTLRates m) (filter (\<lambda>row. fst row \<noteq> m_ID m) (ttl_rows db)) = Inr ttl" and
    w: "insert_windows (m_ID m) uuids 0 (PriceWindows m) [] (filter (\<lambda>row. fst row \<noteq> m_ID m) (window_rows db)) = Inr windows" and
    db': "db' = db \<lparr> tier_rows := tiers, ttl_rows := ttl, window_rows := windows \<rparr>"
    unfolding replace_pricing_def replaceModelPricingTiers_def replaceModelCacheTTLRates_def
      replaceModelPriceWindows_def others_def fst_case
    by (auto simp: ebind_eq_Inr)
  note t = insert_tiers_Inr [OF t] and r = insert_ttl_rates_Inr [OF r] and w = insert_windows_Inr [OF w]
  have none: "row_keys (m_ID m) (filter (\<lambda>row. fst row \<noteq> m_ID m) (ttl_rows db)) = []"
    by (simp add: row_keys_def filter_empty_conv)
  have keys: "row_keys i (map (Pair i) rs) = map ttl_row_key rs" for i and rs :: "TTLRate list"
    by (induction rs) simp_all
  from r none show "distinct (map ttl_row_key (filter carries_rate (CacheTTLRates m)))"
    by (auto simp: keys)
  show "model_rows db' = model_rows db"
    "tier_rows db' = others (tier_rows db) @ map (\<lambda>t. (m_ID m, stored_tier t)) (PricingTiers m)"
    "ttl_rows db' = filter (\<lambda>row. fst row \<noteq> m_ID m) (ttl_rows db)
       @ map (Pair (m_ID m)) (filter carries_rate (CacheTTLRates m))"
    "window_rows db' = filter (\<lambda>row. fst row \<noteq> m_ID m) (window_rows db)
       @ map (\<lambda>w. (m_ID m, stored_window w)) (filled_windows uuids 0 (PriceWindows m))"
    using t r w by (simp_all add: db')
  show "\<forall>t \<in> set (PricingTiers m). validateRates (stored_rates (t_Rates t))"
    "\<forall>r \<in> set (CacheTTLRates m). sound_row r"
    "\<forall>w \<in> set (filled_windows uuids 0 (PriceWindows m)). Window_Validate w = None"
    using t r w by simp_all
qed

section \<open>What a load returns\<close>

definition whole_micros :: "Window \<Rightarrow> bool" where
  "whole_micros w \<longleftrightarrow> (\<forall>t \<in> set_option (EffectiveFrom w) \<union> set_option (EffectiveUntil w). t mod 1000 = 0)"

lemma pg_timestamp_whole: "t mod 1000 = 0 \<Longrightarrow> pg_timestamp t = t"
proof -
  assume "t mod 1000 = 0"
  then obtain k where "t = 1000 * k" by (auto elim: dvdE simp: mod_eq_0_iff_dvd)
  then show ?thesis by (simp add: pg_timestamp_def)
qed

lemma validated_classes: "Window_Validate w = None \<Longrightarrow> \<forall>c \<in> set (AppliesTo w). validClass c"
  by (auto simp: Window_Validate_def find_None_iff split: if_splits option.splits)

lemma loaded_stored_window:
  assumes "Window_Validate w = None" "whole_micros w"
  shows "loaded_window (stored_window w) = w"
proof -
  have "map_option pg_timestamp (EffectiveFrom w) = EffectiveFrom w"
    "map_option pg_timestamp (EffectiveUntil w) = EffectiveUntil w"
    using assms(2) by (cases "EffectiveFrom w"; cases "EffectiveUntil w";
      simp add: whole_micros_def pg_timestamp_whole)+
  with parse_stored_classes [OF validated_classes [OF assms(1)]] show ?thesis
    by (simp add: loaded_window_def stored_window_def)
qed

lemma filter_other_rows:
  "filter (\<lambda>row. fst row = i) (filter (\<lambda>row. fst row \<noteq> i) rows @ map (\<lambda>x. (i, f x)) xs) = map (\<lambda>x. (i, f x)) xs"
  by (induction rows) (simp_all add: filter_id_conv)

lemma fst_row: "(\<lambda>(j, x). j = i) = (\<lambda>row. fst row = i)"
  by (auto simp: fun_eq_iff)

lemma load_after_replace:
  assumes "replace_pricing uuids m db = Inr db'"
    and "\<forall>w \<in> set (PriceWindows m). w_ID w \<noteq> [] \<and> whole_micros w"
  defines "loaded \<equiv> attach_all db' (model_row m)"
  shows "mset (PricingTiers loaded) = mset (map stored_tier (PricingTiers m))"
    "mset (CacheTTLRates loaded) = mset (filter carries_rate (CacheTTLRates m))"
    "mset (PriceWindows loaded) = mset (normalizedPriceWindows (PriceWindows m))"
    "m_ID loaded = m_ID m" "m_Prices loaded = m_Prices m" "m_PromptAccounting loaded = m_PromptAccounting m"
proof -
  note rows = replace_pricing_Inr [OF assms(1)]
  show "m_ID loaded = m_ID m" "m_Prices loaded = m_Prices m" "m_PromptAccounting loaded = m_PromptAccounting m"
    by (simp_all add: loaded_def attach_all_def attachPricingTiers_def model_row_def)
  show "mset (PricingTiers loaded) = mset (map stored_tier (PricingTiers m))"
    by (simp add: loaded_def attach_all_def attachPricingTiers_def model_row_def fst_row rows(2)
        filter_other_rows o_def)
  have ttl: "map snd (filter (\<lambda>row. fst row = m_ID m) (ttl_rows db')) = filter carries_rate (CacheTTLRates m)"
    using filter_other_rows [of "m_ID m" "ttl_rows db" "\<lambda>x. x"] by (simp add: rows(3) o_def)
  have "filter (\<lambda>r. ValidTTL (TTL r)) (sort_key ttl_key (filter carries_rate (CacheTTLRates m)))
      = sort_key ttl_key (filter carries_rate (CacheTTLRates m))"
    using rows(6) by (simp add: filter_id_conv sound_row_def)
  then show "mset (CacheTTLRates loaded) = mset (filter carries_rate (CacheTTLRates m))"
    by (simp add: loaded_def attach_all_def model_row_def loadCacheTTLRates_def fst_row ttl)
  have named: "filled_windows uuids 0 (PriceWindows m) = map half_filled (PriceWindows m)"
    using assms(2) by (intro filled_windows_named) simp
  have micros: "\<forall>w \<in> set (map half_filled (PriceWindows m)). whole_micros w"
    using assms(2) by (auto simp: half_filled_def whole_micros_def Let_def split: if_splits)
  have "map (loaded_window \<circ> snd) (filter (\<lambda>row. fst row = m_ID m) (window_rows db'))
      = map half_filled (PriceWindows m)"
    using rows(8) micros
    by (auto simp: rows(4) named filter_other_rows loaded_stored_window)
  moreover have "filter (\<lambda>w. Window_Validate w = None) (sort_key window_key (map half_filled (PriceWindows m)))
      = sort_key window_key (map half_filled (PriceWindows m))"
    using rows(8) by (simp add: named filter_id_conv)
  moreover have "normalizedPriceWindows (PriceWindows m) = map half_filled (PriceWindows m)"
    using assms(2) by (intro normalizedPriceWindows_named) simp
  ultimately show "mset (PriceWindows loaded) = mset (normalizedPriceWindows (PriceWindows m))"
    by (simp add: loaded_def attach_all_def model_row_def loadPriceWindows_def fst_row)
qed

section \<open>The rules of the stored model\<close>

lemma insort_key_map: "(\<And>x. k (f x) = k x) \<Longrightarrow> insort_key k (f x) (map f xs) = map f (insort_key k x xs)"
  by (induction xs) simp_all

lemma sort_key_map: "(\<And>x. k (f x) = k x) \<Longrightarrow> sort_key k (map f xs) = map f (sort_key k xs)"
  by (induction xs) (simp_all add: insort_key_map)

lemma stored_tier_threshold [simp]: "MinInputTokensExclusive (stored_tier t) = MinInputTokensExclusive t"
  by (simp add: stored_tier_def)

lemma sort_overlaid: "sort_tiers (overlaid_tiers ttl ts) = overlaid_tiers ttl (sort_tiers ts)"
  by (simp add: sort_tiers_def overlaid_tiers_def sort_key_map)

lemma sort_stored: "sort_tiers (map stored_tier ts) = map stored_tier (sort_tiers ts)"
  by (simp add: sort_tiers_def sort_key_map)

lemma OverlayTTLRates_valid:
  "validateRates base \<Longrightarrow> \<forall>r \<in> set rs. sound_row r \<Longrightarrow> validateRates (OverlayTTLRates base rs t)"
  by (induction rs arbitrary: base) (auto simp: sound_row_def some_nonneg_def intro!: overlay_one_valid)

text \<open>Dropping the tiers' own rates per lifetime keeps the rule set valid.\<close>

lemma model_rules_stored:
  assumes "model_rules m = Inr r" "\<forall>row \<in> set (CacheTTLRates m). sound_row row"
    and "\<forall>t \<in> set (PricingTiers m). validateRates (stored_rates (t_Rates t))"
  shows "\<exists>rules. model_rules (m \<lparr> PricingTiers := map stored_tier (PricingTiers m) \<rparr>) = Inr rules"
proof -
  define ttl where "ttl = CacheTTLRates m"
  define ts where "ts = sort_tiers (PricingTiers m)"
  from assms(1) have v: "validate_tiers (overlaid_tiers ttl ts) (-1) = None"
    by (auto simp: model_rules_def New_def RuleSet_Validate_def Let_def ttl_def ts_def sort_overlaid
        split: option.splits if_splits)
  have thresholds: "map MinInputTokensExclusive (overlaid_tiers ttl (map stored_tier ts))
      = map MinInputTokensExclusive (overlaid_tiers ttl ts)"
    by (simp add: overlaid_tiers_def)
  have "set ts = set (PricingTiers m)" by (simp add: ts_def sort_tiers_def)
  with assms(2,3) have "validateRates (OverlayTTLRates (stored_rates (t_Rates t)) ttl k)" if "t \<in> set ts" for t k
    using that by (intro OverlayTTLRates_valid) (simp_all add: ttl_def)
  with v have "validate_tiers (overlaid_tiers ttl (map stored_tier ts)) (-1) = None"
    unfolding validate_tiers_None thresholds by (auto simp: overlaid_tiers_def stored_tier_def)
  with assms(1) show ?thesis
    by (auto simp: model_rules_def New_def RuleSet_Validate_def Let_def ttl_def ts_def sort_overlaid sort_stored
        split: option.splits if_splits)
qed

lemma normalize_pair_exactRate:
  "normalize_pair FromUSD USD legacy exact = Inr p \<Longrightarrow> exactRate (snd p) (fst p) = Inr (snd p)"
proof -
  have "f64_of_int PerUSD = FFin (of_int PerUSD)"
    unfolding f64_of_int_def by (rule round64_int) (simp_all add: PerUSD_def)
  then have "f64_is0 (USD 0)"
    by (simp add: USD_def f64_is0_def f64_of_int_def [of 0] f64_div_def round64_def PerUSD_def)
  moreover assume "normalize_pair FromUSD USD legacy exact = Inr p"
  then have "fst p = USD (snd p)"
    by (auto simp: normalize_pair_def ebind_eq_Inr split: if_splits)
  ultimately show ?thesis by (cases "snd p = 0") (simp_all add: exactRate_def)
qed

definition exact_prices :: "ModelPrices \<Rightarrow> bool" where
  "exact_prices p \<longleftrightarrow> (\<forall>q \<in> {InputCost p, OutputCost p, CacheReadCost p, CacheWriteCost p}.
     exactRate (snd q) (fst q) = Inr (snd q))"

lemma normalizeModelMoney_exactRate:
  "normalizeModelMoney ps = Inr qs \<Longrightarrow> \<forall>q \<in> set qs. exactRate (snd q) (fst q) = Inr (snd q)"
proof (induction ps arbitrary: qs)
  case (Cons p ps)
  obtain legacy exact where "p = (legacy, exact)" by (cases p)
  with Cons.prems obtain q rest where q: "normalize_pair FromUSD USD legacy exact = Inr q"
    and "normalizeModelMoney ps = Inr rest" "qs = q # rest"
    by (auto simp: normalizeModelMoney_def ebind_eq_Inr)
  with Cons.IH normalize_pair_exactRate [OF q] show ?case by simp
qed (simp add: normalizeModelMoney_def)

lemma normalizePrices_exact:
  assumes "normalizePrices p = Inr q"
  shows "exact_prices q"
proof -
  from assms obtain i out cr cw pm where
    "normalizeModelMoney [InputCost p, OutputCost p, CacheReadCost p, CacheWriteCost p, PricePerMinute p]
       = Inr [i, out, cr, cw, pm]"
    and q: "q = \<lparr> InputCost = i, OutputCost = out, CacheReadCost = cr, CacheWriteCost = cw, PricePerMinute = pm \<rparr>"
    unfolding normalizePrices_def by (auto split: sum.splits list.splits)
  from normalizeModelMoney_exactRate [OF this(1)] show ?thesis by (simp add: q exact_prices_def)
qed

lemma normalized_modelD:
  assumes "normalized_model m = Inr m'"
  shows "m_ID m' = m_ID m" "PriceWindows m' = PriceWindows m" "PricingTiers m' = PricingTiers m"
    "CacheTTLRates m' = CacheTTLRates m" "exact_prices (m_Prices m')" "\<exists>rules. model_rules m' = Inr rules"
  using assms normalizePrices_exact
  by (auto simp: normalized_model_def normalizeModelCatalog_def applyModelCatalogDefaults_def
      validateModelPricingRules_def ebind_eq_Inr Let_def split: if_splits option.splits sum.splits)

lemma saved_row:
  assumes "CreateModel uuids m db = Inr db' \<or> UpdateModel uuids m db = Inr db'"
  obtains m' db1 where "normalized_model m = Inr m'" "replace_pricing uuids m' db1 = Inr db'"
    "find (\<lambda>r. m_ID r = m_ID m') (model_rows db1) = Some (model_row m')"
proof -
  have row: "m_ID (model_row n) = m_ID n" for n by (simp add: model_row_def)
  from assms consider "CreateModel uuids m db = Inr db'" | "UpdateModel uuids m db = Inr db'" by blast
  then show thesis
  proof cases
    case 1
    then obtain m' where m': "normalized_model m = Inr m'"
      and new: "\<forall>r \<in> set (model_rows db). m_ID r \<noteq> m_ID m'"
      and r: "replace_pricing uuids m' (db \<lparr> model_rows := model_rows db @ [model_row m'] \<rparr>) = Inr db'"
      by (auto simp: CreateModel_def ebind_eq_Inr list_ex_iff split: if_splits)
    have "find (\<lambda>r. m_ID r = m_ID m') (rows @ [model_row m']) = Some (model_row m')"
      if "\<forall>r \<in> set rows. m_ID r \<noteq> m_ID m'" for rows
      using that by (induction rows) (auto simp: row)
    with that [OF m' r] new show thesis by simp
  next
    case 2
    define put where "put m' = map (\<lambda>r. if m_ID r = m_ID m' then model_row m' else r)" for m'
    from 2 obtain m' where m': "normalized_model m = Inr m'"
      and old: "\<exists>r \<in> set (model_rows db). m_ID r = m_ID m'"
      and r: "replace_pricing uuids m' (db \<lparr> model_rows := put m' (model_rows db) \<rparr>) = Inr db'"
      by (auto simp: UpdateModel_def put_def ebind_eq_Inr list_ex_iff split: if_splits)
    have "find (\<lambda>r. m_ID r = m_ID m') (put m' rows) = Some (model_row m')"
      if "\<exists>r \<in> set rows. m_ID r = m_ID m'" for rows
      using that by (induction rows) (auto simp: row put_def)
    with that [OF m' r] old show thesis by simp
  qed
qed

section \<open>The rules of the loaded model\<close>

lemma exact_prices_rate:
  assumes "exact_prices p" "q \<in> {InputCost p, OutputCost p, CacheReadCost p, CacheWriteCost p}"
  shows "(case q of (legacy, exact) \<Rightarrow> case exactRate exact legacy of
            Inl e \<Rightarrow> Inl (ErrModelPricing (ErrMoney e)) | Inr v \<Rightarrow> Inr v) = (Inr (snd q) :: model_error + nano_usd)"
proof -
  have "exactRate (snd q) (fst q) = Inr (snd q)" using assms unfolding exact_prices_def by blast
  then show ?thesis by (simp add: case_prod_beta)
qed

lemma loaded_rules:
  assumes "model_rules m = Inr rules" "exact_prices (m_Prices m)" "distinct (map ttl_row_key (filter carries_rate (CacheTTLRates m)))"
    and "m_Prices loaded = m_Prices m" "m_PromptAccounting loaded = m_PromptAccounting m"
    and "mset (PricingTiers loaded) = mset (PricingTiers m)"
    and "mset (CacheTTLRates loaded) = mset (filter carries_rate (CacheTTLRates m))"
    and "mset (PriceWindows loaded) = mset (normalizedPriceWindows (PriceWindows m))"
  shows "\<exists>i. pricingRulesForModel snapshot address (Some loaded) = Inr (rules \<lparr> rs_ID := i \<rparr>)"
proof -
  have ttl: "OverlayTTLRates base (CacheTTLRates loaded) t = OverlayTTLRates base (CacheTTLRates m) t" for base t
    using OverlayTTLRates_perm [OF assms(7,3)] OverlayTTLRates_carrying by simp
  define p where "p = m_Prices m"
  define base where "base = OverlayTTLRates
    (base_rates (snd (InputCost p)) (snd (OutputCost p)) (snd (CacheReadCost p)) (snd (CacheWriteCost p))) (CacheTTLRates m) None"
  define spec where "spec i tiers windows = \<lparr> sp_ID = i, sp_Base = base, sp_Tiers = tiers, sp_Windows = windows,
    sp_Accounting = ParsePromptAccounting (m_PromptAccounting m) \<rparr>" for i tiers windows
  have tiers: "mset (overlaid_tiers (CacheTTLRates loaded) (PricingTiers loaded))
      = mset (overlaid_tiers (CacheTTLRates m) (PricingTiers m))"
    unfolding overlaid_tiers_def ttl mset_map assms(6) ..
  have "New (spec (mc_PricingRuleSetID (m_Catalog m)) (overlaid_tiers (CacheTTLRates m) (PricingTiers m))
      (normalizedPriceWindows (PriceWindows m))) = Inr rules"
    using assms(1) by (simp add: model_rules_def spec_def base_def p_def Let_def)
  from New_mset [OF this, of "spec (mc_PricingRuleSetID (m_Catalog m))
      (overlaid_tiers (CacheTTLRates loaded) (PricingTiers loaded)) (PriceWindows loaded)"]
  have "New (spec (mc_PricingRuleSetID (m_Catalog m)) (overlaid_tiers (CacheTTLRates loaded) (PricingTiers loaded))
      (PriceWindows loaded)) = Inr rules"
    using tiers assms(8) by (simp add: spec_def)
  from New_rename [OF this]
  have new: "New (spec (''pricing:'' @ i) (overlaid_tiers (CacheTTLRates loaded) (PricingTiers loaded)) (PriceWindows loaded))
      = Inr (rules \<lparr> rs_ID := ''pricing:'' @ i \<rparr>)" for i
    by (simp add: spec_def)
  note rates = exact_prices_rate [OF assms(2), folded p_def]
  show ?thesis
    using new by (simp add: pricingRulesForModel_def Let_def assms(4,5) rates p_def [symmetric] ttl
        base_def [symmetric] spec_def) blast
qed

lemma saved_model_rules:
  assumes "CreateModel uuids m db = Inr db' \<or> UpdateModel uuids m db = Inr db'"
    and "\<forall>w \<in> set (PriceWindows m). w_ID w \<noteq> [] \<and> whole_micros w"
  obtains m' rules loaded i where "normalized_model m = Inr m'"
    "model_rules (m' \<lparr> PricingTiers := map stored_tier (PricingTiers m') \<rparr>) = Inr rules"
    "GetModel db' (m_ID m) = Some loaded"
    "pricingRulesForModel snapshot address (Some loaded) = Inr (rules \<lparr> rs_ID := i \<rparr>)"
proof -
  from saved_row [OF assms(1)] obtain m' db1 where m': "normalized_model m = Inr m'"
    and r: "replace_pricing uuids m' db1 = Inr db'"
    and row: "find (\<lambda>r. m_ID r = m_ID m') (model_rows db1) = Some (model_row m')" .
  note n = normalized_modelD [OF m'] and rows = replace_pricing_Inr [OF r]
  have "\<forall>w \<in> set (PriceWindows m'). w_ID w \<noteq> [] \<and> whole_micros w" using assms(2) n(2) by simp
  note load = load_after_replace [OF r this]
  define stored where "stored = m' \<lparr> PricingTiers := map stored_tier (PricingTiers m') \<rparr>"
  from n(6) obtain r0 where "model_rules m' = Inr r0" by blast
  from model_rules_stored [OF this rows(6,5)] obtain rules where rules: "model_rules stored = Inr rules"
    unfolding stored_def by blast
  have "\<exists>i. pricingRulesForModel snapshot address (Some (attach_all db' (model_row m'))) = Inr (rules \<lparr> rs_ID := i \<rparr>)"
    by (rule loaded_rules [OF rules]) (use n(5) rows(7) load in \<open>simp_all add: stored_def\<close>)
  moreover have "GetModel db' (m_ID m) = Some (attach_all db' (model_row m'))"
    using row by (simp add: GetModel_def rows(1) n(1) [symmetric])
  ultimately show thesis using that m' rules unfolding stored_def by blast
qed

section \<open>A concrete model\<close>

definition example_tier :: Tier where
  "example_tier = \<lparr> MinInputTokensExclusive = 200000,
     t_Rates = (base_rates 6 30 2 8) \<lparr> CacheWrite1hPerMillion := 60 \<rparr> \<rparr>"

definition example_model :: Model where
  "example_model = \<lparr> m_ID = ''m1'', m_Name = ''m'', m_ProviderID = ''p'', TargetModel = ''t'', m_Status = ''active'',
     RoutingTier = '''', ModelType = ''llm'', Transcribe = False, ContextWindow = 200000, m_MaxOutputTokens = 8192,
     DisplayName = ''M'', MuhiyaCodeVisible = False, MuhiyaChatVisible = False, m_PromptAccounting = ''inclusive'',
     m_Prices = \<lparr> InputCost = (FFin 0, 3), OutputCost = (FFin 0, 15), CacheReadCost = (FFin 0, 1),
                  CacheWriteCost = (FFin 0, 4), PricePerMinute = (FFin 0, 1) \<rparr>,
     PricingTiers = [example_tier], CacheTTLRates = [], PriceWindows = [example_night],
     m_Catalog = \<lparr> Tags = [], ProviderFamily = ''f'', AdapterVersion = ''1'', CompatibilityEpoch = 1,
                   CacheContract = ''{}'', SupportedParameters = [''model''], mc_PricingRuleSetID = ''r'',
                   Health = ''healthy'' \<rparr>,
     m_Media = \<lparr> SupportsVision = False, SupportsThinking = False, SupportsAudio = False, SupportsVideo = False,
                 SupportsDocuments = False, MaxAttachmentMB = 0, AcceptedMimeTypes = '''', CodingTier = FFin 0,
                 SpeedScore = FFin 0 \<rparr> \<rparr>"

definition empty_models :: model_store where
  "empty_models = \<lparr> provider_ids = [''p''], model_rows = [], tier_rows = [], ttl_rows = [], window_rows = [] \<rparr>"

lemma example_night_valid: "Window_Validate example_night = None" "half_filled example_night = example_night"
  "w_ID example_night \<noteq> []" "whole_micros example_night"
  by (simp_all add: example_night_def Window_Validate_def half_filled_def whole_micros_def MinutesPerDay_def
      allWeekdays_def validClass_def TokenClasses_def Let_def)

lemma example_normalizes:
  "\<exists>m. normalized_model example_model = Inr m \<and> m_ID m = ''m1'' \<and> m_Name m = ''m'' \<and> m_ProviderID m = ''p'' \<and>
     m_Status m = ''active'' \<and> PricingTiers m = [example_tier] \<and> CacheTTLRates m = [] \<and> PriceWindows m = [example_night]"
proof -
  have night: "normalizedPriceWindows [example_night] = [example_night]"
    using normalizedPriceWindows_named [of "[example_night]"] example_night_valid by simp
  have rules: "validateModelPricingRules m = None"
    if "m_Prices m = \<lparr> InputCost = (USD 3, 3), OutputCost = (USD 15, 15), CacheReadCost = (USD 1, 1),
          CacheWriteCost = (USD 4, 4), PricePerMinute = (USD 1, 1) \<rparr>" "m_PromptAccounting m = ''inclusive''"
      "PricingTiers m = [example_tier]" "CacheTTLRates m = []" "PriceWindows m = [example_night]"
      "mc_PricingRuleSetID (m_Catalog m) = ''r''" for m
    using that example_night_valid(1)
    by (simp add: validateModelPricingRules_def model_rules_def New_def sort_tiers_def sort_windows_def
        overlaid_tiers_def night Let_def RuleSet_Validate_def validateRates_def base_rates_def example_tier_def ParsePromptAccounting_def
        PromptAccounting_Valid_def)
  have prices: "normalizePrices (m_Prices example_model) = Inr \<lparr> InputCost = (USD 3, 3), OutputCost = (USD 15, 15),
      CacheReadCost = (USD 1, 1), CacheWriteCost = (USD 4, 4), PricePerMinute = (USD 1, 1) \<rparr>"
    by (simp add: normalizePrices_def normalizeModelMoney_def normalize_pair_def example_model_def f64_neg_def)
  define n where "n = example_model \<lparr> m_Prices := \<lparr> InputCost = (USD 3, 3), OutputCost = (USD 15, 15),
      CacheReadCost = (USD 1, 1), CacheWriteCost = (USD 4, 4), PricePerMinute = (USD 1, 1) \<rparr>, RoutingTier := ''none'' \<rparr>"
  have start: "normalized_model example_model = normalizeModelCatalog n"
    unfolding normalized_model_def prices by (simp add: n_def example_model_def Let_def)
  have n: "m_Prices n = \<lparr> InputCost = (USD 3, 3), OutputCost = (USD 15, 15), CacheReadCost = (USD 1, 1),
          CacheWriteCost = (USD 4, 4), PricePerMinute = (USD 1, 1) \<rparr>" "m_PromptAccounting n = ''inclusive''"
      "PricingTiers n = [example_tier]" "CacheTTLRates n = []" "PriceWindows n = [example_night]"
      "m_Catalog n = m_Catalog example_model" "m_ID n = ''m1''" "m_Name n = ''m''" "m_ProviderID n = ''p''"
      "m_Status n = ''active''"
    by (simp_all add: n_def example_model_def)
  have catalog: "default_catalog n = m_Catalog example_model" "m_Catalog n = m_Catalog example_model"
    "Health (m_Catalog example_model) = ''healthy''" "CacheContract (m_Catalog example_model) = ''{}''"
    "mc_PricingRuleSetID (m_Catalog example_model) = ''r''"
    by (simp_all add: default_catalog_def n_def example_model_def Let_def)
  have "applyModelCatalogDefaults n = Inr n"
    by (simp add: applyModelCatalogDefaults_def default_accounting_def n catalog ParsePromptAccounting_def
        PromptAccounting_Valid_def Let_def)
  then show ?thesis
    by (simp add: start normalizeModelCatalog_def catalog valid_json_examples(1) rules n Let_def)
qed

lemma example_created: "\<exists>db. CreateModel uuids example_model empty_models = Inr db"
proof -
  from example_normalizes obtain m where m: "normalized_model example_model = Inr m"
    and f: "m_ID m = ''m1''" "m_Name m = ''m''" "m_ProviderID m = ''p''" "m_Status m = ''active''"
      "PricingTiers m = [example_tier]" "CacheTTLRates m = []" "PriceWindows m = [example_night]" by blast
  have tier: "insert_tiers ''m1'' [example_tier] [] = Inr [(''m1'', stored_tier example_tier)]"
    by (simp add: example_tier_def stored_rates_def base_rates_def validateRates_def)
  have window: "insert_windows ''m1'' uuids 0 [example_night] [] [] = Inr [(''m1'', stored_window example_night)]"
    using example_night_valid by simp
  show ?thesis
    unfolding CreateModel_def m replace_pricing_def replaceModelPricingTiers_def replaceModelCacheTTLRates_def
      replaceModelPriceWindows_def
    by (simp add: empty_models_def row_checked_def f tier window del: insert_tiers.simps insert_windows.simps)
qed

lemma example_named: "\<forall>w \<in> set (PriceWindows example_model). w_ID w \<noteq> [] \<and> whole_micros w"
  using example_night_valid(3,4) by (simp add: example_model_def)

section \<open>Properties\<close>

text \<open>C21: Saving a model and loading it back keeps its prices, as far as the tables hold them. When its
  windows are named and their dates whole microseconds, a model that was created or updated is found
  again under its identifier, and a request prices it with the rule set it was validated with, if no tier
  has rates of its own per cache lifetime; otherwise with the rule set of its tiers without these, for
  which there are no columns. Only the identifier of the rule set differs, and the order in which the
  database returns the rows does not matter.\<close>

theorem save_load_prices:
  assumes "CreateModel uuids m db = Inr db' \<or> UpdateModel uuids m db = Inr db'"
    and "\<forall>w \<in> set (PriceWindows m). w_ID w \<noteq> [] \<and> whole_micros w"
  shows "\<exists>m' loaded rules i. normalized_model m = Inr m' \<and> GetModel db' (m_ID m) = Some loaded \<and>
    pricingRulesForModel snapshot address (Some loaded) = Inr (rules \<lparr> rs_ID := i \<rparr>) \<and>
    model_rules (m' \<lparr> PricingTiers := map stored_tier (PricingTiers m') \<rparr>) = Inr rules \<and>
    ((\<forall>t \<in> set (PricingTiers m). stored_tier t = t) \<longrightarrow> model_rules m' = Inr rules)"
proof -
  from saved_model_rules [OF assms, of snapshot address] obtain m' rules loaded i where
    m': "normalized_model m = Inr m'" "GetModel db' (m_ID m) = Some loaded"
      "model_rules (m' \<lparr> PricingTiers := map stored_tier (PricingTiers m') \<rparr>) = Inr rules"
      "pricingRulesForModel snapshot address (Some loaded) = Inr (rules \<lparr> rs_ID := i \<rparr>)" by metis
  have "m' \<lparr> PricingTiers := map stored_tier (PricingTiers m') \<rparr> = m'" if "\<forall>t \<in> set (PricingTiers m). stored_tier t = t"
    using that by (simp add: normalized_modelD(3) [OF m'(1)] map_idI)
  then show ?thesis using m' by metis
qed

theorem save_load_prices_witness:
  "\<exists>db loaded r. CreateModel (\<lambda>n. show_nat n) example_model empty_models = Inr db \<and>
     GetModel db (m_ID example_model) = Some loaded \<and>
     pricingRulesForModel (\<lambda>s. fst s) (\<lambda>n. n) (Some loaded) = Inr r"
proof -
  from example_created obtain db where db: "CreateModel (\<lambda>n. show_nat n) example_model empty_models = Inr db" by blast
  from save_load_prices [OF disjI1 [OF this] example_named, of "\<lambda>s. fst s" "\<lambda>n. n"] db show ?thesis by blast
qed

lemma New_tiers: "New spec = Inr r \<Longrightarrow> set (Tiers r) = set (sp_Tiers spec)"
  using New_InrD(2) [of spec r] by (simp add: sort_tiers_def)

lemma model_rules_tiers: "model_rules m = Inr r \<Longrightarrow> set (Tiers r) = set (overlaid_tiers (CacheTTLRates m) (PricingTiers m))"
  unfolding model_rules_def Let_def by (auto dest: New_tiers)

lemma overlaid_none [simp]: "overlaid_tiers [] ts = ts"
  by (simp add: overlaid_tiers_def map_idI)

text \<open>The rates a tier carries of its own per cache lifetime are validated with the model and then
  lost: the table has no column for them. What was checked prices a one hour cache write at the
  tier's rate; what is billed after the load is the tier's default cache write rate.\<close>

theorem tier_lifetime_rates_lost:
  assumes "CreateModel uuids m db = Inr db'" "t \<in> set (PricingTiers m)" "CacheTTLRates m = []"
    and "\<forall>w \<in> set (PriceWindows m). w_ID w \<noteq> [] \<and> whole_micros w"
    and "CacheWrite1hPerMillion (t_Rates t) \<noteq> 0"
  shows "\<exists>m' checked loaded billed u. normalized_model m = Inr m' \<and> model_rules m' = Inr checked \<and>
    t \<in> set (Tiers checked) \<and> RateFor (t_Rates t) ClassCacheWrite1h = CacheWrite1hPerMillion (t_Rates t) \<and>
    GetModel db' (m_ID m) = Some loaded \<and> pricingRulesForModel snapshot address (Some loaded) = Inr billed \<and>
    u \<in> set (Tiers billed) \<and> MinInputTokensExclusive u = MinInputTokensExclusive t \<and>
    RateFor (t_Rates u) ClassCacheWrite1h = effectiveCacheWrite (t_Rates t)"
proof -
  from saved_model_rules [OF disjI1 [OF assms(1)] assms(4), of snapshot address] obtain m' rules loaded i where
    m': "normalized_model m = Inr m'"
    and rules: "model_rules (m' \<lparr> PricingTiers := map stored_tier (PricingTiers m') \<rparr>) = Inr rules"
    and load: "GetModel db' (m_ID m) = Some loaded"
      "pricingRulesForModel snapshot address (Some loaded) = Inr (rules \<lparr> rs_ID := i \<rparr>)" by metis
  note n = normalized_modelD [OF m']
  from n(6) obtain checked where checked: "model_rules m' = Inr checked" by blast
  have "t \<in> set (Tiers checked)" "stored_tier t \<in> set (Tiers rules)"
    using model_rules_tiers [OF checked] model_rules_tiers [OF rules] assms(2,3) by (simp_all add: n(3,4))
  moreover have "RateFor (t_Rates (stored_tier t)) ClassCacheWrite1h = effectiveCacheWrite (t_Rates t)"
    by (simp add: stored_tier_def stored_rates_def base_rates_def effectiveCacheWrite_def)
  moreover have "RateFor (t_Rates t) ClassCacheWrite1h = CacheWrite1hPerMillion (t_Rates t)"
    using assms(5) by simp
  ultimately show ?thesis using m' checked load by fastforce
qed

theorem tier_lifetime_rates_lost_witness:
  "\<exists>db loaded billed u. CreateModel (\<lambda>n. show_nat n) example_model empty_models = Inr db \<and>
     pricingRulesForModel (\<lambda>s. fst s) (\<lambda>n. n) (Some loaded) = Inr billed \<and> u \<in> set (Tiers billed) \<and>
     RateFor (t_Rates example_tier) ClassCacheWrite1h = 60 \<and> RateFor (t_Rates u) ClassCacheWrite1h = 8"
proof -
  from example_created obtain db where db: "CreateModel (\<lambda>n. show_nat n) example_model empty_models = Inr db" by blast
  have "example_tier \<in> set (PricingTiers example_model)" "CacheTTLRates example_model = []"
    "CacheWrite1hPerMillion (t_Rates example_tier) \<noteq> 0" "effectiveCacheWrite (t_Rates example_tier) = 8"
    "RateFor (t_Rates example_tier) ClassCacheWrite1h = 60"
    by (simp_all add: example_model_def example_tier_def base_rates_def effectiveCacheWrite_def)
  with tier_lifetime_rates_lost [OF db this(1,2) example_named this(3), of "\<lambda>s. fst s" "\<lambda>n. n"] db
  show ?thesis by metis
qed


text \<open>The four rates of a request and the specification its rules are built from.\<close>

definition rates4 :: "Model \<Rightarrow> model_error + nano_usd \<times> nano_usd \<times> nano_usd \<times> nano_usd" where
  "rates4 m =
     (let rate = (\<lambda>(legacy, exact). case exactRate exact legacy of
                    Inl e \<Rightarrow> Inl (ErrModelPricing (ErrMoney e)) | Inr v \<Rightarrow> Inr v)
      in ebind (rate (InputCost (m_Prices m))) (\<lambda>input.
         ebind (rate (OutputCost (m_Prices m))) (\<lambda>out.
         ebind (rate (CacheReadCost (m_Prices m))) (\<lambda>cread.
         ebind (rate (CacheWriteCost (m_Prices m))) (\<lambda>cwrite. Inr (input, out, cread, cwrite))))))"

definition printed_snapshot ::
  "(nat \<Rightarrow> nat) \<Rightarrow> Model \<Rightarrow> nano_usd \<times> nano_usd \<times> nano_usd \<times> nano_usd \<Rightarrow> price_snapshot" where
  "printed_snapshot address m q =
     (case q of (input, out, cread, cwrite) \<Rightarrow>
        (m_ID m, [input, out, cread, cwrite],
         overlaid_tiers (CacheTTLRates m) (PricingTiers m), printed_ttl_rates address (CacheTTLRates m),
         PriceWindows m, ParsePromptAccounting (m_PromptAccounting m)))"

definition priced_spec ::
  "(price_snapshot \<Rightarrow> string) \<Rightarrow> (nat \<Rightarrow> nat) \<Rightarrow> Model \<Rightarrow> nano_usd \<times> nano_usd \<times> nano_usd \<times> nano_usd \<Rightarrow> Spec" where
  "priced_spec snapshot address m q =
     (case q of (input, out, cread, cwrite) \<Rightarrow>
        \<lparr> sp_ID = ''pricing:'' @ snapshot (printed_snapshot address m q),
          sp_Base = OverlayTTLRates (base_rates input out cread cwrite) (CacheTTLRates m) None,
          sp_Tiers = overlaid_tiers (CacheTTLRates m) (PricingTiers m), sp_Windows = PriceWindows m,
          sp_Accounting = ParsePromptAccounting (m_PromptAccounting m) \<rparr>)"

lemma ebind_assoc: "ebind (ebind m f) g = ebind m (\<lambda>x. ebind (f x) g)"
  by (cases m) simp_all

lemma pricingRulesForModel_Inr:
  "pricingRulesForModel snapshot address (Some m) = Inr r \<longleftrightarrow>
     (\<exists>q. rates4 m = Inr q \<and> New (priced_spec snapshot address m q) = Inr r)"
proof -
  have "pricingRulesForModel snapshot address (Some m) = ebind (rates4 m) (\<lambda>q.
      case New (priced_spec snapshot address m q) of Inl e \<Rightarrow> Inl (ErrModelPricing e) | Inr rules \<Rightarrow> Inr rules)"
    by (simp add: pricingRulesForModel_def rates4_def priced_spec_def printed_snapshot_def ebind_assoc Let_def)
  moreover have "(case New s of Inl e \<Rightarrow> Inl (ErrModelPricing e) | Inr rules \<Rightarrow> Inr rules) = Inr r
      \<longleftrightarrow> New s = Inr r" for s
    by (auto split: sum.splits)
  ultimately show ?thesis by (simp add: ebind_eq_Inr)
qed

definition base_printed :: "(nat option \<times> string \<times> nano_usd option \<times> nano_usd option) \<Rightarrow> TTLRate" where
  "base_printed p = (case p of (t, ttl, r, w) \<Rightarrow>
     \<lparr> ttl_MinInputTokensExclusive = map_option int t, TTL = ttl, ttl_CacheReadPerMillion = r, ttl_CacheWritePerMillion = w \<rparr>)"

text \<open>The base rates depend on the rows only through what is printed of them.\<close>

lemma overlay_base_printed:
  "OverlayTTLRates base (map base_printed (printed_ttl_rates address rs)) None = OverlayTTLRates base rs None"
proof -
  have one: "overlay_one None (base_printed (map_option (\<lambda>v. a) (ttl_MinInputTokensExclusive r), TTL r,
      ttl_CacheReadPerMillion r, ttl_CacheWritePerMillion r)) b = overlay_one None r b" for a r b
    by (cases "ttl_MinInputTokensExclusive r")
       (simp_all add: base_printed_def overlay_one_def sameThreshold_def)
  have "OverlayTTLRates base (map base_printed (map (\<lambda>(i, r). (map_option (\<lambda>v. address i) (ttl_MinInputTokensExclusive r),
      TTL r, ttl_CacheReadPerMillion r, ttl_CacheWritePerMillion r)) (enumerate k rs))) None = OverlayTTLRates base rs None" for k
    by (induction rs arbitrary: k base) (simp_all add: one)
  then show ?thesis by (simp add: printed_ttl_rates_def)
qed

definition with_hour_rate :: "Model \<Rightarrow> Model" where
  "with_hour_rate m = m \<lparr> CacheTTLRates := [\<lparr> ttl_MinInputTokensExclusive = Some 200000, TTL = ''1h'',
     ttl_CacheReadPerMillion = None, ttl_CacheWritePerMillion = Some 60 \<rparr>] \<rparr>"

lemma example_rates4:
  "rates4 (with_hour_rate example_model) = Inr (3, 15, 1, 4)"
  "rates4 ((with_hour_rate example_model) \<lparr> DisplayName := d \<rparr>) = Inr (3, 15, 1, 4)"
  by (simp_all add: rates4_def with_hour_rate_def example_model_def exactRate_def)

lemma example_priced:
  "\<exists>r. pricingRulesForModel snapshot address (Some (with_hour_rate example_model)) = Inr r"
  "\<exists>r. pricingRulesForModel snapshot address (Some ((with_hour_rate example_model) \<lparr> DisplayName := d \<rparr>)) = Inr r"
  unfolding pricingRulesForModel_Inr example_rates4
  using example_night_valid(1)
  by (simp_all add: priced_spec_def New_def sort_tiers_def sort_windows_def overlaid_tiers_def Let_def RuleSet_Validate_def
      validateRates_def base_rates_def example_tier_def ParsePromptAccounting_def PromptAccounting_Valid_def
      with_hour_rate_def example_model_def overlay_one_def sameThreshold_def ttl_names)

text \<open>C23: A rule set identifier identifies the prices: when the digests of two snapshots do not
  collide, requests billed under the same identifier were billed under the same rules.\<close>

theorem rule_id_identifies_prices:
  assumes "pricingRulesForModel snapshot address (Some m) = Inr r"
    and "pricingRulesForModel snapshot address' (Some m') = Inr r'"
    and "rates4 m = Inr q" "rates4 m' = Inr q'"
    and "inj_on snapshot {printed_snapshot address m q, printed_snapshot address' m' q'}" "rs_ID r = rs_ID r'"
  shows "r = r' \<and> m_ID m = m_ID m'"
proof -
  from assms(1-4) have q: "New (priced_spec snapshot address m q) = Inr r"
    and q': "New (priced_spec snapshot address' m' q') = Inr r'"
    unfolding pricingRulesForModel_Inr by simp_all
  obtain i out cr cw i' out' cr' cw' where qs: "q = (i, out, cr, cw)" "q' = (i', out', cr', cw')"
    by (cases q; cases q') auto
  from New_InrD(4) [OF q] New_InrD(4) [OF q'] assms(6)
  have "printed_snapshot address m q = printed_snapshot address' m' q'"
    by (intro inj_onD [OF assms(5)]) (simp_all add: priced_spec_def qs)
  then have same: "m_ID m = m_ID m'" "q = q'"
    "overlaid_tiers (CacheTTLRates m) (PricingTiers m) = overlaid_tiers (CacheTTLRates m') (PricingTiers m')"
    "printed_ttl_rates address (CacheTTLRates m) = printed_ttl_rates address' (CacheTTLRates m')"
    "PriceWindows m = PriceWindows m'"
    "ParsePromptAccounting (m_PromptAccounting m) = ParsePromptAccounting (m_PromptAccounting m')"
    by (simp_all add: printed_snapshot_def qs)
  have "OverlayTTLRates base (CacheTTLRates m) None = OverlayTTLRates base (CacheTTLRates m') None" for base
    using overlay_base_printed [of base address "CacheTTLRates m"]
      overlay_base_printed [of base address' "CacheTTLRates m'"] same(4) by simp
  then have "priced_spec snapshot address m q = priced_spec snapshot address' m' q'"
    using same by (simp add: priced_spec_def printed_snapshot_def qs)
  with q q' same(1) show ?thesis by simp
qed

theorem rule_id_identifies_prices_witness:
  "\<exists>r r'. pricingRulesForModel (\<lambda>s. ''x'') (\<lambda>n. 8) (Some (with_hour_rate example_model)) = Inr r \<and>
     pricingRulesForModel (\<lambda>s. ''x'') (\<lambda>n. 8) (Some ((with_hour_rate example_model) \<lparr> DisplayName := ''N'' \<rparr>)) = Inr r' \<and> r = r'"
proof -
  from example_priced obtain r r' where
    r: "pricingRulesForModel (\<lambda>s. ''x'') (\<lambda>n. 8) (Some (with_hour_rate example_model)) = Inr r"
    and r': "pricingRulesForModel (\<lambda>s. ''x'') (\<lambda>n. 8) (Some ((with_hour_rate example_model) \<lparr> DisplayName := ''N'' \<rparr>)) = Inr r'"
    by metis
  have "rs_ID r = rs_ID r'"
    using r r' by (auto simp: pricingRulesForModel_Inr priced_spec_def dest!: New_InrD(4))
  from rule_id_identifies_prices [OF r r' example_rates4 _ this] r r'
  show ?thesis by (simp add: printed_snapshot_def with_hour_rate_def)
qed

lemma priced_spec_address:
  "priced_spec snapshot address' m q = (priced_spec snapshot address m q)
     \<lparr> sp_ID := sp_ID (priced_spec snapshot address' m q) \<rparr>"
  by (simp add: priced_spec_def split: prod.splits)

text \<open>The identifier changes without the prices: the threshold of a lifetime rate is printed as the
  address it happens to lie at, so two loads of the same model that place it differently get
  different identifiers for the same rules.\<close>

theorem rule_id_changes_with_addresses:
  assumes "pricingRulesForModel snapshot address (Some m) = Inr r" "rates4 m = Inr q"
    and "inj_on snapshot {printed_snapshot address m q, printed_snapshot address' m q}"
    and "k < length (CacheTTLRates m)" "ttl_MinInputTokensExclusive (CacheTTLRates m ! k) \<noteq> None"
    and "address k \<noteq> address' k"
  shows "\<exists>i. pricingRulesForModel snapshot address' (Some m) = Inr (r \<lparr> rs_ID := i \<rparr>) \<and> i \<noteq> rs_ID r"
proof -
  from assms(1,2) have q: "New (priced_spec snapshot address m q) = Inr r"
    unfolding pricingRulesForModel_Inr by simp
  define i where "i = sp_ID (priced_spec snapshot address' m q)"
  have "i \<noteq> []" by (simp add: i_def priced_spec_def split: prod.splits)
  from New_rename [OF q this] have "New (priced_spec snapshot address' m q) = Inr (r \<lparr> rs_ID := i \<rparr>)"
    by (simp only: i_def priced_spec_address [of snapshot address' m q address, symmetric])
  moreover have "printed_ttl_rates address (CacheTTLRates m) ! k \<noteq> printed_ttl_rates address' (CacheTTLRates m) ! k"
    using assms(4-6) by (auto simp: printed_ttl_rates_def nth_enumerate_eq)
  then have "printed_ttl_rates address (CacheTTLRates m) \<noteq> printed_ttl_rates address' (CacheTTLRates m)" by metis
  then have "printed_snapshot address m q \<noteq> printed_snapshot address' m q"
    by (simp add: printed_snapshot_def split: prod.splits)
  then have "snapshot (printed_snapshot address m q) \<noteq> snapshot (printed_snapshot address' m q)"
    using assms(3) by (simp add: inj_on_def)
  then have "i \<noteq> rs_ID r"
    using New_InrD(4) [OF q] by (simp add: i_def priced_spec_def split: prod.splits)
  ultimately show ?thesis using assms(2) unfolding pricingRulesForModel_Inr by blast
qed

theorem rule_id_changes_with_addresses_witness:
  "\<exists>snapshot r i. pricingRulesForModel snapshot (\<lambda>n. 8) (Some (with_hour_rate example_model)) = Inr r \<and>
     pricingRulesForModel snapshot (\<lambda>n. 16) (Some (with_hour_rate example_model)) = Inr (r \<lparr> rs_ID := i \<rparr>) \<and>
     i \<noteq> rs_ID r"
proof -
  define s where "s a = printed_snapshot (\<lambda>n. a) (with_hour_rate example_model) (3, 15, 1, 4)" for a
  define snapshot where "snapshot x = (if x = s 8 then ''a'' else ''b'')" for x
  have "s 8 \<noteq> s 16" by (simp add: s_def printed_snapshot_def printed_ttl_rates_def with_hour_rate_def)
  then have "inj_on snapshot {s 8, s 16}" by (simp add: snapshot_def inj_on_def)
  moreover obtain r where r: "pricingRulesForModel snapshot (\<lambda>n. 8) (Some (with_hour_rate example_model)) = Inr r"
    using example_priced by blast
  ultimately show ?thesis
    using rule_id_changes_with_addresses [OF r example_rates4(1), of "\<lambda>n. 16" 0] r
    by (auto simp: s_def with_hour_rate_def)
qed

section \<open>What a model is after normalisation\<close>

lemma round_away_range:
  assumes "0 \<le> v" "v < of_int n + 1 / 2"
  shows "0 \<le> round_away v \<and> round_away v \<le> n"
proof -
  have "floor (v + 1 / 2) < n + 1" unfolding floor_less_iff using assms(2) by simp
  moreover have "0 \<le> floor (v + 1 / 2)" using assms(1) by simp
  ultimately show ?thesis using assms(1) by (simp add: round_away_def)
qed

lemma round64_int_FFin: "0 \<le> n \<Longrightarrow> n < 2 ^ 53 \<Longrightarrow> r = of_int n \<Longrightarrow> round64 r = FFin (of_int n)"
  using round64_int by simp

text \<open>The score of any value, NaN and the infinities included, lies between 0 and 5.\<close>

lemma clampSpecScore_range: "\<exists>s. clampSpecScore x = FFin s \<and> 0 \<le> s \<and> s \<le> 5"
proof (cases x)
  case (FFin v)
  show ?thesis
  proof (cases "0 \<le> v \<and> v \<le> 5")
    case False
    then show ?thesis by (auto simp: FFin clampSpecScore_def f64_neg_def f64_gt_def f64_IsNaN_def)
  next
    case True
    then have "0 \<le> v * 10" "v * 10 \<le> 100" "v * 10 \<le> 50" by simp_all
    from round64_near [OF this(1,2)] obtain p where
      p: "round64 (v * 10) = FFin p" "0 \<le> p" "\<bar>p - v * 10\<bar> \<le> 1 / 100" by blast
    have near: "p < of_int 50 + 1 / 2" using p(3) \<open>v * 10 \<le> 50\<close> unfolding abs_le_iff by simp
    define n where "n = round_away p"
    have n: "0 \<le> n" "n \<le> 50" using round_away_range [OF p(2) near] by (simp_all add: n_def)
    have "\<exists>s. round64 (of_int n / 10) = FFin s \<and> 0 \<le> s \<and> s \<le> 5"
    proof (cases "n = 50")
      case True
      have "round64 (of_int n / 10) = FFin (of_int 5)"
        by (rule round64_int_FFin) (simp_all add: True)
      then show ?thesis by simp
    next
      case False
      with n have "of_int n \<le> (49 :: rat)" by linarith
      then have up: "of_int n / 10 \<le> (49 / 10 :: rat)" by simp
      moreover have "0 \<le> (of_int n / 10 :: rat)" using n(1) by simp
      ultimately obtain s where s: "round64 (of_int n / 10) = FFin s" "0 \<le> s" "\<bar>s - of_int n / 10\<bar> \<le> 1 / 100"
        using round64_near [of "of_int n / 10"] by (auto simp del: divide_le_eq_numeral1)
      have "s \<le> 5" using s(3) up unfolding abs_le_iff by linarith
      with s show ?thesis by blast
    qed
    with True p(1) show ?thesis
      by (simp add: FFin clampSpecScore_def f64_neg_def f64_gt_def f64_IsNaN_def f64_mul_def f64_Round_def
          f64_div_def n_def [symmetric])
  qed
qed (auto simp: clampSpecScore_def f64_neg_def f64_gt_def f64_IsNaN_def)

lemma tags_loop_invariant:
  "distinct tags \<Longrightarrow> \<forall>t \<in> set tags. \<not> EqualFold t ''muhiyacode'' \<and> \<not> EqualFold t ''muhiyachat'' \<Longrightarrow>
     distinct (tags_loop raws tags) \<and>
     (\<forall>t \<in> set (tags_loop raws tags). \<not> EqualFold t ''muhiyacode'' \<and> \<not> EqualFold t ''muhiyachat'')"
proof (induction raws arbitrary: tags)
  case (Cons raw raws)
  define tag where "tag = TrimSpace raw"
  show ?case
  proof (cases "tag = [] \<or> EqualFold tag ''muhiyacode'' \<or> EqualFold tag ''muhiyachat'' \<or> tag \<in> set tags")
    case True
    then have "tags_loop (raw # raws) tags = tags_loop raws tags" unfolding tags_loop.simps Let_def tag_def by presburger
    with Cons.IH [OF Cons.prems] show ?thesis by argo
  next
    case False
    then have "tags_loop (raw # raws) tags = tags_loop raws (tags @ [tag])"
      unfolding tags_loop.simps Let_def tag_def by presburger
    moreover have "distinct (tags @ [tag])"
      "\<forall>t \<in> set (tags @ [tag]). \<not> EqualFold t ''muhiyacode'' \<and> \<not> EqualFold t ''muhiyachat''"
      using Cons.prems False by auto
    ultimately show ?thesis using Cons.IH [of "tags @ [tag]"] by metis
  qed
qed simp

lemma normalizedCatalogTags_spec:
  "distinct (normalizedCatalogTags m) \<and>
   (\<forall>t \<in> set (normalizedCatalogTags m). EqualFold t ''muhiyacode'' \<longrightarrow> t = ''muhiyacode'' \<and> MuhiyaCodeVisible m) \<and>
   (''muhiyacode'' \<in> set (normalizedCatalogTags m) \<longleftrightarrow> MuhiyaCodeVisible m) \<and>
   (''muhiyachat'' \<in> set (normalizedCatalogTags m) \<longleftrightarrow> MuhiyaChatVisible m)"
proof -
  have "EqualFold ''muhiyacode'' ''muhiyacode''" "EqualFold ''muhiyachat'' ''muhiyachat''"
    "\<not> EqualFold ''muhiyachat'' ''muhiyacode''" by code_simp+
  with tags_loop_invariant [of "[]" "Tags (m_Catalog m)"] show ?thesis
    by (auto simp: normalizedCatalogTags_def Let_def)
qed

definition model_wellformed :: "Model \<Rightarrow> bool" where
  "model_wellformed m \<longleftrightarrow>
     Health (m_Catalog m) \<in> {''healthy'', ''degraded'', ''unavailable'', ''unknown''} \<and>
     m_PromptAccounting m \<in> {''inclusive'', ''exclusive''} \<and> valid_json (CacheContract (m_Catalog m)) \<and>
     1 \<le> CompatibilityEpoch (m_Catalog m) \<and> AdapterVersion (m_Catalog m) \<noteq> [] \<and>
     mc_PricingRuleSetID (m_Catalog m) \<noteq> [] \<and> SupportedParameters (m_Catalog m) \<noteq> [] \<and>
     ProviderFamily (m_Catalog m) \<noteq> [] \<and>
     distinct (Tags (m_Catalog m)) \<and>
     (''muhiyacode'' \<in> set (Tags (m_Catalog m)) \<longleftrightarrow> MuhiyaCodeVisible m) \<and>
     (''muhiyachat'' \<in> set (Tags (m_Catalog m)) \<longleftrightarrow> MuhiyaChatVisible m) \<and>
     (\<exists>s. CodingTier (m_Media m) = FFin s \<and> 0 \<le> s \<and> s \<le> 5) \<and>
     (\<exists>s. SpeedScore (m_Media m) = FFin s \<and> 0 \<le> s \<and> s \<le> 5) \<and>
     (\<forall>r \<in> set (CacheTTLRates m). ValidTTL (TTL r)) \<and> (\<exists>rules. model_rules m = Inr rules)"

lemma default_catalog_filled:
  "1 \<le> CompatibilityEpoch (default_catalog m)" "AdapterVersion (default_catalog m) \<noteq> []"
  "mc_PricingRuleSetID (default_catalog m) \<noteq> []" "SupportedParameters (default_catalog m) \<noteq> []"
  "ProviderFamily (default_catalog m) \<noteq> []"
  by (simp_all add: default_catalog_def defaultProviderFamily_def Let_def)


definition catalog_finish :: "Model \<Rightarrow> Model" where
  "catalog_finish n =
     n \<lparr> m_Catalog := (m_Catalog n) \<lparr> Tags := normalizedCatalogTags n \<rparr>,
         m_Media := (m_Media n) \<lparr> CodingTier := clampSpecScore (CodingTier (m_Media n)),
                                 SpeedScore := clampSpecScore (SpeedScore (m_Media n)) \<rparr> \<rparr>"

lemma normalizeModelCatalog_Inr:
  "normalizeModelCatalog m = Inr m' \<longleftrightarrow>
     (\<exists>n. applyModelCatalogDefaults m = Inr n \<and> valid_json (CacheContract (m_Catalog n)) \<and>
        m' = catalog_finish n \<and> validateModelPricingRules m' = None)"
  by (auto simp: normalizeModelCatalog_def catalog_finish_def ebind_eq_Inr Let_def split: if_splits option.splits)

lemma applyModelCatalogDefaults_InrD:
  assumes "applyModelCatalogDefaults m = Inr n"
  shows "m_Catalog n = default_catalog m" "m_PromptAccounting n \<in> {''inclusive'', ''exclusive''}"
    "Health (m_Catalog n) \<in> {''healthy'', ''degraded'', ''unavailable'', ''unknown''}"
  using assms unfolding applyModelCatalogDefaults_def Let_def by (auto split: if_splits)

lemma catalog_finish_wellformed:
  assumes "applyModelCatalogDefaults m = Inr n" "valid_json (CacheContract (m_Catalog n))"
    and "validateModelPricingRules (catalog_finish n) = None"
  shows "model_wellformed (catalog_finish n)"
proof -
  note n = applyModelCatalogDefaults_InrD [OF assms(1)]
  have rules: "list_all (\<lambda>r. ValidTTL (TTL r)) (CacheTTLRates (catalog_finish n))"
    "\<exists>rules. model_rules (catalog_finish n) = Inr rules"
    using assms(3) by (auto simp: validateModelPricingRules_def list_all_iff list_ex_iff split: if_splits sum.splits)
  have catalog: "m_Catalog (catalog_finish n) = (m_Catalog n) \<lparr> Tags := normalizedCatalogTags n \<rparr>"
    "m_PromptAccounting (catalog_finish n) = m_PromptAccounting n"
    "MuhiyaCodeVisible (catalog_finish n) = MuhiyaCodeVisible n" "MuhiyaChatVisible (catalog_finish n) = MuhiyaChatVisible n"
    "CodingTier (m_Media (catalog_finish n)) = clampSpecScore (CodingTier (m_Media n))"
    "SpeedScore (m_Media (catalog_finish n)) = clampSpecScore (SpeedScore (m_Media n))"
    by (simp_all add: catalog_finish_def)
  show ?thesis
    unfolding model_wellformed_def catalog
    using n(2,3) assms(2) default_catalog_filled [of m] normalizedCatalogTags_spec [of n] rules
      clampSpecScore_range by (simp add: n(1) list_all_iff)
qed

text \<open>C22: Whatever an operator enters, a model that is saved is well formed: its health, accounting and
  cache contract are of the values the readers know, its scores lie within the limits of the
  columns whatever float was typed, its reserved tags say exactly where it is visible, and its
  prices form a valid rule set.\<close>

theorem normalized_model_wellformed:
  assumes "normalized_model m = Inr m'"
  shows "model_wellformed m'"
proof -
  obtain k where "normalizeModelCatalog k = Inr m'"
    using assms unfolding normalized_model_def ebind_eq_Inr Let_def by blast
  then show ?thesis unfolding normalizeModelCatalog_Inr by (auto intro: catalog_finish_wellformed)
qed

theorem normalized_model_wellformed_witness:
  "\<exists>m. normalized_model example_model = Inr m \<and> model_wellformed m"
proof -
  from example_normalizes obtain m where "normalized_model example_model = Inr m" by blast
  with normalized_model_wellformed [OF this] show ?thesis by blast
qed

end
