(* ===== verification/Request.thy ===== *)
theory Request
  imports Billing
begin

text \<open>
  What the proxy reads of an HTTP request (src/proxy/handler.go): the headers, the identity of an
  attempt (\<open>requestCorrelationFor\<close>), the session and cache epoch, the client's name and dialect,
  and the scope generations are serialised under. \<open>digest\<close> is the hexadecimal SHA-256 of a text
  and \<open>fresh\<close> a random identifier.
\<close>

record request =
  rq_Method :: string
  rq_Path :: string
  rq_Header :: "(string \<times> string) list"

text \<open>\<open>Header.Get\<close>: header names do not depend on case, the first value counts, and an absent
  header reads as empty.\<close>

definition Header_Get :: "request \<Rightarrow> string \<Rightarrow> string" where
  "Header_Get r name = (case find (\<lambda>(k, v). EqualFold k name) (rq_Header r) of Some (k, v) \<Rightarrow> v | None \<Rightarrow> [])"

record VirtualKey =
  vk_ID :: string
  vk_Name :: string
  vk_UserID :: string
  vk_Status :: string
  vk_ExpiresAt :: "instant option"
  vk_Token :: string
  OwnerStatus :: string

section \<open>The identity of an attempt\<close>

record requestCorrelation =
  LogID :: string
  rc_ClientRequestID :: string
  rc_AttemptNumber :: int

definition requestAttemptNumber :: "request \<Rightarrow> int" where
  "requestAttemptNumber r =
     (let raw = TrimSpace (Header_Get r ''X-Muhiya-Attempt'')
      in if raw = [] then 1
         else (case ParseInt raw of
                 None \<Rightarrow> 1
               | Some attempt \<Rightarrow> if attempt < 1 \<or> attempt > 100 then 1 else attempt))"

definition id_char :: "char \<Rightarrow> bool" where
  "id_char c \<longleftrightarrow>
     (let n = (of_char c :: nat)
      in (97 \<le> n \<and> n \<le> 122) \<or> (65 \<le> n \<and> n \<le> 90) \<or> (48 \<le> n \<and> n \<le> 57) \<or>
         c = CHR ''-'' \<or> c = CHR ''_'' \<or> c = CHR ''.'')"

definition validLogicalRequestID :: "string \<Rightarrow> bool" where
  "validLogicalRequestID i \<longleftrightarrow> i \<noteq> [] \<and> length i \<le> 100 \<and> list_all id_char i"

text \<open>The text that is hashed.\<close>

definition attempt_text :: "string \<Rightarrow> string \<Rightarrow> int \<Rightarrow> string" where
  "attempt_text keyID logicalID attempt = keyID @ [byte 0] @ logicalID @ [byte 0] @ show_int attempt"

definition requestCorrelationFor ::
  "(string \<Rightarrow> string) \<Rightarrow> string \<Rightarrow> request \<Rightarrow> string \<Rightarrow> requestCorrelation" where
  "requestCorrelationFor digest fresh r keyID =
     (let attempt = requestAttemptNumber r;
          logicalID = TrimSpace (Header_Get r ''X-Muhiya-Request-ID'')
      in if logicalID = [] \<or> \<not> validLogicalRequestID logicalID
         then \<lparr> LogID = fresh, rc_ClientRequestID = [], rc_AttemptNumber = attempt \<rparr>
         else \<lparr> LogID = ''req-'' @ digest (attempt_text keyID logicalID attempt),
                rc_ClientRequestID = logicalID, rc_AttemptNumber = attempt \<rparr>)"

definition requestSessionID :: "request \<Rightarrow> string" where
  "requestSessionID r =
     (let value = TrimSpace (Header_Get r ''X-Muhiya-Session'');
          value = (if value = [] then TrimSpace (Header_Get r ''X-Session-Id'') else value)
      in if length value > 128 \<or> list_ex (\<lambda>c. c = byte 13 \<or> c = byte 10 \<or> c = byte 0) value
         then [] else value)"

definition requestCacheEpoch :: "request \<Rightarrow> int" where
  "requestCacheEpoch r =
     (let raw = TrimSpace (Header_Get r ''X-Muhiya-Cache-Epoch'')
      in if raw = [] then 0
         else (case ParseInt raw of None \<Rightarrow> 0 | Some value \<Rightarrow> if value < 0 then 0 else value))"

definition applyRequestContext ::
  "RequestLog \<Rightarrow> request \<Rightarrow> VirtualKey \<Rightarrow> requestCorrelation \<Rightarrow> RequestLog" where
  "applyRequestContext entry r key identity =
     entry \<lparr> rl_ID := LogID identity, UserID := vk_UserID key, AttemptNumber := rc_AttemptNumber identity,
             Origin := (Origin entry) \<lparr> VirtualKeyID := vk_ID key, SessionID := requestSessionID r,
                                         ClientRequestID := rc_ClientRequestID identity \<rparr>,
             Meter := (Meter entry) \<lparr> CacheEpoch := requestCacheEpoch r \<rparr> \<rparr>"

text \<open>The key under which generations of one caller wait for each other.\<close>

definition generationScope :: "request \<Rightarrow> string \<Rightarrow> string \<Rightarrow> string" where
  "generationScope r keyUserID requestID =
     (if Header_Get r ''X-Dawa-Org-ID'' \<noteq> [] then requestID else keyUserID)"

section \<open>The client\<close>

definition isAnthropicRequest :: "request option \<Rightarrow> bool" where
  "isAnthropicRequest req =
     (case req of
        None \<Rightarrow> False
      | Some r \<Rightarrow> Contains (rq_Path r) ''/messages'' \<or> Header_Get r ''x-api-key'' \<noteq> [] \<or>
                  Header_Get r ''anthropic-version'' \<noteq> [])"

definition getClientAppName :: "request option \<Rightarrow> string" where
  "getClientAppName req =
     (case req of
        None \<Rightarrow> ''Unknown''
      | Some r \<Rightarrow>
          if Header_Get r ''X-Client-App'' \<noteq> [] then Header_Get r ''X-Client-App''
          else
            (let ua = Header_Get r ''User-Agent''; lower = ToLower ua
             in if ua = [] then
                  (if Header_Get r ''x-api-key'' \<noteq> [] \<or> Header_Get r ''anthropic-version'' \<noteq> []
                   then ''Anthropic Client'' else ''API Client'')
                else if Contains lower ''claude-code'' \<or> Contains lower ''claude-cli'' then ''Claude Code''
                else if Contains lower ''anthropic'' then ''Anthropic SDK''
                else if Contains lower ''openai-python'' then ''OpenAI Python''
                else if Contains lower ''openai-node'' then ''OpenAI Node''
                else if Contains lower ''openai'' then ''OpenAI SDK''
                else if Contains lower ''curl'' then ''curl''
                else if Contains lower ''mozilla'' \<or> Contains lower ''safari'' \<or> Contains lower ''chrome''
                then ''Web Browser''
                else if Contains lower ''postman'' then ''Postman''
                else if length ua > 20 then take 17 ua @ ''...''
                else ua))"

section \<open>Lemmas\<close>

lemma id_char_not_nul: "id_char c \<Longrightarrow> c \<noteq> byte 0"
proof
  have "\<not> id_char (byte 0)" by code_simp
  moreover assume "id_char c" "c = byte 0"
  ultimately show False by simp
qed

lemma digit_not_nul: "is_digit c \<Longrightarrow> c \<noteq> byte 0"
  by (auto simp: is_digit_def byte_def)

lemma show_int_no_nul: "byte 0 \<notin> set (show_int z)"
proof -
  have "byte 0 \<notin> set (show_nat n)" for n
    using show_nat_digits [of n] digit_not_nul by (auto simp: list_all_iff)
  moreover have "CHR ''-'' \<noteq> byte 0" by code_simp
  ultimately show ?thesis by (auto simp: show_int_def)
qed

lemma split_last_nul:
  assumes "a @ [c] @ b = a' @ [c] @ b'" "c \<notin> set b" "c \<notin> set b'"
  shows "a = a' \<and> b = b'"
proof -
  from assms(1) obtain us where us: "(a = a' @ us \<and> us @ c # b = c # b') \<or> (a @ us = a' \<and> c # b = us @ c # b')"
    by (auto simp: append_eq_append_conv2)
  then show ?thesis using assms(2,3) by (cases us) auto
qed

lemma show_nat_inj: "show_nat m = show_nat n \<Longrightarrow> m = n"
  using dec_val_show_nat by metis

lemma show_int_inj: "0 \<le> x \<Longrightarrow> 0 \<le> y \<Longrightarrow> show_int x = show_int y \<Longrightarrow> x = y"
  by (auto simp: show_int_def dest: show_nat_inj)

text \<open>The parts of the hashed text can be read back, whatever bytes the key's identifier has.\<close>

lemma attempt_text_inj:
  assumes "attempt_text k i a = attempt_text k' i' a'"
    and "validLogicalRequestID i" "validLogicalRequestID i'" "0 \<le> a" "0 \<le> a'"
  shows "k = k' \<and> i = i' \<and> a = a'"
proof -
  have nul: "byte 0 \<notin> set i" "byte 0 \<notin> set i'"
    using assms(2,3) id_char_not_nul by (auto simp: validLogicalRequestID_def list_all_iff)
  from assms(1) have "(k @ [byte 0] @ i) @ [byte 0] @ show_int a = (k' @ [byte 0] @ i') @ [byte 0] @ show_int a'"
    by (simp add: attempt_text_def)
  from split_last_nul [OF this show_int_no_nul show_int_no_nul]
  have "k @ [byte 0] @ i = k' @ [byte 0] @ i'" "show_int a = show_int a'" by simp_all
  with split_last_nul [OF this(1) nul] show_int_inj [OF assms(4,5)] show ?thesis by simp
qed

lemma requestAttemptNumber_range: "1 \<le> requestAttemptNumber r \<and> requestAttemptNumber r \<le> 100"
  by (auto simp: requestAttemptNumber_def Let_def split: option.splits)

section \<open>Properties\<close>

text \<open>The identity of an attempt is a faithful name of it: two requests that name themselves share a
  log row exactly when key, logical identifier and attempt number agree, so no key can reach
  into the rows of another, provided the digests of the two texts do not collide.\<close>

theorem correlation_identifies_attempt:
  assumes "c = requestCorrelationFor digest fresh r k" "c' = requestCorrelationFor digest fresh' r' k'"
    and "rc_ClientRequestID c \<noteq> []" "rc_ClientRequestID c' \<noteq> []"
    and "inj_on digest {attempt_text k (rc_ClientRequestID c) (rc_AttemptNumber c),
                        attempt_text k' (rc_ClientRequestID c') (rc_AttemptNumber c')}"
  shows "LogID c = LogID c' \<longleftrightarrow>
    k = k' \<and> rc_ClientRequestID c = rc_ClientRequestID c' \<and> rc_AttemptNumber c = rc_AttemptNumber c'"
proof -
  have form: "validLogicalRequestID (rc_ClientRequestID d) \<and> rc_AttemptNumber d = requestAttemptNumber q \<and>
      LogID d = ''req-'' @ digest (attempt_text j (rc_ClientRequestID d) (rc_AttemptNumber d))"
    if "d = requestCorrelationFor digest f q j" "rc_ClientRequestID d \<noteq> []" for d f q j
    using that by (auto simp: requestCorrelationFor_def Let_def split: if_splits)
  note c = form [OF assms(1,3)] and c' = form [OF assms(2,4)]
  have pos: "0 \<le> rc_AttemptNumber c" "0 \<le> rc_AttemptNumber c'"
    using c c' requestAttemptNumber_range [of r] requestAttemptNumber_range [of r'] by auto
  have "LogID c = LogID c' \<longleftrightarrow> attempt_text k (rc_ClientRequestID c) (rc_AttemptNumber c)
      = attempt_text k' (rc_ClientRequestID c') (rc_AttemptNumber c')"
    using c c' inj_on_eq_iff [OF assms(5)] by simp
  also have "\<dots> \<longleftrightarrow> k = k' \<and> rc_ClientRequestID c = rc_ClientRequestID c' \<and> rc_AttemptNumber c = rc_AttemptNumber c'"
  proof
    assume "attempt_text k (rc_ClientRequestID c) (rc_AttemptNumber c)
      = attempt_text k' (rc_ClientRequestID c') (rc_AttemptNumber c')"
    from attempt_text_inj [OF this _ _ pos] c c'
    show "k = k' \<and> rc_ClientRequestID c = rc_ClientRequestID c' \<and> rc_AttemptNumber c = rc_AttemptNumber c'"
      by simp
  qed simp
  finally show ?thesis .
qed

definition named_request :: "string \<Rightarrow> string \<Rightarrow> request" where
  "named_request ident attempt =
     \<lparr> rq_Method = ''POST'', rq_Path = ''/v1/messages'',
       rq_Header = [(''x-muhiya-request-id'', ident), (''X-Muhiya-Attempt'', attempt)] \<rparr>"

lemma named_request_correlation:
  "requestCorrelationFor digest fresh (named_request ''r1'' ''2'') k =
     \<lparr> LogID = ''req-'' @ digest (attempt_text k ''r1'' 2), rc_ClientRequestID = ''r1'', rc_AttemptNumber = 2 \<rparr>"
  "requestCorrelationFor digest fresh (named_request ''r1'' '''') k =
     \<lparr> LogID = ''req-'' @ digest (attempt_text k ''r1'' 1), rc_ClientRequestID = ''r1'', rc_AttemptNumber = 1 \<rparr>"
proof -
  have "Header_Get (named_request ''r1'' ''2'') ''X-Muhiya-Request-ID'' = ''r1''"
    "Header_Get (named_request ''r1'' ''2'') ''X-Muhiya-Attempt'' = ''2''"
    "Header_Get (named_request ''r1'' '''') ''X-Muhiya-Request-ID'' = ''r1''"
    "Header_Get (named_request ''r1'' '''') ''X-Muhiya-Attempt'' = ''''"
    by code_simp+
  moreover have "TrimSpace ''r1'' = ''r1''" "TrimSpace ''2'' = ''2''" "TrimSpace '''' = ''''"
    by (simp_all add: TrimSpace_graphic graphic_def) (simp add: TrimSpace_def)
  moreover have "validLogicalRequestID ''r1''" by code_simp
  moreover have "ParseInt ''2'' = Some 2"
    by (simp add: ParseInt_def ParseUint_def is_digit_def dec_val_def digit_val_def HasPrefix_def in64_def
        MinInt64_def MaxInt64_def Let_def)
  ultimately show "requestCorrelationFor digest fresh (named_request ''r1'' ''2'') k =
     \<lparr> LogID = ''req-'' @ digest (attempt_text k ''r1'' 2), rc_ClientRequestID = ''r1'', rc_AttemptNumber = 2 \<rparr>"
    "requestCorrelationFor digest fresh (named_request ''r1'' '''') k =
     \<lparr> LogID = ''req-'' @ digest (attempt_text k ''r1'' 1), rc_ClientRequestID = ''r1'', rc_AttemptNumber = 1 \<rparr>"
    by (simp_all add: requestCorrelationFor_def requestAttemptNumber_def Let_def)
qed

theorem correlation_identifies_attempt_witness:
  "LogID (requestCorrelationFor (\<lambda>s. s) ''f'' (named_request ''r1'' ''2'') ''k'') \<noteq>
   LogID (requestCorrelationFor (\<lambda>s. s) ''g'' (named_request ''r1'' '''') ''k'')"
proof -
  define c where "c = requestCorrelationFor (\<lambda>s. s) ''f'' (named_request ''r1'' ''2'') ''k''"
  define c' where "c' = requestCorrelationFor (\<lambda>s. s) ''g'' (named_request ''r1'' '''') ''k''"
  have id: "rc_ClientRequestID c = ''r1''" "rc_ClientRequestID c' = ''r1''" "rc_AttemptNumber c \<noteq> rc_AttemptNumber c'"
    by (simp_all add: c_def c'_def named_request_correlation)
  then have "rc_ClientRequestID c \<noteq> []" "rc_ClientRequestID c' \<noteq> []" by simp_all
  from correlation_identifies_attempt [OF c_def c'_def this inj_on_id2] id(3)
  show ?thesis by (simp add: c_def c'_def)
qed

end
