(* ===== verification/Access.thy ===== *)
theory Access
  imports Request Buffers Limiter
begin

text \<open>
  Credentials and routes: the table of virtual keys (src/db/db.go), \<open>authenticateVirtualKey\<close>,
  \<open>writeLimitError\<close> and the dispatch of a request to its handler (\<open>ServeHTTP\<close> of
  src/proxy/handler.go). \<open>digest\<close> is the hexadecimal SHA-256. A reply is a refusal (status, message,
  type and the \<open>Retry-After\<close> header) or the handler that is called.
\<close>

section \<open>The table of virtual keys\<close>

record key_row =
  kr_Key :: VirtualKey
  key_hash :: "string option"

record key_store =
  virtual_keys :: "key_row list"
  key_users :: "db_user list"

definition hashToken :: "(string \<Rightarrow> string) \<Rightarrow> string \<Rightarrow> string" where
  "hashToken digest token = digest token"

text \<open>A key of the table has no plaintext token and no owner status.\<close>

definition stored_key :: "VirtualKey \<Rightarrow> VirtualKey" where
  "stored_key vk = vk \<lparr> vk_Token := [], OwnerStatus := [] \<rparr>"

definition GetVirtualKey :: "(string \<Rightarrow> string) \<Rightarrow> key_store \<Rightarrow> string \<Rightarrow> VirtualKey option" where
  "GetVirtualKey digest db presentedToken =
     (case find (\<lambda>r. key_hash r = Some (hashToken digest presentedToken)) (virtual_keys db) of
        None \<Rightarrow> None
      | Some r \<Rightarrow>
          (case find (\<lambda>u. u_ID u = vk_UserID (kr_Key r)) (key_users db) of
             None \<Rightarrow> None
           | Some u \<Rightarrow> Some ((kr_Key r) \<lparr> OwnerStatus := u_Status u \<rparr>)))"

definition GetVirtualKeyByID :: "key_store \<Rightarrow> string \<Rightarrow> VirtualKey option" where
  "GetVirtualKeyByID db i = map_option kr_Key (find (\<lambda>r. vk_ID (kr_Key r) = i) (virtual_keys db))"

text \<open>The constraints of src/db/migrations 001 and 006.\<close>

definition key_checked :: "key_store \<Rightarrow> VirtualKey \<Rightarrow> bool" where
  "key_checked db vk \<longleftrightarrow>
     vk_Status vk \<in> {''active'', ''revoked''} \<and> list_ex (\<lambda>u. u_ID u = vk_UserID vk) (key_users db)"

definition virtual_token :: "string \<Rightarrow> string" where
  "virtual_token secret = ''sk-virt-'' @ secret"

text \<open>\<open>ident\<close> and \<open>secret\<close> are the hexadecimal random bytes of the two \<open>randomToken\<close> calls.\<close>

definition CreateVirtualKey ::
  "(string \<Rightarrow> string) \<Rightarrow> string \<Rightarrow> string \<Rightarrow> VirtualKey \<Rightarrow> key_store \<Rightarrow> db_error + VirtualKey \<times> key_store" where
  "CreateVirtualKey digest ident secret vk db =
     (let vk = (if vk_ID vk = [] then vk \<lparr> vk_ID := ''vk-'' @ ident \<rparr> else vk);
          token = virtual_token secret
      in if \<not> key_checked db vk \<or>
            list_ex (\<lambda>r. vk_ID (kr_Key r) = vk_ID vk \<or> key_hash r = Some (hashToken digest token)) (virtual_keys db)
         then Inl ErrConstraint
         else Inr (vk \<lparr> vk_Token := token \<rparr>,
                   db \<lparr> virtual_keys := virtual_keys db @
                     [\<lparr> kr_Key = stored_key vk, key_hash = Some (hashToken digest token) \<rparr>] \<rparr>))"

definition UpdateVirtualKey :: "VirtualKey \<Rightarrow> key_store \<Rightarrow> db_error + key_store" where
  "UpdateVirtualKey vk db =
     (if list_ex (\<lambda>r. vk_ID (kr_Key r) = vk_ID vk) (virtual_keys db) \<and> \<not> key_checked db vk then Inl ErrConstraint
      else Inr (db \<lparr> virtual_keys :=
        map (\<lambda>r. if vk_ID (kr_Key r) = vk_ID vk then r \<lparr> kr_Key := stored_key vk \<rparr> else r) (virtual_keys db) \<rparr>))"

definition DeleteVirtualKey :: "string \<Rightarrow> key_store \<Rightarrow> key_store" where
  "DeleteVirtualKey i db = db \<lparr> virtual_keys := filter (\<lambda>r. vk_ID (kr_Key r) \<noteq> i) (virtual_keys db) \<rparr>"

text \<open>Rows of before the hashes get the hash of their identifier, which was the token then.\<close>

definition backfillVirtualKeyHashes :: "(string \<Rightarrow> string) \<Rightarrow> key_store \<Rightarrow> key_store" where
  "backfillVirtualKeyHashes digest db =
     db \<lparr> virtual_keys := map (\<lambda>r. if key_hash r = None
            then r \<lparr> key_hash := Some (hashToken digest (vk_ID (kr_Key r))) \<rparr> else r) (virtual_keys db) \<rparr>"

section \<open>Authentication\<close>

datatype 'h reply =
    Refuse (status: int) (message: string) (error_type: string) (retry_after: string)
  | Serve 'h

definition bearer_token :: "request \<Rightarrow> string" where
  "bearer_token r =
     (let authHeader = Header_Get r ''Authorization''
      in if authHeader \<noteq> [] \<and> HasPrefix authHeader ''Bearer '' then TrimPrefix authHeader ''Bearer ''
         else Header_Get r ''x-api-key'')"

definition serviceUnavailable :: "'h reply" where
  "serviceUnavailable = Refuse 503 ''Gateway temporarily unavailable, please retry.'' ''api_error'' ''2''"

text \<open>\<open>lookup\<close> is the query for the presented token, \<open>None\<close> its failure.\<close>

definition authenticateVirtualKey ::
  "(string \<Rightarrow> VirtualKey option option) \<Rightarrow> instant \<Rightarrow> request \<Rightarrow> VirtualKey reply" where
  "authenticateVirtualKey lookup now r =
     (let keyID = bearer_token r
      in if keyID = [] then
           Refuse 401 ''Missing or invalid credentials. Use Bearer token or x-api-key.'' ''invalid_request_error'' ''''
         else
           (case lookup keyID of
              None \<Rightarrow> serviceUnavailable
            | Some None \<Rightarrow> Refuse 401 ''Invalid or revoked virtual key.'' ''invalid_request_error'' ''''
            | Some (Some key) \<Rightarrow>
                if vk_Status key \<noteq> ''active''
                then Refuse 401 ''Invalid or revoked virtual key.'' ''invalid_request_error'' ''''
                else if (case vk_ExpiresAt key of None \<Rightarrow> False | Some e \<Rightarrow> e < now)
                then Refuse 401 ''Virtual key has expired.'' ''invalid_request_error'' ''''
                else if OwnerStatus key \<noteq> [] \<and> OwnerStatus key \<noteq> ''active''
                then Refuse 403 ''This account is suspended.'' ''permission_error'' ''''
                else Serve key))"

definition writeLimitError :: "LimitKind \<Rightarrow> string \<Rightarrow> 'h reply" where
  "writeLimitError kind msg =
     (case kind of
        LimitInfrastructure \<Rightarrow> Refuse 503 msg ''api_error'' ''2''
      | LimitSuspended \<Rightarrow> Refuse 403 msg ''permission_error'' ''''
      | LimitBudget \<Rightarrow> Refuse 429 (''Budget exhausted: '' @ msg) ''insufficient_quota'' ''''
      | LimitThroughput \<Rightarrow> Refuse 429 (''Limit exceeded: '' @ msg) ''rate_limit_error'' ''60'')"

section \<open>Routes\<close>

datatype handler =
    HandleMuhiyaCodeCatalog | HandleModelDiscovery | HandlePricing | HandleCapabilities | HandleUsage
  | HandleGatewayWebSearch | ServeTranscriptionClient | ServeAnthropicClient | ServeOpenAIClient

definition method_not_allowed :: "'h reply" where
  "method_not_allowed = Refuse 405 ''Method not allowed'' ''invalid_request_error'' ''''"

text \<open>A body read under a limit; \<open>None\<close> is a read that failed.\<close>

definition read_body :: "int \<Rightarrow> string option \<Rightarrow> (string \<Rightarrow> 'h) \<Rightarrow> 'h reply" where
  "read_body limit body serve =
     (case body of
        None \<Rightarrow> Refuse 400 ''Failed to read request body'' ''invalid_request_error'' ''''
      | Some b \<Rightarrow>
          if int (length b) > limit
          then Refuse 413 ''Request body exceeds the maximum allowed size.'' ''invalid_request_error'' ''''
          else Serve (serve b))"

definition with_key :: "VirtualKey reply \<Rightarrow> (VirtualKey \<Rightarrow> 'h reply) \<Rightarrow> 'h reply" where
  "with_key auth k = (case auth of Refuse s m t ra \<Rightarrow> Refuse s m t ra | Serve key \<Rightarrow> k key)"

type_synonym call = "handler \<times> VirtualKey \<times> string"

definition only_method :: "string \<Rightarrow> request \<Rightarrow> 'h reply \<Rightarrow> 'h reply" where
  "only_method m r k = (if rq_Method r \<noteq> m then method_not_allowed else k)"

text \<open>\<open>acquired\<close> tells whether the byte budget granted the reservation. A handler that reads no body
  is given an empty one.\<close>

definition ServeHTTP ::
  "(string \<Rightarrow> VirtualKey option option) \<Rightarrow> instant \<Rightarrow> bool \<Rightarrow> request \<Rightarrow> string option \<Rightarrow> call reply" where
  "ServeHTTP lookup now acquired r body =
     (let auth = authenticateVirtualKey lookup now r; path = rq_Path r
      in if rq_Method r = ''GET'' \<and> TrimSuffix path ''/'' = ''/v1/muhiyacode/models''
         then with_key auth (\<lambda>key. Serve (HandleMuhiyaCodeCatalog, key, []))
         else if rq_Method r = ''GET'' \<and> (HasSuffix path ''/models'' \<or> Contains path ''/models/'')
         then with_key auth (\<lambda>key. Serve (HandleModelDiscovery, key, []))
         else if HasSuffix path ''/pricing''
         then only_method ''GET'' r (with_key auth (\<lambda>key. Serve (HandlePricing, key, [])))
         else if HasSuffix path ''/capabilities''
         then only_method ''GET'' r (with_key auth (\<lambda>key. Serve (HandleCapabilities, key, [])))
         else if HasSuffix path ''/usage''
         then only_method ''GET'' r (with_key auth (\<lambda>key. Serve (HandleUsage, key, [])))
         else if HasSuffix path ''/tools/web_search''
         then only_method ''POST'' r (with_key auth (\<lambda>key.
                read_body maxChatRequestBytes body (\<lambda>b. (HandleGatewayWebSearch, key, b))))
         else only_method ''POST'' r (with_key auth (\<lambda>key.
           let bodyLimit = (if Contains path ''/audio/transcriptions'' then maxTranscriptionRequestBytes
                            else maxChatRequestBytes)
           in if \<not> acquired then serviceUnavailable
              else read_body bodyLimit body (\<lambda>b.
                (if Contains path ''/audio/transcriptions'' then ServeTranscriptionClient
                 else if Contains path ''/messages'' then ServeAnthropicClient
                 else ServeOpenAIClient, key, b)))))"

section \<open>The life of a credential\<close>

text \<open>What happens to the table: keys are issued, edited and removed, old rows get their hashes, and
  owners are suspended or deleted with their keys.\<close>

datatype key_op =
    Issue VirtualKey string string | Change VirtualKey | Remove string | Backfill
  | SetOwnerStatus string string | RemoveOwner string

fun key_step :: "(string \<Rightarrow> string) \<Rightarrow> key_op \<Rightarrow> key_store \<Rightarrow> key_store" where
  "key_step digest (Issue vk ident secret) db =
     (case CreateVirtualKey digest ident secret vk db of Inl e \<Rightarrow> db | Inr (k, db') \<Rightarrow> db')"
| "key_step digest (Change vk) db = (case UpdateVirtualKey vk db of Inl e \<Rightarrow> db | Inr db' \<Rightarrow> db')"
| "key_step digest (Remove i) db = DeleteVirtualKey i db"
| "key_step digest Backfill db = backfillVirtualKeyHashes digest db"
| "key_step digest (SetOwnerStatus i s) db =
     db \<lparr> key_users := map (\<lambda>u. if u_ID u = i then u \<lparr> u_Status := s \<rparr> else u) (key_users db) \<rparr>"
| "key_step digest (RemoveOwner i) db =
     db \<lparr> key_users := filter (\<lambda>u. u_ID u \<noteq> i) (key_users db),
          virtual_keys := filter (\<lambda>r. vk_UserID (kr_Key r) \<noteq> i) (virtual_keys db) \<rparr>"

definition key_run :: "(string \<Rightarrow> string) \<Rightarrow> key_op list \<Rightarrow> key_store \<Rightarrow> key_store" where
  "key_run digest ops db = fold (key_step digest) ops db"

definition issued_id :: "VirtualKey \<Rightarrow> string \<Rightarrow> string" where
  "issued_id vk ident = (if vk_ID vk = [] then ''vk-'' @ ident else vk_ID vk)"

text \<open>Every row goes back to an operation that issued it.\<close>

definition row_issued :: "(string \<Rightarrow> string) \<Rightarrow> key_op set \<Rightarrow> key_row \<Rightarrow> bool" where
  "row_issued digest ops row \<longleftrightarrow>
     (\<exists>vk ident secret. Issue vk ident secret \<in> ops \<and> vk_ID (kr_Key row) = issued_id vk ident \<and>
        key_hash row = Some (digest (virtual_token secret)))"

lemma row_issued_mono: "row_issued digest ops row \<Longrightarrow> ops \<subseteq> ops' \<Longrightarrow> row_issued digest ops' row"
  unfolding row_issued_def by blast

lemma stored_key_fields [simp]: "vk_ID (stored_key vk) = vk_ID vk" "vk_Status (stored_key vk) = vk_Status vk"
  by (simp_all add: stored_key_def)

lemma CreateVirtualKey_InrD:
  assumes "CreateVirtualKey digest ident secret vk db = Inr (k, db')"
  shows "\<exists>row. virtual_keys db' = virtual_keys db @ [row] \<and> vk_ID (kr_Key row) = issued_id vk ident \<and>
    key_hash row = Some (digest (virtual_token secret)) \<and> key_users db' = key_users db \<and>
    vk_ID k = issued_id vk ident \<and> vk_Token k = virtual_token secret \<and>
    (\<forall>r \<in> set (virtual_keys db). vk_ID (kr_Key r) \<noteq> issued_id vk ident)"
  using assms by (auto simp: CreateVirtualKey_def hashToken_def issued_id_def list_ex_iff Let_def split: if_splits)

lemma key_step_rows:
  assumes "\<forall>row \<in> set (virtual_keys db). row_issued digest ops row"
  shows "\<forall>row \<in> set (virtual_keys (key_step digest x db)). row_issued digest (insert x ops) row"
proof (cases x)
  case (Issue vk ident secret)
  show ?thesis
  proof (cases "CreateVirtualKey digest ident secret vk db")
    case (Inl e)
    then show ?thesis using assms by (auto simp: Issue intro: row_issued_mono)
  next
    case (Inr p)
    obtain k db' where p: "p = (k, db')" by (cases p)
    from CreateVirtualKey_InrD [OF Inr [unfolded p]] obtain row where
      rows: "virtual_keys db' = virtual_keys db @ [row]" and row: "vk_ID (kr_Key row) = issued_id vk ident"
        "key_hash row = Some (digest (virtual_token secret))" by blast
    have "row_issued digest (insert x ops) row" using row Issue by (auto simp: row_issued_def)
    moreover have "row_issued digest (insert x ops) r" if "r \<in> set (virtual_keys db)" for r
      using assms that by (auto intro: row_issued_mono)
    ultimately show ?thesis by (simp add: Issue Inr p rows)
  qed
next
  case (Change vk)
  show ?thesis
    using assms by (auto simp: Change UpdateVirtualKey_def row_issued_def split: if_splits) metis+
next
  case Backfill
  then show ?thesis using assms by (auto simp: backfillVirtualKeyHashes_def row_issued_def)
qed (use assms in \<open>auto simp: DeleteVirtualKey_def intro: row_issued_mono\<close>)

lemma key_run_rows:
  assumes "\<forall>row \<in> set (virtual_keys db). row_issued digest done row"
  shows "\<forall>row \<in> set (virtual_keys (key_run digest ops db)). row_issued digest (done \<union> set ops) row"
  using assms
proof (induction ops arbitrary: db "done")
  case (Cons x ops)
  from Cons.IH [OF key_step_rows [OF Cons.prems]] show ?case
    by (simp add: key_run_def)
qed (simp add: key_run_def)

lemma GetVirtualKey_SomeD:
  assumes "GetVirtualKey digest db token = Some k"
  obtains row u where "row \<in> set (virtual_keys db)" "key_hash row = Some (digest token)"
    "vk_ID k = vk_ID (kr_Key row)" "vk_Status k = vk_Status (kr_Key row)" "u \<in> set (key_users db)" "u_ID u = vk_UserID k"
    "OwnerStatus k = u_Status u"
  using assms by (auto simp: GetVirtualKey_def hashToken_def find_Some_iff split: option.splits) (metis nth_mem)

lemma authenticate_ServeD:
  assumes "authenticateVirtualKey lookup now r = Serve key"
  shows "bearer_token r \<noteq> []" "lookup (bearer_token r) = Some (Some key)" "vk_Status key = ''active''"
    "\<forall>e \<in> set_option (vk_ExpiresAt key). now \<le> e" "OwnerStatus key \<in> {[], ''active''}"
  using assms by (auto simp: authenticateVirtualKey_def serviceUnavailable_def Let_def
      split: if_splits option.splits)

section \<open>Properties\<close>

definition body_limit :: "handler \<Rightarrow> int" where
  "body_limit h = (if h = ServeTranscriptionClient then maxTranscriptionRequestBytes else maxChatRequestBytes)"

lemma with_key_Serve [simp]: "with_key auth k = Serve x \<longleftrightarrow> (\<exists>key. auth = Serve key \<and> k key = Serve x)"
  by (cases auth) (simp_all add: with_key_def)

lemma read_body_Serve [simp]:
  "read_body limit body f = Serve x \<longleftrightarrow> (\<exists>b. body = Some b \<and> int (length b) \<le> limit \<and> x = f b)"
  by (auto simp: read_body_def split: option.splits)

lemma only_method_Serve [simp]: "only_method m r k = Serve x \<longleftrightarrow> rq_Method r = m \<and> k = Serve x"
  by (auto simp: only_method_def method_not_allowed_def)

lemma serviceUnavailable_Serve [simp]: "serviceUnavailable \<noteq> Serve x"
  by (simp add: serviceUnavailable_def)

lemma limits_nonneg: "0 \<le> maxChatRequestBytes" "0 \<le> maxTranscriptionRequestBytes"
  by (simp_all add: maxChatRequestBytes_def maxTranscriptionRequestBytes_def)

lemma ServeHTTP_Serve:
  assumes "ServeHTTP lookup now acquired r body = Serve (h, key, b)"
  shows "authenticateVirtualKey lookup now r = Serve key \<and> int (length b) \<le> body_limit h \<and>
    (b \<noteq> [] \<longrightarrow> body = Some b \<and> rq_Method r = ''POST'')"
  using assms limits_nonneg
  by (auto simp: ServeHTTP_def body_limit_def Let_def split: if_splits)

text \<open>C7: No handler runs without authorisation. A request reaches a handler only with the token of a
  key that is in force: the key and its owner are active and it has not expired; the body it is
  given fits the limit of its route. A request that fails to authenticate is answered without its
  body being looked at or memory being reserved for it.\<close>

theorem ServeHTTP_authorised:
  "(ServeHTTP lookup now acquired r body = Serve (h, key, b) \<longrightarrow>
      bearer_token r \<noteq> [] \<and> lookup (bearer_token r) = Some (Some key) \<and> vk_Status key = ''active'' \<and>
      (\<forall>e \<in> set_option (vk_ExpiresAt key). now \<le> e) \<and> OwnerStatus key \<in> {[], ''active''} \<and>
      int (length b) \<le> body_limit h) \<and>
   ((\<forall>key. authenticateVirtualKey lookup now r \<noteq> Serve key) \<longrightarrow>
      (\<forall>acquired' body'. ServeHTTP lookup now acquired' r body' = ServeHTTP lookup now acquired r body))"
proof (intro conjI impI)
  assume "ServeHTTP lookup now acquired r body = Serve (h, key, b)"
  note s = ServeHTTP_Serve [OF this]
  from s have auth: "authenticateVirtualKey lookup now r = Serve key" by simp
  from authenticate_ServeD [OF auth] s show "bearer_token r \<noteq> []" "lookup (bearer_token r) = Some (Some key)"
    "vk_Status key = ''active''" "\<forall>e \<in> set_option (vk_ExpiresAt key). now \<le> e"
    "OwnerStatus key \<in> {[], ''active''}" "int (length b) \<le> body_limit h" by simp_all
next
  assume "\<forall>key. authenticateVirtualKey lookup now r \<noteq> Serve key"
  then obtain st m t ra where refused: "authenticateVirtualKey lookup now r = Refuse st m t ra"
    by (cases "authenticateVirtualKey lookup now r") auto
  show "\<forall>acquired' body'. ServeHTTP lookup now acquired' r body' = ServeHTTP lookup now acquired r body"
    unfolding ServeHTTP_def Let_def refused with_key_def reply.case by (intro allI refl)
qed

definition example_key_request :: request where
  "example_key_request = \<lparr> rq_Method = ''POST'', rq_Path = ''/v1/messages'',
     rq_Header = [(''Authorization'', ''Bearer sk-virt-00'')] \<rparr>"

definition example_key :: VirtualKey where
  "example_key = \<lparr> vk_ID = ''k1'', vk_Name = ''n'', vk_UserID = ''u'', vk_Status = ''active'', vk_ExpiresAt = None,
     vk_Token = '''', OwnerStatus = '''' \<rparr>"

theorem ServeHTTP_authorised_witness:
  "ServeHTTP (\<lambda>t. Some (Some example_key)) 0 True example_key_request (Some ''{}'') =
     Serve (ServeAnthropicClient, example_key, ''{}'') \<and> vk_Status example_key = ''active''"
proof -
  have "bearer_token example_key_request = ''sk-virt-00''" by code_simp
  moreover have "\<not> HasSuffix ''/v1/messages'' ''/pricing''" "\<not> HasSuffix ''/v1/messages'' ''/capabilities''"
    "\<not> HasSuffix ''/v1/messages'' ''/usage''" "\<not> HasSuffix ''/v1/messages'' ''/tools/web_search''"
    "\<not> Contains ''/v1/messages'' ''/audio/transcriptions''" "Contains ''/v1/messages'' ''/messages''"
    by code_simp+
  ultimately have "ServeHTTP (\<lambda>t. Some (Some example_key)) 0 True example_key_request (Some ''{}'') =
     Serve (ServeAnthropicClient, example_key, ''{}'')"
    by (simp add: ServeHTTP_def authenticateVirtualKey_def only_method_def with_key_def read_body_def
        example_key_request_def example_key_def maxChatRequestBytes_def Let_def)
  with ServeHTTP_authorised [THEN conjunct1, rule_format, OF this] show ?thesis by simp
qed

text \<open>C13: Credentials come only from being issued. Starting from an empty table, whatever keys are
  issued, edited and removed and whatever happens to their owners, a request that authenticates
  presents the token of an issued key (a token with its digest), and is served as that key.\<close>

theorem credentials_are_issued:
  assumes "virtual_keys db = []"
    and "authenticateVirtualKey (\<lambda>t. Some (GetVirtualKey digest (key_run digest ops db) t)) now r = Serve key"
  shows "\<exists>vk ident secret. Issue vk ident secret \<in> set ops \<and> vk_ID key = issued_id vk ident \<and>
    digest (bearer_token r) = digest (virtual_token secret)"
proof -
  from authenticate_ServeD(2) [OF assms(2)] have "GetVirtualKey digest (key_run digest ops db) (bearer_token r) = Some key"
    by simp
  from GetVirtualKey_SomeD [OF this] obtain row where row: "row \<in> set (virtual_keys (key_run digest ops db))"
    "key_hash row = Some (digest (bearer_token r))" "vk_ID key = vk_ID (kr_Key row)" by metis
  from key_run_rows [of db digest "{}" ops] assms(1) row(1) have "row_issued digest (set ops) row" by simp
  with row show ?thesis by (auto simp: row_issued_def)
qed

lemma key_run_append: "key_run digest (ops @ ops') db = key_run digest ops' (key_run digest ops db)"
  by (simp add: key_run_def)

definition owned_table :: key_store where
  "owned_table = \<lparr> virtual_keys = [], key_users = [\<lparr> u_ID = ''u'', u_Name = '''', u_Email = '''', u_PlanID = ''p'',
     u_Status = ''active'', u_PlanAssignedAt = 0, u_UsageResetAt = None \<rparr>] \<rparr>"

lemma owned_table_issue:
  "key_run (\<lambda>s. s) [Issue example_key '''' ''00''] owned_table =
     owned_table \<lparr> virtual_keys := [\<lparr> kr_Key = example_key, key_hash = Some ''sk-virt-00'' \<rparr>] \<rparr>"
  by (simp add: key_run_def CreateVirtualKey_def owned_table_def example_key_def key_checked_def hashToken_def
      virtual_token_def stored_key_def Let_def)

lemma example_token: "bearer_token example_key_request = ''sk-virt-00''"
  by code_simp

lemma owned_table_auth:
  "authenticateVirtualKey (\<lambda>t. Some (GetVirtualKey (\<lambda>s. s) (key_run (\<lambda>s. s) [Issue example_key '''' ''00''] owned_table) t))
     0 example_key_request = Serve (example_key \<lparr> OwnerStatus := ''active'' \<rparr>)"
  unfolding owned_table_issue
  by (simp add: authenticateVirtualKey_def example_token GetVirtualKey_def hashToken_def owned_table_def example_key_def)

theorem credentials_are_issued_witness:
  "\<exists>vk ident secret. Issue vk ident secret \<in> set [Issue example_key '''' ''00''] \<and> ''k1'' = issued_id vk ident \<and>
     ''sk-virt-00'' = virtual_token secret"
proof -
  have "virtual_keys owned_table = []" by (simp add: owned_table_def)
  from credentials_are_issued [OF this owned_table_auth] show ?thesis
    by (simp add: example_token) (simp add: example_key_def)
qed

text \<open>Operations that neither edit nor issue the key \<open>i\<close>.\<close>

definition leaves_alone :: "string \<Rightarrow> key_op \<Rightarrow> bool" where
  "leaves_alone i x \<longleftrightarrow>
     (case x of Change vk \<Rightarrow> vk_ID vk \<noteq> i | Issue vk ident secret \<Rightarrow> issued_id vk ident \<noteq> i | _ \<Rightarrow> True)"

definition inactive :: "string \<Rightarrow> key_store \<Rightarrow> bool" where
  "inactive i db \<longleftrightarrow> (\<forall>row \<in> set (virtual_keys db). vk_ID (kr_Key row) = i \<longrightarrow> vk_Status (kr_Key row) \<noteq> ''active'')"

lemma inactive_step: "inactive i db \<Longrightarrow> leaves_alone i x \<Longrightarrow> inactive i (key_step digest x db)"
proof (cases x)
  case (Issue vk ident secret)
  assume a: "inactive i db" "leaves_alone i x"
  show ?thesis
  proof (cases "CreateVirtualKey digest ident secret vk db")
    case (Inr p)
    obtain k db' where p: "p = (k, db')" by (cases p)
    from CreateVirtualKey_InrD [OF Inr [unfolded p]] a show ?thesis
      by (auto simp: Issue Inr p inactive_def leaves_alone_def)
  qed (use a in \<open>simp add: Issue\<close>)
next
  case (Change vk)
  assume a: "inactive i db" "leaves_alone i x"
  then have other: "vk_ID vk \<noteq> i" by (simp add: Change leaves_alone_def)
  then have "inactive i (db \<lparr> virtual_keys :=
      map (\<lambda>r. if vk_ID (kr_Key r) = vk_ID vk then r \<lparr> kr_Key := stored_key vk \<rparr> else r) (virtual_keys db) \<rparr>)"
    using a(1) by (auto simp: inactive_def)
  then show ?thesis using a(1) by (simp add: Change UpdateVirtualKey_def)
next
  case Backfill
  assume "inactive i db"
  then show ?thesis by (auto simp: Backfill inactive_def backfillVirtualKeyHashes_def)
qed (simp_all add: inactive_def DeleteVirtualKey_def)

lemma inactive_run: "inactive i db \<Longrightarrow> \<forall>x \<in> set ops. leaves_alone i x \<Longrightarrow> inactive i (key_run digest ops db)"
  by (induction ops arbitrary: db) (simp_all add: key_run_def inactive_step)

text \<open>The owner \<open>i\<close> is suspended, or there is none; operations on keys leave that as it is.\<close>

definition owner_off :: "string \<Rightarrow> key_store \<Rightarrow> bool" where
  "owner_off i db \<longleftrightarrow> (\<forall>u \<in> set (key_users db). u_ID u = i \<longrightarrow> u_Status u \<notin> {[], ''active''})"

lemma owner_off_step: "owner_off i db \<Longrightarrow> \<forall>s. x \<noteq> SetOwnerStatus i s \<Longrightarrow> owner_off i (key_step digest x db)"
proof (cases x)
  case (Issue vk ident secret)
  assume "owner_off i db"
  then show ?thesis
    by (cases "CreateVirtualKey digest ident secret vk db")
      (auto simp: Issue owner_off_def CreateVirtualKey_def Let_def split: if_splits)
next
  case (Change vk)
  assume "owner_off i db"
  then show ?thesis by (simp add: Change owner_off_def UpdateVirtualKey_def)
qed (auto simp: owner_off_def DeleteVirtualKey_def backfillVirtualKeyHashes_def)

lemma owner_off_run:
  "owner_off i db \<Longrightarrow> \<forall>x \<in> set ops. \<forall>s. x \<noteq> SetOwnerStatus i s \<Longrightarrow> owner_off i (key_run digest ops db)"
  by (induction ops arbitrary: db) (simp_all add: key_run_def owner_off_step)

lemma removed_off: "owner_off i (key_step digest (RemoveOwner i) db)"
  by (simp add: owner_off_def)

lemma suspended_off:
  assumes "s \<noteq> []" "s \<noteq> ''active''"
  shows "owner_off i (key_step digest (SetOwnerStatus i s) db)"
  unfolding owner_off_def
proof (intro ballI impI)
  fix v assume v: "v \<in> set (key_users (key_step digest (SetOwnerStatus i s) db))" "u_ID v = i"
  from v(1) obtain w where w: "v = (if u_ID w = i then w \<lparr> u_Status := s \<rparr> else w)" by (simp only: key_step.simps) force
  then have "u_Status v = s" using v(2) by (cases "u_ID w = i") simp_all
  then show "u_Status v \<notin> {[], ''active''}" using assms by blast
qed

lemma off_after:
  "inactive i (key_step digest x (key_run digest before db)) \<Longrightarrow> \<forall>y \<in> set after. leaves_alone i y \<Longrightarrow>
     inactive i (key_run digest (before @ [x] @ after) db)"
  "owner_off i (key_step digest x (key_run digest before db)) \<Longrightarrow> \<forall>y \<in> set after. \<forall>s. y \<noteq> SetOwnerStatus i s \<Longrightarrow>
     owner_off i (key_run digest (before @ [x] @ after) db)"
  using inactive_run [of i "key_step digest x (key_run digest before db)" after digest]
    owner_off_run [of i "key_step digest x (key_run digest before db)" after digest]
  by (simp_all add: key_run_def)

lemma revoked_off:
  assumes "x = Remove i \<or> (\<exists>vk. x = Change vk \<and> vk_ID vk = i \<and> vk_Status vk = ''revoked'' \<and> key_checked db vk)"
  shows "inactive i (key_step digest x db)"
  using assms
proof (elim disjE exE conjE)
  fix vk assume vk: "x = Change vk" "vk_ID vk = i" "vk_Status vk = ''revoked''" "key_checked db vk"
  have "key_step digest x db = db \<lparr> virtual_keys :=
      map (\<lambda>r. if vk_ID (kr_Key r) = i then r \<lparr> kr_Key := stored_key vk \<rparr> else r) (virtual_keys db) \<rparr>"
    using vk(4) by (simp add: vk(1,2) UpdateVirtualKey_def)
  then show ?thesis by (auto simp: inactive_def vk(3))
qed (simp add: inactive_def DeleteVirtualKey_def)

lemma owned_table_two:
  "key_run (\<lambda>s. s) [Issue example_key '''' ''00'', Issue (example_key \<lparr> vk_ID := ''k2'' \<rparr>) '''' ''11''] owned_table =
     owned_table \<lparr> virtual_keys := [\<lparr> kr_Key = example_key, key_hash = Some ''sk-virt-00'' \<rparr>,
       \<lparr> kr_Key = example_key \<lparr> vk_ID := ''k2'' \<rparr>, key_hash = Some ''sk-virt-11'' \<rparr>] \<rparr>"
proof -
  have "key_run (\<lambda>s. s) [Issue example_key '''' ''00'', Issue (example_key \<lparr> vk_ID := ''k2'' \<rparr>) '''' ''11''] owned_table =
      key_step (\<lambda>s. s) (Issue (example_key \<lparr> vk_ID := ''k2'' \<rparr>) '''' ''11'') (key_run (\<lambda>s. s) [Issue example_key '''' ''00''] owned_table)"
    by (simp only: key_run_def fold_simps)
  then show ?thesis unfolding owned_table_issue
    by (simp add: CreateVirtualKey_def owned_table_def example_key_def key_checked_def hashToken_def virtual_token_def
        stored_key_def Let_def)
qed

lemma owned_table_removed:
  "key_run (\<lambda>s. s) ([Issue example_key '''' ''00'', Issue (example_key \<lparr> vk_ID := ''k2'' \<rparr>) '''' ''11''] @ [Remove ''k2''] @ [Backfill])
      owned_table = key_run (\<lambda>s. s) [Issue example_key '''' ''00''] owned_table"
  unfolding key_run_append owned_table_issue owned_table_two
  by (simp add: key_run_def DeleteVirtualKey_def backfillVirtualKeyHashes_def example_key_def)

text \<open>C14: Revocation is immediate and stays. Once a key is saved as revoked, or removed, no request
  authenticates as it until it is edited or issued again; and once an account is given a status other
  than active, or removed, no key of it authenticates until its status is set again. Nothing else that
  happens to the tables changes that.\<close>

theorem revocation_effective:
  assumes "authenticateVirtualKey (\<lambda>t. Some (GetVirtualKey digest (key_run digest (before @ [x] @ after) db) t)) now r = Serve key"
  shows "((x = Remove i \<or>
        (\<exists>vk. x = Change vk \<and> vk_ID vk = i \<and> vk_Status vk = ''revoked'' \<and> key_checked (key_run digest before db) vk)) \<and>
      (\<forall>y \<in> set after. leaves_alone i y) \<longrightarrow> vk_ID key \<noteq> i) \<and>
    ((x = RemoveOwner u \<or> (\<exists>s. x = SetOwnerStatus u s \<and> s \<noteq> [] \<and> s \<noteq> ''active'')) \<and>
      (\<forall>y \<in> set after. \<forall>s. y \<noteq> SetOwnerStatus u s) \<longrightarrow> vk_UserID key \<noteq> u)"
proof -
  note auth = authenticate_ServeD [OF assms]
  from auth(2) have "GetVirtualKey digest (key_run digest (before @ [x] @ after) db) (bearer_token r) = Some key" by simp
  note got = GetVirtualKey_SomeD [OF this]
  show ?thesis
  proof (intro conjI impI; elim conjE)
    assume "x = Remove i \<or>
        (\<exists>vk. x = Change vk \<and> vk_ID vk = i \<and> vk_Status vk = ''revoked'' \<and> key_checked (key_run digest before db) vk)"
      and after: "\<forall>y \<in> set after. leaves_alone i y"
    from off_after(1) [OF revoked_off [OF this(1)] after] have off: "inactive i (key_run digest (before @ [x] @ after) db)" .
    obtain row where "row \<in> set (virtual_keys (key_run digest (before @ [x] @ after) db))" "vk_ID key = vk_ID (kr_Key row)"
      "vk_Status key = vk_Status (kr_Key row)" using got by metis
    with off auth(3) show "vk_ID key \<noteq> i" by (auto simp: inactive_def)
  next
    assume off: "x = RemoveOwner u \<or> (\<exists>s. x = SetOwnerStatus u s \<and> s \<noteq> [] \<and> s \<noteq> ''active'')"
      and after: "\<forall>y \<in> set after. \<forall>s. y \<noteq> SetOwnerStatus u s"
    have "owner_off u (key_step digest x (key_run digest before db))"
      using off suspended_off removed_off by (elim disjE exE conjE) (simp_all only:)
    from off_after(2) [OF this after] have off: "owner_off u (key_run digest (before @ [x] @ after) db)" .
    obtain owner where "owner \<in> set (key_users (key_run digest (before @ [x] @ after) db))" "u_ID owner = vk_UserID key"
      "OwnerStatus key = u_Status owner" using got by metis
    with off auth(5) show "vk_UserID key \<noteq> u" by (auto simp: owner_off_def)
  qed
qed

theorem revocation_effective_witness:
  "authenticateVirtualKey (\<lambda>t. Some (GetVirtualKey (\<lambda>s. s) (key_run (\<lambda>s. s)
      ([Issue example_key '''' ''00'', Issue (example_key \<lparr> vk_ID := ''k2'' \<rparr>) '''' ''11''] @ [Remove ''k2''] @ [Backfill]) owned_table) t))
      0 example_key_request = Serve (example_key \<lparr> OwnerStatus := ''active'' \<rparr>) \<and> vk_ID example_key \<noteq> ''k2''"
proof -
  have auth: "authenticateVirtualKey (\<lambda>t. Some (GetVirtualKey (\<lambda>s. s) (key_run (\<lambda>s. s)
      ([Issue example_key '''' ''00'', Issue (example_key \<lparr> vk_ID := ''k2'' \<rparr>) '''' ''11''] @ [Remove ''k2''] @ [Backfill]) owned_table) t))
      0 example_key_request = Serve (example_key \<lparr> OwnerStatus := ''active'' \<rparr>)"
    unfolding owned_table_removed by (rule owned_table_auth)
  have "\<forall>y \<in> set [Backfill]. leaves_alone ''k2'' y" by (simp add: leaves_alone_def)
  from revocation_effective [OF auth, THEN conjunct1, THEN mp, OF conjI [OF disjI1 [OF refl] this]]
  have "vk_ID example_key \<noteq> ''k2''" by simp
  with auth show ?thesis by blast
qed

end
