(* ===== verification/Admission.thy ===== *)
theory Admission
  imports Access ModelStore
begin

text \<open>
  What a generation may cost and what it is charged (src/proxy/handler.go): the token estimates,
  the output limit, the affordable part of a request (\<open>affordableGeneration\<close>), the price of the
  reported usage (\<open>setCalculatedCost\<close>), the outcome of a stream and the log row that settles it.
  Counts of tokens are \<open>int\<close> values of 64 bits. \<open>describe\<close> is the text of a pricing error.
\<close>

section \<open>Estimates\<close>

text \<open>\<open>strings.Fields\<close>: every step takes at least one byte off, so the length of the text is enough
  fuel.\<close>

fun fields_loop :: "nat \<Rightarrow> string \<Rightarrow> string \<Rightarrow> string list" where
  "fields_loop 0 word s = (if word = [] then [] else [word])"
| "fields_loop (Suc n) word s =
     (case find (HasPrefix s) space_codes of
        Some p \<Rightarrow> (if word = [] then id else Cons word) (fields_loop n [] (drop (length p) s))
      | None \<Rightarrow>
          (case s of [] \<Rightarrow> (if word = [] then [] else [word]) | c # cs \<Rightarrow> fields_loop n (word @ [c]) cs))"

definition Fields :: "string \<Rightarrow> string list" where
  "Fields s = fields_loop (length s) [] s"

text \<open>A rune of the Arabic block, U+0600 to U+06FF, is a byte 216 to 219 and a continuation byte.\<close>

fun has_arabic :: "string \<Rightarrow> bool" where
  "has_arabic (c # d # cs) \<longleftrightarrow>
     (216 \<le> (of_char c :: nat) \<and> (of_char c :: nat) \<le> 219 \<and> 128 \<le> (of_char d :: nat) \<and> (of_char d :: nat) \<le> 191)
     \<or> has_arabic (d # cs)"
| "has_arabic cs \<longleftrightarrow> False"

definition punctuations :: string where
  "punctuations = ''{}()[];,.=+-*/<>!&|''"

definition word_tokens :: "string \<Rightarrow> int" where
  "word_tokens w = (if has_arabic w then 3 else (int (length w) + 3) div 4)"

definition estimateTokens :: "string \<Rightarrow> int" where
  "estimateTokens s =
     (if s = [] then 0
      else
        (let tokens = sum_list (map word_tokens (Fields s));
             tokens = tokens + sum_list (map (\<lambda>p. int (length (filter (\<lambda>c. c = p) s))) punctuations);
             tokens = tokens + int (length (filter (\<lambda>c. c = CHR '' '') s)) div 4
         in if tokens = 0 then 1 else tokens))"

fun rune_loop :: "nat \<Rightarrow> string \<Rightarrow> int \<Rightarrow> int \<Rightarrow> int \<times> int" where
  "rune_loop 0 s asciiBytes nonASCII = (asciiBytes, nonASCII)"
| "rune_loop (Suc n) s asciiBytes nonASCII =
     (case s of
        [] \<Rightarrow> (asciiBytes, nonASCII)
      | c # cs \<Rightarrow>
          if (of_char c :: nat) < 128 then rune_loop n cs (asciiBytes + 1) nonASCII
          else rune_loop n (drop (rune_size s) s) asciiBytes (nonASCII + 1))"

text \<open>Each round takes a rune of at least one byte.\<close>

definition serializedTokenEstimate :: "string \<Rightarrow> int" where
  "serializedTokenEstimate rawBody =
     (let (asciiBytes, nonASCII) = rune_loop (length rawBody) rawBody 0 0
      in (asciiBytes + 2) div 3 + nonASCII * 2)"

definition conservativeInputTokenBound :: "string \<Rightarrow> int \<Rightarrow> Model option \<Rightarrow> int" where
  "conservativeInputTokenBound rawBody estimated model =
     (let bound = serializedTokenEstimate rawBody + 512;
          bound = (if estimated > bound then estimated else bound);
          bound = (case model of
                     Some m \<Rightarrow> if ContextWindow m > 0 \<and> bound > ContextWindow m then ContextWindow m else bound
                   | None \<Rightarrow> bound)
      in if bound < 1 then 1 else bound)"

section \<open>The output limit\<close>

definition boundedOutputLimit :: "int \<Rightarrow> Model option \<Rightarrow> int" where
  "boundedOutputLimit requested model =
     (let modelLimit = (case model of Some m \<Rightarrow> m_MaxOutputTokens m | None \<Rightarrow> 0);
          requested = (if requested \<le> 0 then modelLimit else requested);
          requested = (if requested \<le> 0 then 8192 else requested)
      in if modelLimit > 0 \<and> requested > modelLimit then modelLimit else requested)"

text \<open>The limits of an OpenAI request: \<open>max_completion_tokens\<close> before \<open>max_tokens\<close>.\<close>

definition requestedOpenAIOutput :: "int option \<Rightarrow> int option \<Rightarrow> Model option \<Rightarrow> int \<times> bool" where
  "requestedOpenAIOutput maxCompletionTokens maxTokens model =
     (let requested = (case maxCompletionTokens of Some n \<Rightarrow> n
                       | None \<Rightarrow> (case maxTokens of Some n \<Rightarrow> n | None \<Rightarrow> 0))
      in (boundedOutputLimit requested model, requested > 0))"

definition typicalCompletionTokens :: int where
  "typicalCompletionTokens = 8192"

definition rateLimitOutputEstimate :: "int \<Rightarrow> bool \<Rightarrow> int" where
  "rateLimitOutputEstimate limit clientSpecified =
     (if clientSpecified then limit
      else if limit < typicalCompletionTokens then limit
      else typicalCompletionTokens)"

definition reasoningVisibleFloor :: int where
  "reasoningVisibleFloor = 8192"

section \<open>What a request may cost\<close>

record generationQuoteRequest =
  gq_userID :: string
  gq_model :: "Model option"
  gq_inputUpperBound :: int
  gq_requestedOutput :: int
  gq_pricedAt :: instant

datatype admission_error =
    AdmModel model_error | AdmPrice price_error | AdmBudget db_error
  | BudgetExceededError (Requested: nano_usd) (ErrAvailable: nano_usd)

type_synonym generation_result = "(admission_error \<times> BudgetAvailability) + (int \<times> nano_usd \<times> BudgetAvailability)"

text \<open>The budget part, for rules already resolved. \<open>None\<close> is a search that never returns; an error
  carries the availability the code returns beside it.\<close>

definition affordableUnder ::
  "RuleSet \<Rightarrow> db_error + BudgetAvailability \<Rightarrow> generationQuoteRequest \<Rightarrow> generation_result option" where
  "affordableUnder rules budget request =
     (let input = InputUsage (gq_inputUpperBound request); t = gq_pricedAt request;
          usage = input \<lparr> OutputTokens := gq_requestedOutput request \<rparr>
      in case QuoteAt rules usage t of
           Inl e \<Rightarrow> Some (Inl (AdmPrice e, no_availability))
         | Inr quote \<Rightarrow>
             (case budget of
                Inl e \<Rightarrow> Some (Inl (AdmBudget e, no_availability))
              | Inr availability \<Rightarrow>
                  if q_Cost quote \<le> Available availability
                  then Some (Inr (gq_requestedOutput request, q_Cost quote, availability))
                  else
                    (case MaxOutputTokensAt rules input (gq_requestedOutput request) (Available availability) t of
                       None \<Rightarrow> None
                     | Some (Inl e) \<Rightarrow> Some (Inl (AdmPrice e, no_availability))
                     | Some (Inr allowed) \<Rightarrow>
                         if allowed < 1
                         then Some (Inl (BudgetExceededError (q_Cost quote) (Available availability), availability))
                         else
                           (case QuoteAt rules (input \<lparr> OutputTokens := allowed \<rparr>) t of
                              Inl e \<Rightarrow> Some (Inl (AdmPrice e, no_availability))
                            | Inr reduced \<Rightarrow> Some (Inr (allowed, q_Cost reduced, availability))))))"

definition affordableGeneration ::
  "(price_snapshot \<Rightarrow> string) \<Rightarrow> (nat \<Rightarrow> nat) \<Rightarrow> store \<Rightarrow> instant \<Rightarrow> instant \<Rightarrow> generationQuoteRequest
     \<Rightarrow> generation_result option" where
  "affordableGeneration snapshot address db dbnow now request =
     (case pricingRulesForModel snapshot address (gq_model request) of
        Inl e \<Rightarrow> Some (Inl (AdmModel e, no_availability))
      | Inr rules \<Rightarrow> affordableUnder rules (budgetAvailability db dbnow now (gq_userID request)) request)"

definition applyBudgetWindow :: "RequestLog \<Rightarrow> BudgetAvailability \<Rightarrow> RequestLog" where
  "applyBudgetWindow entry availability =
     entry \<lparr> BudgetWindowID := BudgetAvailability.WindowID availability,
             BudgetWindowStartedAt := (if IsZero (WindowStartedAt availability) then BudgetWindowStartedAt entry
                                       else Some (WindowStartedAt availability)),
             BudgetWindowResetAt := (if IsZero (WindowResetAt availability) then BudgetWindowResetAt entry
                                     else Some (WindowResetAt availability)) \<rparr>"

definition budgetErrorStatus :: "admission_error \<Rightarrow> int" where
  "budgetErrorStatus e =
     (case e of BudgetExceededError r a \<Rightarrow> 402 | AdmBudget ErrNoBudgetWindow \<Rightarrow> 402 | _ \<Rightarrow> 503)"

section \<open>The price of what was used\<close>

record AnthropicUsage =
  au_InputTokens :: int
  au_OutputTokens :: int
  au_CacheReadInputTokens :: int
  au_CacheCreationInputTokens :: int
  au_CacheCreation5mInputTokens :: int
  au_CacheCreation1hInputTokens :: int

definition zero_report :: ReportedUsage where
  "zero_report = \<lparr> r_PromptTokens = 0, r_OutputTokens = 0, r_CacheReadTokens = 0, r_CacheRead5mTokens = 0,
     r_CacheWriteTokens = 0, r_CacheWrite5mTokens = 0, r_CacheWrite1hTokens = 0 \<rparr>"

definition anthropicReportedUsage :: "AnthropicUsage option \<Rightarrow> ReportedUsage" where
  "anthropicReportedUsage usage =
     (case usage of
        None \<Rightarrow> zero_report
      | Some u \<Rightarrow>
          (let reported = zero_report \<lparr>
                 r_PromptTokens := au_InputTokens u, r_OutputTokens := au_OutputTokens u,
                 r_CacheReadTokens := au_CacheReadInputTokens u,
                 r_CacheWrite5mTokens := au_CacheCreation5mInputTokens u,
                 r_CacheWrite1hTokens := au_CacheCreation1hInputTokens u \<rparr>;
               remainder = i64 (i64 (au_CacheCreationInputTokens u - r_CacheWrite5mTokens reported)
                                - r_CacheWrite1hTokens reported)
           in if remainder > 0 then reported \<lparr> r_CacheWriteTokens := remainder \<rparr> else reported))"

definition anomaly_string :: "Anomaly \<Rightarrow> string" where
  "anomaly_string a =
     (case a of AnomalyNone \<Rightarrow> '''' | AnomalyPromptBelowCache \<Rightarrow> ''prompt_tokens_below_cache_tokens''
      | AnomalyNegativeTokens \<Rightarrow> ''negative_token_count'')"

definition applyQuoteToLog :: "RequestLog \<Rightarrow> Quote \<Rightarrow> RequestLog" where
  "applyQuoteToLog entry quote =
     (let receipt = q_Receipt quote; p = Pricing entry
      in entry \<lparr> CostNanoUSD := q_Cost quote, Cost := USD (q_Cost quote),
           Pricing := p \<lparr>
             PricingRuleSetID := RuleSetID receipt, PriceWindowID := Receipt.WindowID receipt,
             PriceMultiplierNum := MultiplierNum receipt, PriceMultiplierDen := MultiplierDen receipt,
             PricingTierThreshold := (if TierThreshold receipt \<noteq> BaseTierThreshold then Some (TierThreshold receipt)
                                      else None),
             lp_PricedAt := (if IsZero (PricedAt receipt) then lp_PricedAt p else Some (PricedAt receipt)),
             PricingLines := map (\<lambda>line. \<lparr> rpl_TokenClass = class_string (pl_Class line), rpl_Tokens = pl_Tokens line,
               rpl_RatePerMillion = pl_RatePerMillion line, rpl_Cost = pl_Cost line \<rparr>) (Lines receipt) \<rparr> \<rparr>)"

definition model_accounting :: "Model option \<Rightarrow> PromptAccounting" where
  "model_accounting model =
     (case model of Some m \<Rightarrow> ParsePromptAccounting (m_PromptAccounting m) | None \<Rightarrow> PromptInclusive)"

text \<open>The token columns of a row.\<close>

definition meter_usage :: "RequestLog \<Rightarrow> PromptAccounting \<Rightarrow> Usage \<Rightarrow> Anomaly \<Rightarrow> RequestLog" where
  "meter_usage entry accounting usage anomaly =
     entry \<lparr> Pricing := (Pricing entry) \<lparr> lp_PromptAccounting := PromptAccounting_string accounting,
               UsageAnomaly := anomaly_string anomaly \<rparr>,
             Meter := (Meter entry) \<lparr> lm_InputTokens := PromptTotalTokens usage,
               lm_OutputTokens := OutputTokens usage,
               lm_CacheReadTokens := i64 (CacheReadTokens usage + CacheRead5mTokens usage),
               lm_CacheWriteTokens := i64 (i64 (CacheWriteTokens usage + CacheWrite5mTokens usage)
                                           + CacheWrite1hTokens usage) \<rparr> \<rparr>"

definition setCalculatedCost ::
  "(price_snapshot \<Rightarrow> string) \<Rightarrow> (nat \<Rightarrow> nat) \<Rightarrow> (model_error \<Rightarrow> string) \<Rightarrow> RequestLog \<Rightarrow> Model option \<Rightarrow> ReportedUsage \<Rightarrow> instant
     \<Rightarrow> RequestLog" where
  "setCalculatedCost snapshot address describe entry model reported pricedAt =
     (let accounting = model_accounting model;
          (usage, anomaly) = NormalizeUsage reported accounting;
          entry = meter_usage entry accounting usage anomaly
      in case ebind (pricingRulesForModel snapshot address model) (\<lambda>rules.
                case QuoteAt rules usage pricedAt of Inl e \<Rightarrow> Inl (ErrModelPricing e) | Inr q \<Rightarrow> Inr q) of
           Inr quote \<Rightarrow> applyQuoteToLog entry quote
         | Inl e \<Rightarrow>
             entry \<lparr> Cost := FFin 0, CostNanoUSD := 0, UsageEstimated := True,
                     ErrorMessage := ErrorMessage entry @ (if ErrorMessage entry \<noteq> [] then ''; '' else [])
                       @ ''exact pricing failed: '' @ describe e \<rparr>)"

definition calculateCost ::
  "(price_snapshot \<Rightarrow> string) \<Rightarrow> (nat \<Rightarrow> nat) \<Rightarrow> Model option \<Rightarrow> int \<Rightarrow> int \<Rightarrow> int \<Rightarrow> int \<Rightarrow> f64" where
  "calculateCost snapshot address model input out cacheRead cacheWrite =
     (case pricingRulesForModel snapshot address model of
        Inl e \<Rightarrow> FFin 0
      | Inr rules \<Rightarrow>
          (let reported = zero_report \<lparr> r_PromptTokens := input, r_OutputTokens := out,
                 r_CacheReadTokens := cacheRead, r_CacheWriteTokens := cacheWrite \<rparr>
           in case QuoteNoWindow rules (fst (NormalizeUsage reported (model_accounting model))) of
                Inl e \<Rightarrow> FFin 0 | Inr quote \<Rightarrow> USD (q_Cost quote)))"

section \<open>The outcome of a request\<close>

datatype ctx_error = DeadlineExceeded | Canceled | OtherCtx

record streamResult =
  normalClose :: bool
  sr_idleTimeout :: bool
  sr_requestErr :: "ctx_error option"

definition requestFailureStatus :: "ctx_error option \<Rightarrow> string \<Rightarrow> bool \<Rightarrow> int" where
  "requestFailureStatus requestErr msg idleTimeout =
     (if requestErr = Some DeadlineExceeded \<or> idleTimeout \<or> Contains (ToLower msg) ''timeout'' \<or>
         Contains (ToLower msg) ''deadline exceeded''
      then 504
      else if requestErr = Some Canceled then 499
      else 502)"

definition setStreamOutcome :: "RequestLog \<Rightarrow> streamResult \<Rightarrow> RequestLog" where
  "setStreamOutcome entry result =
     (if normalClose result then entry \<lparr> StatusCode := 200, RequestStatus := RequestStatusForHTTP 200 \<rparr>
      else
        (let code = requestFailureStatus (sr_requestErr result) '''' (sr_idleTimeout result)
         in entry \<lparr> StatusCode := code,
              ErrorMessage := (if code = 504 then ''stream timed out before the terminal event''
                               else if code = 499 then ''request cancelled before the terminal event''
                               else ''upstream stream ended before the terminal event''),
              RequestStatus := RequestStatusForHTTP code, Cost := FFin 0, CostNanoUSD := 0 \<rparr>))"

text \<open>The row is settled when it carries a ceiling and merely recorded otherwise; a row that cannot be
  written goes to the outbox.\<close>

definition saveRequestLog :: "instant \<Rightarrow> RequestLog \<Rightarrow> store \<times> outbox \<Rightarrow> store \<times> outbox" where
  "saveRequestLog dbnow entry state =
     (case state of (db, ob) \<Rightarrow>
        (case (if ChargeCeilingNanoUSD entry > 0 then SettleUsageAndLog db dbnow entry else InsertRequestLog db entry) of
           Inl e \<Rightarrow> (db, enqueue entry ob)
         | Inr db' \<Rightarrow> (db', ob)))"

section \<open>Lemmas\<close>

definition bound_usage :: "generationQuoteRequest \<Rightarrow> int \<Rightarrow> Usage" where
  "bound_usage req n = (InputUsage (gq_inputUpperBound req)) \<lparr> OutputTokens := n \<rparr>"

text \<open>What an admission promises: the ceiling is the quote of the input bound and the allowed output,
  it is available, and no larger output would have been.\<close>

definition admission_sound :: "RuleSet \<Rightarrow> generationQuoteRequest \<Rightarrow> int \<Rightarrow> nano_usd \<Rightarrow> BudgetAvailability \<Rightarrow> bool" where
  "admission_sound rules req n limit a \<longleftrightarrow>
     n \<le> gq_requestedOutput req \<and> (n = gq_requestedOutput req \<or> 1 \<le> n) \<and> limit \<le> Available a \<and>
     (\<exists>q. QuoteAt rules (bound_usage req n) (gq_pricedAt req) = Inr q \<and> q_Cost q = limit) \<and>
     (\<forall>m. n < m \<and> m \<le> gq_requestedOutput req \<longrightarrow>
        (\<exists>q. QuoteAt rules (bound_usage req m) (gq_pricedAt req) = Inr q \<and> Available a < q_Cost q))"

lemma output_cost_Inr:
  "output_cost r input t n = Inr c \<longleftrightarrow> (\<exists>q. QuoteAt r (input \<lparr> OutputTokens := n \<rparr>) t = Inr q \<and> q_Cost q = c)"
  by (auto simp: output_cost_def split: sum.splits)

lemma affordableUnder_sound:
  assumes "0 \<le> gq_requestedOutput req" "gq_requestedOutput req < MaxInt64"
  shows "\<exists>res. affordableUnder rules budget req = Some res \<and>
    (\<forall>n limit a. res = Inr (n, limit, a) \<longrightarrow> budget = Inr a \<and> admission_sound rules req n limit a)"
proof (cases "QuoteAt rules (bound_usage req (gq_requestedOutput req)) (gq_pricedAt req)")
  case (Inl e)
  then show ?thesis by (simp add: affordableUnder_def bound_usage_def)
next
  case (Inr quote)
  define t where "t = gq_pricedAt req"
  define input where "input = InputUsage (gq_inputUpperBound req)"
  define requested where "requested = gq_requestedOutput req"
  have quote: "QuoteAt rules (input \<lparr> OutputTokens := requested \<rparr>) t = Inr quote"
    using Inr by (simp add: bound_usage_def input_def t_def requested_def)
  show ?thesis
  proof (cases budget)
    case (Inl e)
    then show ?thesis using quote by (simp add: affordableUnder_def input_def t_def requested_def)
  next
    case (Inr a)
    show ?thesis
    proof (cases "q_Cost quote \<le> Available a")
      case True
      then have "admission_sound rules req requested (q_Cost quote) a"
        using quote by (auto simp: admission_sound_def bound_usage_def input_def t_def requested_def)
      then show ?thesis
        using quote Inr True by (simp add: affordableUnder_def input_def t_def requested_def)
    next
      case False
      define search where "search = MaxOutputTokensAt rules input requested (Available a) t"
      have step: "affordableUnder rules budget req =
          (case search of
             None \<Rightarrow> None
           | Some (Inl e) \<Rightarrow> Some (Inl (AdmPrice e, no_availability))
           | Some (Inr allowed) \<Rightarrow>
               if allowed < 1 then Some (Inl (BudgetExceededError (q_Cost quote) (Available a), a))
               else (case QuoteAt rules (input \<lparr> OutputTokens := allowed \<rparr>) t of
                       Inl e \<Rightarrow> Some (Inl (AdmPrice e, no_availability))
                     | Inr reduced \<Rightarrow> Some (Inr (allowed, q_Cost reduced, a))))"
        using quote Inr False unfolding affordableUnder_def search_def input_def t_def requested_def Let_def by simp
      show ?thesis
      proof (cases "0 \<le> Available a")
        case neg: False
        then have "search = Some (Inl (ErrMoney ErrNegative))"
          by (simp add: search_def MaxOutputTokensAt_def)
        then show ?thesis by (simp add: step)
      next
        case True
        have "output_cost rules input t requested = Inr (q_Cost quote)" using quote by (simp add: output_cost_Inr)
        from MaxOutputTokensAt_largest [OF _ _ True this] assms obtain n where
          n: "search = Some (Inr n)" "n \<le> requested"
            "n = 0 \<or> (\<exists>c. output_cost rules input t n = Inr c \<and> c \<le> Available a)"
            "\<forall>m. n < m \<and> m \<le> requested \<longrightarrow> (\<exists>c. output_cost rules input t m = Inr c \<and> Available a < c)"
          by (auto simp: search_def requested_def)
        show ?thesis
        proof (cases "n < 1")
          case True
          then show ?thesis by (simp add: step n(1))
        next
          case False
          with n(3) obtain q where q: "QuoteAt rules (input \<lparr> OutputTokens := n \<rparr>) t = Inr q" "q_Cost q \<le> Available a"
            by (auto simp: output_cost_Inr)
          have "admission_sound rules req n (q_Cost q) a"
            using q n(2,4) False
            by (simp add: admission_sound_def bound_usage_def output_cost_Inr input_def t_def requested_def) blast
          then show ?thesis unfolding step n(1) using False q Inr by simp
        qed
      qed
    qed
  qed
qed

lemma affordableGeneration_sound:
  assumes "0 \<le> gq_requestedOutput req" "gq_requestedOutput req < MaxInt64"
  shows "\<exists>res. affordableGeneration snapshot address db dbnow now req = Some res \<and>
    (\<forall>n limit a. res = Inr (n, limit, a) \<longrightarrow>
       budgetAvailability db dbnow now (gq_userID req) = Inr a \<and>
       (\<exists>rules. pricingRulesForModel snapshot address (gq_model req) = Inr rules \<and>
          admission_sound rules req n limit a))"
proof (cases "pricingRulesForModel snapshot address (gq_model req)")
  case (Inr rules)
  from affordableUnder_sound [OF assms, of rules "budgetAvailability db dbnow now (gq_userID req)"] obtain res where
    res: "affordableUnder rules (budgetAvailability db dbnow now (gq_userID req)) req = Some res"
      "\<forall>n limit a. res = Inr (n, limit, a) \<longrightarrow>
        budgetAvailability db dbnow now (gq_userID req) = Inr a \<and> admission_sound rules req n limit a" by blast
  then show ?thesis using Inr by (simp add: affordableGeneration_def)
qed (simp add: affordableGeneration_def)

lemma charge_fields [simp]:
  "rl_ID (applyQuoteToLog e q) = rl_ID e" "ChargeCeilingNanoUSD (applyQuoteToLog e q) = ChargeCeilingNanoUSD e"
  "UserID (applyQuoteToLog e q) = UserID e" "StatusCode (applyQuoteToLog e q) = StatusCode e"
  "rl_ID (meter_usage e acc u an) = rl_ID e" "ChargeCeilingNanoUSD (meter_usage e acc u an) = ChargeCeilingNanoUSD e"
  "UserID (meter_usage e acc u an) = UserID e" "StatusCode (meter_usage e acc u an) = StatusCode e"
  "rl_ID (setStreamOutcome e s) = rl_ID e" "ChargeCeilingNanoUSD (setStreamOutcome e s) = ChargeCeilingNanoUSD e"
  "UserID (setStreamOutcome e s) = UserID e"
  by (simp_all add: applyQuoteToLog_def meter_usage_def setStreamOutcome_def Let_def)

lemma setCalculatedCost_fields [simp]:
  "rl_ID (setCalculatedCost snapshot address describe e m u t) = rl_ID e"
  "ChargeCeilingNanoUSD (setCalculatedCost snapshot address describe e m u t) = ChargeCeilingNanoUSD e"
  "UserID (setCalculatedCost snapshot address describe e m u t) = UserID e"
  by (simp_all add: setCalculatedCost_def Let_def split: prod.splits sum.splits)

lemma requestFailureStatus_failed: "\<not> (200 \<le> requestFailureStatus err msg idle \<and> requestFailureStatus err msg idle < 300)"
  by (simp add: requestFailureStatus_def)

lemma failed_stream_unsuccessful: "\<not> normalClose s \<Longrightarrow> \<not> successful (setStreamOutcome e s)"
  using requestFailureStatus_failed [of "sr_requestErr s" "[]" "sr_idleTimeout s"]
  by (auto simp: setStreamOutcome_def successful_def Let_def)

lemma settled_row:
  assumes "SettleUsageAndLog db dbnow e = Inr db'" "\<not> requestLogExists db (rl_ID e)"
  shows "\<exists>row. request_logs db' = request_logs db @ [row] \<and> rl_ID row = rl_ID e \<and> 0 \<le> CostNanoUSD row \<and>
    (0 < ChargeCeilingNanoUSD e \<longrightarrow> CostNanoUSD row \<le> ChargeCeilingNanoUSD e) \<and>
    (\<not> successful e \<longrightarrow> CostNanoUSD row = 0)"
proof -
  obtain f charge where f: "normalizeSettledEntry e = Inr f"
    and ins: "insertRequestLog (deductNanoFromTopups db dbnow (UserID f) charge) f = Inr db'"
    by (rule SettleUsageAndLog_InrE [OF assms])
  note n = normalizeSettledEntry_fields [OF f]
  have "\<not> requestLogExists (deductNanoFromTopups db dbnow (UserID f) charge) (rl_ID f)"
    using assms(2) n(1) by (simp add: requestLogExists_def)
  note i = insertRequestLog_InrD [OF ins this]
  have "successful f = successful e" using n(3) by (simp add: successful_def)
  with i n show ?thesis by (intro exI [of _ "log_row f"]) simp
qed

section \<open>A concrete admission\<close>

definition plain_model :: Model where
  "plain_model = example_model \<lparr> PriceWindows := [], PricingTiers := [] \<rparr>"

definition plain_request :: generationQuoteRequest where
  "plain_request = \<lparr> gq_userID = ''u'', gq_model = Some plain_model, gq_inputUpperBound = 1000,
     gq_requestedOutput = 1000, gq_pricedAt = 60 \<rparr>"

lemma plain_request_fields:
  "gq_model plain_request = Some plain_model" "gq_userID plain_request = ''u''" "gq_pricedAt plain_request = 60"
  "gq_requestedOutput plain_request = 1000" "gq_inputUpperBound plain_request = 1000"
  by (simp_all add: plain_request_def)

lemma plain_spec:
  "rates4 plain_model = Inr (3, 15, 1, 4)"
  "priced_spec snapshot address plain_model (3, 15, 1, 4) =
     \<lparr> sp_ID = ''pricing:'' @ snapshot (printed_snapshot address plain_model (3, 15, 1, 4)), sp_Base = base_rates 3 15 1 4,
       sp_Tiers = [], sp_Windows = [], sp_Accounting = PromptInclusive \<rparr>"
  by (simp_all add: rates4_def exactRate_def plain_model_def priced_spec_def overlaid_tiers_def
      example_model_def ParsePromptAccounting_def)

lemma plain_rules:
  "\<exists>r. pricingRulesForModel snapshot address (Some plain_model) = Inr r \<and> RuleSet_Validate r = None \<and>
     BaseRates r = base_rates 3 15 1 4 \<and> Tiers r = [] \<and> Windows r = []"
  by (simp add: pricingRulesForModel_Inr plain_spec New_def sort_tiers_def sort_windows_def RuleSet_Validate_def
      validateRates_def base_rates_def PromptAccounting_Valid_def Let_def)

lemma plain_quote:
  assumes "RuleSet_Validate r = None" "BaseRates r = base_rates 3 15 1 4" "Tiers r = []" "Windows r = []"
  shows "\<exists>q. QuoteAt r (bound_usage plain_request 1000) t = Inr q \<and> q_Cost q = 2"
proof -
  have "TokensFor (bound_usage plain_request 1000) c =
      (case c of ClassInputFresh \<Rightarrow> 1000 | ClassOutput \<Rightarrow> 1000 | _ \<Rightarrow> 0)" for c
    by (cases c) (simp_all add: bound_usage_def plain_request_def InputUsage_def zero_usage_def)
  moreover have "\<not> usage_negative (bound_usage plain_request 1000)"
    by (simp add: usage_negative_def TokenClasses_def bound_usage_def plain_request_def InputUsage_def zero_usage_def)
  moreover have "RateFor (base_rates 3 15 1 4) ClassInputFresh = 3" "RateFor (base_rates 3 15 1 4) ClassOutput = 15"
    by (simp_all add: base_rates_def)
  ultimately show ?thesis using assms
    by (simp add: QuoteAt_def RatesForPromptTotal_def BaseTierThreshold_def WindowFor_def
        TokenClasses_def window_scale_def lift_money_def CostForTokensScaled_def ceilQuotient_def PerMillion_def
        Add_def i64_def int64_consts in64_def Let_def del: TokensFor.simps RateFor.simps)
qed

lemma plain_available:
  "\<exists>a. budgetAvailability example_store 60 60 ''u'' = Inr a \<and> Available a = 2000"
  using example_available by (auto simp: AvailableBudgetNano_def ebind_eq_Inr)

lemma plain_admitted:
  "\<exists>a. affordableGeneration snapshot address example_store 60 60 plain_request = Some (Inr (1000, 2, a)) \<and>
     Available a = 2000"
proof -
  from plain_rules [of snapshot address] obtain r where
    r: "pricingRulesForModel snapshot address (Some plain_model) = Inr r"
      "RuleSet_Validate r = None" "BaseRates r = base_rates 3 15 1 4" "Tiers r = []" "Windows r = []" by blast
  from plain_quote [OF r(2-5), of 60] obtain q where
    q: "QuoteAt r (bound_usage plain_request 1000) 60 = Inr q" "q_Cost q = 2" by blast
  from plain_available obtain a where a: "budgetAvailability example_store 60 60 ''u'' = Inr a" "Available a = 2000"
    by blast
  show ?thesis
    using r(1) q a
    by (simp add: affordableGeneration_def affordableUnder_def bound_usage_def plain_request_fields Let_def)
qed

section \<open>Properties\<close>

text \<open>C12: An admission always comes back and never promises more than is available. Its ceiling is the
  exact price of the input bound and the allowed output, which the user could pay when it was
  asked; the allowed output is what was requested or at least one token, and the largest that is
  affordable. Any other outcome is an error.\<close>

theorem affordableGeneration_optimal:
  assumes "0 \<le> gq_requestedOutput req" "gq_requestedOutput req < MaxInt64"
  shows "\<exists>res. affordableGeneration snapshot address db dbnow now req = Some res \<and>
    (\<forall>n limit a. res = Inr (n, limit, a) \<longrightarrow>
       budgetAvailability db dbnow now (gq_userID req) = Inr a \<and> limit \<le> Available a \<and>
       n \<le> gq_requestedOutput req \<and> (n = gq_requestedOutput req \<or> 1 \<le> n) \<and>
       (\<exists>rules q. pricingRulesForModel snapshot address (gq_model req) = Inr rules \<and>
          QuoteAt rules (bound_usage req n) (gq_pricedAt req) = Inr q \<and> q_Cost q = limit \<and>
          (\<forall>m. n < m \<and> m \<le> gq_requestedOutput req \<longrightarrow>
             (\<exists>q. QuoteAt rules (bound_usage req m) (gq_pricedAt req) = Inr q \<and> Available a < q_Cost q))))"
  using affordableGeneration_sound [OF assms, of snapshot address db dbnow now]
  unfolding admission_sound_def by metis

theorem affordableGeneration_optimal_witness:
  "\<exists>a rules q. affordableGeneration (\<lambda>s. fst s) (\<lambda>n. n) example_store 60 60 plain_request = Some (Inr (1000, 2, a)) \<and>
     2 \<le> Available a \<and> QuoteAt rules (bound_usage plain_request 1000) 60 = Inr q \<and> q_Cost q = 2"
proof -
  from plain_admitted obtain a where
    a: "affordableGeneration (\<lambda>s. fst s) (\<lambda>n. n) example_store 60 60 plain_request = Some (Inr (1000, 2, a))" by blast
  show ?thesis
    using affordableGeneration_optimal [of plain_request "\<lambda>s. fst s" "\<lambda>n. n" example_store 60 60] a
    by (auto simp: plain_request_fields MaxInt64_def)
qed

text \<open>A ceiling of zero is no ceiling: where the estimate of an admission costs nothing, the row that is
  saved costs whatever the reported usage was priced at.\<close>

theorem zero_ceiling_uncapped:
  assumes "ChargeCeilingNanoUSD entry = 0" "0 < CostNanoUSD entry" "InsertRequestLog db entry = Inr db'"
    and "\<not> requestLogExists db (rl_ID entry)"
  shows "\<exists>row. saveRequestLog dbnow entry (db, ob) = (db', ob) \<and> request_logs db' = request_logs db @ [row] \<and>
    CostNanoUSD row = CostNanoUSD entry"
proof -
  obtain e where e: "normalizeRequestLogMoney entry = Inr e" "insertRequestLog db e = Inr db'"
    using assms(3) by (auto simp: InsertRequestLog_def ebind_eq_Inr)
  have "CostNanoUSD e = CostNanoUSD entry"
    using e(1) assms(2) by (auto simp: normalizeRequestLogMoney_def normalize_pair_def ebind_eq_Inr split: if_splits)
  moreover have "\<not> requestLogExists db (rl_ID e)" using assms(4) normalizeRequestLogMoney_fields(1) [OF e(1)] by simp
  ultimately show ?thesis
    using insertRequestLog_InrD(1) [OF e(2)] assms(1,3) by (auto simp: saveRequestLog_def)
qed

text \<open>C2: No customer is charged above what was available at admission. When a request was admitted with a
  positive ceiling and its identifier has no row yet, then whatever usage the upstream reports and
  however the stream ends, its single new row costs between zero and the ceiling, hence at most what the
  user could pay when it was admitted, and nothing at all unless the stream closed normally. A row the
  database refuses is queued for retry with its ceiling. (A ceiling of zero does not cap:
  \<open>zero_ceiling_uncapped\<close>.)\<close>

theorem charge_within_admission:
  fixes result :: streamResult and t :: instant and reported :: ReportedUsage and describe :: "model_error \<Rightarrow> string"
  assumes "affordableGeneration snapshot address db dbnow now req = Some (Inr (n, limit, a))"
    and "0 \<le> gq_requestedOutput req" "gq_requestedOutput req < MaxInt64"
    and "0 < limit" "ChargeCeilingNanoUSD entry = limit" "\<not> requestLogExists db2 (rl_ID entry)"
  defines "final \<equiv> setStreamOutcome (setCalculatedCost snapshot address describe entry (gq_model req) reported t) result"
  shows "(\<exists>db'. saveRequestLog dbnow2 final (db2, ob) = (db', ob) \<and>
      (\<exists>row. request_logs db' = request_logs db2 @ [row] \<and> rl_ID row = rl_ID entry \<and> 0 \<le> CostNanoUSD row \<and>
        CostNanoUSD row \<le> Available a \<and> (\<not> normalClose result \<longrightarrow> CostNanoUSD row = 0))) \<or>
    saveRequestLog dbnow2 final (db2, ob) = (db2, enqueue final ob) \<and> ChargeCeilingNanoUSD final \<le> Available a"
proof -
  have "limit \<le> Available a"
    using affordableGeneration_sound [OF assms(2,3), of snapshot address db dbnow now] assms(1)
    by (auto simp: admission_sound_def)
  have id: "rl_ID final = rl_ID entry" "ChargeCeilingNanoUSD final = limit" by (simp_all add: final_def assms(5))
  show ?thesis
  proof (cases "SettleUsageAndLog db2 dbnow2 final")
    case (Inl e)
    then show ?thesis using assms(4) id \<open>limit \<le> Available a\<close> by (simp add: saveRequestLog_def)
  next
    case (Inr db')
    have "saveRequestLog dbnow2 final (db2, ob) = (db', ob)" using Inr assms(4) id by (simp add: saveRequestLog_def)
    moreover have "normalClose result \<or> \<not> successful final"
      unfolding final_def using failed_stream_unsuccessful by blast
    ultimately show ?thesis
      using settled_row [OF Inr] assms(4,6) id \<open>limit \<le> Available a\<close> by fastforce
  qed
qed

theorem charge_within_admission_witness:
  "\<exists>final. ChargeCeilingNanoUSD final = 2 \<and>
     ((\<exists>db' row. saveRequestLog 60 final (example_store, newLogOutbox example_store) = (db', newLogOutbox example_store) \<and>
        request_logs db' = [row] \<and> 0 \<le> CostNanoUSD row \<and> CostNanoUSD row \<le> 2000) \<or>
      snd (saveRequestLog 60 final (example_store, newLogOutbox example_store)) = enqueue final (newLogOutbox example_store))"
proof -
  from plain_admitted obtain a where
    a: "affordableGeneration (\<lambda>s. fst s) (\<lambda>n. n) example_store 60 60 plain_request = Some (Inr (1000, 2, a))"
      "Available a = 2000" by blast
  define entry where "entry = example_log ''a'' 200 0 \<lparr> ChargeCeilingNanoUSD := 2 \<rparr>"
  define result where "result = \<lparr> normalClose = True, sr_idleTimeout = False, sr_requestErr = None \<rparr>"
  have "ChargeCeilingNanoUSD entry = 2" "\<not> requestLogExists example_store (rl_ID entry)" "request_logs example_store = []"
    by (simp_all add: entry_def requestLogExists_def example_store_def)
  with charge_within_admission [OF a(1), where entry = entry and ?db2.0 = example_store and describe = "\<lambda>e. ''error''" and reported = zero_report
      and t = 60 and result = result and ?dbnow2.0 = 60 and ob = "newLogOutbox example_store"] a(2)
  show ?thesis
    by (intro exI [of _ "setStreamOutcome (setCalculatedCost (\<lambda>s. fst s) (\<lambda>n. n) (\<lambda>e. ''error'') entry
        (gq_model plain_request) zero_report 60) result"])
      (auto simp: plain_request_fields MaxInt64_def)
qed

end
