(* ===== verification/JsonDecode.thy ===== *)
theory JsonDecode
  imports JsonText Json
begin

text \<open>
  \<open>json.Unmarshal\<close> of the Go library: a JSON text is parsed to \<open>raw\<close> values, which keep numbers as
  they are written, and those are stored into Go values. A decoder stores a raw value into a value
  of its type and tells whether some part had the wrong type; Go stores the other parts all the
  same. An element of a slice is decoded from the zero value, as it is unless an object repeats a
  key.
\<close>

datatype raw =
    RNull | RBool bool | RNum string | RStr string | RArr "raw list" | RObj "(string \<times> raw) list"

section \<open>Strings\<close>

definition utf8_encode :: "nat \<Rightarrow> string" where
  "utf8_encode n =
     (if n < 128 then [byte n]
      else if n < 2048 then [byte (192 + n div 64), byte (128 + n mod 64)]
      else if n < 65536 then [byte (224 + n div 4096), byte (128 + n div 64 mod 64), byte (128 + n mod 64)]
      else [byte (240 + n div 262144), byte (128 + n div 4096 mod 64), byte (128 + n div 64 mod 64), byte (128 + n mod 64)])"

definition hex_val :: "char \<Rightarrow> nat" where
  "hex_val c =
     (let n = of_char c in if n \<le> 57 then n - 48 else if n \<le> 70 then n - 55 else n - 87)"

definition hex4 :: "string \<Rightarrow> nat" where
  "hex4 s = foldl (\<lambda>acc c. 16 * acc + hex_val c) 0 (take 4 s)"

definition replacement :: string where
  "replacement = utf8_encode 65533"

text \<open>The low half of a surrogate pair, at the start of what follows the high half.\<close>

definition low_surrogate :: "string \<Rightarrow> nat option" where
  "low_surrogate s =
     (case s of
        b # u # h \<Rightarrow>
          if b = byte 92 \<and> u = CHR ''u'' \<and> 4 \<le> length h \<and> list_all is_hex (take 4 h) \<and>
             56320 \<le> hex4 h \<and> hex4 h < 57344
          then Some (hex4 h) else None
      | _ \<Rightarrow> None)"

definition escape_char :: "char \<Rightarrow> char" where
  "escape_char e =
     (if e = CHR ''b'' then byte 8 else if e = CHR ''f'' then byte 12 else if e = CHR ''n'' then byte 10
      else if e = CHR ''r'' then byte 13 else if e = CHR ''t'' then byte 9 else e)"

text \<open>The value of a string after its opening quote, and the rest of the text.\<close>

fun unquote :: "string \<Rightarrow> (string \<times> string) option" where
  "unquote [] = None"
| "unquote (c # cs) =
     (if c = byte 34 then Some ([], cs)
      else if c = byte 92 then
        (case cs of
           [] \<Rightarrow> None
         | e # es \<Rightarrow>
             if e \<in> set (byte 34 # byte 92 # ''/bfnrt'')
             then map_option (\<lambda>(v, r). (escape_char e # v, r)) (unquote es)
             else if e = CHR ''u'' \<and> 4 \<le> length es \<and> list_all is_hex (take 4 es)
             then
               (let n = hex4 es; more = drop 4 es
                in if 55296 \<le> n \<and> n < 57344 then
                     (case (if n < 56320 then low_surrogate more else None) of
                        Some m \<Rightarrow>
                          map_option (\<lambda>(v, r). (utf8_encode (65536 + (n - 55296) * 1024 + (m - 56320)) @ v, r))
                            (unquote (drop 6 more))
                      | None \<Rightarrow> map_option (\<lambda>(v, r). (replacement @ v, r)) (unquote more))
                   else map_option (\<lambda>(v, r). (utf8_encode n @ v, r)) (unquote more))
             else None)
      else if (of_char c :: nat) < 32 then None
      else if (of_char c :: nat) < 128 then map_option (\<lambda>(v, r). (c # v, r)) (unquote cs)
      else if rune_size (c # cs) = 1 then map_option (\<lambda>(v, r). (replacement @ v, r)) (unquote cs)
      else map_option (\<lambda>(v, r). (take (rune_size (c # cs)) (c # cs) @ v, r)) (unquote (drop (rune_size (c # cs) - 1) cs)))"

section \<open>Values\<close>

text \<open>The grammar is that of \<open>valid_json\<close>.\<close>

definition parse_literal :: "string \<Rightarrow> raw \<Rightarrow> string \<Rightarrow> (raw \<times> string) option" where
  "parse_literal word v s = map_option (Pair v) (scan_literal word s)"

definition parse_number :: "string \<Rightarrow> (raw \<times> string) option" where
  "parse_number s = map_option (\<lambda>r. (RNum (take (length s - length r) s), r)) (scan_number s)"

fun parse_value :: "nat \<Rightarrow> int \<Rightarrow> string \<Rightarrow> (raw \<times> string) option"
  and parse_members :: "nat \<Rightarrow> int \<Rightarrow> string \<Rightarrow> ((string \<times> raw) list \<times> string) option"
  and parse_elements :: "nat \<Rightarrow> int \<Rightarrow> string \<Rightarrow> (raw list \<times> string) option" where
  "parse_value 0 depth s = None"
| "parse_value (Suc n) depth s =
     (case skip_space s of
        [] \<Rightarrow> None
      | c # cs \<Rightarrow>
          if c = byte 34 then map_option (\<lambda>(v, r). (RStr v, r)) (unquote cs)
          else if c = CHR ''{'' then
            (if depth \<le> 0 then None
             else if HasPrefix (skip_space cs) ''}'' then Some (RObj [], drop 1 (skip_space cs))
             else map_option (\<lambda>(v, r). (RObj v, r)) (parse_members n (depth - 1) cs))
          else if c = CHR ''['' then
            (if depth \<le> 0 then None
             else if HasPrefix (skip_space cs) '']'' then Some (RArr [], drop 1 (skip_space cs))
             else map_option (\<lambda>(v, r). (RArr v, r)) (parse_elements n (depth - 1) cs))
          else if c = CHR ''t'' then parse_literal ''true'' (RBool True) (c # cs)
          else if c = CHR ''f'' then parse_literal ''false'' (RBool False) (c # cs)
          else if c = CHR ''n'' then parse_literal ''null'' RNull (c # cs)
          else parse_number (c # cs))"
| "parse_members 0 depth s = None"
| "parse_members (Suc n) depth s =
     Option.bind (if HasPrefix (skip_space s) [byte 34] then unquote (drop 1 (skip_space s)) else None) (\<lambda>(k, r).
     Option.bind (if HasPrefix (skip_space r) '':'' then parse_value n depth (drop 1 (skip_space r)) else None) (\<lambda>(v, r).
     if HasPrefix (skip_space r) '','' then map_option (\<lambda>(m, r). ((k, v) # m, r)) (parse_members n depth (drop 1 (skip_space r)))
     else if HasPrefix (skip_space r) ''}'' then Some ([(k, v)], drop 1 (skip_space r))
     else None))"
| "parse_elements 0 depth s = None"
| "parse_elements (Suc n) depth s =
     Option.bind (parse_value n depth s) (\<lambda>(v, r).
     if HasPrefix (skip_space r) '','' then map_option (\<lambda>(vs, r). (v # vs, r)) (parse_elements n depth (drop 1 (skip_space r)))
     else if HasPrefix (skip_space r) '']'' then Some ([v], drop 1 (skip_space r))
     else None)"

definition parse_json :: "string \<Rightarrow> raw option" where
  "parse_json s =
     (case parse_value (2 * length s + 2) 10000 s of
        None \<Rightarrow> None
      | Some (v, r) \<Rightarrow> if skip_space r = [] then Some v else None)"

section \<open>Numbers\<close>

text \<open>The rational a JSON number denotes; \<open>strconv.ParseFloat\<close> rounds it.\<close>

definition number_value :: "string \<Rightarrow> rat" where
  "number_value s =
     (let negative = HasPrefix s ''-'';
          u = TrimPrefix s ''-'';
          whole = takeWhile is_digit u;
          u = dropWhile is_digit u;
          part = (if HasPrefix u ''.'' then takeWhile is_digit (drop 1 u) else []);
          u = (if HasPrefix u ''.'' then dropWhile is_digit (drop 1 u) else u);
          digits = drop 1 u;
          down = HasPrefix digits ''-'';
          digits = (if down \<or> HasPrefix digits ''+'' then drop 1 digits else digits);
          e = int (dec_val digits);
          v = of_nat (dec_val (whole @ part)) / 10 ^ length part;
          v = (if down then v / 10 ^ dec_val digits else v * 10 ^ dec_val digits)
      in if negative then - v else v)"

definition parse_float :: "string \<Rightarrow> f64 option" where
  "parse_float s = (case round64 (number_value s) of FFin v \<Rightarrow> Some (FFin v) | _ \<Rightarrow> None)"

section \<open>Decoders\<close>

type_synonym 'a decoder = "raw \<Rightarrow> 'a \<Rightarrow> 'a \<times> bool"

definition dec_int :: "int decoder" where
  "dec_int v old =
     (case v of
        RNull \<Rightarrow> (old, False)
      | RNum s \<Rightarrow> (case ParseInt s of Some n \<Rightarrow> (n, False) | None \<Rightarrow> (old, True))
      | _ \<Rightarrow> (old, True))"

definition dec_float :: "f64 decoder" where
  "dec_float v old =
     (case v of
        RNull \<Rightarrow> (old, False)
      | RNum s \<Rightarrow> (case parse_float s of Some x \<Rightarrow> (x, False) | None \<Rightarrow> (old, True))
      | _ \<Rightarrow> (old, True))"

definition dec_string :: "string decoder" where
  "dec_string v old = (case v of RNull \<Rightarrow> (old, False) | RStr s \<Rightarrow> (s, False) | _ \<Rightarrow> (old, True))"

definition dec_bool :: "bool decoder" where
  "dec_bool v old = (case v of RNull \<Rightarrow> (old, False) | RBool b \<Rightarrow> (b, False) | _ \<Rightarrow> (old, True))"

definition dec_ptr :: "'a \<Rightarrow> 'a decoder \<Rightarrow> 'a option decoder" where
  "dec_ptr zero d v old =
     (if v = RNull then (None, False)
      else apfst Some (d v (case old of None \<Rightarrow> zero | Some x \<Rightarrow> x)))"

definition dec_list :: "'a \<Rightarrow> 'a decoder \<Rightarrow> 'a list decoder" where
  "dec_list zero d v old =
     (case v of
        RNull \<Rightarrow> ([], False)
      | RArr vs \<Rightarrow> (map (\<lambda>v. fst (d v zero)) vs, list_ex (\<lambda>v. snd (d v zero)) vs)
      | _ \<Rightarrow> (old, True))"

text \<open>\<open>interface{}\<close>: a number no float64 holds is an error and decodes to nil.\<close>

fun json_value :: "raw \<Rightarrow> json" where
  "json_value RNull = JNull"
| "json_value (RBool b) = JBool b"
| "json_value (RNum s) = (case parse_float s of Some x \<Rightarrow> JNum x | None \<Rightarrow> JNull)"
| "json_value (RStr s) = JStr s"
| "json_value (RArr vs) = JArr (map json_value vs)"
| "json_value (RObj m) = JObj (fold (\<lambda>(k, v) b. obj_set b k v) (map (\<lambda>(k, v). (k, json_value v)) m) [])"

fun json_bad :: "raw \<Rightarrow> bool" where
  "json_bad (RNum s) = (parse_float s = None)"
| "json_bad (RArr vs) = list_ex json_bad vs"
| "json_bad (RObj m) = list_ex (\<lambda>(k, v). json_bad v) m"
| "json_bad v = False"

definition dec_json :: "json decoder" where
  "dec_json v old =
     (case v of
        RNum s \<Rightarrow> (case parse_float s of Some x \<Rightarrow> (JNum x, False) | None \<Rightarrow> (old, True))
      | _ \<Rightarrow> (json_value v, json_bad v))"

text \<open>The key of a field matches exactly, or else up to the case; Kelvin sign and long s fold to
  letters.\<close>

fun fold_name :: "string \<Rightarrow> string" where
  "fold_name [] = []"
| "fold_name (c # cs) =
     (if HasPrefix (c # cs) [byte 226, byte 132, byte 170] then CHR ''k'' # fold_name (drop 2 cs)
      else if HasPrefix (c # cs) [byte 197, byte 191] then CHR ''s'' # fold_name (drop 1 cs)
      else lower_char c # fold_name cs)"

type_synonym 'r fields = "(string \<times> (raw \<Rightarrow> 'r \<Rightarrow> 'r \<times> bool)) list"

definition field_for :: "'r fields \<Rightarrow> string \<Rightarrow> (raw \<Rightarrow> 'r \<Rightarrow> 'r \<times> bool) option" where
  "field_for fs k =
     (case map_of fs k of
        Some d \<Rightarrow> Some d
      | None \<Rightarrow> map_option snd (find (\<lambda>(name, d). fold_name name = fold_name k) fs))"

fun dec_members :: "'r fields \<Rightarrow> (string \<times> raw) list \<Rightarrow> 'r \<Rightarrow> 'r \<times> bool" where
  "dec_members fs [] r = (r, False)"
| "dec_members fs ((k, v) # m) r =
     (case field_for fs k of
        None \<Rightarrow> dec_members fs m r
      | Some d \<Rightarrow>
          (case d v r of (r, bad) \<Rightarrow> apsnd (\<lambda>b. bad \<or> b) (dec_members fs m r)))"

definition dec_struct :: "'r fields \<Rightarrow> 'r decoder" where
  "dec_struct fs v old =
     (case v of RNull \<Rightarrow> (old, False) | RObj m \<Rightarrow> dec_members fs m old | _ \<Rightarrow> (old, True))"

definition fld :: "string \<Rightarrow> 'a decoder \<Rightarrow> ('r \<Rightarrow> 'a) \<Rightarrow> (('a \<Rightarrow> 'a) \<Rightarrow> 'r \<Rightarrow> 'r) \<Rightarrow>
    string \<times> (raw \<Rightarrow> 'r \<Rightarrow> 'r \<times> bool)" where
  "fld name d get upd = (name, \<lambda>v r. case d v (get r) of (x, bad) \<Rightarrow> (upd (\<lambda>_. x) r, bad))"

text \<open>\<open>json.Unmarshal\<close> into a value that starts as \<open>zero\<close>: a syntax error stores nothing.\<close>

definition unmarshal :: "'a \<Rightarrow> 'a decoder \<Rightarrow> string \<Rightarrow> 'a \<times> bool" where
  "unmarshal zero d text = (case parse_json text of None \<Rightarrow> (zero, True) | Some v \<Rightarrow> d v zero)"

text \<open>Into a nil \<open>map[string]interface{}\<close>, which \<open>null\<close> and every error but an unrepresentable number
  leave nil.\<close>

definition unmarshal_map :: "string \<Rightarrow> body option \<times> bool" where
  "unmarshal_map text =
     (case parse_json text of
        Some RNull \<Rightarrow> (None, False)
      | Some v \<Rightarrow> (case json_value v of JObj b \<Rightarrow> (Some b, json_bad v) | _ \<Rightarrow> (None, True))
      | None \<Rightarrow> (None, True))"

end
