(* ===== verification/Wire.thy ===== *)
theory Wire
  imports Admission Thinking JsonDecode
begin

text \<open>
  The two protocols (src/proxy/translator.go): the structures of requests, responses and stream
  chunks with the decoders their JSON tags give, the token counts an upstream may report under
  several names, and the text of a message. A nil \<open>interface{}\<close> is \<open>JNull\<close>.
\<close>

section \<open>OpenAI\<close>

record OpenAIFunctionCall =
  fc_Name :: string
  fc_Arguments :: string

record OpenAIToolCall =
  tc_Index :: "int option"
  tc_ID :: string
  tc_Type :: string
  tc_Function :: OpenAIFunctionCall

record OpenAIMessage =
  om_Role :: string
  om_Content :: json
  om_ToolCalls :: "OpenAIToolCall list"
  ToolCallID :: string
  om_ReasoningContent :: string

record OpenAIFunctionDef =
  fd_Name :: string
  fd_Description :: string
  Parameters :: json

record OpenAITool =
  ot_Type :: string
  ot_Function :: OpenAIFunctionDef

record AnthropicThinking =
  th_Type :: string
  BudgetTokens :: int

record OpenAIRequest =
  oq_Model :: string
  oq_Messages :: "OpenAIMessage list"
  oq_Temperature :: "f64 option"
  oq_MaxTokens :: "int option"
  oq_MaxCompletionTokens :: "int option"
  oq_Stream :: bool
  IncludeUsage :: "bool option"
  oq_Tools :: "OpenAITool list"
  ToolChoice :: json
  oq_ReasoningEffort :: "string option"
  oq_Thinking :: "AnthropicThinking option"
  WebSearch :: "bool option"

record PromptTokensDetail =
  CachedTokens :: int
  ptd_CacheWriteTokens :: int

record CompletionTokensDetail =
  ctd_ReasoningTokens :: int

record OpenAIUsage =
  ou_PromptTokens :: int
  ou_CompletionTokens :: int
  ou_TotalTokens :: int
  PromptTokensDetails :: "PromptTokensDetail option"
  PromptCacheHitTokens :: int
  PromptCacheMissTokens :: int
  CompletionTokensDetails :: "CompletionTokensDetail option"
  ou_CacheWriteTokens :: int
  ou_CacheWrite5mTokens :: int
  ou_CacheWrite1hTokens :: int

record OpenAIChoice =
  oc_Index :: int
  oc_Message :: OpenAIMessage
  oc_FinishReason :: string

record OpenAIResponse =
  or_ID :: string
  or_Object :: string
  or_Created :: int
  or_Model :: string
  or_Choices :: "OpenAIChoice list"
  or_Usage :: OpenAIUsage
  or_Provider :: string

record OpenAIDelta =
  dl_Role :: string
  dl_Content :: string
  dl_ReasoningContent :: string
  dl_ToolCalls :: "OpenAIToolCall list"

record OpenAIChunkChoice =
  cc_Index :: int
  Delta :: OpenAIDelta
  cc_FinishReason :: "string option"

record OpenAIChunk =
  ch_ID :: string
  ch_Object :: string
  ch_Created :: int
  ch_Model :: string
  ch_Choices :: "OpenAIChunkChoice list"
  ch_Usage :: "OpenAIUsage option"
  ch_Provider :: string

section \<open>Anthropic\<close>

record AnthropicSource =
  as_Type :: string
  MediaType :: string
  Data :: string

record AnthropicContent =
  ac_Type :: string
  ac_Text :: string
  ac_Thinking :: string
  Signature :: string
  ac_ID :: string
  ac_Name :: string
  Input :: "json option"
  ToolUseID :: string
  ac_Content :: json
  IsError :: bool
  Source :: "AnthropicSource option"

record AnthropicMessage =
  am_Role :: string
  am_Content :: "AnthropicContent list"

record AnthropicTool =
  at_Name :: string
  at_Description :: string
  InputSchema :: json

record AnthropicRequest =
  aq_Model :: string
  aq_Messages :: "AnthropicMessage list"
  System :: string
  aq_MaxTokens :: int
  aq_Temperature :: "f64 option"
  aq_Stream :: bool
  aq_Tools :: "AnthropicTool list"
  aq_Thinking :: "AnthropicThinking option"
  aq_ReasoningEffort :: "string option"

record AnthropicResponse =
  ar_ID :: string
  ar_Type :: string
  ar_Role :: string
  ar_Content :: "AnthropicContent list"
  ar_Model :: string
  StopReason :: string
  StopSequence :: "string option"
  ar_Usage :: AnthropicUsage

section \<open>Zero values and decoders\<close>

definition zero_call :: OpenAIToolCall where
  "zero_call = \<lparr> tc_Index = None, tc_ID = [], tc_Type = [], tc_Function = \<lparr> fc_Name = [], fc_Arguments = [] \<rparr> \<rparr>"

definition zero_message :: OpenAIMessage where
  "zero_message = \<lparr> om_Role = [], om_Content = JNull, om_ToolCalls = [], ToolCallID = [], om_ReasoningContent = [] \<rparr>"

definition zero_openai_usage :: OpenAIUsage where
  "zero_openai_usage = \<lparr> ou_PromptTokens = 0, ou_CompletionTokens = 0, ou_TotalTokens = 0, PromptTokensDetails = None,
     PromptCacheHitTokens = 0, PromptCacheMissTokens = 0, CompletionTokensDetails = None, ou_CacheWriteTokens = 0,
     ou_CacheWrite5mTokens = 0, ou_CacheWrite1hTokens = 0 \<rparr>"

definition zero_delta :: OpenAIDelta where
  "zero_delta = \<lparr> dl_Role = [], dl_Content = [], dl_ReasoningContent = [], dl_ToolCalls = [] \<rparr>"

definition zero_chunk :: OpenAIChunk where
  "zero_chunk = \<lparr> ch_ID = [], ch_Object = [], ch_Created = 0, ch_Model = [], ch_Choices = [], ch_Usage = None, ch_Provider = [] \<rparr>"

definition zero_content :: AnthropicContent where
  "zero_content = \<lparr> ac_Type = [], ac_Text = [], ac_Thinking = [], Signature = [], ac_ID = [], ac_Name = [], Input = None,
     ToolUseID = [], ac_Content = JNull, IsError = False, Source = None \<rparr>"

definition zero_anthropic_usage :: AnthropicUsage where
  "zero_anthropic_usage = \<lparr> au_InputTokens = 0, au_OutputTokens = 0, au_CacheReadInputTokens = 0,
     au_CacheCreationInputTokens = 0, au_CacheCreation5mInputTokens = 0, au_CacheCreation1hInputTokens = 0 \<rparr>"

definition dec_call :: "OpenAIToolCall decoder" where
  "dec_call = dec_struct
     [fld ''index'' (dec_ptr 0 dec_int) tc_Index tc_Index_update, fld ''id'' dec_string tc_ID tc_ID_update,
      fld ''type'' dec_string tc_Type tc_Type_update,
      fld ''function'' (dec_struct [fld ''name'' dec_string fc_Name fc_Name_update,
        fld ''arguments'' dec_string fc_Arguments fc_Arguments_update]) tc_Function tc_Function_update]"

definition dec_message :: "OpenAIMessage decoder" where
  "dec_message = dec_struct
     [fld ''role'' dec_string om_Role om_Role_update, fld ''content'' dec_json om_Content om_Content_update,
      fld ''tool_calls'' (dec_list zero_call dec_call) om_ToolCalls om_ToolCalls_update,
      fld ''tool_call_id'' dec_string ToolCallID ToolCallID_update,
      fld ''reasoning_content'' dec_string om_ReasoningContent om_ReasoningContent_update]"

text \<open>The fields tagged \<open>"-"\<close> are never decoded.\<close>

definition dec_openai_usage :: "OpenAIUsage decoder" where
  "dec_openai_usage = dec_struct
     [fld ''prompt_tokens'' dec_int ou_PromptTokens ou_PromptTokens_update,
      fld ''completion_tokens'' dec_int ou_CompletionTokens ou_CompletionTokens_update,
      fld ''total_tokens'' dec_int ou_TotalTokens ou_TotalTokens_update,
      fld ''prompt_tokens_details'' (dec_ptr \<lparr> CachedTokens = 0, ptd_CacheWriteTokens = 0 \<rparr>
        (dec_struct [fld ''cached_tokens'' dec_int CachedTokens CachedTokens_update,
           fld ''cache_write_tokens'' dec_int ptd_CacheWriteTokens ptd_CacheWriteTokens_update]))
        PromptTokensDetails PromptTokensDetails_update,
      fld ''prompt_cache_hit_tokens'' dec_int PromptCacheHitTokens PromptCacheHitTokens_update,
      fld ''prompt_cache_miss_tokens'' dec_int PromptCacheMissTokens PromptCacheMissTokens_update,
      fld ''completion_tokens_details'' (dec_ptr \<lparr> ctd_ReasoningTokens = 0 \<rparr>
        (dec_struct [fld ''reasoning_tokens'' dec_int ctd_ReasoningTokens ctd_ReasoningTokens_update]))
        CompletionTokensDetails CompletionTokensDetails_update]"

definition dec_openai_response :: "OpenAIResponse decoder" where
  "dec_openai_response = dec_struct
     [fld ''id'' dec_string or_ID or_ID_update, fld ''object'' dec_string or_Object or_Object_update,
      fld ''created'' dec_int or_Created or_Created_update, fld ''model'' dec_string or_Model or_Model_update,
      fld ''choices'' (dec_list \<lparr> oc_Index = 0, oc_Message = zero_message, oc_FinishReason = [] \<rparr>
        (dec_struct [fld ''index'' dec_int oc_Index oc_Index_update,
           fld ''message'' dec_message oc_Message oc_Message_update,
           fld ''finish_reason'' dec_string oc_FinishReason oc_FinishReason_update]))
        or_Choices or_Choices_update,
      fld ''usage'' dec_openai_usage or_Usage or_Usage_update, fld ''provider'' dec_string or_Provider or_Provider_update]"

definition dec_delta :: "OpenAIDelta decoder" where
  "dec_delta = dec_struct
     [fld ''role'' dec_string dl_Role dl_Role_update, fld ''content'' dec_string dl_Content dl_Content_update,
      fld ''reasoning_content'' dec_string dl_ReasoningContent dl_ReasoningContent_update,
      fld ''tool_calls'' (dec_list zero_call dec_call) dl_ToolCalls dl_ToolCalls_update]"

definition dec_chunk :: "OpenAIChunk decoder" where
  "dec_chunk = dec_struct
     [fld ''id'' dec_string ch_ID ch_ID_update, fld ''object'' dec_string ch_Object ch_Object_update,
      fld ''created'' dec_int ch_Created ch_Created_update, fld ''model'' dec_string ch_Model ch_Model_update,
      fld ''choices'' (dec_list \<lparr> cc_Index = 0, Delta = zero_delta, cc_FinishReason = None \<rparr>
        (dec_struct [fld ''index'' dec_int cc_Index cc_Index_update, fld ''delta'' dec_delta Delta Delta_update,
           fld ''finish_reason'' (dec_ptr [] dec_string) cc_FinishReason cc_FinishReason_update]))
        ch_Choices ch_Choices_update,
      fld ''usage'' (dec_ptr zero_openai_usage dec_openai_usage) ch_Usage ch_Usage_update,
      fld ''provider'' dec_string ch_Provider ch_Provider_update]"

definition dec_anthropic_usage :: "AnthropicUsage decoder" where
  "dec_anthropic_usage = dec_struct
     [fld ''input_tokens'' dec_int au_InputTokens au_InputTokens_update,
      fld ''output_tokens'' dec_int au_OutputTokens au_OutputTokens_update,
      fld ''cache_read_input_tokens'' dec_int au_CacheReadInputTokens au_CacheReadInputTokens_update,
      fld ''cache_creation_input_tokens'' dec_int au_CacheCreationInputTokens au_CacheCreationInputTokens_update]"

text \<open>The input of a tool call: \<open>None\<close> is the nil interface, \<open>Some JNull\<close> a nil map.\<close>

definition dec_input :: "json option decoder" where
  "dec_input v old =
     (if v = RNull then (None, False)
      else apfst (\<lambda>x. if x = JNull then None else Some x) (dec_json v (case old of Some x \<Rightarrow> x | None \<Rightarrow> JNull)))"

definition dec_content :: "AnthropicContent decoder" where
  "dec_content = dec_struct
     [fld ''type'' dec_string ac_Type ac_Type_update, fld ''text'' dec_string ac_Text ac_Text_update,
      fld ''thinking'' dec_string ac_Thinking ac_Thinking_update, fld ''signature'' dec_string Signature Signature_update,
      fld ''id'' dec_string ac_ID ac_ID_update, fld ''name'' dec_string ac_Name ac_Name_update,
      fld ''input'' dec_input Input Input_update, fld ''tool_use_id'' dec_string ToolUseID ToolUseID_update,
      fld ''content'' dec_json ac_Content ac_Content_update, fld ''is_error'' dec_bool IsError IsError_update,
      fld ''source'' (dec_ptr \<lparr> as_Type = [], MediaType = [], Data = [] \<rparr>
        (dec_struct [fld ''type'' dec_string as_Type as_Type_update,
           fld ''media_type'' dec_string MediaType MediaType_update, fld ''data'' dec_string Data Data_update]))
        Source Source_update]"

definition dec_anthropic_response :: "AnthropicResponse decoder" where
  "dec_anthropic_response = dec_struct
     [fld ''id'' dec_string ar_ID ar_ID_update, fld ''type'' dec_string ar_Type ar_Type_update,
      fld ''role'' dec_string ar_Role ar_Role_update,
      fld ''content'' (dec_list zero_content dec_content) ar_Content ar_Content_update,
      fld ''model'' dec_string ar_Model ar_Model_update, fld ''stop_reason'' dec_string StopReason StopReason_update,
      fld ''stop_sequence'' (dec_ptr [] dec_string) StopSequence StopSequence_update,
      fld ''usage'' dec_anthropic_usage ar_Usage ar_Usage_update]"

definition dec_thinking :: "AnthropicThinking decoder" where
  "dec_thinking = dec_struct
     [fld ''type'' dec_string th_Type th_Type_update, fld ''budget_tokens'' dec_int BudgetTokens BudgetTokens_update]"

definition zero_thinking :: AnthropicThinking where
  "zero_thinking = \<lparr> th_Type = [], BudgetTokens = 0 \<rparr>"

definition dec_tool :: "OpenAITool decoder" where
  "dec_tool = dec_struct
     [fld ''type'' dec_string ot_Type ot_Type_update,
      fld ''function'' (dec_struct [fld ''name'' dec_string fd_Name fd_Name_update,
        fld ''description'' dec_string fd_Description fd_Description_update,
        fld ''parameters'' dec_json Parameters Parameters_update]) ot_Function ot_Function_update]"

definition zero_openai_request :: OpenAIRequest where
  "zero_openai_request = \<lparr> oq_Model = [], oq_Messages = [], oq_Temperature = None, oq_MaxTokens = None,
     oq_MaxCompletionTokens = None, oq_Stream = False, IncludeUsage = None, oq_Tools = [], ToolChoice = JNull,
     oq_ReasoningEffort = None, oq_Thinking = None, WebSearch = None \<rparr>"

definition dec_openai_request :: "OpenAIRequest decoder" where
  "dec_openai_request = dec_struct
     [fld ''model'' dec_string oq_Model oq_Model_update,
      fld ''messages'' (dec_list zero_message dec_message) oq_Messages oq_Messages_update,
      fld ''temperature'' (dec_ptr (FFin 0) dec_float) oq_Temperature oq_Temperature_update,
      fld ''max_tokens'' (dec_ptr 0 dec_int) oq_MaxTokens oq_MaxTokens_update,
      fld ''max_completion_tokens'' (dec_ptr 0 dec_int) oq_MaxCompletionTokens oq_MaxCompletionTokens_update,
      fld ''stream'' dec_bool oq_Stream oq_Stream_update,
      fld ''stream_options'' (dec_ptr False (dec_struct [fld ''include_usage'' dec_bool (\<lambda>b. b) (\<lambda>f. f)]))
        IncludeUsage IncludeUsage_update,
      fld ''tools'' (dec_list \<lparr> ot_Type = [], ot_Function = \<lparr> fd_Name = [], fd_Description = [], Parameters = JNull \<rparr> \<rparr> dec_tool)
        oq_Tools oq_Tools_update,
      fld ''tool_choice'' dec_json ToolChoice ToolChoice_update,
      fld ''reasoning_effort'' (dec_ptr [] dec_string) oq_ReasoningEffort oq_ReasoningEffort_update,
      fld ''thinking'' (dec_ptr zero_thinking dec_thinking) oq_Thinking oq_Thinking_update,
      fld ''web_search'' (dec_ptr False dec_bool) WebSearch WebSearch_update]"

section \<open>Decoders of their own\<close>

text \<open>\<open>UnmarshalJSON\<close> of a message: its content is a text or a list of blocks.\<close>

definition message_content :: "raw \<Rightarrow> AnthropicContent list \<times> bool" where
  "message_content v =
     (case v of
        RNull \<Rightarrow> ([], False)
      | RStr s \<Rightarrow> ([zero_content \<lparr> ac_Type := ''text'', ac_Text := s \<rparr>], False)
      | RArr vs \<Rightarrow> dec_list zero_content dec_content v []
      | _ \<Rightarrow> ([], True))"

definition dec_anthropic_message :: "AnthropicMessage decoder" where
  "dec_anthropic_message v old =
     (case dec_struct [fld ''role'' dec_string fst apfst, fld ''content'' (\<lambda>v old. (v, False)) snd apsnd] v ([], RNull) of
        ((role, c), bad) \<Rightarrow>
          (case message_content c of (content, bad') \<Rightarrow>
             (\<lparr> am_Role = role, am_Content = content \<rparr>, bad \<or> json_bad c \<or> bad')))"

text \<open>\<open>UnmarshalJSON\<close> of a system prompt: a text, or a list whose texts are joined.\<close>

definition system_part :: "json \<Rightarrow> string list" where
  "system_part item =
     (case item of
        JStr s \<Rightarrow> [s]
      | JObj m \<Rightarrow>
          (if obj_get m ''type'' = Some (JStr ''text'')
           then (case obj_get m ''text'' of Some (JStr t) \<Rightarrow> [t] | _ \<Rightarrow> []) else [])
      | _ \<Rightarrow> [])"

definition dec_system :: "string decoder" where
  "dec_system v old =
     (case v of
        RNull \<Rightarrow> ([], False)
      | RStr s \<Rightarrow> (s, False)
      | RArr vs \<Rightarrow>
          if json_bad v then (old, True)
          else (JoinWith [byte 10, byte 10] (concat (map (\<lambda>w. system_part (json_value w)) vs)), False)
      | _ \<Rightarrow> (old, True))"

definition zero_anthropic_request :: AnthropicRequest where
  "zero_anthropic_request = \<lparr> aq_Model = [], aq_Messages = [], System = [], aq_MaxTokens = 0, aq_Temperature = None,
     aq_Stream = False, aq_Tools = [], aq_Thinking = None, aq_ReasoningEffort = None \<rparr>"

definition dec_anthropic_request :: "AnthropicRequest decoder" where
  "dec_anthropic_request = dec_struct
     [fld ''model'' dec_string aq_Model aq_Model_update,
      fld ''messages'' (dec_list \<lparr> am_Role = [], am_Content = [] \<rparr> dec_anthropic_message) aq_Messages aq_Messages_update,
      fld ''system'' dec_system System System_update,
      fld ''max_tokens'' dec_int aq_MaxTokens aq_MaxTokens_update,
      fld ''temperature'' (dec_ptr (FFin 0) dec_float) aq_Temperature aq_Temperature_update,
      fld ''stream'' dec_bool aq_Stream aq_Stream_update,
      fld ''tools'' (dec_list \<lparr> at_Name = [], at_Description = [], InputSchema = JNull \<rparr>
        (dec_struct [fld ''name'' dec_string at_Name at_Name_update,
           fld ''description'' dec_string at_Description at_Description_update,
           fld ''input_schema'' dec_json InputSchema InputSchema_update])) aq_Tools aq_Tools_update,
      fld ''thinking'' (dec_ptr zero_thinking dec_thinking) aq_Thinking aq_Thinking_update,
      fld ''reasoning_effort'' (dec_ptr [] dec_string) aq_ReasoningEffort aq_ReasoningEffort_update]"

section \<open>What an upstream reports\<close>

definition ReasoningTokensReported :: "OpenAIUsage option \<Rightarrow> int" where
  "ReasoningTokensReported usage =
     (case usage of
        None \<Rightarrow> 0
      | Some u \<Rightarrow>
          (case CompletionTokensDetails u of
             None \<Rightarrow> 0
           | Some d \<Rightarrow>
               let reasoning = ctd_ReasoningTokens d
               in if reasoning < 0 then 0
                  else if ou_CompletionTokens u > 0 \<and> reasoning > ou_CompletionTokens u then ou_CompletionTokens u
                  else reasoning))"

definition CacheWriteTokensReported :: "OpenAIUsage option \<Rightarrow> int" where
  "CacheWriteTokensReported usage =
     (case usage of
        None \<Rightarrow> 0
      | Some u \<Rightarrow>
          (case PromptTokensDetails u of
             Some d \<Rightarrow> if ptd_CacheWriteTokens d > 0 then ptd_CacheWriteTokens d else ou_CacheWriteTokens u
           | None \<Rightarrow> ou_CacheWriteTokens u))"

definition CacheWriteTokensByTTL :: "OpenAIUsage option \<Rightarrow> int \<times> int \<times> int" where
  "CacheWriteTokensByTTL usage =
     (case usage of
        None \<Rightarrow> (0, 0, 0)
      | Some u \<Rightarrow>
          (let fiveMinute = ou_CacheWrite5mTokens u; oneHour = ou_CacheWrite1hTokens u;
               flat = i64 (i64 (CacheWriteTokensReported usage - fiveMinute) - oneHour)
           in (if flat < 0 then 0 else flat, fiveMinute, oneHour)))"

definition CacheReadTokens_reported :: "OpenAIUsage option \<Rightarrow> int" where
  "CacheReadTokens_reported usage =
     (case usage of
        None \<Rightarrow> 0
      | Some u \<Rightarrow>
          (let read = (case PromptTokensDetails u of Some d \<Rightarrow> CachedTokens d | None \<Rightarrow> 0)
           in if PromptCacheHitTokens u > read then PromptCacheHitTokens u else read))"

definition minimaxCacheThresholdTokens :: int where
  "minimaxCacheThresholdTokens = 512"

definition CacheReadTokensFor :: "OpenAIUsage option \<Rightarrow> string \<Rightarrow> string \<Rightarrow> int" where
  "CacheReadTokensFor usage baseURL targetModel =
     (let read = CacheReadTokens_reported usage
      in case usage of
           None \<Rightarrow> read
         | Some u \<Rightarrow>
             if classifyUpstream baseURL targetModel \<noteq> famMiniMax then read
             else if ou_PromptTokens u < minimaxCacheThresholdTokens then 0
             else if read > ou_PromptTokens u then ou_PromptTokens u
             else read)"

definition CacheMissTokensFor :: "OpenAIUsage option \<Rightarrow> string \<Rightarrow> string \<Rightarrow> int option" where
  "CacheMissTokensFor usage baseURL targetModel =
     (case usage of
        None \<Rightarrow> None
      | Some u \<Rightarrow>
          if PromptCacheMissTokens u > 0 then Some (PromptCacheMissTokens u)
          else if classifyUpstream baseURL targetModel \<noteq> famMiniMax \<or> ou_PromptTokens u < minimaxCacheThresholdTokens \<or>
                  PromptTokensDetails u = None
          then None
          else Some (i64 (ou_PromptTokens u - CacheReadTokensFor usage baseURL targetModel)))"

text \<open>The breakdown of cache writes by lifetime, from a decoded map. \<open>int(value)\<close> of a float64.\<close>

definition float_field :: "body \<Rightarrow> string \<Rightarrow> int option" where
  "float_field m k = (case obj_get m k of Some (JNum x) \<Rightarrow> Some (f64_to_int64 x) | _ \<Rightarrow> None)"

definition ParseAnthropicCacheCreation :: "body \<Rightarrow> (int \<times> int) option" where
  "ParseAnthropicCacheCreation usage =
     map_option (\<lambda>nested.
         ((case float_field nested ''ephemeral_5m_input_tokens'' of Some n \<Rightarrow> n | None \<Rightarrow> 0),
          (case float_field nested ''ephemeral_1h_input_tokens'' of Some n \<Rightarrow> n | None \<Rightarrow> 0)))
       (as_object (obj_get usage ''cache_creation''))"

definition ApplyCacheCreation :: "AnthropicUsage \<Rightarrow> (int \<times> int) option \<Rightarrow> AnthropicUsage" where
  "ApplyCacheCreation u breakdown =
     (case breakdown of
        None \<Rightarrow> u
      | Some (m5, h1) \<Rightarrow> u \<lparr> au_CacheCreation5mInputTokens := m5, au_CacheCreation1hInputTokens := h1 \<rparr>)"

section \<open>The text of a message\<close>

definition text_part :: "json \<Rightarrow> string list" where
  "text_part part =
     (case part of
        JObj m \<Rightarrow>
          (if obj_get m ''type'' = Some (JStr ''text'')
           then (case obj_get m ''text'' of Some (JStr t) \<Rightarrow> [t] | _ \<Rightarrow> []) else [])
      | _ \<Rightarrow> [])"

text \<open>\<open>show\<close> is \<open>fmt.Sprintf("%v", v)\<close>, the text of a content that is neither a string nor a list.\<close>

definition GetMessageContentString :: "(json \<Rightarrow> string) \<Rightarrow> json \<Rightarrow> string" where
  "GetMessageContentString show content =
     (case content of
        JNull \<Rightarrow> []
      | JStr s \<Rightarrow> s
      | JArr parts \<Rightarrow> JoinWith [byte 10] (concat (map text_part parts))
      | v \<Rightarrow> show v)"

end
