(* ===== verification/Translate.thy ===== *)
theory Translate
  imports Wire
begin

text \<open>
  The translation of requests and responses between the two protocols (src/proxy/translator.go) and
  the bodies \<open>json.Marshal\<close> makes of the translated structures (decoded again to a map).
  \<open>show\<close> is \<open>fmt.Sprintf("%v", v)\<close> of a decoded value and \<open>marshal\<close> is \<open>json.Marshal\<close> of one.
\<close>

section \<open>OpenAI to Anthropic\<close>

definition text_block :: "string \<Rightarrow> AnthropicContent" where
  "text_block s = zero_content \<lparr> ac_Type := ''text'', ac_Text := s \<rparr>"

text \<open>A data URL: media type and data.\<close>

definition image_block :: "string \<Rightarrow> AnthropicContent list" where
  "image_block url =
     (if HasPrefix url ''data:'' \<and> CHR '','' \<in> set url then
        (let header = takeWhile (\<lambda>c. c \<noteq> CHR '','') url;
             base64Data = drop (length header + 1) url;
             mediaType = (if CHR '';'' \<in> set header \<and> HasPrefix header ''data:''
                          then drop 5 (takeWhile (\<lambda>c. c \<noteq> CHR '';'') header) else ''image/jpeg'')
         in [zero_content \<lparr> ac_Type := ''image'',
               Source := Some \<lparr> as_Type = ''base64'', MediaType = mediaType, Data = base64Data \<rparr> \<rparr>])
      else [])"

definition content_part :: "json \<Rightarrow> AnthropicContent list" where
  "content_part part =
     (case as_object (Some part) of
        None \<Rightarrow> []
      | Some m \<Rightarrow>
          (let t = as_string (obj_get m ''type'')
           in if t = ''text'' then
                (case obj_get m ''text'' of Some (JStr s) \<Rightarrow> [text_block s] | _ \<Rightarrow> [])
              else if t = ''image_url'' then
                (case as_object (obj_get m ''image_url'') of
                   None \<Rightarrow> []
                 | Some img \<Rightarrow> (case obj_get img ''url'' of Some (JStr url) \<Rightarrow> image_block url | _ \<Rightarrow> []))
              else []))"

definition TranslateOpenAIContentToAnthropic :: "(json \<Rightarrow> string) \<Rightarrow> json \<Rightarrow> AnthropicContent list" where
  "TranslateOpenAIContentToAnthropic show content =
     (case content of
        JNull \<Rightarrow> []
      | JStr s \<Rightarrow> [text_block s]
      | JArr parts \<Rightarrow> concat (map content_part parts)
      | v \<Rightarrow> [text_block (show v)])"

text \<open>The arguments of a call are decoded into a nil map, which an unreadable text leaves nil.\<close>

definition call_input :: "string \<Rightarrow> json" where
  "call_input arguments = (case fst (unmarshal_map arguments) of None \<Rightarrow> JNull | Some m \<Rightarrow> JObj m)"

definition tool_use_block :: "OpenAIToolCall \<Rightarrow> AnthropicContent" where
  "tool_use_block tc =
     zero_content \<lparr> ac_Type := ''tool_use'', ac_ID := tc_ID tc, ac_Name := fc_Name (tc_Function tc),
       Input := Some (call_input (fc_Arguments (tc_Function tc))) \<rparr>"

definition anthropic_role :: "string \<Rightarrow> string" where
  "anthropic_role r = (if r = ''tool'' then ''user'' else if r \<noteq> ''user'' \<and> r \<noteq> ''assistant'' then ''user'' else r)"

definition anthropic_blocks :: "(json \<Rightarrow> string) \<Rightarrow> OpenAIMessage \<Rightarrow> AnthropicContent list" where
  "anthropic_blocks show msg =
     (if om_Role msg = ''tool''
      then [zero_content \<lparr> ac_Type := ''tool_result'', ToolUseID := ToolCallID msg,
              ac_Content := JStr (GetMessageContentString show (om_Content msg)) \<rparr>]
      else TranslateOpenAIContentToAnthropic show (om_Content msg) @ map tool_use_block (om_ToolCalls msg))"

text \<open>Consecutive messages of one role are merged, empty ones skipped.\<close>

definition extend_last :: "AnthropicMessage list \<Rightarrow> AnthropicContent list \<Rightarrow> AnthropicMessage list" where
  "extend_last acc content = butlast acc @ [(last acc) \<lparr> am_Content := am_Content (last acc) @ content \<rparr>]"

fun merge_messages ::
  "(json \<Rightarrow> string) \<Rightarrow> OpenAIMessage list \<Rightarrow> AnthropicMessage list \<Rightarrow> AnthropicMessage list" where
  "merge_messages show [] acc = acc"
| "merge_messages show (msg # msgs) acc =
     (let role = anthropic_role (om_Role msg); content = anthropic_blocks show msg
      in merge_messages show msgs
           (if content = [] then acc
            else if acc \<noteq> [] \<and> am_Role (last acc) = role
            then extend_last acc content
            else acc @ [\<lparr> am_Role = role, am_Content = content \<rparr>]))"

definition hello :: AnthropicMessage where
  "hello = \<lparr> am_Role = ''user'', am_Content = [text_block ''Hello''] \<rparr>"

definition user_first :: "AnthropicMessage list \<Rightarrow> AnthropicMessage list" where
  "user_first msgs =
     (let msgs = (if msgs \<noteq> [] \<and> am_Role (hd msgs) \<noteq> ''user'' then hello # msgs else msgs)
      in if msgs = [] then [hello] else msgs)"

definition TranslateOpenAIToAnthropic :: "(json \<Rightarrow> string) \<Rightarrow> OpenAIRequest \<Rightarrow> string \<Rightarrow> AnthropicRequest" where
  "TranslateOpenAIToAnthropic show orig targetModel =
     (let systemParts = map (\<lambda>m. GetMessageContentString show (om_Content m)) (filter (\<lambda>m. om_Role m = ''system'') (oq_Messages orig));
          rawMessages = filter (\<lambda>m. om_Role m \<noteq> ''system'') (oq_Messages orig)
      in \<lparr> aq_Model = targetModel, aq_Messages = user_first (merge_messages show rawMessages []),
           System = JoinWith [byte 10, byte 10] systemParts,
           aq_MaxTokens = (case oq_MaxTokens orig of Some n \<Rightarrow> n
                           | None \<Rightarrow> (case oq_MaxCompletionTokens orig of Some n \<Rightarrow> n | None \<Rightarrow> 4096)),
           aq_Temperature = oq_Temperature orig, aq_Stream = oq_Stream orig,
           aq_Tools = map (\<lambda>t. \<lparr> at_Name = fd_Name (ot_Function t), at_Description = fd_Description (ot_Function t),
                                 InputSchema = Parameters (ot_Function t) \<rparr>)
                          (filter (\<lambda>t. ot_Type t = ''function'') (oq_Tools orig)),
           aq_Thinking = oq_Thinking orig, aq_ReasoningEffort = None \<rparr>)"

section \<open>Anthropic to OpenAI\<close>

definition thinking_text :: "string \<Rightarrow> string" where
  "thinking_text t = ''<thinking>'' @ [byte 10] @ t @ [byte 10] @ ''</thinking>'' @ [byte 10]"

definition block_text :: "AnthropicContent \<Rightarrow> string list" where
  "block_text b =
     (if ac_Type b = ''text'' then [ac_Text b]
      else if ac_Type b = ''thinking'' then [thinking_text (ac_Thinking b)]
      else [])"

definition block_call :: "(json \<Rightarrow> string) \<Rightarrow> AnthropicContent \<Rightarrow> OpenAIToolCall list" where
  "block_call marshal b =
     (if ac_Type b = ''tool_use''
      then [\<lparr> tc_Index = None, tc_ID = ac_ID b, tc_Type = ''function'',
              tc_Function = \<lparr> fc_Name = ac_Name b,
                fc_Arguments = marshal (case Input b of None \<Rightarrow> JNull | Some v \<Rightarrow> v) \<rparr> \<rparr>]
      else [])"

definition block_result :: "(json \<Rightarrow> string) \<Rightarrow> AnthropicContent \<Rightarrow> OpenAIMessage list" where
  "block_result marshal b =
     (if ac_Type b = ''tool_result''
      then [zero_message \<lparr> om_Role := ''tool'', ToolCallID := ToolUseID b,
              om_Content := JStr (case ac_Content b of JNull \<Rightarrow> [] | JStr s \<Rightarrow> s | v \<Rightarrow> marshal v) \<rparr>]
      else [])"

definition openai_messages :: "(json \<Rightarrow> string) \<Rightarrow> AnthropicMessage \<Rightarrow> OpenAIMessage list" where
  "openai_messages marshal msg =
     (let text = JoinWith [byte 10] (concat (map block_text (am_Content msg)));
          calls = concat (map (block_call marshal) (am_Content msg))
      in concat (map (block_result marshal) (am_Content msg)) @
         (if text \<noteq> [] \<or> calls \<noteq> []
          then [zero_message \<lparr> om_Role := am_Role msg, om_Content := JStr text, om_ToolCalls := calls \<rparr>]
          else []))"

definition TranslateAnthropicToOpenAI :: "(json \<Rightarrow> string) \<Rightarrow> AnthropicRequest \<Rightarrow> string \<Rightarrow> OpenAIRequest" where
  "TranslateAnthropicToOpenAI marshal orig targetModel =
     \<lparr> oq_Model = targetModel,
       oq_Messages =
         (if System orig \<noteq> [] then [zero_message \<lparr> om_Role := ''system'', om_Content := JStr (System orig) \<rparr>] else []) @
         concat (map (openai_messages marshal) (aq_Messages orig)),
       oq_Temperature = aq_Temperature orig, oq_MaxTokens = Some (aq_MaxTokens orig), oq_MaxCompletionTokens = None,
       oq_Stream = aq_Stream orig, IncludeUsage = (if aq_Stream orig then Some True else None),
       oq_Tools = map (\<lambda>t. \<lparr> ot_Type = ''function'', ot_Function = \<lparr> fd_Name = at_Name t, fd_Description = at_Description t,
                              Parameters = InputSchema t \<rparr> \<rparr>) (aq_Tools orig),
       ToolChoice = JNull, oq_ReasoningEffort = None, oq_Thinking = None, WebSearch = None \<rparr>"

section \<open>Responses\<close>

definition TranslateOpenAIToAnthropicResponse :: "(json \<Rightarrow> string) \<Rightarrow> OpenAIResponse \<Rightarrow> string \<Rightarrow> AnthropicResponse" where
  "TranslateOpenAIToAnthropicResponse show oaiResp virtualModel =
     (let (content, finishReason) =
            (case or_Choices oaiResp of
               [] \<Rightarrow> ([], ''end_turn'')
             | choice # rest \<Rightarrow>
                 (let text = GetMessageContentString show (om_Content (oc_Message choice))
                  in ((if text \<noteq> [] then [text_block text] else []) @ map tool_use_block (om_ToolCalls (oc_Message choice)),
                      if oc_FinishReason choice = ''length'' then ''max_tokens''
                      else if oc_FinishReason choice = ''tool_calls'' then ''tool_use'' else ''end_turn'')))
      in \<lparr> ar_ID = or_ID oaiResp, ar_Type = ''message'', ar_Role = ''assistant'', ar_Content = content, ar_Model = virtualModel,
           StopReason = finishReason, StopSequence = None,
           ar_Usage = zero_anthropic_usage \<lparr> au_InputTokens := ou_PromptTokens (or_Usage oaiResp),
             au_OutputTokens := ou_CompletionTokens (or_Usage oaiResp),
             au_CacheReadInputTokens := CacheReadTokens_reported (Some (or_Usage oaiResp)) \<rparr> \<rparr>)"

text \<open>\<open>created\<close> is the clock.\<close>

definition TranslateAnthropicToOpenAIResponse ::
  "(json \<Rightarrow> string) \<Rightarrow> int \<Rightarrow> AnthropicResponse \<Rightarrow> string \<Rightarrow> OpenAIResponse" where
  "TranslateAnthropicToOpenAIResponse marshal created resp virtualModel =
     \<lparr> or_ID = ar_ID resp, or_Object = ''chat.completion'', or_Created = created, or_Model = virtualModel,
       or_Choices = [\<lparr> oc_Index = 0,
         oc_Message = zero_message \<lparr> om_Role := ''assistant'',
           om_Content := JStr (JoinWith [byte 10] (concat (map block_text (ar_Content resp)))),
           om_ToolCalls := concat (map (block_call marshal) (ar_Content resp)) \<rparr>,
         oc_FinishReason = (if StopReason resp = ''max_tokens'' then ''length''
                            else if StopReason resp = ''tool_use'' then ''tool_calls'' else ''stop'') \<rparr>],
       or_Usage = zero_openai_usage \<lparr> ou_PromptTokens := au_InputTokens (ar_Usage resp),
         ou_CompletionTokens := au_OutputTokens (ar_Usage resp),
         ou_TotalTokens := i64 (au_InputTokens (ar_Usage resp) + au_OutputTokens (ar_Usage resp)),
         PromptTokensDetails := Some \<lparr> CachedTokens = au_CacheReadInputTokens (ar_Usage resp), ptd_CacheWriteTokens = 0 \<rparr> \<rparr>,
       or_Provider = [] \<rparr>"

section \<open>Bodies\<close>

text \<open>A field tagged \<open>omitempty\<close>.\<close>

definition opt :: "string \<Rightarrow> bool \<Rightarrow> json \<Rightarrow> body" where
  "opt k present v = (if present then [(k, v)] else [])"

definition opt_string :: "string \<Rightarrow> string \<Rightarrow> body" where
  "opt_string k s = opt k (s \<noteq> []) (JStr s)"

definition json_int :: "int \<Rightarrow> json" where
  "json_int n = JNum (f64_of_int n)"

definition opt_ptr :: "string \<Rightarrow> ('a \<Rightarrow> json) \<Rightarrow> 'a option \<Rightarrow> body" where
  "opt_ptr k f x = (case x of None \<Rightarrow> [] | Some v \<Rightarrow> [(k, f v)])"

definition content_body :: "AnthropicContent \<Rightarrow> json" where
  "content_body c = JObj
     ([(''type'', JStr (ac_Type c))] @ opt_string ''text'' (ac_Text c) @ opt_string ''thinking'' (ac_Thinking c) @
      opt_string ''signature'' (Signature c) @ opt_string ''id'' (ac_ID c) @ opt_string ''name'' (ac_Name c) @
      opt_ptr ''input'' (\<lambda>v. v) (Input c) @ opt_string ''tool_use_id'' (ToolUseID c) @
      opt ''content'' (ac_Content c \<noteq> JNull) (ac_Content c) @ opt ''is_error'' (IsError c) (JBool True) @
      opt_ptr ''source'' (\<lambda>s. JObj [(''type'', JStr (as_Type s)), (''media_type'', JStr (MediaType s)), (''data'', JStr (Data s))])
        (Source c))"

definition thinking_body :: "AnthropicThinking \<Rightarrow> json" where
  "thinking_body t = JObj [(''type'', JStr (th_Type t)), (''budget_tokens'', json_int (BudgetTokens t))]"

text \<open>An absent list is \<open>null\<close>; the code never makes an empty one that is not nil.\<close>

definition json_list :: "json list \<Rightarrow> json" where
  "json_list xs = (if xs = [] then JNull else JArr xs)"

definition anthropic_body :: "AnthropicRequest \<Rightarrow> body" where
  "anthropic_body q =
     [(''model'', JStr (aq_Model q)),
      (''messages'', json_list (map (\<lambda>m. JObj [(''role'', JStr (am_Role m)), (''content'', json_list (map content_body (am_Content m)))])
        (aq_Messages q)))] @
     opt_string ''system'' (System q) @ [(''max_tokens'', json_int (aq_MaxTokens q))] @
     opt_ptr ''temperature'' JNum (aq_Temperature q) @ opt ''stream'' (aq_Stream q) (JBool True) @
     opt ''tools'' (aq_Tools q \<noteq> []) (JArr (map (\<lambda>t. JObj ([(''name'', JStr (at_Name t))] @
       opt_string ''description'' (at_Description t) @ [(''input_schema'', InputSchema t)])) (aq_Tools q))) @
     opt_ptr ''thinking'' thinking_body (aq_Thinking q) @ opt_ptr ''reasoning_effort'' JStr (aq_ReasoningEffort q)"

definition call_body :: "OpenAIToolCall \<Rightarrow> json" where
  "call_body c = JObj (opt_ptr ''index'' json_int (tc_Index c) @
     [(''id'', JStr (tc_ID c)), (''type'', JStr (tc_Type c)),
      (''function'', JObj [(''name'', JStr (fc_Name (tc_Function c))), (''arguments'', JStr (fc_Arguments (tc_Function c)))])])"

definition openai_message_body :: "OpenAIMessage \<Rightarrow> json" where
  "openai_message_body m = JObj
     ([(''role'', JStr (om_Role m))] @ opt ''content'' (om_Content m \<noteq> JNull) (om_Content m) @
      opt ''tool_calls'' (om_ToolCalls m \<noteq> []) (JArr (map call_body (om_ToolCalls m))) @
      opt_string ''tool_call_id'' (ToolCallID m) @ opt_string ''reasoning_content'' (om_ReasoningContent m))"

definition openai_body :: "OpenAIRequest \<Rightarrow> body" where
  "openai_body q =
     [(''model'', JStr (oq_Model q)), (''messages'', json_list (map openai_message_body (oq_Messages q)))] @
     opt_ptr ''temperature'' JNum (oq_Temperature q) @ opt_ptr ''max_tokens'' json_int (oq_MaxTokens q) @
     opt_ptr ''max_completion_tokens'' json_int (oq_MaxCompletionTokens q) @ opt ''stream'' (oq_Stream q) (JBool True) @
     opt_ptr ''stream_options'' (\<lambda>b. JObj [(''include_usage'', JBool b)]) (IncludeUsage q) @
     opt ''tools'' (oq_Tools q \<noteq> []) (JArr (map (\<lambda>t. JObj [(''type'', JStr (ot_Type t)),
       (''function'', JObj ([(''name'', JStr (fd_Name (ot_Function t)))] @ opt_string ''description'' (fd_Description (ot_Function t)) @
          opt ''parameters'' (Parameters (ot_Function t) \<noteq> JNull) (Parameters (ot_Function t))))]) (oq_Tools q))) @
     opt ''tool_choice'' (ToolChoice q \<noteq> JNull) (ToolChoice q) @ opt_ptr ''reasoning_effort'' JStr (oq_ReasoningEffort q) @
     opt_ptr ''thinking'' thinking_body (oq_Thinking q) @ opt_ptr ''web_search'' JBool (WebSearch q)"

section \<open>Lemmas\<close>

text \<open>What the upstream demands of a conversation: it starts with the user, the roles alternate and no
  message is empty.\<close>

definition turns_ok :: "AnthropicMessage list \<Rightarrow> bool" where
  "turns_ok msgs \<longleftrightarrow> successively (\<lambda>a b. am_Role a \<noteq> am_Role b) msgs \<and>
     (\<forall>m \<in> set msgs. am_Role m \<in> {''user'', ''assistant''} \<and> am_Content m \<noteq> [])"

definition conversation_ok :: "AnthropicMessage list \<Rightarrow> bool" where
  "conversation_ok msgs \<longleftrightarrow> msgs \<noteq> [] \<and> am_Role (hd msgs) = ''user'' \<and> turns_ok msgs"

text \<open>The blocks of a conversation, each with its speaker.\<close>

definition spoken :: "AnthropicMessage list \<Rightarrow> (string \<times> AnthropicContent) list" where
  "spoken msgs = concat (map (\<lambda>m. map (Pair (am_Role m)) (am_Content m)) msgs)"

definition asked :: "(json \<Rightarrow> string) \<Rightarrow> OpenAIMessage list \<Rightarrow> (string \<times> AnthropicContent) list" where
  "asked show msgs = concat (map (\<lambda>m. map (Pair (anthropic_role (om_Role m))) (anthropic_blocks show m)) msgs)"

lemma spoken_simps [simp]:
  "spoken [] = []" "spoken (m # ms) = map (Pair (am_Role m)) (am_Content m) @ spoken ms" "spoken (xs @ ys) = spoken xs @ spoken ys"
  by (simp_all add: spoken_def)

lemma asked_simps [simp]:
  "asked show [] = []"
  "asked show (m # ms) = map (Pair (anthropic_role (om_Role m))) (anthropic_blocks show m) @ asked show ms"
  by (simp_all add: asked_def)

lemma anthropic_role_range: "anthropic_role r \<in> {''user'', ''assistant''}"
  by (auto simp: anthropic_role_def)

lemma turns_snoc:
  "turns_ok (acc @ [m]) \<longleftrightarrow> turns_ok acc \<and> (acc \<noteq> [] \<longrightarrow> am_Role (last acc) \<noteq> am_Role m) \<and>
     am_Role m \<in> {''user'', ''assistant''} \<and> am_Content m \<noteq> []"
  by (auto simp: turns_ok_def successively_append_iff)

lemma turns_extend:
  assumes "turns_ok acc" "acc \<noteq> []"
  shows "turns_ok (extend_last acc content)"
proof -
  have "turns_ok (butlast acc @ [last acc])" using assms by simp
  then show ?thesis unfolding extend_last_def turns_snoc by simp
qed

lemma spoken_extend:
  assumes "acc \<noteq> []"
  shows "spoken (extend_last acc content) = spoken acc @ map (Pair (am_Role (last acc))) content"
proof -
  have "spoken acc = spoken (butlast acc @ [last acc])" using assms by simp
  then show ?thesis unfolding extend_last_def by (simp del: append_butlast_last_id)
qed

lemma extend_last_simps:
  "extend_last acc content \<noteq> []" "am_Role (last (extend_last acc content)) = am_Role (last acc)"
  "extend_last (extend_last acc c1) c2 = extend_last acc (c1 @ c2)" "acc \<noteq> [] \<Longrightarrow> extend_last acc [] = acc"
  "extend_last (acc @ [m]) content = acc @ [m \<lparr> am_Content := am_Content m @ content \<rparr>]"
  by (simp_all add: extend_last_def)

lemma merge_messages_turns: "turns_ok acc \<Longrightarrow> turns_ok (merge_messages show msgs acc)"
proof (induction msgs arbitrary: acc)
  case (Cons msg msgs)
  show ?case
    unfolding merge_messages.simps Let_def
    using Cons.prems anthropic_role_range [of "om_Role msg"]
    by (intro Cons.IH) (auto simp: turns_extend turns_snoc)
qed simp

lemma merge_messages_spoken: "spoken (merge_messages show msgs acc) = spoken acc @ asked show msgs"
proof (induction msgs arbitrary: acc)
  case (Cons msg msgs)
  then show ?case by (auto simp: Let_def spoken_extend)
qed simp

lemma hello_fields [simp]: "am_Role hello = ''user''" "am_Content hello = [text_block ''Hello'']"
  by (simp_all add: hello_def)

lemma user_first_ok: "turns_ok msgs \<Longrightarrow> conversation_ok (user_first msgs)"
  by (cases msgs) (auto simp: user_first_def conversation_ok_def turns_ok_def)

lemma user_first_spoken:
  "spoken (user_first msgs) = (if msgs = [] \<or> am_Role (hd msgs) \<noteq> ''user'' then [(''user'', text_block ''Hello'')] else []) @ spoken msgs"
  by (auto simp: user_first_def Let_def)

text \<open>A conversation both protocols can say: the user gives a text or the results of calls, the assistant
  a text and calls whose arguments survive being written and read.\<close>

definition use_block :: "string \<times> string \<times> body \<Rightarrow> AnthropicContent" where
  "use_block c = (case c of (i, n, m) \<Rightarrow>
     zero_content \<lparr> ac_Type := ''tool_use'', ac_ID := i, ac_Name := n, Input := Some (JObj m) \<rparr>)"

definition result_block :: "string \<times> string \<Rightarrow> AnthropicContent" where
  "result_block r = (case r of (i, s) \<Rightarrow>
     zero_content \<lparr> ac_Type := ''tool_result'', ToolUseID := i, ac_Content := JStr s \<rparr>)"

definition readable :: "(json \<Rightarrow> string) \<Rightarrow> body \<Rightarrow> bool" where
  "readable marshal m \<longleftrightarrow> fst (unmarshal_map (marshal (JObj m))) = Some m"

inductive plain_turn :: "(json \<Rightarrow> string) \<Rightarrow> AnthropicMessage \<Rightarrow> bool" for marshal where
  user_text: "t \<noteq> [] \<Longrightarrow> plain_turn marshal \<lparr> am_Role = ''user'', am_Content = [text_block t] \<rparr>"
| user_results: "rs \<noteq> [] \<Longrightarrow> plain_turn marshal \<lparr> am_Role = ''user'', am_Content = map result_block rs \<rparr>"
| assistant: "t \<noteq> [] \<Longrightarrow> \<forall>(i, n, m) \<in> set cs. readable marshal m \<Longrightarrow>
    plain_turn marshal \<lparr> am_Role = ''assistant'', am_Content = text_block t # map use_block cs \<rparr>"

lemma block_simps [simp]:
  "block_text (text_block t) = [t]" "block_call marshal (text_block t) = []" "block_result marshal (text_block t) = []"
  "block_text (use_block c) = []" "block_result marshal (use_block c) = []"
  "block_text (result_block r) = []" "block_call marshal (result_block r) = []"
  by (simp_all add: block_text_def block_call_def block_result_def text_block_def use_block_def result_block_def
      zero_content_def split: prod.splits)

lemma concat_empty: "concat (map (\<lambda>x. []) xs) = []"
  by (induction xs) simp_all

lemma call_back: "readable marshal m \<Longrightarrow> map tool_use_block (block_call marshal (use_block (i, n, m))) = [use_block (i, n, m)]"
  by (simp add: block_call_def use_block_def tool_use_block_def call_input_def readable_def zero_content_def)

lemma calls_back:
  assumes "\<forall>(i, n, m) \<in> set cs. readable marshal m"
  shows "map tool_use_block (concat (map (block_call marshal) (map use_block cs))) = map use_block cs"
  using assms
proof (induction cs)
  case (Cons c cs)
  obtain i n m where c: "c = (i, n, m)" by (cases c)
  then show ?case using Cons call_back [of marshal m i n] by (simp del: map_map)
qed simp

definition result_of :: "string \<times> string \<Rightarrow> OpenAIMessage" where
  "result_of r = (case r of (i, s) \<Rightarrow> zero_message \<lparr> om_Role := ''tool'', ToolCallID := i, om_Content := JStr s \<rparr>)"

text \<open>Results are merged into one message again.\<close>

lemma result_message:
  "block_result marshal (result_block r) = [result_of r]" "anthropic_role (om_Role (result_of r)) = ''user''"
  "anthropic_blocks show (result_of r) = [result_block r]"
  by (simp_all add: block_result_def result_of_def result_block_def zero_content_def zero_message_def anthropic_role_def
      anthropic_blocks_def GetMessageContentString_def split: prod.split)

lemma result_step:
  assumes "acc \<noteq> []" "am_Role (last acc) = ''user''"
  shows "merge_messages show (block_result marshal (result_block r) @ msgs) acc =
    merge_messages show msgs (extend_last acc [result_block r])"
  using assms by (simp add: result_message Let_def)

lemma merge_results:
  assumes "acc \<noteq> []" "am_Role (last acc) = ''user''"
  shows "merge_messages show (concat (map (block_result marshal) (map result_block rs)) @ msgs) acc =
    merge_messages show msgs (extend_last acc (map result_block rs))"
  using assms
proof (induction rs arbitrary: acc)
  case (Cons r rs)
  then show ?case
    by (simp add: result_step extend_last_simps del: map_map)
qed (simp add: extend_last_simps)

lemma merge_turn:
  assumes "plain_turn marshal m" "acc \<noteq> [] \<longrightarrow> am_Role (last acc) \<noteq> am_Role m"
  shows "merge_messages show (openai_messages marshal m @ msgs) acc = merge_messages show msgs (acc @ [m])"
  using assms
proof (cases rule: plain_turn.cases)
  case (user_text t)
  then show ?thesis
    using assms(2)
    by (auto simp: openai_messages_def anthropic_role_def anthropic_blocks_def zero_message_def
        TranslateOpenAIContentToAnthropic_def Let_def)
next
  case (user_results rs)
  then obtain r rs' where rs: "rs = r # rs'" by (cases rs) auto
  have "openai_messages marshal m = concat (map (block_result marshal) (map result_block rs))"
    by (simp add: openai_messages_def user_results concat_empty comp_def Let_def)
  moreover have "merge_messages show (concat (map (block_result marshal) (map result_block rs)) @ msgs) acc =
      merge_messages show (concat (map (block_result marshal) (map result_block rs')) @ msgs)
        (acc @ [\<lparr> am_Role = ''user'', am_Content = [result_block r] \<rparr>])"
    using assms(2) user_results(1) by (auto simp: rs result_message Let_def)
  ultimately show ?thesis using user_results(1)
    by (simp add: merge_results rs extend_last_simps del: map_map)
next
  case (assistant t cs)
  have "openai_messages marshal m = [zero_message \<lparr> om_Role := ''assistant'', om_Content := JStr t,
      om_ToolCalls := concat (map (block_call marshal) (map use_block cs)) \<rparr>]"
    using assistant(2) by (simp add: openai_messages_def assistant(1) concat_empty comp_def Let_def)
  then show ?thesis
    using assms(2) assistant(1) calls_back [OF assistant(3)]
    by (auto simp: anthropic_role_def anthropic_blocks_def zero_message_def TranslateOpenAIContentToAnthropic_def
        Let_def simp del: map_map)
qed

lemma merge_plain:
  assumes "\<forall>m \<in> set msgs. plain_turn marshal m" "turns_ok (acc @ msgs)"
  shows "merge_messages show (concat (map (openai_messages marshal) msgs)) acc = acc @ msgs"
  using assms
proof (induction msgs arbitrary: acc)
  case (Cons m msgs)
  have "acc \<noteq> [] \<longrightarrow> am_Role (last acc) \<noteq> am_Role m"
    using Cons.prems(2) by (auto simp: turns_ok_def successively_append_iff)
  with Cons.prems(1) have "merge_messages show (concat (map (openai_messages marshal) (m # msgs))) acc =
      merge_messages show (concat (map (openai_messages marshal) msgs)) (acc @ [m])"
    by (simp add: merge_turn)
  with Cons show ?case by simp
qed simp

lemma plain_no_system:
  assumes "plain_turn marshal m"
  shows "filter (\<lambda>x. om_Role x = ''system'') (openai_messages marshal m) = []"
    "filter (\<lambda>x. om_Role x \<noteq> ''system'') (openai_messages marshal m) = openai_messages marshal m"
proof -
  have "\<forall>x \<in> set (openai_messages marshal m). om_Role x \<noteq> ''system''"
    using assms by (cases rule: plain_turn.cases)
      (auto simp: openai_messages_def block_result_def zero_message_def Let_def)
  then show "filter (\<lambda>x. om_Role x = ''system'') (openai_messages marshal m) = []"
    "filter (\<lambda>x. om_Role x \<noteq> ''system'') (openai_messages marshal m) = openai_messages marshal m"
    by (auto simp: filter_empty_conv filter_id_conv)
qed

lemma plain_filters:
  assumes "\<forall>m \<in> set msgs. plain_turn marshal m"
  shows "filter (\<lambda>x. om_Role x = ''system'') (concat (map (openai_messages marshal) msgs)) = []"
    "filter (\<lambda>x. om_Role x \<noteq> ''system'') (concat (map (openai_messages marshal) msgs)) =
       concat (map (openai_messages marshal) msgs)"
  using assms by (induction msgs) (simp_all add: plain_no_system)

text \<open>What the client said, read off its messages: its texts, the images it gave inline, the calls of the
  assistant and the results of the tools, each with its speaker. The messages of the system are not part
  of the conversation.\<close>

definition speaker :: "OpenAIMessage \<Rightarrow> string" where
  "speaker m = (if om_Role m = ''assistant'' then ''assistant'' else ''user'')"

definition parts_of :: "OpenAIMessage \<Rightarrow> body list" where
  "parts_of m = (case om_Content m of JArr ps \<Rightarrow> concat (map (\<lambda>p. case p of JObj b \<Rightarrow> [b] | _ \<Rightarrow> []) ps) | _ \<Rightarrow> [])"

definition client_texts :: "(json \<Rightarrow> string) \<Rightarrow> OpenAIMessage \<Rightarrow> string list" where
  "client_texts show m =
     (case om_Content m of
        JNull \<Rightarrow> []
      | JStr s \<Rightarrow> [s]
      | JArr ps \<Rightarrow> concat (map (\<lambda>b. if obj_get b ''type'' = Some (JStr ''text'')
          then (case obj_get b ''text'' of Some (JStr s) \<Rightarrow> [s] | _ \<Rightarrow> []) else []) (parts_of m))
      | v \<Rightarrow> [show v])"

definition client_images :: "OpenAIMessage \<Rightarrow> string list" where
  "client_images m =
     filter (\<lambda>url. HasPrefix url ''data:'' \<and> CHR '','' \<in> set url)
       (concat (map (\<lambda>b. if obj_get b ''type'' = Some (JStr ''image_url'')
          then (case obj_get b ''image_url'' of
                  Some (JObj img) \<Rightarrow> (case obj_get img ''url'' of Some (JStr url) \<Rightarrow> [url] | _ \<Rightarrow> [])
                | _ \<Rightarrow> []) else []) (parts_of m)))"

text \<open>The blocks of a type, with their speakers.\<close>

definition said :: "string \<Rightarrow> AnthropicMessage list \<Rightarrow> (string \<times> AnthropicContent) list" where
  "said t msgs = filter (\<lambda>(r, b). ac_Type b = t) (spoken msgs)"

definition each :: "(OpenAIMessage \<Rightarrow> 'a list) \<Rightarrow> OpenAIMessage list \<Rightarrow> (string \<times> 'a) list" where
  "each f msgs = concat (map (\<lambda>m. map (Pair (speaker m)) (f m)) msgs)"

lemma each_simps [simp]: "each f [] = []" "each f (m # ms) = map (Pair (speaker m)) (f m) @ each f ms"
  by (simp_all add: each_def)

definition of_type :: "string \<Rightarrow> AnthropicContent list \<Rightarrow> AnthropicContent list" where
  "of_type t bs = filter (\<lambda>b. ac_Type b = t) bs"

lemma of_type_simps [simp]:
  "of_type t [] = []" "of_type t (xs @ ys) = of_type t xs @ of_type t ys"
  "of_type t (b # bs) = (if ac_Type b = t then [b] else []) @ of_type t bs"
  by (simp_all add: of_type_def)

lemma as_string_eq: "s \<noteq> [] \<Longrightarrow> as_string v = s \<longleftrightarrow> v = Some (JStr s)"
  by (cases v) (auto simp: as_string_def split: json.splits)

lemma text_block_fields [simp]: "ac_Type (text_block s) = ''text''" "ac_Text (text_block s) = s"
  by (simp_all add: text_block_def)

lemma content_part_types:
  "map ac_Text (of_type ''text'' (content_part p)) =
     concat (map (\<lambda>b. if obj_get b ''type'' = Some (JStr ''text'')
       then (case obj_get b ''text'' of Some (JStr s) \<Rightarrow> [s] | _ \<Rightarrow> []) else []) (case p of JObj b \<Rightarrow> [b] | _ \<Rightarrow> []))"
  "of_type ''tool_use'' (content_part p) = []" "of_type ''tool_result'' (content_part p) = []"
  by (cases p; simp add: content_part_def as_object_def as_string_eq image_block_def Let_def split: option.split json.split)+

lemma header_prefix:
  assumes "HasPrefix url p" "CHR '','' \<notin> set p"
  shows "HasPrefix (takeWhile (\<lambda>c. c \<noteq> CHR '','') url) p"
proof -
  have "url = p @ drop (length p) url" using assms(1) by (metis HasPrefix_def append_take_drop_id)
  moreover have "takeWhile (\<lambda>c. c \<noteq> CHR '','') (p @ xs) = p @ takeWhile (\<lambda>c. c \<noteq> CHR '','') xs" for xs
    using assms(2) by (simp add: takeWhile_append)
  ultimately have "takeWhile (\<lambda>c. c \<noteq> CHR '','') url = p @ takeWhile (\<lambda>c. c \<noteq> CHR '','') (drop (length p) url)" by metis
  then show ?thesis by (simp add: HasPrefix_def)
qed

text \<open>The source of an inline image: its media type, and what follows the comma.\<close>

definition inline_source :: "string \<Rightarrow> string \<times> string \<times> string" where
  "inline_source url = (''base64'',
     (let h = takeWhile (\<lambda>c. c \<noteq> CHR '','') url
      in if CHR '';'' \<in> set h then drop 5 (takeWhile (\<lambda>c. c \<noteq> CHR '';'') h) else ''image/jpeg''),
     tl (dropWhile (\<lambda>c. c \<noteq> CHR '','') url))"

definition block_source :: "AnthropicContent \<Rightarrow> (string \<times> string \<times> string) option" where
  "block_source b = map_option (\<lambda>s. (as_Type s, MediaType s, Data s)) (Source b)"

lemma image_block_sources:
  "map block_source (of_type ''image'' (image_block url)) =
     (if HasPrefix url ''data:'' \<and> CHR '','' \<in> set url then [Some (inline_source url)] else [])"
proof -
  have "HasPrefix (takeWhile (\<lambda>c. c \<noteq> CHR '','') url) ''data:''" if "HasPrefix url ''data:''"
    using header_prefix [OF that] by simp
  moreover have "drop (length (takeWhile (\<lambda>c. c \<noteq> CHR '','') url) + 1) url = tl (dropWhile (\<lambda>c. c \<noteq> CHR '','') url)"
    by (simp add: dropWhile_eq_drop drop_Suc tl_drop)
  ultimately show ?thesis by (auto simp: image_block_def block_source_def inline_source_def Let_def)
qed

lemma content_part_images:
  "map block_source (of_type ''image'' (content_part p)) =
     map (Some \<circ> inline_source)
       (filter (\<lambda>url. HasPrefix url ''data:'' \<and> CHR '','' \<in> set url)
         (concat (map (\<lambda>b. if obj_get b ''type'' = Some (JStr ''image_url'')
            then (case obj_get b ''image_url'' of
                    Some (JObj img) \<Rightarrow> (case obj_get img ''url'' of Some (JStr url) \<Rightarrow> [url] | _ \<Rightarrow> [])
                  | _ \<Rightarrow> []) else []) (case p of JObj b \<Rightarrow> [b] | _ \<Rightarrow> []))))"
proof (cases p)
  case (JObj b)
  show ?thesis
  proof (cases "obj_get b ''type'' = Some (JStr ''image_url'')")
    case True
    then show ?thesis
      by (auto simp: JObj content_part_def as_object_def as_string_def image_block_sources split: option.split json.split)
  next
    case False
    then show ?thesis
      by (auto simp: JObj content_part_def as_object_def as_string_eq split: option.split json.split)
  qed
qed (simp_all add: content_part_def as_object_def)

lemma of_type_concat: "of_type t (concat bss) = concat (map (of_type t) bss)"
  by (induction bss) simp_all

lemma content_blocks:
  "map ac_Text (of_type ''text'' (TranslateOpenAIContentToAnthropic show (om_Content m))) = client_texts show m"
  "map block_source (of_type ''image'' (TranslateOpenAIContentToAnthropic show (om_Content m))) = map (Some \<circ> inline_source) (client_images m)"
  "of_type ''tool_use'' (TranslateOpenAIContentToAnthropic show (om_Content m)) = []"
  "of_type ''tool_result'' (TranslateOpenAIContentToAnthropic show (om_Content m)) = []"
proof -
  show "map ac_Text (of_type ''text'' (TranslateOpenAIContentToAnthropic show (om_Content m))) = client_texts show m"
  proof (cases "om_Content m")
    case (JArr ps)
    have "map ac_Text (of_type ''text'' (concat (map content_part ps))) =
      concat (map (\<lambda>b. if obj_get b ''type'' = Some (JStr ''text'')
          then (case obj_get b ''text'' of Some (JStr s) \<Rightarrow> [s] | _ \<Rightarrow> []) else [])
        (concat (map (\<lambda>p. case p of JObj b \<Rightarrow> [b] | _ \<Rightarrow> []) ps)))"
      by (induction ps) (simp_all add: content_part_types)
    then show ?thesis by (simp add: JArr TranslateOpenAIContentToAnthropic_def client_texts_def parts_of_def)
  qed (simp_all add: TranslateOpenAIContentToAnthropic_def client_texts_def)
  show "map block_source (of_type ''image'' (TranslateOpenAIContentToAnthropic show (om_Content m))) = map (Some \<circ> inline_source) (client_images m)"
  proof (cases "om_Content m")
    case (JArr ps)
    have "map block_source (of_type ''image'' (concat (map content_part ps))) = map (Some \<circ> inline_source)
      (filter (\<lambda>url. HasPrefix url ''data:'' \<and> CHR '','' \<in> set url)
        (concat (map (\<lambda>b. if obj_get b ''type'' = Some (JStr ''image_url'')
          then (case obj_get b ''image_url'' of
                  Some (JObj img) \<Rightarrow> (case obj_get img ''url'' of Some (JStr url) \<Rightarrow> [url] | _ \<Rightarrow> [])
                | _ \<Rightarrow> []) else []) (concat (map (\<lambda>p. case p of JObj b \<Rightarrow> [b] | _ \<Rightarrow> []) ps)))))"
      by (induction ps) (simp_all add: content_part_images)
    then show ?thesis by (simp add: JArr TranslateOpenAIContentToAnthropic_def client_images_def parts_of_def)
  qed (simp_all add: TranslateOpenAIContentToAnthropic_def client_images_def parts_of_def)
  show "of_type ''tool_use'' (TranslateOpenAIContentToAnthropic show (om_Content m)) = []"
    "of_type ''tool_result'' (TranslateOpenAIContentToAnthropic show (om_Content m)) = []"
    by (cases "om_Content m"; simp add: TranslateOpenAIContentToAnthropic_def of_type_concat content_part_types comp_def concat_empty)+
qed

lemma call_blocks:
  "t \<noteq> ''tool_use'' \<Longrightarrow> of_type t (map tool_use_block calls) = []"
  "of_type ''tool_use'' (map tool_use_block calls) = map tool_use_block calls"
  by (induction calls) (simp_all add: tool_use_block_def)

lemma anthropic_role_speaker: "anthropic_role (om_Role m) = speaker m"
  by (simp add: anthropic_role_def speaker_def)

lemma said_asked:
  "filter (\<lambda>(r, b). ac_Type b = t) (asked show msgs) = each (\<lambda>m. of_type t (anthropic_blocks show m)) msgs"
  by (induction msgs) (simp_all add: anthropic_role_speaker of_type_def filter_map comp_def)

lemma each_map: "map (apsnd f) (each g msgs) = each (map f \<circ> g) msgs"
  by (induction msgs) simp_all

lemma each_cong: "(\<And>m. m \<in> set msgs \<Longrightarrow> f m = g m) \<Longrightarrow> each f msgs = each g msgs"
  by (induction msgs) simp_all

lemma each_filter: "(\<And>m. m \<in> set msgs \<Longrightarrow> \<not> P m \<Longrightarrow> f m = []) \<Longrightarrow> each f (filter P msgs) = each f msgs"
  by (induction msgs) simp_all

text \<open>What the client said of each kind; a message of a tool is a result, one of the system says nothing.\<close>

definition in_conversation :: "OpenAIMessage \<Rightarrow> bool" where
  "in_conversation m \<longleftrightarrow> om_Role m \<notin> {''system'', ''tool''}"

lemma block_kinds:
  "om_Role m \<noteq> ''system'' \<Longrightarrow> map ac_Text (of_type ''text'' (anthropic_blocks show m)) = (if in_conversation m then client_texts show m else [])"
  "om_Role m \<noteq> ''system'' \<Longrightarrow> map block_source (of_type ''image'' (anthropic_blocks show m)) =
     (if in_conversation m then map (Some \<circ> inline_source) (client_images m) else [])"
  "om_Role m \<noteq> ''system'' \<Longrightarrow> map (\<lambda>b. (ac_ID b, ac_Name b, Input b)) (of_type ''tool_use'' (anthropic_blocks show m)) =
     (if in_conversation m then map (\<lambda>c. (tc_ID c, fc_Name (tc_Function c), Some (call_input (fc_Arguments (tc_Function c))))) (om_ToolCalls m)
      else [])"
  "om_Role m \<noteq> ''system'' \<Longrightarrow> map (\<lambda>b. (ToolUseID b, ac_Content b)) (of_type ''tool_result'' (anthropic_blocks show m)) =
     (if om_Role m = ''tool'' then [(ToolCallID m, JStr (GetMessageContentString show (om_Content m)))] else [])"
  by (auto simp: anthropic_blocks_def in_conversation_def content_blocks call_blocks tool_use_block_def comp_def zero_content_def)

lemma image_block_type: "b \<in> set (image_block url) \<Longrightarrow> ac_Type b = ''image''"
  by (simp add: image_block_def Let_def split: if_splits)

lemma content_part_type: "b \<in> set (content_part p) \<Longrightarrow> ac_Type b = ''text'' \<or> ac_Type b = ''image''"
proof (cases p)
  case (JObj m)
  have wording: "b \<in> set (case v of Some (JStr s) \<Rightarrow> [text_block s] | _ \<Rightarrow> []) \<Longrightarrow> ac_Type b = ''text''" for v
    by (auto split: option.splits json.splits)
  have image: "b \<in> set (case as_object v of None \<Rightarrow> []
      | Some img \<Rightarrow> (case obj_get img ''url'' of Some (JStr url) \<Rightarrow> image_block url | _ \<Rightarrow> [])) \<Longrightarrow> ac_Type b = ''image''" for v
    by (auto split: option.splits json.splits dest: image_block_type)
  assume "b \<in> set (content_part p)"
  then show ?thesis
    unfolding JObj content_part_def as_object_def [of "Some (JObj m)"] option.case json.case Let_def
    using wording [of "obj_get m ''text''"] image [of "obj_get m ''image_url''"] by (simp only: list.set empty_iff split: if_splits) blast+
qed (simp_all add: content_part_def as_object_def)

lemma content_types:
  "b \<in> set (TranslateOpenAIContentToAnthropic show c) \<Longrightarrow> ac_Type b = ''text'' \<or> ac_Type b = ''image''"
  using content_part_type by (cases c) (auto simp: TranslateOpenAIContentToAnthropic_def)

lemma asked_types:
  "(r, b) \<in> set (asked show msgs) \<Longrightarrow> ac_Type b \<in> {''text'', ''image'', ''tool_use'', ''tool_result''}"
  by (induction msgs) (auto simp: anthropic_blocks_def tool_use_block_def dest: content_types split: if_splits)

section \<open>Properties\<close>



definition example_request :: AnthropicRequest where
  "example_request = zero_anthropic_request \<lparr> aq_Model := ''m'', System := ''be brief'', aq_MaxTokens := 100,
     aq_Messages := [\<lparr> am_Role = ''user'', am_Content = [text_block ''hi''] \<rparr>,
       \<lparr> am_Role = ''assistant'', am_Content = text_block ''calling'' # map use_block [(''c1'', ''f'', []), (''c2'', ''g'', [])] \<rparr>,
       \<lparr> am_Role = ''user'', am_Content = map result_block [(''c1'', ''1''), (''c2'', ''2'')] \<rparr>] \<rparr>"

lemma empty_object_readable: "readable (\<lambda>v. ''{}'') []"
proof -
  have "parse_json ''{}'' = Some (RObj [])" by code_simp
  then show ?thesis by (simp add: readable_def unmarshal_map_def)
qed


text \<open>An assistant message that only calls tools usually has an empty text. It becomes a text block, and
  the empty text is then omitted from the body: the provider is sent a text block without a text.\<close>

lemma empty_text_is_sent:
  assumes "om_Role msg = ''assistant''" "om_Content msg = JStr []"
  shows "\<exists>rest. map content_body (anthropic_blocks show msg) = JObj [(''type'', JStr ''text'')] # rest"
  using assms by (simp add: anthropic_blocks_def TranslateOpenAIContentToAnthropic_def text_block_def zero_content_def
      content_body_def opt_string_def opt_def opt_ptr_def)

text \<open>A call without arguments is sent with the input \<open>null\<close>.\<close>

lemma empty_arguments_are_null:
  assumes "fc_Arguments (tc_Function tc) = []"
  shows "content_body (tool_use_block tc) = JObj ([(''type'', JStr ''tool_use'')] @ opt_string ''id'' (tc_ID tc) @
    opt_string ''name'' (fc_Name (tc_Function tc)) @ [(''input'', JNull)])"
proof -
  have "parse_json [] = None" by code_simp
  then show ?thesis
    by (simp add: assms tool_use_block_def call_input_def unmarshal_map_def zero_content_def content_body_def
        opt_string_def opt_def opt_ptr_def)
qed

end
