(* ===== verification/Stream.thy ===== *)
theory Stream
  imports Translate
begin

text \<open>
  The streams of a generation: the translation of the events of each protocol to the other
  (src/proxy/translator.go) and the two loops that read an upstream stream and bill it
  (src/proxy/handler.go, the streaming half of the four \<open>proxy...To...\<close> functions). A line carries the
  milliseconds since the request was sent; a last line without a newline is an error of
  \<open>ReadString\<close> and never seen.
\<close>

section \<open>Lines and frames\<close>

fun lines_from :: "string \<Rightarrow> string \<Rightarrow> string list" where
  "lines_from cur [] = []"
| "lines_from cur (c # cs) = (if c = byte 10 then (cur @ [c]) # lines_from [] cs else lines_from (cur @ [c]) cs)"

datatype frame = Forward string | DataFrame json | EventFrame string json | DoneFrame

definition data_of :: "string \<Rightarrow> string option" where
  "data_of line =
     (if HasPrefix line ''data:'' then
        (let d = TrimSpace (TrimPrefix line ''data:'') in if d = ''[DONE]'' \<or> d = [] then None else Some d)
      else None)"

section \<open>OpenAI events for an Anthropic client\<close>

definition decode_chunk :: "string \<Rightarrow> OpenAIChunk option" where
  "decode_chunk text = (case unmarshal zero_chunk dec_chunk text of (chunk, bad) \<Rightarrow> if bad then None else Some chunk)"

definition track_openai_usage :: "OpenAIUsage option \<Rightarrow> AnthropicUsage \<Rightarrow> AnthropicUsage" where
  "track_openai_usage usage t =
     (case usage of
        None \<Rightarrow> t
      | Some u \<Rightarrow>
          (let t = t \<lparr> au_InputTokens := ou_PromptTokens u, au_OutputTokens := ou_CompletionTokens u \<rparr>;
               read = CacheReadTokens_reported usage
           in if read > 0 then t \<lparr> au_CacheReadInputTokens := read \<rparr> else t))"

definition block_delta :: "int \<Rightarrow> string \<Rightarrow> string \<Rightarrow> string \<Rightarrow> string \<times> json" where
  "block_delta index kind key text =
     (''content_block_delta'', JObj [(''type'', JStr ''content_block_delta''), (''index'', json_int index),
        (''delta'', JObj [(''type'', JStr kind), (key, JStr text)])])"

definition message_start_event :: "string \<Rightarrow> string \<Rightarrow> int \<Rightarrow> string \<times> json" where
  "message_start_event msgID virtualModel inputTokens =
     (''message_start'', JObj [(''type'', JStr ''message_start''),
        (''message'', JObj [(''id'', JStr msgID), (''type'', JStr ''message''), (''role'', JStr ''assistant''),
           (''content'', JArr []), (''model'', JStr virtualModel),
           (''usage'', JObj [(''input_tokens'', json_int inputTokens)])])])"

definition stop_reason :: "string \<Rightarrow> string" where
  "stop_reason r = (if r = ''length'' then ''max_tokens'' else if r = ''tool_calls'' then ''tool_use'' else ''end_turn'')"

definition finish_event :: "string option \<Rightarrow> int \<Rightarrow> (string \<times> json) option \<times> bool" where
  "finish_event reason outputTokens =
     (case reason of
        None \<Rightarrow> (None, False)
      | Some r \<Rightarrow>
          (Some (''message_delta'', JObj [(''type'', JStr ''message_delta''),
              (''delta'', JObj [(''stop_reason'', JStr (stop_reason r))]),
              (''usage'', JObj [(''output_tokens'', json_int outputTokens)])]), True))"

text \<open>The first choice of a chunk becomes at most one event.\<close>

definition choice_event ::
  "string \<Rightarrow> string \<Rightarrow> AnthropicUsage \<Rightarrow> OpenAIChunkChoice \<Rightarrow> (string \<times> json) option \<times> bool" where
  "choice_event msgID virtualModel t choice =
     (let delta = Delta choice in
      if dl_Role delta = ''assistant'' \<and> dl_Content delta = []
      then (Some (message_start_event msgID virtualModel (au_InputTokens t)), False)
      else if dl_ReasoningContent delta \<noteq> []
      then (Some (block_delta 0 ''thinking_delta'' ''thinking'' (dl_ReasoningContent delta)), False)
      else if dl_Content delta \<noteq> []
      then (Some (block_delta 0 ''text_delta'' ''text'' (dl_Content delta)), False)
      else
        (case dl_ToolCalls delta of
           tc # rest \<Rightarrow>
             if fc_Name (tc_Function tc) \<noteq> []
             then (Some (''content_block_start'', JObj [(''type'', JStr ''content_block_start''), (''index'', json_int 1),
                     (''content_block'', JObj [(''type'', JStr ''tool_use''), (''id'', JStr (tc_ID tc)),
                        (''name'', JStr (fc_Name (tc_Function tc))), (''input'', JObj [])])]), False)
             else if fc_Arguments (tc_Function tc) \<noteq> []
             then (Some (block_delta 1 ''input_json_delta'' ''partial_json'' (fc_Arguments (tc_Function tc))), False)
             else finish_event (cc_FinishReason choice) (au_OutputTokens t)
         | [] \<Rightarrow> finish_event (cc_FinishReason choice) (au_OutputTokens t)))"

text \<open>The result is the event, whether it ends the stream and the tracker; \<open>None\<close> is an unreadable chunk.\<close>

definition TranslateOpenAIChunkToAnthropic ::
  "string \<Rightarrow> string \<Rightarrow> string \<Rightarrow> AnthropicUsage \<Rightarrow> ((string \<times> json) option \<times> bool \<times> AnthropicUsage) option" where
  "TranslateOpenAIChunkToAnthropic line msgID virtualModel t =
     (case data_of line of
        None \<Rightarrow> Some (None, False, t)
      | Some dataStr \<Rightarrow>
          (case decode_chunk dataStr of
             None \<Rightarrow> None
           | Some chunk \<Rightarrow>
               (let t = track_openai_usage (ch_Usage chunk) t
                in case ch_Choices chunk of
                     [] \<Rightarrow> Some (None, False, t)
                   | choice # rest \<Rightarrow>
                       (case choice_event msgID virtualModel t choice of (event, fin) \<Rightarrow> Some (event, fin, t)))))"

section \<open>Anthropic events for an OpenAI client\<close>

definition usage_json :: "OpenAIUsage \<Rightarrow> json" where
  "usage_json u = JObj
     ([(''prompt_tokens'', json_int (ou_PromptTokens u)), (''completion_tokens'', json_int (ou_CompletionTokens u)),
       (''total_tokens'', json_int (ou_TotalTokens u))] @
      opt_ptr ''prompt_tokens_details'' (\<lambda>d. JObj ([(''cached_tokens'', json_int (CachedTokens d))] @
        opt ''cache_write_tokens'' (ptd_CacheWriteTokens d \<noteq> 0) (json_int (ptd_CacheWriteTokens d)))) (PromptTokensDetails u) @
      opt ''prompt_cache_hit_tokens'' (PromptCacheHitTokens u \<noteq> 0) (json_int (PromptCacheHitTokens u)) @
      opt ''prompt_cache_miss_tokens'' (PromptCacheMissTokens u \<noteq> 0) (json_int (PromptCacheMissTokens u)) @
      opt_ptr ''completion_tokens_details'' (\<lambda>d. JObj [(''reasoning_tokens'', json_int (ctd_ReasoningTokens d))])
        (CompletionTokensDetails u))"

definition delta_json :: "OpenAIDelta \<Rightarrow> json" where
  "delta_json d = JObj
     (opt_string ''role'' (dl_Role d) @ opt_string ''content'' (dl_Content d) @
      opt_string ''reasoning_content'' (dl_ReasoningContent d) @
      opt ''tool_calls'' (dl_ToolCalls d \<noteq> []) (JArr (map call_body (dl_ToolCalls d))))"

definition chunk_json :: "OpenAIChunk \<Rightarrow> json" where
  "chunk_json c = JObj
     ([(''id'', JStr (ch_ID c)), (''object'', JStr (ch_Object c)), (''created'', json_int (ch_Created c)),
       (''model'', JStr (ch_Model c)),
       (''choices'', JArr (map (\<lambda>x. JObj [(''index'', json_int (cc_Index x)), (''delta'', delta_json (Delta x)),
          (''finish_reason'', case cc_FinishReason x of None \<Rightarrow> JNull | Some r \<Rightarrow> JStr r)]) (ch_Choices c)))] @
      opt_ptr ''usage'' usage_json (ch_Usage c) @ opt_string ''provider'' (ch_Provider c))"

definition completion_chunk :: "string \<Rightarrow> int \<Rightarrow> string \<Rightarrow> OpenAIChunkChoice list \<Rightarrow> OpenAIUsage option \<Rightarrow> OpenAIChunk" where
  "completion_chunk msgID created virtualModel choices usage =
     \<lparr> ch_ID = msgID, ch_Object = ''chat.completion.chunk'', ch_Created = created, ch_Model = virtualModel,
       ch_Choices = choices, ch_Usage = usage, ch_Provider = [] \<rparr>"

definition object_field :: "body \<Rightarrow> string \<Rightarrow> body option" where
  "object_field m k = as_object (obj_get m k)"

definition set_int :: "body \<Rightarrow> string \<Rightarrow> (int \<Rightarrow> 'u \<Rightarrow> 'u) \<Rightarrow> 'u \<Rightarrow> 'u" where
  "set_int m k f u = (case float_field m k of Some n \<Rightarrow> f n u | None \<Rightarrow> u)"

definition track_message_start :: "body \<Rightarrow> OpenAIUsage \<Rightarrow> OpenAIUsage" where
  "track_message_start event u =
     (case Option.bind (object_field event ''message'') (\<lambda>msg. object_field msg ''usage'') of
        None \<Rightarrow> u
      | Some usage \<Rightarrow>
          (let u = set_int usage ''input_tokens'' (\<lambda>n u. u \<lparr> ou_PromptTokens := n \<rparr>) u;
               u = set_int usage ''cache_read_input_tokens'' (\<lambda>n u. u \<lparr> PromptTokensDetails :=
                     Some ((case PromptTokensDetails u of None \<Rightarrow> \<lparr> CachedTokens = 0, ptd_CacheWriteTokens = 0 \<rparr> | Some d \<Rightarrow> d)
                       \<lparr> CachedTokens := n \<rparr>) \<rparr>) u;
               u = set_int usage ''cache_creation_input_tokens'' (\<lambda>n u. u \<lparr> ou_CacheWriteTokens := n \<rparr>) u
           in case ParseAnthropicCacheCreation usage of
                None \<Rightarrow> u
              | Some (m5, h1) \<Rightarrow>
                  (let u = u \<lparr> ou_CacheWrite5mTokens := m5, ou_CacheWrite1hTokens := h1 \<rparr>
                   in if ou_CacheWriteTokens u = 0 then u \<lparr> ou_CacheWriteTokens := i64 (m5 + h1) \<rparr> else u)))"

definition track_message_delta :: "body \<Rightarrow> OpenAIUsage \<Rightarrow> OpenAIUsage" where
  "track_message_delta event u =
     (case object_field event ''usage'' of
        None \<Rightarrow> u
      | Some usage \<Rightarrow>
          set_int usage ''cache_creation_input_tokens'' (\<lambda>n u. u \<lparr> ou_CacheWriteTokens := n \<rparr>)
            (set_int usage ''output_tokens'' (\<lambda>n u. u \<lparr> ou_CompletionTokens := n \<rparr>) u))"

definition anthropic_delta :: "body \<Rightarrow> OpenAIDelta" where
  "anthropic_delta deltaMap =
     (let deltaType = as_string (obj_get deltaMap ''type'')
      in if deltaType = ''text_delta'' then zero_delta \<lparr> dl_Content := as_string (obj_get deltaMap ''text'') \<rparr>
         else if deltaType = ''thinking_delta''
         then zero_delta \<lparr> dl_ReasoningContent := as_string (obj_get deltaMap ''thinking'') \<rparr>
         else if deltaType = ''input_json_delta''
         then zero_delta \<lparr> dl_ToolCalls := [zero_call \<lparr> tc_Type := ''function'',
                tc_Function := \<lparr> fc_Name = [], fc_Arguments = as_string (obj_get deltaMap ''partial_json'') \<rparr> \<rparr>] \<rparr>
         else zero_delta)"

definition finish_reason :: "string \<Rightarrow> string" where
  "finish_reason stopReason =
     (if stopReason = ''end_turn'' then ''stop'' else if stopReason = ''max_tokens'' then ''length''
      else if stopReason = ''tool_use'' then ''tool_calls'' else [])"

definition first_choice :: "OpenAIDelta \<Rightarrow> string option \<Rightarrow> OpenAIChunkChoice" where
  "first_choice delta reason = \<lparr> cc_Index = 0, Delta = delta, cc_FinishReason = reason \<rparr>"

definition TranslateAnthropicChunkToOpenAI ::
  "int \<Rightarrow> string \<Rightarrow> string \<Rightarrow> string \<Rightarrow> OpenAIUsage \<Rightarrow> (OpenAIChunk option \<times> bool \<times> OpenAIUsage) option" where
  "TranslateAnthropicChunkToOpenAI created line msgID virtualModel u =
     (case data_of line of
        None \<Rightarrow> Some (None, False, u)
      | Some dataStr \<Rightarrow>
          (case unmarshal_map dataStr of
             (raw, True) \<Rightarrow> None
           | (raw, False) \<Rightarrow>
               (let event = (case raw of None \<Rightarrow> [] | Some m \<Rightarrow> m);
                    eventType = as_string (obj_get event ''type'');
                    deltaMap = (case object_field event ''delta'' of None \<Rightarrow> [] | Some m \<Rightarrow> m);
                    chunk = completion_chunk msgID created virtualModel
                in if eventType = ''message_start'' then
                     Some (Some (chunk [first_choice (zero_delta \<lparr> dl_Role := ''assistant'' \<rparr>) None] None), False,
                       track_message_start event u)
                   else if eventType = ''content_block_delta'' then
                     Some (Some (chunk [first_choice (anthropic_delta deltaMap) None] None), False, u)
                   else if eventType = ''message_delta'' then
                     Some (Some (chunk [first_choice zero_delta
                         (Some (finish_reason (as_string (obj_get deltaMap ''stop_reason''))))] None), False,
                       track_message_delta event u)
                   else if eventType = ''message_stop'' then
                     (let u = u \<lparr> ou_TotalTokens := i64 (ou_PromptTokens u + ou_CompletionTokens u) \<rparr>
                      in Some (Some (chunk [] (Some u)), True, u))
                   else Some (None, False, u))))"

section \<open>Events passed through\<close>

record openai_track =
  ot_text :: string
  ot_usage :: "OpenAIUsage option"
  ot_provider :: string
  ot_first :: "int option"

definition maxAccumulatedTextBytes :: int where
  "maxAccumulatedTextBytes = 2097152"

definition track_chunk :: "OpenAIChunk \<Rightarrow> openai_track \<Rightarrow> openai_track" where
  "track_chunk chunk t =
     (let t = (case ch_Choices chunk of
                 choice # rest \<Rightarrow>
                   if int (length (ot_text t)) < maxAccumulatedTextBytes
                   then t \<lparr> ot_text := ot_text t @ dl_Content (Delta choice) \<rparr> else t
               | [] \<Rightarrow> t);
          t = (if ch_Usage chunk \<noteq> None then t \<lparr> ot_usage := ch_Usage chunk \<rparr> else t)
      in if ch_Provider chunk \<noteq> [] then t \<lparr> ot_provider := ch_Provider chunk \<rparr> else t)"

text \<open>What the loop learns from a line: the tracker, and whether it is the terminal one.\<close>

definition observe_openai :: "int \<Rightarrow> string \<Rightarrow> openai_track \<Rightarrow> openai_track \<times> bool" where
  "observe_openai ms line t =
     (if HasPrefix line ''data:'' then
        (let dataStr = TrimSpace (TrimPrefix line ''data:'')
         in if dataStr = ''[DONE]'' then (t, True)
            else if dataStr \<noteq> [] then
              (let t = (if ot_first t = None then t \<lparr> ot_first := Some ms \<rparr> else t)
               in (case decode_chunk dataStr of None \<Rightarrow> t | Some chunk \<Rightarrow> track_chunk chunk t, False))
            else (t, False))
      else (t, False))"

definition track_anthropic_start :: "body \<Rightarrow> AnthropicUsage \<Rightarrow> AnthropicUsage" where
  "track_anthropic_start event t =
     (case Option.bind (object_field event ''message'') (\<lambda>msg. object_field msg ''usage'') of
        None \<Rightarrow> t
      | Some usage \<Rightarrow>
          set_int usage ''cache_read_input_tokens'' (\<lambda>n t. t \<lparr> au_CacheReadInputTokens := n \<rparr>)
            (set_int usage ''input_tokens'' (\<lambda>n t. t \<lparr> au_InputTokens := n \<rparr>) t))"

definition track_anthropic_delta :: "body \<Rightarrow> AnthropicUsage \<Rightarrow> AnthropicUsage" where
  "track_anthropic_delta event t =
     (case object_field event ''usage'' of
        None \<Rightarrow> t
      | Some usage \<Rightarrow>
          ApplyCacheCreation
            (set_int usage ''cache_creation_input_tokens'' (\<lambda>n t. t \<lparr> au_CacheCreationInputTokens := n \<rparr>)
              (set_int usage ''output_tokens'' (\<lambda>n t. t \<lparr> au_OutputTokens := n \<rparr>) t))
            (ParseAnthropicCacheCreation usage))"

definition observe_anthropic :: "int \<Rightarrow> string \<Rightarrow> AnthropicUsage \<Rightarrow> AnthropicUsage \<times> bool" where
  "observe_anthropic ms line t =
     (let trimmed = TrimSpace line
      in if HasPrefix trimmed ''data:'' then
           (case unmarshal_map (TrimPrefix trimmed ''data:'') of
              (raw, True) \<Rightarrow> (t, False)
            | (raw, False) \<Rightarrow>
                (let event = (case raw of None \<Rightarrow> [] | Some m \<Rightarrow> m);
                     eventType = as_string (obj_get event ''type'')
                 in if eventType = ''message_stop'' then (t, True)
                    else if eventType = ''message_start'' then (track_anthropic_start event t, False)
                    else if eventType = ''message_delta'' then (track_anthropic_delta event t, False)
                    else (t, False)))
         else (t, False))"

section \<open>The two loops\<close>

text \<open>\<open>rd_rows\<close> are the rows the reader has handed to \<open>saveRequestLog\<close>: the flag \<open>logged\<close> of the code
  is that there is one.\<close>

record 'u reader =
  rd_track :: 'u
  rd_closed :: bool
  rd_rows :: "RequestLog list"
  rd_frames :: "frame list"

definition new_reader :: "'u \<Rightarrow> 'u reader" where
  "new_reader t = \<lparr> rd_track = t, rd_closed = False, rd_rows = [], rd_frames = [] \<rparr>"

definition emit :: "frame list \<Rightarrow> 'u reader \<Rightarrow> 'u reader" where
  "emit fs rd = rd \<lparr> rd_frames := rd_frames rd @ fs \<rparr>"

definition finish ::
  "(int \<Rightarrow> bool \<Rightarrow> 'u \<Rightarrow> RequestLog) \<Rightarrow> (RequestLog \<Rightarrow> frame list) \<Rightarrow> int \<Rightarrow> 'u reader \<Rightarrow> 'u reader" where
  "finish bill meta ms rd =
     (if rd_rows rd \<noteq> [] then rd
      else (let row = bill ms (rd_closed rd) (rd_track rd) in emit (meta row) (rd \<lparr> rd_rows := [row] \<rparr>)))"

text \<open>Passing through: every line is forwarded; the terminal one is billed before it is.\<close>

definition pass_line ::
  "(int \<Rightarrow> string \<Rightarrow> 'u \<Rightarrow> 'u \<times> bool) \<Rightarrow> (int \<Rightarrow> bool \<Rightarrow> 'u \<Rightarrow> RequestLog) \<Rightarrow> (RequestLog \<Rightarrow> frame list) \<Rightarrow>
     int \<times> string \<Rightarrow> 'u reader \<Rightarrow> 'u reader" where
  "pass_line observe bill meta l rd =
     (case l of (ms, line) \<Rightarrow>
        (case observe ms line (rd_track rd) of (t, terminal) \<Rightarrow>
           (let rd = rd \<lparr> rd_track := t \<rparr>;
                rd = (if terminal then finish bill meta ms (rd \<lparr> rd_closed := True \<rparr>) else rd)
            in emit [Forward line] rd)))"

definition pass_stream ::
  "(int \<Rightarrow> string \<Rightarrow> 'u \<Rightarrow> 'u \<times> bool) \<Rightarrow> (int \<Rightarrow> bool \<Rightarrow> 'u \<Rightarrow> RequestLog) \<Rightarrow> (RequestLog \<Rightarrow> frame list) \<Rightarrow> frame \<Rightarrow>
     'u \<Rightarrow> (int \<times> string) list \<Rightarrow> int \<Rightarrow> 'u reader" where
  "pass_stream observe bill meta disconnected t lines finalMs =
     (let rd = fold (pass_line observe bill meta) lines (new_reader t);
          rd = (if rd_closed rd then rd else emit [disconnected] rd)
      in finish bill meta finalMs rd)"

text \<open>Translating: the loop is left at the terminal event, which is billed before the closing frame.
  \<open>None\<close> of the translation is a line that is skipped.\<close>

fun translate_lines ::
  "(string \<Rightarrow> 'u \<Rightarrow> (frame list \<times> bool \<times> 'u) option) \<Rightarrow> (int \<times> string) list \<Rightarrow> int \<Rightarrow> 'u reader \<Rightarrow> 'u reader \<times> int" where
  "translate_lines tr [] finalMs rd = (rd, finalMs)"
| "translate_lines tr ((ms, line) # lines) finalMs rd =
     (let line = TrimSpace line
      in if line = [] then translate_lines tr lines finalMs rd
         else
           (case tr line (rd_track rd) of
              None \<Rightarrow> translate_lines tr lines finalMs rd
            | Some (fs, fin, t) \<Rightarrow>
                (let rd = emit fs (rd \<lparr> rd_track := t \<rparr>)
                 in if fin then (rd \<lparr> rd_closed := True \<rparr>, ms) else translate_lines tr lines finalMs rd)))"

definition translate_stream ::
  "(string \<Rightarrow> 'u \<Rightarrow> (frame list \<times> bool \<times> 'u) option) \<Rightarrow> (int \<Rightarrow> bool \<Rightarrow> 'u \<Rightarrow> RequestLog) \<Rightarrow> (RequestLog \<Rightarrow> frame list) \<Rightarrow>
     frame \<Rightarrow> frame \<Rightarrow> 'u \<Rightarrow> (int \<times> string) list \<Rightarrow> int \<Rightarrow> 'u reader" where
  "translate_stream tr bill meta disconnected closing t lines finalMs =
     (case translate_lines tr lines finalMs (new_reader t) of (rd, ms) \<Rightarrow>
        (let rd = (if rd_closed rd then rd else emit [disconnected] rd);
             rd = finish bill meta ms rd
         in if rd_closed rd then emit [closing] rd else rd))"

section \<open>The bills\<close>

text \<open>\<open>price\<close> is \<open>setCalculatedCost\<close> for the model and the pinned instant of the request.\<close>

definition stream_outcome :: "bool \<Rightarrow> ctx_error option \<Rightarrow> bool \<Rightarrow> RequestLog \<Rightarrow> RequestLog" where
  "stream_outcome idle ctx ended entry =
     setStreamOutcome entry \<lparr> normalClose = ended, sr_idleTimeout = idle, sr_requestErr = ctx \<rparr>"

definition with_latency :: "int \<Rightarrow> RequestLog \<Rightarrow> RequestLog" where
  "with_latency ms entry = entry \<lparr> Meter := (Meter entry) \<lparr> LatencyMS := ms \<rparr> \<rparr>"

definition openai_report :: "int \<Rightarrow> int \<Rightarrow> int \<Rightarrow> int \<Rightarrow> ReportedUsage" where
  "openai_report prompt completion read write =
     zero_report \<lparr> r_PromptTokens := prompt, r_OutputTokens := completion, r_CacheReadTokens := read, r_CacheWriteTokens := write \<rparr>"

definition note_openai_usage :: "string \<Rightarrow> string \<Rightarrow> OpenAIUsage option \<Rightarrow> RequestLog \<Rightarrow> RequestLog" where
  "note_openai_usage baseURL targetModel usage entry =
     (if usage = None then entry
      else
        (let reasoning = ReasoningTokensReported usage; meter = Meter entry
         in entry \<lparr> Meter := meter \<lparr> CacheMissTokens := CacheMissTokensFor usage baseURL targetModel,
              ReasoningTokens := (if reasoning > 0 then Some reasoning else ReasoningTokens meter) \<rparr> \<rparr>))"

definition bill_openai ::
  "(RequestLog \<Rightarrow> ReportedUsage \<Rightarrow> RequestLog) \<Rightarrow> string \<Rightarrow> string \<Rightarrow> bool \<Rightarrow> ctx_error option \<Rightarrow> RequestLog \<Rightarrow>
     int \<Rightarrow> bool \<Rightarrow> openai_track \<Rightarrow> RequestLog" where
  "bill_openai price baseURL targetModel idle ctx entry ms ended t =
     (let usage = ot_usage t;
          report = (case usage of
             None \<Rightarrow> openai_report (lm_InputTokens (Meter entry)) (estimateTokens (ot_text t)) 0 0
           | Some u \<Rightarrow> openai_report (ou_PromptTokens u) (ou_CompletionTokens u)
               (CacheReadTokensFor usage baseURL targetModel) (CacheWriteTokensReported usage));
          e = note_openai_usage baseURL targetModel usage entry;
          e = e \<lparr> Meter := (Meter e) \<lparr> FirstTokenMS := ot_first t \<rparr>, UsageEstimated := usage = None,
                UpstreamProvider := ot_provider t \<rparr>
      in with_latency ms (stream_outcome idle ctx ended (price e report)))"

definition bill_anthropic_as_openai ::
  "(RequestLog \<Rightarrow> ReportedUsage \<Rightarrow> RequestLog) \<Rightarrow> bool \<Rightarrow> ctx_error option \<Rightarrow> RequestLog \<Rightarrow> int \<Rightarrow> bool \<Rightarrow> OpenAIUsage \<Rightarrow> RequestLog" where
  "bill_anthropic_as_openai price idle ctx entry ms ended u =
     (case CacheWriteTokensByTTL (Some u) of (flat, m5, h1) \<Rightarrow>
        with_latency ms (stream_outcome idle ctx ended
          (price entry (zero_report \<lparr> r_PromptTokens := ou_PromptTokens u, r_OutputTokens := ou_CompletionTokens u,
             r_CacheReadTokens := CacheReadTokens_reported (Some u), r_CacheWriteTokens := flat,
             r_CacheWrite5mTokens := m5, r_CacheWrite1hTokens := h1 \<rparr>))))"

definition bill_anthropic ::
  "(RequestLog \<Rightarrow> ReportedUsage \<Rightarrow> RequestLog) \<Rightarrow> bool \<Rightarrow> ctx_error option \<Rightarrow> RequestLog \<Rightarrow> int \<Rightarrow> bool \<Rightarrow> AnthropicUsage \<Rightarrow> RequestLog" where
  "bill_anthropic price idle ctx entry ms ended u =
     with_latency ms (stream_outcome idle ctx ended (price entry (anthropicReportedUsage (Some u))))"

text \<open>The chunk of usage the own clients get before the stream ends.\<close>

definition meta_client :: "string \<Rightarrow> bool" where
  "meta_client app \<longleftrightarrow> app \<in> {''MuhiyaChat'', ''MuhiyaCode''}"

definition sendMuhiyaMetaChunk :: "string \<Rightarrow> RequestLog \<Rightarrow> frame list" where
  "sendMuhiyaMetaChunk modelName entry =
     (if \<not> meta_client (ClientApp (Origin entry)) then []
      else
        (let m = Meter entry; number = (\<lambda>x. case x of None \<Rightarrow> JNull | Some n \<Rightarrow> json_int n)
         in [DataFrame (JObj [(''id'', JStr (rl_ID entry)), (''object'', JStr ''chat.completion.chunk''), (''model'', JStr modelName),
              (''usage'', JObj [(''prompt_tokens'', json_int (lm_InputTokens m)), (''completion_tokens'', json_int (lm_OutputTokens m)),
                 (''total_tokens'', json_int (i64 (lm_InputTokens m + lm_OutputTokens m)))]),
              (''muhiya_log'', JObj [(''cost'', JNum (Cost entry)), (''log_id'', JStr (rl_ID entry)),
                 (''usage_estimated'', JBool (UsageEstimated entry)), (''reasoning_tokens'', number (ReasoningTokens m)),
                 (''first_token_ms'', number (FirstTokenMS m))])])]))"

section \<open>The four streams\<close>

definition disconnect_text :: string where
  "disconnect_text = ''Upstream connection disconnected prematurely.''"

definition openai_disconnect :: frame where
  "openai_disconnect = DataFrame (JObj [(''error'', JObj [(''message'', JStr disconnect_text), (''type'', JStr ''api_error'')])])"

definition anthropic_disconnect :: frame where
  "anthropic_disconnect = EventFrame ''error'' (JObj [(''type'', JStr ''error''),
     (''error'', JObj [(''type'', JStr ''api_error''), (''message'', JStr disconnect_text)])])"

record stream_input =
  si_lines :: "(int \<times> string) list"
  si_end :: int
  si_idle :: bool
  si_ctx :: "ctx_error option"

definition stream_openai_to_openai ::
  "(RequestLog \<Rightarrow> ReportedUsage \<Rightarrow> RequestLog) \<Rightarrow> string \<Rightarrow> string \<Rightarrow> string \<Rightarrow> RequestLog \<Rightarrow> stream_input \<Rightarrow> openai_track reader" where
  "stream_openai_to_openai price baseURL targetModel modelName entry s =
     pass_stream observe_openai (bill_openai price baseURL targetModel (si_idle s) (si_ctx s) entry)
       (sendMuhiyaMetaChunk modelName) openai_disconnect
       \<lparr> ot_text = [], ot_usage = None, ot_provider = [], ot_first = None \<rparr> (si_lines s) (si_end s)"

definition stream_anthropic_to_anthropic ::
  "(RequestLog \<Rightarrow> ReportedUsage \<Rightarrow> RequestLog) \<Rightarrow> string \<Rightarrow> RequestLog \<Rightarrow> stream_input \<Rightarrow> AnthropicUsage reader" where
  "stream_anthropic_to_anthropic price modelName entry s =
     pass_stream observe_anthropic (bill_anthropic price (si_idle s) (si_ctx s) entry)
       (sendMuhiyaMetaChunk modelName) anthropic_disconnect zero_anthropic_usage (si_lines s) (si_end s)"

definition stream_openai_to_anthropic ::
  "(RequestLog \<Rightarrow> ReportedUsage \<Rightarrow> RequestLog) \<Rightarrow> int \<Rightarrow> string \<Rightarrow> string \<Rightarrow> string \<Rightarrow> RequestLog \<Rightarrow> stream_input \<Rightarrow> OpenAIUsage reader" where
  "stream_openai_to_anthropic price created msgID requestModel modelName entry s =
     translate_stream
       (\<lambda>line u. map_option (\<lambda>(chunk, fin, u). (case chunk of None \<Rightarrow> [] | Some c \<Rightarrow> [DataFrame (chunk_json c)], fin, u))
          (TranslateAnthropicChunkToOpenAI created line msgID requestModel u))
       (bill_anthropic_as_openai price (si_idle s) (si_ctx s) entry)
       (sendMuhiyaMetaChunk modelName) openai_disconnect DoneFrame zero_openai_usage (si_lines s) (si_end s)"

definition stream_anthropic_to_openai ::
  "(RequestLog \<Rightarrow> ReportedUsage \<Rightarrow> RequestLog) \<Rightarrow> string \<Rightarrow> string \<Rightarrow> string \<Rightarrow> RequestLog \<Rightarrow> stream_input \<Rightarrow> AnthropicUsage reader" where
  "stream_anthropic_to_openai price msgID requestModel modelName entry s =
     translate_stream
       (\<lambda>line t. map_option (\<lambda>(event, fin, t). (case event of None \<Rightarrow> [] | Some (name, v) \<Rightarrow> [EventFrame name v], fin, t))
          (TranslateOpenAIChunkToAnthropic line msgID requestModel t))
       (bill_anthropic price (si_idle s) (si_ctx s) entry)
       (sendMuhiyaMetaChunk modelName) anthropic_disconnect
       (EventFrame ''message_stop'' (JObj [(''type'', JStr ''message_stop'')])) zero_anthropic_usage (si_lines s) (si_end s)"

section \<open>Every stream is billed once\<close>

definition reader_ok :: "(int \<Rightarrow> bool \<Rightarrow> 'u \<Rightarrow> RequestLog) \<Rightarrow> 'u reader \<Rightarrow> bool" where
  "reader_ok bill rd \<longleftrightarrow>
     (if rd_closed rd then \<exists>ms t. rd_rows rd = [bill ms True t] else rd_rows rd = [])"

definition billed_once :: "(int \<Rightarrow> bool \<Rightarrow> 'u \<Rightarrow> RequestLog) \<Rightarrow> 'u reader \<Rightarrow> bool" where
  "billed_once bill rd \<longleftrightarrow> (\<exists>ms t. rd_rows rd = [bill ms (rd_closed rd) t])"

lemma emit_simps [simp]:
  "rd_rows (emit fs rd) = rd_rows rd" "rd_closed (emit fs rd) = rd_closed rd" "rd_track (emit fs rd) = rd_track rd"
  by (simp_all add: emit_def)

lemma finish_simps [simp]:
  "rd_closed (finish bill meta ms rd) = rd_closed rd"
  "rd_rows (finish bill meta ms rd) = (if rd_rows rd = [] then [bill ms (rd_closed rd) (rd_track rd)] else rd_rows rd)"
  by (simp_all add: finish_def Let_def)

lemma new_reader_simps [simp]: "rd_rows (new_reader t) = []" "rd_closed (new_reader t) = False" "rd_track (new_reader t) = t"
  by (simp_all add: new_reader_def)

lemma pass_line_ok: "reader_ok bill rd \<Longrightarrow> reader_ok bill (pass_line observe bill meta l rd)"
  by (auto simp: reader_ok_def pass_line_def Let_def split: prod.splits if_splits)

lemma pass_lines_ok: "reader_ok bill rd \<Longrightarrow> reader_ok bill (fold (pass_line observe bill meta) lines rd)"
  by (induction lines arbitrary: rd) (simp_all add: pass_line_ok)

lemma pass_stream_once: "billed_once bill (pass_stream observe bill meta disconnected t lines ms)"
proof -
  have "reader_ok bill (fold (pass_line observe bill meta) lines (new_reader t))"
    by (rule pass_lines_ok) (simp add: reader_ok_def)
  then show ?thesis
    by (auto simp: reader_ok_def billed_once_def pass_stream_def Let_def split: if_splits)
qed

lemma translate_lines_rows: "rd_rows rd = [] \<Longrightarrow> rd_rows (fst (translate_lines tr lines ms rd)) = []"
  by (induction tr lines ms rd rule: translate_lines.induct) (auto simp: Let_def split: option.splits)

lemma translate_stream_once: "billed_once bill (translate_stream tr bill meta disconnected closing t lines ms)"
proof -
  obtain rd ms' where run: "translate_lines tr lines ms (new_reader t) = (rd, ms')" by fastforce
  with translate_lines_rows [of "new_reader t" tr lines ms] have "rd_rows rd = []" by simp
  with run show ?thesis
    by (auto simp: billed_once_def translate_stream_def Let_def)
qed

section \<open>What a bill keeps\<close>

text \<open>A price keeps the identity of a row: its identifier and the ceiling it was admitted with.\<close>

definition keeps_identity :: "(RequestLog \<Rightarrow> ReportedUsage \<Rightarrow> RequestLog) \<Rightarrow> bool" where
  "keeps_identity price \<longleftrightarrow>
     (\<forall>e u. rl_ID (price e u) = rl_ID e \<and> ChargeCeilingNanoUSD (price e u) = ChargeCeilingNanoUSD e \<and> UserID (price e u) = UserID e)"

lemma keeps_identityI: "keeps_identity (\<lambda>e u. setCalculatedCost snapshot address describe e m u t)"
  by (simp add: keeps_identity_def)

lemma with_latency_simps [simp]:
  "rl_ID (with_latency ms e) = rl_ID e" "ChargeCeilingNanoUSD (with_latency ms e) = ChargeCeilingNanoUSD e"
  "UserID (with_latency ms e) = UserID e" "successful (with_latency ms e) = successful e"
  by (simp_all add: with_latency_def successful_def)

lemma stream_outcome_simps [simp]:
  "rl_ID (stream_outcome idle ctx ended e) = rl_ID e"
  "ChargeCeilingNanoUSD (stream_outcome idle ctx ended e) = ChargeCeilingNanoUSD e"
  "UserID (stream_outcome idle ctx ended e) = UserID e" "\<not> successful (stream_outcome idle ctx False e)"
  by (simp_all add: stream_outcome_def failed_stream_unsuccessful)

text \<open>The contract of a bill: the row is the request's, and it counts only when the stream has ended
  normally.\<close>

definition fair_bill :: "RequestLog \<Rightarrow> (int \<Rightarrow> bool \<Rightarrow> 'u \<Rightarrow> RequestLog) \<Rightarrow> bool" where
  "fair_bill entry bill \<longleftrightarrow>
     (\<forall>ms ended t. rl_ID (bill ms ended t) = rl_ID entry \<and>
        ChargeCeilingNanoUSD (bill ms ended t) = ChargeCeilingNanoUSD entry \<and> UserID (bill ms ended t) = UserID entry \<and>
        \<not> successful (bill ms False t))"

lemma fair_bills:
  assumes "keeps_identity price"
  shows "fair_bill entry (bill_openai price baseURL targetModel idle ctx entry)"
    "fair_bill entry (bill_anthropic_as_openai price idle ctx entry)"
    "fair_bill entry (bill_anthropic price idle ctx entry)"
proof -
  note k = assms [unfolded keeps_identity_def, rule_format]
  have n: "rl_ID (note_openai_usage b m u e) = rl_ID e" "UserID (note_openai_usage b m u e) = UserID e"
    "ChargeCeilingNanoUSD (note_openai_usage b m u e) = ChargeCeilingNanoUSD e" for b m u e
    by (simp_all add: note_openai_usage_def Let_def)
  show "fair_bill entry (bill_openai price baseURL targetModel idle ctx entry)"
    by (simp add: fair_bill_def bill_openai_def k n Let_def)
  show "fair_bill entry (bill_anthropic_as_openai price idle ctx entry)"
    by (simp add: fair_bill_def bill_anthropic_as_openai_def k split: prod.splits)
  show "fair_bill entry (bill_anthropic price idle ctx entry)"
    by (simp add: fair_bill_def bill_anthropic_def k)
qed

text \<open>The row of a request, and what saving it does: it charges within the ceiling, or leaves the row for a
  retry.\<close>

definition row_of :: "RequestLog \<Rightarrow> RequestLog \<Rightarrow> bool" where
  "row_of entry row \<longleftrightarrow> rl_ID row = rl_ID entry \<and> ChargeCeilingNanoUSD row = ChargeCeilingNanoUSD entry \<and> UserID row = UserID entry"

definition charged_within :: "instant \<Rightarrow> RequestLog list \<Rightarrow> RequestLog \<Rightarrow> bool \<Rightarrow> store \<Rightarrow> outbox \<Rightarrow> bool" where
  "charged_within dbnow rows entry ended db ob \<longleftrightarrow>
     (\<exists>db' row. fold (saveRequestLog dbnow) rows (db, ob) = (db', ob) \<and>
        request_logs db' = request_logs db @ [row] \<and> rl_ID row = rl_ID entry \<and> 0 \<le> CostNanoUSD row \<and>
        CostNanoUSD row \<le> ChargeCeilingNanoUSD entry \<and> (\<not> ended \<longrightarrow> CostNanoUSD row = 0)) \<or>
     (\<exists>row. fold (saveRequestLog dbnow) rows (db, ob) = (db, enqueue row ob) \<and>
        rl_ID row = rl_ID entry \<and> ChargeCeilingNanoUSD row = ChargeCeilingNanoUSD entry)"

lemma row_charged:
  assumes "row_of entry row" "0 < ChargeCeilingNanoUSD entry" "\<not> requestLogExists db (rl_ID entry)"
    and "\<not> ended \<Longrightarrow> \<not> successful row"
  shows "charged_within dbnow [row] entry ended db ob"
proof (cases "SettleUsageAndLog db dbnow row")
  case (Inl err)
  then show ?thesis using assms by (auto simp: charged_within_def saveRequestLog_def row_of_def)
next
  case (Inr db')
  have "saveRequestLog dbnow row (db, ob) = (db', ob)" using Inr assms(1,2) by (simp add: saveRequestLog_def row_of_def)
  then show ?thesis using settled_row [OF Inr] assms unfolding charged_within_def row_of_def by fastforce
qed

text \<open>A way to read an upstream stream: whatever its lines, it hands over one row of the request, and one
  that counts only after the terminal event.\<close>

locale metered_stream =
  fixes read :: "RequestLog \<Rightarrow> stream_input \<Rightarrow> 'u reader" and bill :: "RequestLog \<Rightarrow> stream_input \<Rightarrow> int \<Rightarrow> bool \<Rightarrow> 'u \<Rightarrow> RequestLog"
  assumes once: "billed_once (bill entry s) (read entry s)"
    and fair: "fair_bill entry (bill entry s)"
begin

lemma row: "\<exists>row. rd_rows (read entry s) = [row] \<and> row_of entry row \<and> (\<not> rd_closed (read entry s) \<longrightarrow> \<not> successful row)"
  using once [of entry s] fair [of entry s] unfolding billed_once_def fair_bill_def row_of_def by metis

lemma settled:
  assumes "0 < ChargeCeilingNanoUSD entry" "\<not> requestLogExists db (rl_ID entry)"
  shows "charged_within dbnow (rd_rows (read entry s)) entry (rd_closed (read entry s)) db ob"
  using row [of entry s] row_charged [OF _ assms] by metis

end

text \<open>The four readers, with the price of the model at the pinned instant.\<close>

definition price_at ::
  "(price_snapshot \<Rightarrow> string) \<Rightarrow> (nat \<Rightarrow> nat) \<Rightarrow> (model_error \<Rightarrow> string) \<Rightarrow> Model \<Rightarrow> instant \<Rightarrow> RequestLog \<Rightarrow> ReportedUsage \<Rightarrow> RequestLog" where
  "price_at snapshot address describe m t = (\<lambda>entry reported. setCalculatedCost snapshot address describe entry (Some m) reported t)"

lemma price_at_keeps: "keeps_identity (price_at snapshot address describe m t)"
  by (simp add: price_at_def keeps_identityI)

interpretation openai: metered_stream
  "stream_openai_to_openai (price_at snapshot address describe m t) baseURL targetModel modelName"
  "\<lambda>entry s. bill_openai (price_at snapshot address describe m t) baseURL targetModel (si_idle s) (si_ctx s) entry"
  for snapshot address describe m t baseURL targetModel modelName
  by unfold_locales (simp_all add: stream_openai_to_openai_def pass_stream_once fair_bills price_at_keeps)

interpretation anthropic: metered_stream
  "stream_anthropic_to_anthropic (price_at snapshot address describe m t) modelName"
  "\<lambda>entry s. bill_anthropic (price_at snapshot address describe m t) (si_idle s) (si_ctx s) entry"
  for snapshot address describe m t modelName
  by unfold_locales (simp_all add: stream_anthropic_to_anthropic_def pass_stream_once fair_bills price_at_keeps)

interpretation to_anthropic: metered_stream
  "stream_openai_to_anthropic (price_at snapshot address describe m t) created msgID requestModel modelName"
  "\<lambda>entry s. bill_anthropic_as_openai (price_at snapshot address describe m t) (si_idle s) (si_ctx s) entry"
  for snapshot address describe m t created msgID requestModel modelName
  by unfold_locales (simp_all add: stream_openai_to_anthropic_def translate_stream_once fair_bills price_at_keeps)

interpretation to_openai: metered_stream
  "stream_anthropic_to_openai (price_at snapshot address describe m t) msgID requestModel modelName"
  "\<lambda>entry s. bill_anthropic (price_at snapshot address describe m t) (si_idle s) (si_ctx s) entry"
  for snapshot address describe m t msgID requestModel modelName
  by unfold_locales (simp_all add: stream_anthropic_to_openai_def translate_stream_once fair_bills price_at_keeps)

section \<open>The usage that comes too late\<close>

text \<open>An OpenAI upstream reports the usage of a stream in a chunk of its own, after the one with the finish
  reason. \<open>silent\<close>: no chunk of these lines reports any or ends the stream.\<close>

definition silent :: "string \<Rightarrow> bool" where
  "silent line \<longleftrightarrow>
     (case Option.bind (data_of line) decode_chunk of
        None \<Rightarrow> True
      | Some chunk \<Rightarrow> ch_Usage chunk = None \<and>
          (case ch_Choices chunk of [] \<Rightarrow> True | choice # rest \<Rightarrow> \<not> snd (choice_event [] [] zero_anthropic_usage choice)))"

definition ends_silently :: "string \<Rightarrow> bool" where
  "ends_silently line \<longleftrightarrow>
     (case Option.bind (data_of line) decode_chunk of
        None \<Rightarrow> False
      | Some chunk \<Rightarrow> ch_Usage chunk = None \<and>
          (case ch_Choices chunk of [] \<Rightarrow> False | choice # rest \<Rightarrow> snd (choice_event [] [] zero_anthropic_usage choice)))"

lemma choice_event_end: "snd (choice_event msgID model t choice) = snd (choice_event [] [] zero_anthropic_usage choice)"
  by (simp add: choice_event_def finish_event_def Let_def split: list.split option.split)

lemma silent_step:
  assumes "silent line"
  shows "case TranslateOpenAIChunkToAnthropic line msgID model t of None \<Rightarrow> True | Some (event, fin, t') \<Rightarrow> \<not> fin \<and> t' = t"
  using assms choice_event_end [of msgID model]
  by (auto simp: silent_def TranslateOpenAIChunkToAnthropic_def track_openai_usage_def Let_def
      split: option.splits list.splits prod.splits) (metis snd_conv)+

lemma end_step:
  assumes "ends_silently line"
  shows "\<exists>event. TranslateOpenAIChunkToAnthropic line msgID model t = Some (event, True, t)"
proof -
  obtain d chunk choice rest where d: "data_of line = Some d" "decode_chunk d = Some chunk" "ch_Usage chunk = None"
    "ch_Choices chunk = choice # rest" "snd (choice_event [] [] zero_anthropic_usage choice)"
    using assms by (auto simp: ends_silently_def bind_eq_Some_conv split: option.splits list.splits)
  obtain event fin where e: "choice_event msgID model t choice = (event, fin)" by fastforce
  with d(5) choice_event_end [of msgID model t choice] have fin by simp
  with d e show ?thesis by (simp add: TranslateOpenAIChunkToAnthropic_def track_openai_usage_def)
qed

lemma silent_lines:
  assumes "\<forall>(ms, line) \<in> set lines. silent (TrimSpace line)"
    and "tr = (\<lambda>line t. map_option (\<lambda>(event, fin, t). (case event of None \<Rightarrow> [] | Some (name, v) \<Rightarrow> [EventFrame name v], fin, t))
          (TranslateOpenAIChunkToAnthropic line msgID requestModel t))"
    and "ends_silently (TrimSpace fin_line)" "TrimSpace fin_line \<noteq> []"
  shows "\<exists>fs. translate_lines tr (lines @ (ms, fin_line) # rest) finalMs rd = ((emit fs rd) \<lparr> rd_closed := True \<rparr>, ms)"
  using assms(1)
proof (induction lines arbitrary: rd)
  case Nil
  from end_step [OF assms(3), of msgID requestModel "rd_track rd"]
  obtain event where "TranslateOpenAIChunkToAnthropic (TrimSpace fin_line) msgID requestModel (rd_track rd)
      = Some (event, True, rd_track rd)" by blast
  then show ?case using assms(4) by (auto simp: assms(2) Let_def intro: exI)
next
  case (Cons l lines)
  obtain m line where l: "l = (m, line)" by (cases l)
  have s: "silent (TrimSpace line)" using Cons.prems by (simp add: l)
  have rest: "\<exists>fs. translate_lines tr (lines @ (ms, fin_line) # rest) finalMs rd' = ((emit fs rd') \<lparr> rd_closed := True \<rparr>, ms)" for rd'
    using Cons by simp
  have join: "emit fs' (emit fs rd) = emit (fs @ fs') rd" for fs fs' by (simp add: emit_def)
  show ?case
    using silent_step [OF s, where msgID = msgID and model = requestModel and t = "rd_track rd"] rest
    by (auto simp: l assms(2) join Let_def split: option.splits prod.splits) (metis join)+
qed

section \<open>An example stream\<close>

text \<open>An upstream's answer in three events: text, the finish reason, and then its usage.\<close>

definition sse_line :: "string \<Rightarrow> string" where
  "sse_line text = (''data:'' @ text) @ [byte 10]"

definition hi_event :: string where
  "hi_event = ''{\"choices\":[{\"index\":0,\"delta\":{\"content\":\"hi\"}}]}''"

definition stop_event :: string where
  "stop_event = ''{\"choices\":[{\"index\":0,\"delta\":{},\"finish_reason\":\"stop\"}]}''"

definition usage_event :: string where
  "usage_event = ''{\"choices\":[],\"usage\":{\"prompt_tokens\":900,\"completion_tokens\":80}}''"

definition example_entry :: RequestLog where
  "example_entry = example_log ''a'' 200 0 \<lparr> ChargeCeilingNanoUSD := 2 \<rparr>"

definition example_stream :: stream_input where
  "example_stream = \<lparr> si_lines = [(1, sse_line hi_event), (2, sse_line stop_event), (3, sse_line usage_event)],
     si_end = 4, si_idle = False, si_ctx = None \<rparr>"

lemma sse_line_trim:
  assumes "text \<noteq> []" "graphic (hd text)" "graphic (last text)"
  shows "TrimSpace (sse_line text) = ''data:'' @ text" "data_of (''data:'' @ text) = (if text = ''[DONE]'' then None else Some text)"
proof -
  have "graphic (hd ''data:'')" by code_simp
  then show "TrimSpace (sse_line text) = ''data:'' @ text"
    unfolding sse_line_def using assms by (intro TrimSpace_newline) simp_all
  show "data_of (''data:'' @ text) = (if text = ''[DONE]'' then None else Some text)"
    using TrimSpace_graphic [OF assms] assms(1) by (simp add: data_of_def HasPrefix_def TrimPrefix_def)
qed

text \<open>Where a decoder is evaluated.\<close>

lemmas decoding = decode_chunk_def unmarshal_def dec_chunk_def dec_struct_def fld_def field_for_def dec_list_def
  dec_int_def dec_delta_def dec_string_def dec_ptr_def zero_chunk_def zero_delta_def

lemma hi_event_parsed: "parse_json hi_event =
    Some (RObj [(''choices'', RArr [RObj [(''index'', RNum ''0''), (''delta'', RObj [(''content'', RStr ''hi'')])]])])"
  by code_simp

lemma stop_event_parsed: "parse_json stop_event =
    Some (RObj [(''choices'', RArr [RObj [(''index'', RNum ''0''), (''delta'', RObj []), (''finish_reason'', RStr ''stop'')]])])"
  by code_simp

lemma ParseInt_0: "ParseInt ''0'' = Some 0"
proof -
  have "ParseUint ''0'' = Some 0" by (simp add: ParseUint_def dec_val_def digit_val_def is_digit_def)
  then show ?thesis by (simp add: ParseInt_def int64_consts in64_def)
qed

lemma hi_line:
  "silent (TrimSpace (sse_line hi_event))"
proof -
  have "graphic (hd hi_event)" "graphic (last hi_event)" "hi_event \<noteq> []" "hi_event \<noteq> ''[DONE]''" by code_simp+
  then show ?thesis
    by (simp add: sse_line_trim sse_line_trim(2) [simplified] silent_def decoding hi_event_parsed ParseInt_0 choice_event_def finish_event_def)
qed

lemma stop_line:
  "ends_silently (TrimSpace (sse_line stop_event))" "TrimSpace (sse_line stop_event) \<noteq> []"
proof -
  have e: "graphic (hd stop_event)" "graphic (last stop_event)" "stop_event \<noteq> []" "stop_event \<noteq> ''[DONE]''" by code_simp+
  then show "ends_silently (TrimSpace (sse_line stop_event))"
    by (simp add: sse_line_trim sse_line_trim(2) [simplified] ends_silently_def decoding stop_event_parsed ParseInt_0 choice_event_def finish_event_def)
  show "TrimSpace (sse_line stop_event) \<noteq> []"
    using e by (simp add: sse_line_trim)
qed

section \<open>Properties\<close>

text \<open>A reader bills a stream once. Whatever lines an OpenAI upstream sends and however the stream ends,
  the row it saves costs between zero and the ceiling of the admission, and nothing unless the
  terminal event was seen; a row the database refuses is queued for retry with its ceiling.\<close>

theorem openai_stream_settled:
  fixes snapshot :: "price_snapshot \<Rightarrow> string" and describe :: "model_error \<Rightarrow> string"
  assumes "0 < ChargeCeilingNanoUSD entry" "\<not> requestLogExists db (rl_ID entry)"
    and "rd = stream_openai_to_openai (price_at snapshot address describe m t) baseURL targetModel modelName entry s"
  shows "(\<exists>db' row. fold (saveRequestLog dbnow) (rd_rows rd) (db, ob) = (db', ob) \<and>
      request_logs db' = request_logs db @ [row] \<and> rl_ID row = rl_ID entry \<and> 0 \<le> CostNanoUSD row \<and>
      CostNanoUSD row \<le> ChargeCeilingNanoUSD entry \<and> (\<not> rd_closed rd \<longrightarrow> CostNanoUSD row = 0)) \<or>
    (\<exists>row. fold (saveRequestLog dbnow) (rd_rows rd) (db, ob) = (db, enqueue row ob) \<and>
      rl_ID row = rl_ID entry \<and> ChargeCeilingNanoUSD row = ChargeCeilingNanoUSD entry)"
  using openai.settled [OF assms(1,2)] unfolding assms(3) charged_within_def .

theorem openai_stream_settled_witness:
  "let rd = stream_openai_to_openai (price_at (\<lambda>s. fst s) (\<lambda>n. n) (\<lambda>e. ''error'') plain_model 60) [] ''m'' ''m'' example_entry example_stream
   in (\<exists>db' row. fold (saveRequestLog 60) (rd_rows rd) (example_store, newLogOutbox example_store) = (db', newLogOutbox example_store) \<and>
      request_logs db' = request_logs example_store @ [row] \<and> rl_ID row = ''a'' \<and> 0 \<le> CostNanoUSD row \<and>
      CostNanoUSD row \<le> 2 \<and> (\<not> rd_closed rd \<longrightarrow> CostNanoUSD row = 0)) \<or>
    (\<exists>row. fold (saveRequestLog 60) (rd_rows rd) (example_store, newLogOutbox example_store)
        = (example_store, enqueue row (newLogOutbox example_store)) \<and>
      rl_ID row = ''a'' \<and> ChargeCeilingNanoUSD row = 2)"
proof -
  have "ChargeCeilingNanoUSD example_entry = 2" "rl_ID example_entry = ''a''" "\<not> requestLogExists example_store ''a''"
    by (simp_all add: example_entry_def example_log_def requestLogExists_def example_store_def)
  with openai_stream_settled [where entry = example_entry and db = example_store and rd = "stream_openai_to_openai
      (price_at (\<lambda>s. fst s) (\<lambda>n. n) (\<lambda>e. ''error'') plain_model 60) [] ''m'' ''m'' example_entry example_stream"
      and dbnow = 60 and ob = "newLogOutbox example_store", OF _ _ refl]
  show ?thesis by (simp add: Let_def)
qed

lemma zero_report_usage:
  "anthropicReportedUsage (Some zero_anthropic_usage) = zero_report"
  "fst (NormalizeUsage zero_report mode) = zero_usage"
  by (simp_all add: anthropicReportedUsage_def zero_anthropic_usage_def zero_report_def i64_def NormalizeUsage_def
      hasNegative_def cacheReadTotal_def cacheWriteTotal_def zero_usage_def Let_def)

lemma no_tokens_no_cost:
  assumes "QuoteAt r zero_usage t = Inr q"
  shows "q_Cost q = 0"
proof -
  have "quote_loop (q_Rates q) (WindowFor r t) zero_usage TokenClasses 0 [] = Inr (q_Cost q, Lines (q_Receipt q))"
    by (rule QuoteAt_InrE [OF assms], assumption)
  then show ?thesis by (simp add: TokenClasses_def zero_usage_def)
qed

lemma price_of_nothing:
  "CostNanoUSD (price_at snapshot address describe m t entry zero_report) = 0"
  "lm_OutputTokens (Meter (price_at snapshot address describe m t entry zero_report)) = 0"
  "lm_InputTokens (Meter (price_at snapshot address describe m t entry zero_report)) = 0"
proof -
  obtain anomaly where n: "NormalizeUsage zero_report (model_accounting (Some m)) = (zero_usage, anomaly)"
    using zero_report_usage(2) by (metis prod.collapse)
  show "CostNanoUSD (price_at snapshot address describe m t entry zero_report) = 0"
  proof (cases "pricingRulesForModel snapshot address (Some m)")
    case (Inl e)
    then show ?thesis by (simp add: price_at_def setCalculatedCost_def n ebind_def Let_def)
  next
    case (Inr rules)
    then show ?thesis
      using no_tokens_no_cost [of rules t]
      by (cases "QuoteAt rules zero_usage t")
        (simp_all add: price_at_def setCalculatedCost_def n applyQuoteToLog_def ebind_def Let_def)
  qed
  show "lm_OutputTokens (Meter (price_at snapshot address describe m t entry zero_report)) = 0"
    "lm_InputTokens (Meter (price_at snapshot address describe m t entry zero_report)) = 0"
    by (simp_all add: price_at_def setCalculatedCost_def n applyQuoteToLog_def meter_usage_def zero_usage_def Let_def
        split: sum.splits)
qed

text \<open>C11: A generation can be free of charge. When an Anthropic client is served by an OpenAI upstream, the
  stream is left at the chunk with the finish reason; the usage an OpenAI upstream reports in the
  chunk after it is never read. The request is logged as a success without tokens and without cost,
  whatever follows.\<close>

theorem late_usage_unbilled:
  fixes snapshot :: "price_snapshot \<Rightarrow> string" and describe :: "model_error \<Rightarrow> string"
  assumes "\<forall>(ms, line) \<in> set lines. silent (TrimSpace line)"
    and "ends_silently (TrimSpace fin_line)" "TrimSpace fin_line \<noteq> []"
    and "si_lines s = lines @ (ms, fin_line) # rest"
  shows "\<exists>row. rd_rows (stream_anthropic_to_openai (price_at snapshot address describe m t) msgID requestModel modelName entry s) = [row] \<and>
    StatusCode row = 200 \<and> CostNanoUSD row = 0 \<and> lm_InputTokens (Meter row) = 0 \<and> lm_OutputTokens (Meter row) = 0"
proof -
  from silent_lines [OF assms(1) refl assms(2,3), of msgID requestModel ms rest "si_end s" "new_reader zero_anthropic_usage"]
  have "rd_rows (stream_anthropic_to_openai (price_at snapshot address describe m t) msgID requestModel modelName entry s) =
      [bill_anthropic (price_at snapshot address describe m t) (si_idle s) (si_ctx s) entry ms True zero_anthropic_usage]"
    by (auto simp: stream_anthropic_to_openai_def translate_stream_def assms(4) emit_def new_reader_def finish_def Let_def)
  then show ?thesis
    by (simp add: bill_anthropic_def zero_report_usage with_latency_def stream_outcome_def setStreamOutcome_def price_of_nothing)
qed

lemma late_usage_unbilled_witness:
  "\<exists>row. rd_rows (stream_anthropic_to_openai (price_at (\<lambda>s. fst s) (\<lambda>n. n) (\<lambda>e. ''error'') plain_model 60) ''msg'' ''m'' ''m''
      example_entry example_stream) = [row] \<and>
    StatusCode row = 200 \<and> CostNanoUSD row = 0 \<and> lm_InputTokens (Meter row) = 0 \<and> lm_OutputTokens (Meter row) = 0"
  by (rule late_usage_unbilled [of "[(1, sse_line hi_event)]" "sse_line stop_event" _ 2 "[(3, sse_line usage_event)]"])
    (simp_all add: hi_line stop_line example_stream_def)

end
