(* ===== verification/Media.thy ===== *)
theory Media
  imports Wire
begin

text \<open>
  Attachments (src/proxy/media.go): which media a request carries, which a model accepts, and the
  strip that replaces the parts an upstream would reject by a note.
\<close>

section \<open>Kinds\<close>

record mediaNeeds =
  Vision :: bool
  Audio :: bool
  Video :: bool
  Documents :: bool

definition no_needs :: mediaNeeds where
  "no_needs = \<lparr> Vision = False, Audio = False, Video = False, Documents = False \<rparr>"

definition describe :: "mediaNeeds \<Rightarrow> string" where
  "describe n = JoinWith ''+''
     ((if Vision n then [''image''] else []) @ (if Audio n then [''audio''] else []) @
      (if Video n then [''video''] else []) @ (if Documents n then [''document''] else []))"

definition contentPartType :: "json \<Rightarrow> string" where
  "contentPartType item = (case as_object (Some item) of None \<Rightarrow> [] | Some m \<Rightarrow> as_string (obj_get m ''type''))"

definition mediaKindForPartType :: "string \<Rightarrow> string" where
  "mediaKindForPartType partType =
     (if partType = ''image_url'' then ''image'' else if partType = ''input_audio'' then ''audio''
      else if partType = ''video_url'' then ''video'' else if partType = ''file'' then ''document'' else [])"

definition part_kind :: "json \<Rightarrow> string" where
  "part_kind item = mediaKindForPartType (contentPartType item)"

definition noteKind :: "string \<Rightarrow> mediaNeeds \<Rightarrow> mediaNeeds" where
  "noteKind kind n =
     (if kind = ''image'' then n \<lparr> Vision := True \<rparr> else if kind = ''audio'' then n \<lparr> Audio := True \<rparr>
      else if kind = ''video'' then n \<lparr> Video := True \<rparr> else if kind = ''document'' then n \<lparr> Documents := True \<rparr> else n)"

definition detectMediaNeedsOpenAI :: "OpenAIMessage list \<Rightarrow> mediaNeeds" where
  "detectMediaNeedsOpenAI messages =
     fold (\<lambda>msg n. case as_array (Some (om_Content msg)) of
                     None \<Rightarrow> n | Some arr \<Rightarrow> fold (\<lambda>item n. noteKind (part_kind item) n) arr n) messages no_needs"

definition detectMediaNeedsAnthropic :: "AnthropicMessage list \<Rightarrow> mediaNeeds" where
  "detectMediaNeedsAnthropic messages =
     fold (\<lambda>block n. if ac_Type block = ''image'' then n \<lparr> Vision := True \<rparr>
                      else if ac_Type block = ''document'' then n \<lparr> Documents := True \<rparr> else n)
       (concat (map am_Content messages)) no_needs"

section \<open>What a model accepts\<close>

definition vision_names :: "string list" where
  "vision_names = [''gpt-4o'', ''claude-3-5-sonnet'', ''vision'', ''-vl'', ''gemini'', ''gemma'', ''pixtral'', ''llava'']"

definition modelMatchesVision :: "Model \<Rightarrow> bool" where
  "modelMatchesVision m \<longleftrightarrow> SupportsVision (m_Media m) \<or>
     list_ex (\<lambda>kw. Contains (ToLower (m_Name m)) kw \<or> Contains (ToLower (TargetModel m)) kw) vision_names"

definition modelSupportsMediaKind :: "Model \<Rightarrow> string \<Rightarrow> bool" where
  "modelSupportsMediaKind m kind =
     (if kind = ''image'' then modelMatchesVision m else if kind = ''audio'' then SupportsAudio (m_Media m)
      else if kind = ''video'' then SupportsVideo (m_Media m) else if kind = ''document'' then SupportsDocuments (m_Media m)
      else True)"

definition modelSupportsMedia :: "Model \<Rightarrow> mediaNeeds \<Rightarrow> bool" where
  "modelSupportsMedia m needs \<longleftrightarrow>
     \<not> (Vision needs \<and> \<not> modelMatchesVision m) \<and> \<not> (Audio needs \<and> \<not> SupportsAudio (m_Media m)) \<and>
     \<not> (Video needs \<and> \<not> SupportsVideo (m_Media m)) \<and> \<not> (Documents needs \<and> \<not> SupportsDocuments (m_Media m))"

section \<open>The strip\<close>

text \<open>The remarks have a dash of three bytes.\<close>

definition omitted :: "string \<Rightarrow> string \<Rightarrow> string" where
  "omitted kind reason = ''['' @ kind @ '' omitted '' @ [byte 226, byte 128, byte 148] @ '' this model '' @ reason @ '']''"

definition mediaOmittedNote :: "string \<Rightarrow> string" where
  "mediaOmittedNote kind =
     (if kind = ''image'' then omitted ''image'' ''reads text only''
      else if kind = ''audio'' then omitted ''audio'' ''does not accept audio input''
      else if kind = ''video'' then omitted ''video'' ''does not accept video input''
      else if kind = ''document'' then omitted ''document'' ''does not accept document input''
      else ''[attachment omitted]'')"

text \<open>The kept parts, the remarks and the kinds that have one.\<close>

fun strip_loop :: "Model \<Rightarrow> json list \<Rightarrow> json list \<times> string list \<times> string list \<Rightarrow> json list \<times> string list \<times> string list" where
  "strip_loop m [] st = st"
| "strip_loop m (item # items) (kept, remarks, seen) =
     (let kind = part_kind item
      in if kind \<noteq> [] \<and> \<not> modelSupportsMediaKind m kind
         then strip_loop m items
                (if kind \<in> set seen then (kept, remarks, seen)
                 else (kept, remarks @ [mediaOmittedNote kind], kind # seen))
         else strip_loop m items (kept @ [item], remarks, seen))"

definition stripMediaFromParts :: "json list \<Rightarrow> Model \<Rightarrow> json list \<times> string list" where
  "stripMediaFromParts arr m = (case strip_loop m arr ([], [], []) of (kept, remarks, seen) \<Rightarrow> (kept, remarks))"

definition is_text_part :: "json \<Rightarrow> bool" where
  "is_text_part item =
     (case as_object (Some item) of
        None \<Rightarrow> False
      | Some m \<Rightarrow> obj_get m ''type'' = Some (JStr ''text'') \<and> (case obj_get m ''text'' of Some (JStr t) \<Rightarrow> True | _ \<Rightarrow> False))"

definition add_note :: "string \<Rightarrow> json \<Rightarrow> json" where
  "add_note noteText item =
     (case item of
        JObj m \<Rightarrow> JObj (obj_set m ''text'' (JStr (as_string (obj_get m ''text'') @ [byte 10] @ noteText)))
      | v \<Rightarrow> v)"

fun note_first :: "string \<Rightarrow> json list \<Rightarrow> json list option" where
  "note_first noteText [] = None"
| "note_first noteText (item # items) =
     (if is_text_part item then Some (add_note noteText item # items)
      else map_option ((#) item) (note_first noteText items))"

definition appendNotesToParts :: "json list \<Rightarrow> string list \<Rightarrow> json list" where
  "appendNotesToParts kept remarks =
     (let noteText = JoinWith [byte 10] remarks
      in case note_first noteText kept of
           Some items \<Rightarrow> items
         | None \<Rightarrow> kept @ [JObj [(''type'', JStr ''text''), (''text'', JStr noteText)]])"

definition strip_content :: "Model \<Rightarrow> json list \<Rightarrow> json list" where
  "strip_content m arr =
     (case stripMediaFromParts arr m of (kept, remarks) \<Rightarrow> if remarks = [] then arr else appendNotesToParts kept remarks)"

definition stripUnsupportedMediaParts :: "OpenAIMessage list \<Rightarrow> Model option \<Rightarrow> OpenAIMessage list" where
  "stripUnsupportedMediaParts messages model =
     (case model of
        None \<Rightarrow> messages
      | Some m \<Rightarrow>
          if modelSupportsMedia m (detectMediaNeedsOpenAI messages) then messages
          else map (\<lambda>msg. case om_Content msg of JArr arr \<Rightarrow> msg \<lparr> om_Content := JArr (strip_content m arr) \<rparr> | _ \<Rightarrow> msg) messages)"

definition strip_message :: "Model \<Rightarrow> json \<Rightarrow> json" where
  "strip_message m raw =
     (case raw of
        JObj msg \<Rightarrow>
          (case as_array (obj_get msg ''content'') of
             None \<Rightarrow> raw
           | Some arr \<Rightarrow>
               (case stripMediaFromParts arr m of
                  (kept, remarks) \<Rightarrow>
                    if remarks = [] then raw else JObj (obj_set msg ''content'' (JArr (appendNotesToParts kept remarks)))))
      | _ \<Rightarrow> raw)"

definition stripUnsupportedMediaInBodyMap :: "body \<Rightarrow> Model option \<Rightarrow> body" where
  "stripUnsupportedMediaInBodyMap b model =
     (case model of
        None \<Rightarrow> b
      | Some m \<Rightarrow>
          (case as_array (obj_get b ''messages'') of
             None \<Rightarrow> b
           | Some msgs \<Rightarrow> obj_set b ''messages'' (JArr (map (strip_message m) msgs))))"

section \<open>The parser of documents\<close>

definition message_parts :: "json \<Rightarrow> json list" where
  "message_parts raw =
     (case as_object (Some raw) of
        None \<Rightarrow> []
      | Some msg \<Rightarrow> (case as_array (obj_get msg ''content'') of None \<Rightarrow> [] | Some arr \<Rightarrow> arr))"

definition body_parts :: "body \<Rightarrow> json list" where
  "body_parts b = (case as_array (obj_get b ''messages'') of None \<Rightarrow> [] | Some msgs \<Rightarrow> concat (map message_parts msgs))"

definition bodyMapHasFilePart :: "body \<Rightarrow> bool" where
  "bodyMapHasFilePart b \<longleftrightarrow> list_ex (\<lambda>item. contentPartType item = ''file'') (body_parts b)"

text \<open>\<open>provider\<close>: base URL and identifier.\<close>

definition maybeInjectOpenRouterPDFParser :: "body \<Rightarrow> (string \<times> string) option \<Rightarrow> string \<Rightarrow> body" where
  "maybeInjectOpenRouterPDFParser b provider engine =
     (case provider of
        None \<Rightarrow> b
      | Some (baseURL, ident) \<Rightarrow>
          if \<not> isOpenRouterBase baseURL \<and> ident \<noteq> ''openrouter'' then b
          else if obj_get b ''plugins'' \<noteq> None then b
          else if \<not> bodyMapHasFilePart b then b
          else
            (let engine = (if TrimSpace engine = [] then ''pdf-text'' else engine)
             in obj_set b ''plugins'' (JArr [JObj [(''id'', JStr ''file-parser''), (''pdf'', JObj [(''engine'', JStr engine)])]])))"

definition openRouterPDFEngine :: "string \<Rightarrow> string" where
  "openRouterPDFEngine setting = (if TrimSpace setting = [] then ''pdf-text'' else TrimSpace setting)"

section \<open>What is published of a model\<close>

definition splitMimeList :: "string \<Rightarrow> string list" where
  "splitMimeList s = filter (\<lambda>p. p \<noteq> []) (map TrimSpace (SplitByte (CHR '','') s))"

definition modelInputModalities :: "Model \<Rightarrow> string list" where
  "modelInputModalities m =
     [''text''] @ (if modelMatchesVision m then [''image''] else []) @ (if SupportsAudio (m_Media m) then [''audio''] else []) @
     (if SupportsVideo (m_Media m) then [''video''] else []) @ (if SupportsDocuments (m_Media m) then [''document''] else [])"

section \<open>Lemmas\<close>

definition supported_part :: "Model \<Rightarrow> json \<Rightarrow> bool" where
  "supported_part m item \<longleftrightarrow> part_kind item = [] \<or> modelSupportsMediaKind m (part_kind item)"

lemma strip_loop_kept: "fst (strip_loop m arr (kept, remarks, seen)) = kept @ filter (supported_part m) arr"
  by (induction arr arbitrary: kept remarks seen) (auto simp: supported_part_def Let_def)

lemma strip_loop_notes:
  "remarks \<noteq> [] \<or> seen = [] \<Longrightarrow> fst (snd (strip_loop m arr (kept, remarks, seen))) = [] \<longleftrightarrow>
     remarks = [] \<and> filter (supported_part m) arr = arr"
proof (induction arr arbitrary: kept remarks seen)
  case (Cons item items)
  have none: "filter (supported_part m) items \<noteq> item # items" by (metis length_filter_le impossible_Cons)
  have bad: "supported_part m item \<longleftrightarrow> \<not> (part_kind item \<noteq> [] \<and> \<not> modelSupportsMediaKind m (part_kind item))"
    by (simp add: supported_part_def)
  show ?case
    using Cons.prems Cons.IH none
    by (cases "supported_part m item") (auto simp: bad Let_def)
qed simp

lemma stripMediaFromParts_simps:
  "fst (stripMediaFromParts arr m) = filter (supported_part m) arr"
  "snd (stripMediaFromParts arr m) = [] \<longleftrightarrow> filter (supported_part m) arr = arr"
  using strip_loop_kept [of m arr "[]" "[]" "[]"] strip_loop_notes [of "[]" "[]" m arr "[]"]
  by (simp_all add: stripMediaFromParts_def case_prod_beta)

lemma text_part_kind: "is_text_part item \<Longrightarrow> part_kind item = []"
  by (auto simp: is_text_part_def part_kind_def contentPartType_def mediaKindForPartType_def split: option.splits)

lemma add_note_kind: "part_kind (add_note s item) = part_kind item"
  by (cases item) (simp_all add: add_note_def part_kind_def contentPartType_def)

lemma note_first_media:
  "note_first s items = Some items' \<Longrightarrow>
     filter (\<lambda>p. part_kind p \<noteq> []) items' = filter (\<lambda>p. part_kind p \<noteq> []) items"
  by (induction items arbitrary: items') (auto simp: text_part_kind add_note_kind split: if_splits)

lemma appendNotes_media:
  "filter (\<lambda>p. part_kind p \<noteq> []) (appendNotesToParts kept remarks) = filter (\<lambda>p. part_kind p \<noteq> []) kept"
proof (cases "note_first (JoinWith [byte 10] remarks) kept")
  case None
  then show ?thesis
    by (simp add: appendNotesToParts_def part_kind_def contentPartType_def mediaKindForPartType_def Let_def)
next
  case (Some items)
  then show ?thesis by (simp add: appendNotesToParts_def note_first_media Let_def)
qed

text \<open>The media of a message or a body.\<close>

definition media_of :: "json list \<Rightarrow> json list" where
  "media_of parts = filter (\<lambda>p. part_kind p \<noteq> []) parts"

lemma media_of_append [simp]: "media_of (xs @ ys) = media_of xs @ media_of ys"
  by (simp add: media_of_def)

lemma media_of_concat: "media_of (concat xss) = concat (map media_of xss)"
  by (induction xss) (simp_all add: media_of_def)

lemma filter_swap: "filter P (media_of xs) = media_of (filter P xs)"
  by (simp add: media_of_def conj_commute)

lemma strip_message_media: "media_of (message_parts (strip_message m raw)) = filter (supported_part m) (media_of (message_parts raw))"
proof (cases raw)
  case (JObj msg)
  show ?thesis
  proof (cases "as_array (obj_get msg ''content'')")
    case (Some arr)
    obtain kept remarks where s: "stripMediaFromParts arr m = (kept, remarks)" by (cases "stripMediaFromParts arr m")
    from stripMediaFromParts_simps [of arr m] s have kept: "kept = filter (supported_part m) arr"
      and remarks: "remarks = [] \<longleftrightarrow> filter (supported_part m) arr = arr" by simp_all
    show ?thesis
      using Some s kept remarks appendNotes_media [of kept remarks]
      by (cases "remarks = []") (auto simp: strip_message_def message_parts_def JObj filter_swap media_of_def filter_id_conv
          intro!: filter_cong)
  qed (simp add: strip_message_def message_parts_def JObj media_of_def)
qed (simp_all add: strip_message_def message_parts_def as_object_def media_of_def)

lemma body_media:
  "media_of (body_parts (stripUnsupportedMediaInBodyMap b (Some m))) = filter (supported_part m) (media_of (body_parts b))"
proof (cases "as_array (obj_get b ''messages'')")
  case (Some msgs)
  then show ?thesis
    by (simp add: stripUnsupportedMediaInBodyMap_def body_parts_def media_of_concat filter_concat strip_message_media comp_def)
qed (simp add: stripUnsupportedMediaInBodyMap_def body_parts_def media_of_def)

lemma media_free_untouched:
  assumes "filter (supported_part m) (media_of (message_parts raw)) = media_of (message_parts raw)"
  shows "strip_message m raw = raw"
proof (cases raw)
  case (JObj msg)
  show ?thesis
  proof (cases "as_array (obj_get msg ''content'')")
    case (Some arr)
    have "\<forall>p \<in> set arr. supported_part m p"
      using assms Some by (auto simp: message_parts_def JObj filter_id_conv) (auto simp: media_of_def supported_part_def)
    then have "snd (stripMediaFromParts arr m) = []"
      unfolding stripMediaFromParts_simps by (simp add: filter_id_conv)
    then show ?thesis using Some by (simp add: strip_message_def JObj case_prod_beta)
  qed (simp add: strip_message_def JObj)
qed (simp_all add: strip_message_def)

section \<open>Properties\<close>

text \<open>C37: What is forwarded carries exactly the media of the request the model accepts, in order; a body
  whose media are all accepted keeps its messages as they are, so a second attempt changes nothing
  more, and no other field of the body is touched.\<close>

theorem media_strip_exact:
  "media_of (body_parts (stripUnsupportedMediaInBodyMap b (Some m))) = filter (supported_part m) (media_of (body_parts b)) \<and>
   obj_get (stripUnsupportedMediaInBodyMap (stripUnsupportedMediaInBodyMap b (Some m)) (Some m)) k =
     obj_get (stripUnsupportedMediaInBodyMap b (Some m)) k \<and>
   (k = ''messages'' \<or> obj_get (stripUnsupportedMediaInBodyMap b (Some m)) k = obj_get b k)"
proof -
  have "strip_message m (strip_message m raw) = strip_message m raw" for raw
    by (rule media_free_untouched) (simp add: strip_message_media)
  then have "map (strip_message m) (map (strip_message m) msgs) = map (strip_message m) msgs" for msgs by simp
  then show ?thesis
    using body_media [of b m] by (auto simp: stripUnsupportedMediaInBodyMap_def split: option.splits)
qed

end
