(* ===== verification/Catalog.thy ===== *)
theory Catalog
  imports Media Request
begin

text \<open>
  What callers see of the models: discovery (src/proxy/handler.go), the catalogue of MuhiyaCode with
  the record identifiers that pin a session to a model (src/proxy/catalog.go), the published prices
  (src/proxy/pricing_endpoint.go) and the routes sessions stick to (src/proxy/affinity.go). The
  descriptive fields of a model that nothing reads are left out. \<open>digest\<close> is the hexadecimal
  SHA-256; \<open>contract_digest\<close> is that of the JSON encoding of the fields a record is identified by.
\<close>

section \<open>Discovery\<close>

definition routerModelDeprecated :: string where
  "routerModelDeprecated = ''muhiya-ai-router''"

datatype appVisibility = visibilityAny | visibilityMuhiyaCode | visibilityMuhiyaChat

definition appVisibilityFor :: "string \<Rightarrow> appVisibility" where
  "appVisibilityFor clientApp =
     (if clientApp = ''MuhiyaCode'' then visibilityMuhiyaCode
      else if clientApp = ''MuhiyaChat'' then visibilityMuhiyaChat else visibilityAny)"

definition appVisibilityFlag :: "bool \<Rightarrow> appVisibility" where
  "appVisibilityFlag onlyMuhiyaCodeVisible = (if onlyMuhiyaCodeVisible then visibilityMuhiyaCode else visibilityAny)"

definition discoverableModelFor :: "Model option \<Rightarrow> appVisibility \<Rightarrow> bool" where
  "discoverableModelFor model visibility =
     (case model of
        None \<Rightarrow> False
      | Some m \<Rightarrow>
          if m_Status m \<noteq> ''active'' \<or> Transcribe m \<or> m_Name m = routerModelDeprecated then False
          else (case visibility of visibilityMuhiyaCode \<Rightarrow> MuhiyaCodeVisible m
                | visibilityMuhiyaChat \<Rightarrow> MuhiyaChatVisible m | visibilityAny \<Rightarrow> True))"

definition discoverableModel :: "Model option \<Rightarrow> bool \<Rightarrow> bool" where
  "discoverableModel model onlyMuhiyaCodeVisible = discoverableModelFor model (appVisibilityFlag onlyMuhiyaCodeVisible)"

text \<open>What is after the first \<open>/models/\<close> of a path, up to the second.\<close>

fun after_models :: "string \<Rightarrow> string option" where
  "after_models [] = None"
| "after_models (c # cs) =
     (if HasPrefix (c # cs) ''/models/'' then Some (drop 8 (c # cs)) else after_models cs)"

fun before_models :: "string \<Rightarrow> string" where
  "before_models [] = []"
| "before_models (c # cs) = (if HasPrefix (c # cs) ''/models/'' then [] else c # before_models cs)"

datatype discovery = OneModel Model string | NoModel string | ModelList "(Model \<times> string) list"

definition display_name :: "bool \<Rightarrow> Model \<Rightarrow> string" where
  "display_name clientIsAnthropic m =
     (if DisplayName m = [] then if clientIsAnthropic then m_Name m @ '' (via MuhiyaLLM)'' else m_Name m else DisplayName m)"

definition handleModelDiscovery :: "Model list \<Rightarrow> request \<Rightarrow> discovery" where
  "handleModelDiscovery models r =
     (let clientIsAnthropic = isAnthropicRequest (Some r);
          visibility = appVisibilityFor (getClientAppName (Some r));
          wanted = (case after_models (rq_Path r) of None \<Rightarrow> [] | Some rest \<Rightarrow> before_models rest)
      in if wanted \<noteq> [] then
           (let modelID = TrimSuffix wanted ''/''
            in case find (\<lambda>m. m_Name m = modelID \<and> discoverableModelFor (Some m) visibility) models of
                 None \<Rightarrow> NoModel modelID
               | Some m \<Rightarrow> OneModel m (display_name clientIsAnthropic m))
         else ModelList (map (\<lambda>m. (m, display_name clientIsAnthropic m))
                (filter (\<lambda>m. discoverableModelFor (Some m) visibility) models)))"

section \<open>Catalogue records\<close>

type_synonym wire_fields = "string \<times> string \<times> string \<times> int \<times> string list \<times> string"

record muhiyaCatalogModel =
  RecordID :: string
  cm_ModelID :: string
  cm_TargetModel :: string
  cm_DisplayName :: string
  cm_Tags :: "string list"
  cm_ProviderFamily :: string
  cm_CompatibilityEpoch :: int
  cm_ContextWindow :: int
  cm_MaxOutputTokens :: int
  cm_SupportedParameters :: "string list"
  cm_CacheContract :: string
  cm_Rates :: "nano_usd list"
  cm_Tiers :: "Tier list"
  cm_InputModalities :: "string list"
  cm_Health :: string

definition sortedCopy :: "string list \<Rightarrow> string list" where
  "sortedCopy values = sort values"

definition wire_contract :: "Model \<Rightarrow> wire_fields" where
  "wire_contract m =
     (m_Name m, TargetModel m, ProviderFamily (m_Catalog m), CompatibilityEpoch (m_Catalog m),
      sortedCopy (SupportedParameters (m_Catalog m)),
      if CacheContract (m_Catalog m) = [] then ''{}'' else CacheContract (m_Catalog m))"

definition catalogRecord :: "(wire_fields \<Rightarrow> string) \<Rightarrow> Model \<Rightarrow> muhiyaCatalogModel option" where
  "catalogRecord contract_digest m =
     (let c = m_Catalog m; p = m_Prices m;
          cacheContract = (if CacheContract c = [] then ''{}'' else CacheContract c)
      in if \<not> valid_json cacheContract then None
         else Some \<lparr> RecordID = ''model:'' @ contract_digest (wire_contract m), cm_ModelID = m_Name m,
                cm_TargetModel = TargetModel m, cm_DisplayName = (if DisplayName m = [] then m_Name m else DisplayName m),
                cm_Tags = sortedCopy (Tags c), cm_ProviderFamily = ProviderFamily c,
                cm_CompatibilityEpoch = CompatibilityEpoch c, cm_ContextWindow = ContextWindow m,
                cm_MaxOutputTokens = m_MaxOutputTokens m, cm_SupportedParameters = sortedCopy (SupportedParameters c),
                cm_CacheContract = cacheContract,
                cm_Rates = [snd (InputCost p), snd (OutputCost p), snd (CacheReadCost p), snd (CacheWriteCost p)],
                cm_Tiers = PricingTiers m, cm_InputModalities = modelInputModalities m, cm_Health = Health c \<rparr>)"

text \<open>A record that cannot be made fails the whole document.\<close>

definition handleMuhiyaCodeCatalog :: "(wire_fields \<Rightarrow> string) \<Rightarrow> Model list \<Rightarrow> muhiyaCatalogModel list option" where
  "handleMuhiyaCodeCatalog contract_digest models =
     map_option (sort_key cm_ModelID)
       (those (map (catalogRecord contract_digest) (filter (\<lambda>m. discoverableModel (Some m) True) models)))"

definition explainMuhiyaCodeDiscoverability :: "Model \<Rightarrow> string \<times> bool \<times> string" where
  "explainMuhiyaCodeDiscoverability m =
     (if m_Name m = routerModelDeprecated then (m_Name m, False, ''deprecated router model'')
      else if m_Status m \<noteq> ''active'' then (m_Name m, False, ''status='' @ m_Status m)
      else if Transcribe m then (m_Name m, False, ''transcribe-only'')
      else if \<not> MuhiyaCodeVisible m then (m_Name m, False, ''not muhiyacode_visible'')
      else (m_Name m, True, []))"

definition writeMuhiyaCatalogExplain :: "Model list \<Rightarrow> (string \<times> bool \<times> string) list" where
  "writeMuhiyaCatalogExplain models = sort_key fst (map explainMuhiyaCodeDiscoverability models)"

datatype resolution =
    InvalidRecord
  | Mismatch string
  | Resolved (resolved_record: string) (resolved_target: string) (resolved_family: string) (resolved_epoch: int)
      (price_snapshot_id: "string option")

definition establishModelResolution ::
  "(wire_fields \<Rightarrow> string) \<Rightarrow> (price_snapshot \<Rightarrow> string) \<Rightarrow> (nat \<Rightarrow> nat) \<Rightarrow> request \<Rightarrow> Model \<Rightarrow> resolution" where
  "establishModelResolution contract_digest snapshot address r m =
     (case catalogRecord contract_digest m of
        None \<Rightarrow> InvalidRecord
      | Some rec \<Rightarrow>
          (let wantedRecord = TrimSpace (Header_Get r ''X-Muhiya-Expected-Model-Record'');
               wantedTarget = TrimSpace (Header_Get r ''X-Muhiya-Expected-Target-Model'')
           in if wantedRecord \<noteq> [] \<and> wantedRecord \<noteq> RecordID rec
              then Mismatch (''model record mismatch: expected '' @ wantedRecord @ '', resolved '' @ RecordID rec)
              else if wantedTarget \<noteq> [] \<and> wantedTarget \<noteq> cm_TargetModel rec
              then Mismatch (''target model mismatch: expected '' @ wantedTarget @ '', resolved '' @ cm_TargetModel rec)
              else Resolved (RecordID rec) (cm_TargetModel rec) (cm_ProviderFamily rec) (cm_CompatibilityEpoch rec)
                     (case pricingRulesForModel snapshot address (Some m) of Inl e \<Rightarrow> None | Inr rules \<Rightarrow> Some (rs_ID rules))))"

section \<open>Published prices\<close>

record pricingRate =
  pr_Class :: TokenClass
  NanoUSDPerM :: nano_usd
  USDPerMillion :: f64
  IsInherited :: bool

record pricingWindowView =
  pw_ID :: string
  pw_Label :: string
  pw_MultiplierNum :: int
  pw_MultiplierDen :: int
  Multiplier :: f64
  pw_AppliesTo :: "string list"

record modelPricingView =
  pv_Model :: string
  pv_RuleSetID :: string
  pv_PromptAccounting :: string
  EffectiveRates :: "pricingRate list"
  ActiveWindow :: "pricingWindowView option"
  NextChangeAt :: "instant option"
  NextChangeInS :: "int option"
  pv_Tiers :: "(int \<times> pricingRate list) list"
  UpcomingWindow :: "pricingWindowView option"

definition scaledRatePerMillion :: "nano_usd \<Rightarrow> TokenClass \<Rightarrow> Window \<Rightarrow> money_error + nano_usd" where
  "scaledRatePerMillion rate class w =
     (let (num, den) = (if AppliesTo w \<noteq> [] \<and> class \<notin> set (AppliesTo w) then (1, 1)
                        else (w_MultiplierNum w, w_MultiplierDen w))
      in CostForTokensScaled PerMillion rate num den)"

definition inheritedClass :: "Rates \<Rightarrow> TokenClass \<Rightarrow> bool" where
  "inheritedClass rates class =
     (case class of
        ClassCacheRead5m \<Rightarrow> CacheRead5mPerMillion rates = 0
      | ClassCacheWrite5m \<Rightarrow> CacheWrite5mPerMillion rates = 0
      | ClassCacheWrite1h \<Rightarrow> CacheWrite1hPerMillion rates = 0
      | ClassCacheWrite \<Rightarrow> CacheWritePerMillion rates = 0
      | _ \<Rightarrow> False)"

definition displayed_rate :: "Rates \<Rightarrow> Window option \<Rightarrow> TokenClass \<Rightarrow> nano_usd" where
  "displayed_rate rates window class =
     (let rate = RateFor rates class
      in case window of
           None \<Rightarrow> rate
         | Some w \<Rightarrow> (case scaledRatePerMillion rate class w of Inl e \<Rightarrow> rate | Inr cost \<Rightarrow> cost))"

definition ratesView :: "Rates \<Rightarrow> Window option \<Rightarrow> pricingRate list" where
  "ratesView rates window =
     map (\<lambda>class. let scaled = displayed_rate rates window class
                   in \<lparr> pr_Class = class, NanoUSDPerM = scaled, USDPerMillion = USD scaled,
                        IsInherited = inheritedClass rates class \<rparr>) TokenClasses"

definition windowView :: "Window \<Rightarrow> pricingWindowView" where
  "windowView w =
     \<lparr> pw_ID = w_ID w, pw_Label = w_Label w, pw_MultiplierNum = w_MultiplierNum w, pw_MultiplierDen = w_MultiplierDen w,
       Multiplier = (if w_MultiplierDen w \<noteq> 0 then f64_div (f64_of_int (w_MultiplierNum w)) (f64_of_int (w_MultiplierDen w))
                     else FFin 0),
       pw_AppliesTo = map class_string (AppliesTo w) \<rparr>"

definition modelPricingSnapshot ::
  "(price_snapshot \<Rightarrow> string) \<Rightarrow> (nat \<Rightarrow> nat) \<Rightarrow> Model \<Rightarrow> instant \<Rightarrow> model_error + modelPricingView" where
  "modelPricingSnapshot snapshot address m now =
     ebind (pricingRulesForModel snapshot address (Some m)) (\<lambda>rules.
       let window = WindowFor rules now; after = NextBoundaryAfter rules now; changes = \<not> IsZero after
       in Inr \<lparr> pv_Model = m_Name m, pv_RuleSetID = rs_ID rules,
            pv_PromptAccounting = PromptAccounting_string (rs_Accounting rules),
            EffectiveRates = ratesView (fst (RatesForPromptTotal rules 0)) window,
            ActiveWindow = map_option windowView window,
            NextChangeAt = (if changes then Some after else None),
            NextChangeInS = (if changes then Some ((after - now) div 1000000000) else None),
            pv_Tiers = map (\<lambda>tier. (MinInputTokensExclusive tier, ratesView (t_Rates tier) window)) (Tiers rules),
            UpcomingWindow = (if changes then map_option windowView (WindowFor rules after) else None) \<rparr>)"

text \<open>A model whose prices are invalid is left out of the list.\<close>

definition handlePricing ::
  "(price_snapshot \<Rightarrow> string) \<Rightarrow> (nat \<Rightarrow> nat) \<Rightarrow> Model list \<Rightarrow> request \<Rightarrow> instant \<Rightarrow> modelPricingView list" where
  "handlePricing snapshot address models r now =
     (let only = (getClientAppName (Some r) = ''MuhiyaCode'')
      in concat (map (\<lambda>m. case modelPricingSnapshot snapshot address m now of Inl e \<Rightarrow> [] | Inr view \<Rightarrow> [view])
           (filter (\<lambda>m. discoverableModel (Some m) only) models)))"

section \<open>Sticky routes\<close>

text \<open>The keys of the shared store; \<open>None\<close> is a deployment without one.\<close>

type_synonym affinity_store = "(string \<rightharpoonup> string) option"

definition affinityScope :: "(string \<Rightarrow> string) \<Rightarrow> string \<Rightarrow> string \<Rightarrow> string \<Rightarrow> string" where
  "affinityScope digest keyID sessionID recordID =
     ''route-affinity:v1:'' @ digest (keyID @ [byte 0] @ sessionID @ [byte 0] @ recordID)"

definition affinity_get :: "affinity_store \<Rightarrow> string \<Rightarrow> string" where
  "affinity_get s scope =
     (case s of
        None \<Rightarrow> []
      | Some m \<Rightarrow> if scope = [] then [] else (case m scope of None \<Rightarrow> [] | Some v \<Rightarrow> TrimSpace v))"

definition affinity_observe :: "affinity_store \<Rightarrow> string \<Rightarrow> string \<Rightarrow> affinity_store" where
  "affinity_observe s scope provider =
     (case s of
        None \<Rightarrow> None
      | Some m \<Rightarrow> if scope = [] \<or> TrimSpace provider = [] then Some m else Some (m(scope \<mapsto> TrimSpace provider)))"

definition affinity_clear :: "affinity_store \<Rightarrow> string \<Rightarrow> affinity_store" where
  "affinity_clear s scope = (case s of None \<Rightarrow> None | Some m \<Rightarrow> if scope = [] then Some m else Some (m(scope := None)))"

definition affinity_session :: "request \<Rightarrow> string" where
  "affinity_session r =
     (let sessionID = TrimSpace (Header_Get r ''X-Session-Id'')
      in if sessionID = [] then TrimSpace (Header_Get r ''X-Muhiya-Session'') else sessionID)"

text \<open>\<open>lookup\<close> is the answer of the store, \<open>None\<close> its failure.\<close>

definition applyProviderAffinity ::
  "(string \<Rightarrow> string) \<Rightarrow> (wire_fields \<Rightarrow> string) \<Rightarrow> (string \<Rightarrow> string option) \<Rightarrow> body \<Rightarrow> request \<Rightarrow> Model \<Rightarrow> string
     \<Rightarrow> body \<times> string" where
  "applyProviderAffinity digest contract_digest lookup b r m keyID =
     (if ProviderFamily (m_Catalog m) \<noteq> ''minimax-openrouter'' then (b, [])
      else
        (let sessionID = affinity_session r
         in if sessionID = [] then (b, [])
            else
              (case catalogRecord contract_digest m of
                 None \<Rightarrow> (b, [])
               | Some rec \<Rightarrow>
                   (let scope = affinityScope digest keyID sessionID (RecordID rec)
                    in case lookup scope of
                         None \<Rightarrow> (b, scope)
                       | Some upstream \<Rightarrow>
                           if upstream = [] then (b, scope)
                           else (obj_set b ''provider''
                                   (JObj [(''order'', JArr [JStr upstream]), (''allow_fallbacks'', JBool False)]), scope)))))"

definition observeProviderAffinity :: "affinity_store \<Rightarrow> string \<Rightarrow> string \<Rightarrow> affinity_store" where
  "observeProviderAffinity s scope upstream = (if scope = [] \<or> upstream = [] then s else affinity_observe s scope upstream)"

section \<open>Lemmas\<close>

lemma catalogRecord_SomeD:
  assumes "catalogRecord contract_digest m = Some rec"
  shows "RecordID rec = ''model:'' @ contract_digest (wire_contract m)" "cm_TargetModel rec = TargetModel m"
    "cm_ModelID rec = m_Name m"
    "cm_CacheContract rec = (if CacheContract (m_Catalog m) = [] then ''{}'' else CacheContract (m_Catalog m))"
  using assms by (auto simp: catalogRecord_def Let_def split: if_splits)

lemma catalog_names:
  "map (catalogRecord contract_digest) models = map Some records \<Longrightarrow> map cm_ModelID records = map m_Name models"
proof (induction models arbitrary: records)
  case (Cons m models)
  then obtain rec rest where "records = rec # rest" by (cases records) auto
  with Cons show ?case by (auto dest: catalogRecord_SomeD(3))
qed simp

lemma discoverable_explained:
  "discoverableModel (Some m) True \<longleftrightarrow> fst (snd (explainMuhiyaCodeDiscoverability m))"
  "fst (explainMuhiyaCodeDiscoverability m) = m_Name m"
  "snd (snd (explainMuhiyaCodeDiscoverability m)) = [] \<longleftrightarrow> fst (snd (explainMuhiyaCodeDiscoverability m))"
  by (simp_all add: discoverableModel_def discoverableModelFor_def appVisibilityFlag_def explainMuhiyaCodeDiscoverability_def)

lemma those_map_Some: "those (map f xs) = Some ys \<longleftrightarrow> map f xs = map Some ys"
proof (induction xs arbitrary: ys)
  case (Cons x xs)
  then show ?case by (cases ys) (auto split: option.splits)
qed auto

lemma rate_unscaled: "CostForTokensScaled PerMillion rate 1 1 = Inr c \<Longrightarrow> c = rate"
  unfolding CostForTokensScaled_Inr_iff by (simp add: PerMillion_def)

lemma displayed_rate_cost:
  assumes "CostForTokensScaled PerMillion (RateFor rates c) (fst (window_scale window c)) (snd (window_scale window c)) = Inr cost"
  shows "displayed_rate rates window c = cost"
proof (cases window)
  case None
  then show ?thesis using assms by (auto simp: displayed_rate_def window_scale_def dest: rate_unscaled)
next
  case (Some w)
  have "scaledRatePerMillion (RateFor rates c) c w = Inr cost"
    using assms by (auto simp: Some scaledRatePerMillion_def window_scale_def scaleFor_def split: if_splits)
  then show ?thesis by (simp add: displayed_rate_def Some)
qed

lemma line_cost:
  assumes "QuoteAt r u t = Inr q" "filter (\<lambda>c. TokensFor u c \<noteq> 0) TokenClasses = [c]" "TokensFor u c = PerMillion"
  shows "CostForTokensScaled PerMillion (RateFor (q_Rates q) c) (fst (window_scale (WindowFor r t) c))
    (snd (window_scale (WindowFor r t) c)) = Inr (q_Cost q)"
proof -
  have "quote_loop (q_Rates q) (WindowFor r t) u TokenClasses 0 [] = Inr (q_Cost q, Lines (q_Receipt q))"
    by (rule QuoteAt_InrE [OF assms(1)], assumption)
  from quote_loop_Inr [OF this]
  have lines: "q_Cost q = sum_list (map pl_Cost (Lines (q_Receipt q)))"
    "map pl_Class (Lines (q_Receipt q)) = [c]"
    "\<forall>l \<in> set (Lines (q_Receipt q)). line_exact (q_Rates q) (WindowFor r t) u l"
    using assms(2) by (auto simp: in64_def int64_consts)
  then obtain l where "Lines (q_Receipt q) = [l]" "pl_Class l = c" by auto
  with lines(1,3) assms(3) show ?thesis by (auto simp: line_exact_def)
qed

lemma quote_rates: "QuoteAt r u t = Inr q \<Longrightarrow> q_Rates q = fst (RatesForPromptTotal r (PromptTotalTokens u))"
  by (auto simp: QuoteAt_def ebind_eq_Inr Let_def split: option.splits if_splits prod.splits)

section \<open>Properties\<close>

text \<open>A session pinned to a record of the catalogue, and to no target, keeps resolving exactly as long as the
  name, target, family, epoch, parameters (in any order) and cache contract of the model are those it was
  given, where the digest tells the two contracts apart: prices, limits and capabilities may change.\<close>

theorem record_pins_wire_contract:
  assumes "catalogRecord contract_digest m = Some rec" "catalogRecord contract_digest m' = Some rec'"
    and "TrimSpace (Header_Get r ''X-Muhiya-Expected-Model-Record'') = RecordID rec"
    and "TrimSpace (Header_Get r ''X-Muhiya-Expected-Target-Model'') = []"
    and "inj_on contract_digest {wire_contract m, wire_contract m'}"
  defines "unchanged \<equiv> m_Name m' = m_Name m \<and> TargetModel m' = TargetModel m \<and>
    ProviderFamily (m_Catalog m') = ProviderFamily (m_Catalog m) \<and>
    CompatibilityEpoch (m_Catalog m') = CompatibilityEpoch (m_Catalog m) \<and>
    mset (SupportedParameters (m_Catalog m')) = mset (SupportedParameters (m_Catalog m)) \<and>
    cm_CacheContract rec' = cm_CacheContract rec"
  shows "(case establishModelResolution contract_digest snapshot address r m' of
      Resolved i target family epoch price \<Rightarrow> unchanged \<and> i = RecordID rec \<and> target = TargetModel m
    | Mismatch e \<Rightarrow> \<not> unchanged
    | InvalidRecord \<Rightarrow> False)"
proof -
  note rec = catalogRecord_SomeD [OF assms(1)] and rec' = catalogRecord_SomeD [OF assms(2)]
  have same: "RecordID rec = RecordID rec' \<longleftrightarrow> wire_contract m = wire_contract m'"
    using inj_on_eq_iff [OF assms(5)] by (simp add: rec rec')
  have named: "RecordID rec \<noteq> []" by (simp add: rec)
  have "sort xs = sort ys \<longleftrightarrow> mset xs = mset ys" for xs ys :: "string list"
    by (metis mset_sort properties_for_sort sorted_sort)
  then have pinned: "wire_contract m = wire_contract m' \<longleftrightarrow> unchanged"
    by (auto simp: wire_contract_def unchanged_def sortedCopy_def rec(4) rec'(4))
  show ?thesis
  proof (cases unchanged)
    case True
    then have "TargetModel m' = TargetModel m" by (simp add: unchanged_def)
    with True same pinned show ?thesis
      unfolding establishModelResolution_def assms(2,3,4) by (simp add: rec'(2))
  next
    case False
    with same named pinned show ?thesis unfolding establishModelResolution_def assms(2,3,4) by simp
  qed
qed

text \<open>The diagnosis of a catalogue agrees with the catalogue: a model is listed exactly when it is reported
  as included, and a reason is given exactly when it is not.\<close>

theorem explain_agrees_with_catalog:
  assumes "handleMuhiyaCodeCatalog contract_digest models = Some document"
  shows "set (map cm_ModelID document) = {name. (name, True, []) \<in> set (writeMuhiyaCatalogExplain models)} \<and>
    length (writeMuhiyaCatalogExplain models) = length models \<and>
    (\<forall>(name, included, reason) \<in> set (writeMuhiyaCatalogExplain models). included \<longleftrightarrow> reason = [])"
proof (intro conjI)
  define listed where "listed = filter (\<lambda>m. discoverableModel (Some m) True) models"
  obtain records where records: "map (catalogRecord contract_digest) listed = map Some records"
    and document: "document = sort_key cm_ModelID records"
    using assms by (auto simp: handleMuhiyaCodeCatalog_def those_map_Some listed_def)
  have "map cm_ModelID records = map m_Name listed" by (rule catalog_names [OF records])
  then have "set (map cm_ModelID document) = m_Name ` set listed"
    by (metis document set_map set_sort list.set_map)
  also have "\<dots> = {name. (name, True, []) \<in> set (writeMuhiyaCatalogExplain models)}"
    using discoverable_explained
    by (auto simp: listed_def writeMuhiyaCatalogExplain_def image_iff) (metis prod.collapse, metis fst_conv snd_conv)
  finally show "set (map cm_ModelID document) = {name. (name, True, []) \<in> set (writeMuhiyaCatalogExplain models)}" .
  show "length (writeMuhiyaCatalogExplain models) = length models" by (simp add: writeMuhiyaCatalogExplain_def)
  show "\<forall>(name, included, reason) \<in> set (writeMuhiyaCatalogExplain models). included \<longleftrightarrow> reason = []"
    using discoverable_explained(3) by (auto simp: writeMuhiyaCatalogExplain_def) (metis fst_conv snd_conv)+
qed

text \<open>The rates a reader of the price list finds for a prompt: those of the last tier whose threshold the
  prompt exceeds, and the effective rates where it exceeds none.\<close>

definition shown_rates :: "modelPricingView \<Rightarrow> int \<Rightarrow> pricingRate list" where
  "shown_rates view p =
     (case filter (\<lambda>t. fst t < p) (pv_Tiers view) of [] \<Rightarrow> EffectiveRates view | t # ts \<Rightarrow> snd (last (t # ts)))"

lemma shown_rates_snapshot:
  assumes "RuleSet_Validate r = None"
    and "EffectiveRates view = ratesView (fst (RatesForPromptTotal r 0)) w"
    and "pv_Tiers view = map (\<lambda>t. (MinInputTokensExclusive t, ratesView (t_Rates t) w)) (Tiers r)"
  shows "shown_rates view p = ratesView (fst (RatesForPromptTotal r p)) w"
proof -
  note sorted = RuleSet_ValidateD(3) [OF assms(1)]
  define below where "below = filter (\<lambda>t. MinInputTokensExclusive t < p) (Tiers r)"
  have "filter (\<lambda>t. MinInputTokensExclusive t < 0) (Tiers r) = []"
    using RuleSet_ValidateD(4) [OF assms(1)] by (auto simp: filter_empty_conv)
  then have zero: "fst (RatesForPromptTotal r 0) = BaseRates r"
    by (simp add: RatesForPromptTotal_def tier_loop_spec [OF sorted])
  have p: "fst (RatesForPromptTotal r p) = (if below = [] then BaseRates r else t_Rates (last below))"
    by (simp add: RatesForPromptTotal_def tier_loop_spec [OF sorted] below_def Let_def)
  have tiers: "filter (\<lambda>t. fst t < p) (pv_Tiers view) = map (\<lambda>t. (MinInputTokensExclusive t, ratesView (t_Rates t) w)) below"
    by (simp add: assms(3) filter_map comp_def below_def)
  show ?thesis unfolding shown_rates_def tiers p by (cases below) (simp_all add: assms(2) zero last_map)
qed

text \<open>The published price is the price. A request that consists of exactly a million tokens of one class
  is billed, at any instant, the rate that the price list of that instant shows for the class: among the
  rates of the last tier that its prompt exceeds, or among the effective rates where it exceeds no tier.\<close>

theorem published_rate_is_billed:
  assumes "pricingRulesForModel snapshot address (Some m) = Inr r" "QuoteAt r u now = Inr q"
    and "filter (\<lambda>c. TokensFor u c \<noteq> 0) TokenClasses = [c]" "TokensFor u c = PerMillion"
  shows "\<exists>view. modelPricingSnapshot snapshot address m now = Inr view \<and>
    map NanoUSDPerM (filter (\<lambda>x. pr_Class x = c) (shown_rates view (PromptTotalTokens u))) = [q_Cost q]"
proof -
  have valid: "RuleSet_Validate r = None" by (rule QuoteAt_InrE [OF assms(2)])
  obtain view where view: "modelPricingSnapshot snapshot address m now = Inr view"
    "EffectiveRates view = ratesView (fst (RatesForPromptTotal r 0)) (WindowFor r now)"
    "pv_Tiers view = map (\<lambda>t. (MinInputTokensExclusive t, ratesView (t_Rates t) (WindowFor r now))) (Tiers r)"
    using assms(1) by (simp add: modelPricingSnapshot_def Let_def)
  have "displayed_rate (fst (RatesForPromptTotal r (PromptTotalTokens u))) (WindowFor r now) c = q_Cost q"
    using line_cost [OF assms(2-4)] by (intro displayed_rate_cost) (simp add: quote_rates [OF assms(2)])
  moreover have "c \<in> set TokenClasses" using assms(3) by (metis filter_is_subset list.set_intros(1) subsetD)
  then have "filter (\<lambda>x. x = c) TokenClasses = [c]" by (auto simp: TokenClasses_def)
  ultimately show ?thesis
    using view(1) by (simp add: shown_rates_snapshot [OF valid view(2,3)] ratesView_def filter_map comp_def Let_def)
qed

text \<open>The price list asks only whether the caller is MuhiyaCode: a caller of MuhiyaChat is shown the prices
  of models that are hidden from it, which its own list of models leaves out.\<close>

theorem price_list_ignores_chat_visibility:
  assumes "getClientAppName (Some r) = ''MuhiyaChat''" "m \<in> set models" "modelPricingSnapshot snapshot address m now = Inr view"
    and "m_Status m = ''active''" "\<not> Transcribe m" "m_Name m \<noteq> routerModelDeprecated" "\<not> MuhiyaChatVisible m"
  shows "view \<in> set (handlePricing snapshot address models r now) \<and>
    (\<forall>listing. handleModelDiscovery models r = ModelList listing \<longrightarrow> m \<notin> fst ` set listing)"
  using assms
  by (force simp: handlePricing_def discoverableModel_def discoverableModelFor_def appVisibilityFlag_def
      handleModelDiscovery_def appVisibilityFor_def Let_def split: if_splits option.splits)

section \<open>Concrete inputs\<close>

definition plain_dg :: "wire_fields \<Rightarrow> string" where
  "plain_dg c = fst c"

definition chat_request :: request where
  "chat_request = \<lparr> rq_Method = ''GET'', rq_Path = ''/v1/models'',
     rq_Header = [(''X-Client-App'', ''MuhiyaChat''), (''X-Muhiya-Expected-Model-Record'', ''model:m'')] \<rparr>"

lemma chat_request_headers:
  "Header_Get chat_request ''X-Client-App'' = ''MuhiyaChat''"
  "Header_Get chat_request ''X-Muhiya-Expected-Model-Record'' = ''model:m''"
  "Header_Get chat_request ''X-Muhiya-Expected-Target-Model'' = ''''"
  by code_simp+

lemma chat_request_app: "getClientAppName (Some chat_request) = ''MuhiyaChat''"
  by (simp add: getClientAppName_def chat_request_headers)

lemma plain_record: "\<exists>rec. catalogRecord plain_dg plain_model = Some rec \<and> RecordID rec = ''model:m'' \<and> cm_CacheContract rec = ''{}''"
proof -
  have "valid_json ''{}''" by code_simp
  moreover have "CacheContract (m_Catalog plain_model) = ''{}''" "m_Name plain_model = ''m''"
    by (simp_all add: plain_model_def example_model_def)
  ultimately show ?thesis by (simp add: catalogRecord_def plain_dg_def wire_contract_def Let_def)
qed

lemma plain_repriced:
  "wire_contract (plain_model \<lparr> m_MaxOutputTokens := 1 \<rparr>) = wire_contract plain_model"
  "\<exists>rec. catalogRecord plain_dg (plain_model \<lparr> m_MaxOutputTokens := 1 \<rparr>) = Some rec \<and> cm_CacheContract rec = ''{}''"
  using plain_record by (auto simp: wire_contract_def catalogRecord_def Let_def split: if_splits)

theorem record_pins_wire_contract_witness:
  "\<exists>i target family epoch price. establishModelResolution plain_dg (\<lambda>s. fst s) (\<lambda>n. n) chat_request
     (plain_model \<lparr> m_MaxOutputTokens := 1 \<rparr>) = Resolved i target family epoch price \<and> i = ''model:m''"
proof -
  from plain_record obtain rec where
    rec: "catalogRecord plain_dg plain_model = Some rec" "RecordID rec = ''model:m''" "cm_CacheContract rec = ''{}''" by blast
  from plain_repriced obtain rec' where
    rec': "catalogRecord plain_dg (plain_model \<lparr> m_MaxOutputTokens := 1 \<rparr>) = Some rec'" "cm_CacheContract rec' = ''{}''" by blast
  have "TrimSpace (Header_Get chat_request ''X-Muhiya-Expected-Model-Record'') = RecordID rec"
    "TrimSpace (Header_Get chat_request ''X-Muhiya-Expected-Target-Model'') = []"
    by (simp_all add: chat_request_headers rec(2) TrimSpace_graphic graphic_def) (simp add: TrimSpace_def)
  from record_pins_wire_contract [OF rec(1) rec'(1) this, of "\<lambda>s. fst s" "\<lambda>n. n"] plain_repriced(1) rec(2,3) rec'(2)
  show ?thesis by (auto split: resolution.splits)
qed

theorem explain_agrees_with_catalog_witness:
  "\<exists>document. handleMuhiyaCodeCatalog plain_dg [plain_model] = Some document \<and> document = []"
proof -
  have "\<not> MuhiyaCodeVisible plain_model" by (simp add: plain_model_def example_model_def)
  then have d: "handleMuhiyaCodeCatalog plain_dg [plain_model] = Some []"
    by (simp add: handleMuhiyaCodeCatalog_def discoverableModel_def discoverableModelFor_def appVisibilityFlag_def)
  from explain_agrees_with_catalog [OF d] d show ?thesis by simp
qed

definition million_prompt :: Usage where
  "million_prompt = InputUsage 1000000"

lemma million_tokens: "TokensFor million_prompt c = (if c = ClassInputFresh then 1000000 else 0)"
  by (cases c) (simp_all add: million_prompt_def InputUsage_def zero_usage_def)

lemma million_quote:
  assumes "RuleSet_Validate r = None" "BaseRates r = base_rates 3 15 1 4" "Tiers r = []" "Windows r = []"
  shows "\<exists>q. QuoteAt r million_prompt t = Inr q \<and> q_Cost q = 3"
proof -
  have "\<not> usage_negative million_prompt" 
    by (simp add: usage_negative_def TokenClasses_def million_tokens)
      (simp add: million_prompt_def InputUsage_def zero_usage_def)
  moreover have "RateFor (base_rates 3 15 1 4) ClassInputFresh = 3" by (simp add: base_rates_def)
  ultimately show ?thesis using assms
    by (simp add: QuoteAt_def RatesForPromptTotal_def BaseTierThreshold_def WindowFor_def million_tokens
        TokenClasses_def window_scale_def lift_money_def CostForTokensScaled_def ceilQuotient_def PerMillion_def
        Add_def i64_def int64_consts in64_def Let_def del: TokensFor.simps RateFor.simps)
qed

theorem published_rate_is_billed_witness:
  "\<exists>view. modelPricingSnapshot (\<lambda>s. fst s) (\<lambda>n. n) plain_model 60 = Inr view \<and>
     map NanoUSDPerM (filter (\<lambda>x. pr_Class x = ClassInputFresh) (shown_rates view 1000000)) = [3]"
proof -
  from plain_rules [of "\<lambda>s. fst s" "\<lambda>n. n"] obtain r where
    r: "pricingRulesForModel (\<lambda>s. fst s) (\<lambda>n. n) (Some plain_model) = Inr r"
      "RuleSet_Validate r = None" "BaseRates r = base_rates 3 15 1 4" "Tiers r = []" "Windows r = []" by blast
  from million_quote [OF r(2-5), of 60] obtain q where q: "QuoteAt r million_prompt 60 = Inr q" "q_Cost q = 3" by blast
  have "filter (\<lambda>c. TokensFor million_prompt c \<noteq> 0) TokenClasses = [ClassInputFresh]"
    "TokensFor million_prompt ClassInputFresh = PerMillion"
    by (simp_all add: million_tokens TokenClasses_def PerMillion_def del: TokensFor.simps)
  from published_rate_is_billed [OF r(1) q(1) this] q(2) show ?thesis by (simp add: million_prompt_def InputUsage_def)
qed

theorem price_list_ignores_chat_visibility_witness:
  "\<exists>view. view \<in> set (handlePricing (\<lambda>s. fst s) (\<lambda>n. n) [plain_model] chat_request 60)"
proof -
  from plain_rules [of "\<lambda>s. fst s" "\<lambda>n. n"] obtain r where
    "pricingRulesForModel (\<lambda>s. fst s) (\<lambda>n. n) (Some plain_model) = Inr r" by blast
  then obtain view where "modelPricingSnapshot (\<lambda>s. fst s) (\<lambda>n. n) plain_model 60 = Inr view"
    by (simp add: modelPricingSnapshot_def Let_def)
  moreover have "m_Status plain_model = ''active''" "\<not> Transcribe plain_model" "m_Name plain_model \<noteq> routerModelDeprecated"
    "\<not> MuhiyaChatVisible plain_model" by (simp_all add: plain_model_def example_model_def routerModelDeprecated_def)
  ultimately show ?thesis
    using price_list_ignores_chat_visibility [OF chat_request_app, of plain_model "[plain_model]"]
    by (metis list.set_intros(1))
qed

end
