(* ===== verification/Providers.thy ===== *)
theory Providers
  imports Billing
begin

text \<open>
  The upstream providers and their credentials at rest (src/db/db.go): the table, and the opportunistic
  encryption of the API keys. A cipher is AES-256-GCM under a fixed key, given by its two operations on
  a nonce; base64 is \<open>base64.StdEncoding\<close> of the Go library.
\<close>

section \<open>Base64\<close>

definition b64_char :: "nat \<Rightarrow> char" where
  "b64_char n =
     byte (if n < 26 then n + 65 else if n < 52 then n + 71 else if n < 62 then n - 4 else if n = 62 then 43 else 47)"

definition b64_val :: "char \<Rightarrow> nat option" where
  "b64_val c =
     (let n = of_char c
      in if 65 \<le> n \<and> n \<le> 90 then Some (n - 65) else if 97 \<le> n \<and> n \<le> 122 then Some (n - 71)
         else if 48 \<le> n \<and> n \<le> 57 then Some (n + 4) else if n = 43 then Some 62 else if n = 47 then Some 63 else None)"

fun b64_encode :: "string \<Rightarrow> string" where
  "b64_encode [] = []"
| "b64_encode [a] = [b64_char (of_char a div 4), b64_char (of_char a mod 4 * 16), CHR ''='', CHR ''='']"
| "b64_encode [a, b] =
     [b64_char (of_char a div 4), b64_char (of_char a mod 4 * 16 + of_char b div 16),
      b64_char (of_char b mod 16 * 4), CHR ''='']"
| "b64_encode (a # b # c # cs) =
     b64_char (of_char a div 4) # b64_char (of_char a mod 4 * 16 + of_char b div 16) #
     b64_char (of_char b mod 16 * 4 + of_char c div 64) # b64_char (of_char c mod 64) # b64_encode cs"

text \<open>Line ends are skipped; padding ends the text; the spare bits of the last character do not matter.\<close>

fun b64_quanta :: "string \<Rightarrow> string option" where
  "b64_quanta [] = Some []"
| "b64_quanta (w # x # y # z # cs) =
     (case (b64_val w, b64_val x) of
        (Some p, Some q) \<Rightarrow>
          (let first = byte (p * 4 + q div 16)
           in if z = CHR ''='' then
                (if cs \<noteq> [] then None
                 else if y = CHR ''='' then Some [first]
                 else map_option (\<lambda>r. [first, byte (q mod 16 * 16 + r div 4)]) (b64_val y))
              else
                (case (b64_val y, b64_val z) of
                   (Some r, Some s) \<Rightarrow>
                     map_option (\<lambda>more. first # byte (q mod 16 * 16 + r div 4) # byte (r mod 4 * 64 + s) # more) (b64_quanta cs)
                 | _ \<Rightarrow> None))
      | _ \<Rightarrow> None)"
| "b64_quanta cs = None"

definition b64_decode :: "string \<Rightarrow> string option" where
  "b64_decode s = b64_quanta (filter (\<lambda>c. c \<noteq> byte 13 \<and> c \<noteq> byte 10) s)"

section \<open>Keys at rest\<close>

record aead =
  seal :: "string \<Rightarrow> string \<Rightarrow> string"
  open_sealed :: "string \<Rightarrow> string \<Rightarrow> string option"

definition NonceSize :: nat where
  "NonceSize = 12"

definition providerKeyEncPrefix :: string where
  "providerKeyEncPrefix = ''enc:v1:''"

text \<open>The cipher of the environment: 32 bytes in base64, or none.\<close>

definition providerKeyCipher :: "(string \<Rightarrow> aead) \<Rightarrow> string \<Rightarrow> aead option" where
  "providerKeyCipher gcm_of setting =
     (let raw = TrimSpace setting
      in if raw = [] then None
         else (case b64_decode raw of
                 None \<Rightarrow> None
               | Some keyBytes \<Rightarrow> if length keyBytes \<noteq> 32 then None else Some (gcm_of keyBytes)))"

text \<open>\<open>nonce\<close> is what the random source gave, \<open>None\<close> when it failed.\<close>

definition encryptProviderKey :: "aead option \<Rightarrow> string option \<Rightarrow> string \<Rightarrow> string" where
  "encryptProviderKey gcm nonce plaintext =
     (case gcm of
        None \<Rightarrow> plaintext
      | Some c \<Rightarrow>
          if plaintext = [] then plaintext
          else (case nonce of
                  None \<Rightarrow> plaintext
                | Some n \<Rightarrow> providerKeyEncPrefix @ b64_encode (n @ seal c n plaintext)))"

definition decryptProviderKey :: "aead option \<Rightarrow> string \<Rightarrow> string" where
  "decryptProviderKey gcm stored =
     (if \<not> HasPrefix stored providerKeyEncPrefix then stored
      else
        (case gcm of
           None \<Rightarrow> []
         | Some c \<Rightarrow>
             (case b64_decode (TrimPrefix stored providerKeyEncPrefix) of
                None \<Rightarrow> []
              | Some raw \<Rightarrow>
                  if length raw < NonceSize then []
                  else (case open_sealed c (take NonceSize raw) (drop NonceSize raw) of None \<Rightarrow> [] | Some plain \<Rightarrow> plain))))"

section \<open>The table\<close>

record Provider =
  pd_ID :: string
  pd_Name :: string
  APIKey :: string
  BaseURL :: string
  AnthropicBaseURL :: string
  pd_Status :: string

text \<open>Rows hold the key as it is stored.\<close>

type_synonym providers = "Provider list"

definition GetProvider :: "aead option \<Rightarrow> providers \<Rightarrow> string \<Rightarrow> Provider option" where
  "GetProvider gcm t ident =
     map_option (\<lambda>p. p \<lparr> APIKey := decryptProviderKey gcm (APIKey p) \<rparr>) (find (\<lambda>p. pd_ID p = ident) t)"

text \<open>Newest first.\<close>

definition ListProviders :: "aead option \<Rightarrow> providers \<Rightarrow> Provider list" where
  "ListProviders gcm t = map (\<lambda>p. p \<lparr> APIKey := decryptProviderKey gcm (APIKey p) \<rparr>) (rev t)"

definition status_checked :: "Provider \<Rightarrow> bool" where
  "status_checked p \<longleftrightarrow> pd_Status p \<in> {''active'', ''inactive''}"

definition CreateProvider :: "aead option \<Rightarrow> string option \<Rightarrow> Provider \<Rightarrow> providers \<Rightarrow> db_error + providers" where
  "CreateProvider gcm nonce p t =
     (if \<not> status_checked p \<or> list_ex (\<lambda>q. pd_ID q = pd_ID p) t then Inl ErrConstraint
      else Inr (t @ [p \<lparr> APIKey := encryptProviderKey gcm nonce (APIKey p) \<rparr>]))"

definition UpdateProvider :: "aead option \<Rightarrow> string option \<Rightarrow> Provider \<Rightarrow> providers \<Rightarrow> db_error + providers" where
  "UpdateProvider gcm nonce p t =
     (if list_ex (\<lambda>q. pd_ID q = pd_ID p) t \<and> \<not> status_checked p then Inl ErrConstraint
      else Inr (map (\<lambda>q. if pd_ID q = pd_ID p then p \<lparr> APIKey := encryptProviderKey gcm nonce (APIKey p) \<rparr> else q) t))"

definition DeleteProvider :: "string \<Rightarrow> providers \<Rightarrow> providers" where
  "DeleteProvider ident t = filter (\<lambda>p. pd_ID p \<noteq> ident) t"

section \<open>Lemmas\<close>

lemma of_char_byte: "n < 256 \<Longrightarrow> of_char (byte n) = n"
  by (simp add: byte_def)

lemma byte_of_char: "byte (of_char c) = c"
  by (simp add: byte_def)

lemma of_char_lt: "(of_char c :: nat) < 256"
  by simp

lemma b64_val_char: "n < 64 \<Longrightarrow> b64_val (b64_char n) = Some n"
  by (cases "n < 26"; cases "n < 52"; cases "n < 62")
    (auto simp: b64_char_def b64_val_def of_char_byte Let_def)

lemma b64_val_special: "b64_val (CHR ''='') = None" "b64_val (byte 13) = None" "b64_val (byte 10) = None"
  by code_simp+

lemma b64_char_special:
  assumes "n < 64"
  shows "b64_char n \<noteq> CHR ''=''" "b64_char n \<noteq> byte 13" "b64_char n \<noteq> byte 10"
  using b64_val_char [OF assms] b64_val_special by auto

lemma split_digit:
  fixes x y k :: nat
  assumes "y < k"
  shows "(x * k + y) div k = x" "(x * k + y) mod k = y"
  using assms by simp_all

lemma join_bits:
  fixes a b c :: nat
  assumes "b < 256" "c < 256"
  shows "a div 4 * 4 + (a mod 4 * 16) div 16 = a" "a div 4 * 4 + (a mod 4 * 16 + b div 16) div 16 = a"
    "(a mod 4 * 16 + b div 16) mod 16 * 16 + (b mod 16 * 4) div 4 = b"
    "(a mod 4 * 16 + b div 16) mod 16 * 16 + (b mod 16 * 4 + c div 64) div 4 = b"
    "(b mod 16 * 4 + c div 64) mod 4 * 64 + c mod 64 = c"
proof -
  have b: "b div 16 < 16" and c: "c div 64 < 4" using assms by simp_all
  show "a div 4 * 4 + (a mod 4 * 16) div 16 = a" by simp
  show "a div 4 * 4 + (a mod 4 * 16 + b div 16) div 16 = a" by (simp add: split_digit [OF b] b)
  show "(a mod 4 * 16 + b div 16) mod 16 * 16 + (b mod 16 * 4) div 4 = b" by (simp add: split_digit [OF b] b)
  show "(a mod 4 * 16 + b div 16) mod 16 * 16 + (b mod 16 * 4 + c div 64) div 4 = b"
    by (simp add: split_digit [OF b] split_digit [OF c] b c)
  show "(b mod 16 * 4 + c div 64) mod 4 * 64 + c mod 64 = c" by (simp add: split_digit [OF c] c)
qed

lemma b64_digits:
  fixes a b c :: nat
  assumes "a < 256" "b < 256" "c < 256"
  shows "a div 4 < 64" "a mod 4 * 16 < 64" "a mod 4 * 16 + b div 16 < 64" "b mod 16 * 4 < 64"
    "b mod 16 * 4 + c div 64 < 64" "c mod 64 < 64"
proof -
  have "a mod 4 < 4" "b mod 16 < 16" "b div 16 < 16" "c div 64 < 4" using assms by simp_all
  then show "a mod 4 * 16 < 64" "a mod 4 * 16 + b div 16 < 64" "b mod 16 * 4 < 64" "b mod 16 * 4 + c div 64 < 64" by linarith+
qed (use assms in simp_all)

lemma b64_quanta_encode: "b64_quanta (b64_encode s) = Some s"
proof (induction s rule: b64_encode.induct)
  case (2 a)
  note d = b64_digits [OF of_char_lt [of a] of_char_lt of_char_lt] and j = join_bits [OF of_char_lt of_char_lt]
  show ?case using d j by (simp add: b64_val_char byte_of_char)
next
  case (3 a b)
  note d = b64_digits [OF of_char_lt [of a] of_char_lt [of b] of_char_lt]
    and j = join_bits [OF of_char_lt [of b] of_char_lt]
  have "b64_char (of_char b mod 16 * 4) \<noteq> CHR ''=''" using d(4) by (rule b64_char_special)
  then show ?case using d j by (simp add: b64_val_char byte_of_char Let_def)
next
  case (4 a b c cs)
  note d = b64_digits [OF of_char_lt [of a] of_char_lt [of b] of_char_lt [of c]]
    and j = join_bits [OF of_char_lt [of b] of_char_lt [of c]]
  have "b64_char (of_char c mod 64) \<noteq> CHR ''=''" using d(6) by (rule b64_char_special)
  then show ?case using d j 4 by (simp add: b64_val_char byte_of_char Let_def)
qed simp

lemma b64_encode_chars: "set (b64_encode s) \<subseteq> insert (CHR ''='') (b64_char ` {..<64})"
proof (induction s rule: b64_encode.induct)
  case (2 x)
  show ?case using b64_digits(1,2) [OF of_char_lt [of x] of_char_lt of_char_lt] by simp
next
  case (3 x y)
  show ?case using b64_digits(1,3,4) [OF of_char_lt [of x] of_char_lt [of y] of_char_lt] by simp
next
  case (4 x y z cs)
  show ?case using 4 b64_digits(1,3,5,6) [OF of_char_lt [of x] of_char_lt [of y] of_char_lt [of z]] by simp
qed simp

lemma b64_encode_no_newline:
  assumes "c \<in> set (b64_encode s)"
  shows "c \<noteq> byte 13 \<and> c \<noteq> byte 10"
proof -
  have "CHR ''='' \<noteq> byte 13" "CHR ''='' \<noteq> byte 10" by code_simp+
  moreover have "c = CHR ''='' \<or> (\<exists>n < 64. c = b64_char n)" using assms b64_encode_chars [of s] by auto
  ultimately show ?thesis using b64_char_special(2,3) by metis
qed

lemma b64_roundtrip: "b64_decode (b64_encode s) = Some s"
proof -
  have "filter (\<lambda>c. c \<noteq> byte 13 \<and> c \<noteq> byte 10) (b64_encode s) = b64_encode s"
    using b64_encode_no_newline by (simp add: filter_id_conv)
  then show ?thesis by (simp add: b64_decode_def b64_quanta_encode)
qed

text \<open>What is asked of the cipher: opening under the nonce gives back what was sealed.\<close>

definition opens :: "aead \<Rightarrow> bool" where
  "opens c \<longleftrightarrow> (\<forall>n p. length n = NonceSize \<longrightarrow> open_sealed c n (seal c n p) = Some p)"

lemma decrypt_encrypt:
  assumes "\<forall>c \<in> set_option gcm. opens c" "\<forall>n \<in> set_option nonce. length n = NonceSize"
    and "gcm = None \<or> nonce = None \<longrightarrow> \<not> HasPrefix key providerKeyEncPrefix"
  shows "decryptProviderKey gcm (encryptProviderKey gcm nonce key) = key"
proof -
  have "\<not> HasPrefix [] providerKeyEncPrefix" by (simp add: providerKeyEncPrefix_def)
  then show ?thesis
    using assms
    by (auto simp: encryptProviderKey_def decryptProviderKey_def TrimPrefix_def b64_roundtrip opens_def split: option.splits)
qed

lemma find_append: "find P (xs @ ys) = (case find P xs of None \<Rightarrow> find P ys | Some x \<Rightarrow> Some x)"
  by (induction xs) simp_all

lemma GetProvider_created:
  assumes "CreateProvider gcm nonce p t = Inr t'"
  shows "GetProvider gcm' t' (pd_ID p) = Some (p \<lparr> APIKey := decryptProviderKey gcm' (encryptProviderKey gcm nonce (APIKey p)) \<rparr>)"
    "i \<noteq> pd_ID p \<Longrightarrow> GetProvider gcm' t' i = GetProvider gcm' t i"
proof -
  have t: "t' = t @ [p \<lparr> APIKey := encryptProviderKey gcm nonce (APIKey p) \<rparr>]" and new: "\<forall>q \<in> set t. pd_ID q \<noteq> pd_ID p"
    using assms by (auto simp: CreateProvider_def list_ex_iff split: if_splits)
  have "find (\<lambda>q. pd_ID q = pd_ID p) t = None" using new by (simp add: find_None_iff)
  then have "find (\<lambda>q. pd_ID q = pd_ID p) (t @ [x]) = (if pd_ID x = pd_ID p then Some x else None)" for x
    by (simp add: find_append)
  then show "GetProvider gcm' t' (pd_ID p) = Some (p \<lparr> APIKey := decryptProviderKey gcm' (encryptProviderKey gcm nonce (APIKey p)) \<rparr>)"
    by (simp add: GetProvider_def t)
  show "GetProvider gcm' t' i = GetProvider gcm' t i" if "i \<noteq> pd_ID p"
    using that by (simp add: GetProvider_def t find_append split: option.split)
qed

section \<open>Properties\<close>

text \<open>C15: The credentials of a provider are kept. Once a provider is created, reading it gives the key that
  was entered, whether keys are encrypted or not, and changes no other provider. What is stored under
  a cipher is a marked ciphertext, and a gateway that has lost its encryption key reads it as empty:
  the ciphertext is never used as a credential.\<close>

theorem provider_key_kept:
  assumes "CreateProvider gcm nonce p t = Inr t'"
    and "\<forall>c \<in> set_option gcm. opens c" "\<forall>n \<in> set_option nonce. length n = NonceSize"
    and "gcm = None \<or> nonce = None \<longrightarrow> \<not> HasPrefix (APIKey p) providerKeyEncPrefix"
  shows "GetProvider gcm t' (pd_ID p) = Some p \<and>
    (\<forall>i. i \<noteq> pd_ID p \<longrightarrow> GetProvider gcm t' i = GetProvider gcm t i) \<and>
    (gcm \<noteq> None \<and> nonce \<noteq> None \<and> APIKey p \<noteq> [] \<longrightarrow>
      HasPrefix (APIKey (last t')) providerKeyEncPrefix \<and> GetProvider None t' (pd_ID p) = Some (p \<lparr> APIKey := [] \<rparr>))"
proof (intro conjI allI impI)
  show "GetProvider gcm t' (pd_ID p) = Some p"
    using GetProvider_created(1) [OF assms(1)] decrypt_encrypt [OF assms(2-4)] by simp
  show "GetProvider gcm t' i = GetProvider gcm t i" if "i \<noteq> pd_ID p" for i
    using GetProvider_created(2) [OF assms(1) that] .
  assume "gcm \<noteq> None \<and> nonce \<noteq> None \<and> APIKey p \<noteq> []"
  then have sealed: "HasPrefix (encryptProviderKey gcm nonce (APIKey p)) providerKeyEncPrefix"
    by (auto simp: encryptProviderKey_def)
  then show "GetProvider None t' (pd_ID p) = Some (p \<lparr> APIKey := [] \<rparr>)"
    using GetProvider_created(1) [OF assms(1), of None] by (simp add: decryptProviderKey_def)
  show "HasPrefix (APIKey (last t')) providerKeyEncPrefix"
    using assms(1) sealed by (auto simp: CreateProvider_def split: if_splits)
qed

definition reversing_cipher :: aead where
  "reversing_cipher = \<lparr> seal = (\<lambda>n p. rev p), open_sealed = (\<lambda>n c. Some (rev c)) \<rparr>"

definition example_provider :: Provider where
  "example_provider = \<lparr> pd_ID = ''pr'', pd_Name = ''P'', APIKey = ''key'', BaseURL = ''https://api.deepseek.com'',
     AnthropicBaseURL = [], pd_Status = ''active'' \<rparr>"

theorem provider_key_kept_witness:
  "\<exists>t. CreateProvider (Some reversing_cipher) (Some (replicate 12 (byte 7))) example_provider [] = Inr t \<and>
     GetProvider (Some reversing_cipher) t ''pr'' = Some example_provider \<and>
     GetProvider None t ''pr'' = Some (example_provider \<lparr> APIKey := [] \<rparr>)"
proof -
  let ?n = "Some (replicate 12 (byte 7))"
  obtain t where t: "CreateProvider (Some reversing_cipher) ?n example_provider [] = Inr t"
    by (simp add: CreateProvider_def status_checked_def example_provider_def)
  have "\<forall>c \<in> set_option (Some reversing_cipher). opens c" "\<forall>n \<in> set_option ?n. length n = NonceSize"
    by (simp_all add: opens_def reversing_cipher_def NonceSize_def)
  moreover have "pd_ID example_provider = ''pr''" "APIKey example_provider \<noteq> []" by (simp_all add: example_provider_def)
  ultimately show ?thesis using t provider_key_kept [OF t] by auto
qed

end
