(* ===== verification/Proxy.thy ===== *)
theory Proxy
  imports Stream Catalog Cache Providers
begin

text \<open>
  The four ways a generation is forwarded (src/proxy/handler.go, \<open>proxyOpenAIToOpenAI\<close> and its three
  siblings): the request that goes upstream, the one retry of a rejected route, the error paths and
  both kinds of answer. An \<open>exchange\<close> answers each request that is sent; \<open>url_ok\<close> says whether a URL
  can be parsed. The row a call hands to \<open>saveRequestLog\<close>, what it sent and what the client gets are
  its \<open>outcome\<close>.
\<close>

section \<open>The world of a call\<close>

text \<open>What a deployment fixes: \<open>hmac\<close> is the hexadecimal HMAC-SHA256, \<open>show_value\<close> \<open>fmt.Sprintf("%v")\<close>,
  \<open>marshal_value\<close> \<open>json.Marshal\<close>.\<close>

record gateway =
  snapshot_text :: "price_snapshot \<Rightarrow> string"
  address_of :: "nat \<Rightarrow> nat"
  describe_error :: "model_error \<Rightarrow> string"
  show_value :: "json \<Rightarrow> string"
  marshal_value :: "json \<Rightarrow> string"
  sha_hex :: "string \<Rightarrow> string"
  contract_hex :: "wire_fields \<Rightarrow> string"
  hmac :: "string \<Rightarrow> string \<Rightarrow> string"
  url_ok :: "string \<Rightarrow> bool"
  identitySecret :: string
  pdf_setting :: string

record upstream_request =
  ur_URL :: string
  ur_Header :: "(string \<times> string) list"
  ur_Body :: json

record upstream_answer =
  ua_Status :: int
  ua_RetryAfter :: string
  ua_Body :: string
  ua_BodyLost :: bool
  ua_Stream :: stream_input

datatype upstream_result = Unreachable string | Answered upstream_answer

text \<open>What a request meets: the state of its context when it ends, the pinned instant, a random
  identifier, the clock, the latency when its row is written, the answers of the upstream by attempt
  and the store of sticky routes.\<close>

record call_env =
  c_Request :: request
  c_Err :: "ctx_error option"
  c_PricedAt :: instant
  c_Fresh :: string
  c_Created :: int
  c_Latency :: int
  exchange :: "nat \<Rightarrow> upstream_request \<Rightarrow> upstream_result"
  c_Affinity :: affinity_store
  c_AffinityFails :: bool

datatype error_body = Relayed string | Rewritten json

datatype client_reply =
    ErrorReply int json
  | UpstreamError int string error_body
  | StreamReply "frame list"
  | BytesReply string
  | JsonReply json

record outcome =
  o_Rows :: "RequestLog list"
  o_Sent :: "upstream_request list"
  o_Reply :: client_reply
  o_Affinity :: affinity_store

section \<open>Errors\<close>

definition anthropic_error :: "string \<Rightarrow> string \<Rightarrow> json" where
  "anthropic_error errType msg =
     JObj [(''type'', JStr ''error''), (''error'', JObj [(''type'', JStr errType), (''message'', JStr msg)])]"

definition openai_error :: "string \<Rightarrow> string \<Rightarrow> json" where
  "openai_error errType msg = JObj [(''error'', JObj [(''message'', JStr msg), (''type'', JStr errType)])]"

text \<open>The body of an error, in the dialect of the client.\<close>

definition writeError :: "request option \<Rightarrow> string \<Rightarrow> string \<Rightarrow> json" where
  "writeError r msg errType =
     (if isAnthropicRequest r
      then anthropic_error (if errType = ''unauthorized'' then ''authentication_error'' else errType) msg
      else openai_error errType msg)"

definition logAndWriteError ::
  "call_env \<Rightarrow> affinity_store \<Rightarrow> upstream_request list \<Rightarrow> int \<Rightarrow> string \<Rightarrow> string \<Rightarrow> RequestLog \<Rightarrow> outcome" where
  "logAndWriteError e aff sent code msg errType entry =
     (let classified = requestFailureStatus (c_Err e) msg False;
          code = (if classified \<noteq> 502 then classified else code)
      in \<lparr> o_Rows = [entry \<lparr> StatusCode := code, RequestStatus := RequestStatusForHTTP code, ErrorMessage := msg,
             Meter := (Meter entry) \<lparr> LatencyMS := c_Latency e \<rparr> \<rparr>],
           o_Sent = sent, o_Reply = ErrorReply code (writeError (Some (c_Request e)) msg errType), o_Affinity = aff \<rparr>)"

text \<open>Error payloads: type, and type and message of the error.\<close>

definition dec_anthropic_error :: "(string \<times> string \<times> string) decoder" where
  "dec_anthropic_error = dec_struct
     [fld ''type'' dec_string fst apfst,
      fld ''error'' (dec_struct [fld ''type'' dec_string fst apfst, fld ''message'' dec_string snd apsnd]) snd apsnd]"

text \<open>Message, type and code.\<close>

definition dec_openai_error :: "(string \<times> string \<times> string) decoder" where
  "dec_openai_error = dec_struct
     [fld ''error'' (dec_struct [fld ''message'' dec_string fst apfst,
        fld ''type'' dec_string (\<lambda>p. fst (snd p)) (\<lambda>f. apsnd (apfst f)),
        fld ''code'' dec_string (\<lambda>p. snd (snd p)) (\<lambda>f. apsnd (apsnd f))]) (\<lambda>p. p) (\<lambda>f. f)]"

definition unrecognized :: string where
  "unrecognized = ''The upstream provider returned an unrecognized error response. Check the gateway logs.''"

definition or_api_error :: "string \<Rightarrow> string" where
  "or_api_error t = (if t = [] then ''api_error'' else t)"

definition translateErrorBytes :: "string \<Rightarrow> bool \<Rightarrow> error_body" where
  "translateErrorBytes respBytes clientIsAnthropic =
     (if respBytes = [] then Relayed []
      else
        (let ((atype, aerr, amsg), abad) = unmarshal ([], [], []) dec_anthropic_error respBytes;
             isAnth = (\<not> abad \<and> atype = ''error'' \<and> amsg \<noteq> []);
             ((omsg, otype, ocode), obad) = unmarshal ([], [], []) dec_openai_error respBytes;
             isOAI = (\<not> obad \<and> omsg \<noteq> [])
         in if clientIsAnthropic then
              (if isAnth then Relayed respBytes
               else if isOAI then Rewritten (anthropic_error (or_api_error otype) omsg)
               else Rewritten (anthropic_error ''api_error'' unrecognized))
            else
              (if isOAI then Relayed respBytes
               else if isAnth then Rewritten (openai_error (or_api_error aerr) amsg)
               else Rewritten (openai_error ''api_error'' unrecognized))))"

definition logFailedUpstream ::
  "call_env \<Rightarrow> affinity_store \<Rightarrow> upstream_request list \<Rightarrow> upstream_answer \<Rightarrow> RequestLog \<Rightarrow> outcome" where
  "logFailedUpstream e aff sent a entry =
     \<lparr> o_Rows = [entry \<lparr> StatusCode := ua_Status a, ErrorMessage := take 2048 (ua_Body a),
         Meter := (Meter entry) \<lparr> LatencyMS := c_Latency e \<rparr> \<rparr>],
       o_Sent = sent,
       o_Reply = UpstreamError (ua_Status a) (ua_RetryAfter a)
         (translateErrorBytes (ua_Body a) (isAnthropicRequest (Some (c_Request e)))),
       o_Affinity = aff \<rparr>"

section \<open>What goes upstream\<close>

definition DeriveUserID :: "(string \<Rightarrow> string \<Rightarrow> string) \<Rightarrow> string \<Rightarrow> string \<Rightarrow> string" where
  "DeriveUserID mac secret userID = (if secret = [] \<or> userID = [] then [] else ''mu-'' @ take 40 (mac secret userID))"

definition sanitizeUpstreamIdentity ::
  "(string \<Rightarrow> string \<Rightarrow> string) \<Rightarrow> body \<Rightarrow> upstreamFamily \<Rightarrow> string \<Rightarrow> string \<Rightarrow> body" where
  "sanitizeUpstreamIdentity mac b family secret userID =
     (let b = (if family = famDeepseek then obj_dels b [''frequency_penalty'', ''presence_penalty''] else b);
          b = obj_dels b [''user'', ''user_id''];
          derived = DeriveUserID mac secret userID
      in if derived \<noteq> [] then obj_set b ''user_id'' (JStr derived) else b)"

definition ChatCompletions :: "string \<Rightarrow> string" where
  "ChatCompletions baseURL =
     (let trimmed = TrimRightByte (CHR ''/'') (TrimSpace baseURL)
      in if HasSuffix trimmed ''/chat/completions'' then trimmed
         else if HasSuffix trimmed ''/completions'' then TrimSuffix trimmed ''/completions'' @ ''/chat/completions''
         else trimmed @ ''/chat/completions'')"

definition messages_url :: "string \<Rightarrow> string" where
  "messages_url baseURL =
     (let url = TrimSuffix baseURL ''/''
      in if \<not> HasSuffix url ''/v1/messages'' \<and> \<not> HasSuffix url ''/messages'' then url @ ''/v1/messages'' else url)"

definition setOpenRouterHeaders :: "Provider \<Rightarrow> request \<Rightarrow> (string \<times> string) list" where
  "setOpenRouterHeaders p r =
     (if pd_ID p \<noteq> ''openrouter'' then []
      else [(''HTTP-Referer'', ''https://muhiya.com''), (''X-Title'', ''Muhiya'')] @
        (let sess = Header_Get r ''X-Muhiya-Session'' in if sess \<noteq> [] then [(''X-Session-Id'', sess)] else []))"

definition openai_call :: "Provider \<Rightarrow> request \<Rightarrow> body \<Rightarrow> upstream_request" where
  "openai_call p r b =
     \<lparr> ur_URL = ChatCompletions (BaseURL p),
       ur_Header = [(''Content-Type'', ''application/json''), (''Authorization'', ''Bearer '' @ APIKey p)] @ setOpenRouterHeaders p r,
       ur_Body = JObj b \<rparr>"

definition anthropic_call :: "Provider \<Rightarrow> body \<Rightarrow> upstream_request" where
  "anthropic_call p b =
     \<lparr> ur_URL = messages_url (BaseURL p),
       ur_Header = [(''Content-Type'', ''application/json''), (''x-api-key'', APIKey p), (''anthropic-version'', ''2023-06-01'')],
       ur_Body = JObj b \<rparr>"

section \<open>The translated answers\<close>

definition openai_response_json :: "OpenAIResponse \<Rightarrow> json" where
  "openai_response_json r = JObj
     ([(''id'', JStr (or_ID r)), (''object'', JStr (or_Object r)), (''created'', json_int (or_Created r)),
       (''model'', JStr (or_Model r)),
       (''choices'', JArr (map (\<lambda>c. JObj [(''index'', json_int (oc_Index c)), (''message'', openai_message_body (oc_Message c)),
          (''finish_reason'', JStr (oc_FinishReason c))]) (or_Choices r))),
       (''usage'', usage_json (or_Usage r))] @ opt_string ''provider'' (or_Provider r))"

definition anthropic_usage_json :: "AnthropicUsage \<Rightarrow> json" where
  "anthropic_usage_json u = JObj
     ([(''input_tokens'', json_int (au_InputTokens u)), (''output_tokens'', json_int (au_OutputTokens u))] @
      opt ''cache_read_input_tokens'' (au_CacheReadInputTokens u \<noteq> 0) (json_int (au_CacheReadInputTokens u)) @
      opt ''cache_creation_input_tokens'' (au_CacheCreationInputTokens u \<noteq> 0) (json_int (au_CacheCreationInputTokens u)))"

definition anthropic_response_json :: "AnthropicResponse \<Rightarrow> json" where
  "anthropic_response_json r = JObj
     [(''id'', JStr (ar_ID r)), (''type'', JStr (ar_Type r)), (''role'', JStr (ar_Role r)),
      (''content'', json_list (map content_body (ar_Content r))), (''model'', JStr (ar_Model r)),
      (''stop_reason'', JStr (StopReason r)),
      (''stop_sequence'', case StopSequence r of None \<Rightarrow> JNull | Some s \<Rightarrow> JStr s), (''usage'', anthropic_usage_json (ar_Usage r))]"

section \<open>An OpenAI client on an OpenAI upstream\<close>

text \<open>What is written to the store of routes is lost when it does not answer.\<close>

definition forget_route :: "call_env \<Rightarrow> string \<Rightarrow> affinity_store" where
  "forget_route e scope = (if c_AffinityFails e then c_Affinity e else affinity_clear (c_Affinity e) scope)"

definition learn_route :: "call_env \<Rightarrow> affinity_store \<Rightarrow> string \<Rightarrow> string \<Rightarrow> affinity_store" where
  "learn_route e aff scope upstream = (if c_AffinityFails e then aff else observeProviderAffinity aff scope upstream)"

definition with_thinking :: "string \<Rightarrow> RequestLog \<Rightarrow> RequestLog" where
  "with_thinking applied entry =
     entry \<lparr> Origin := (Origin entry) \<lparr> ThinkingLevel := ThinkingLogValue (ThinkingLevel (Origin entry)) applied \<rparr> \<rparr>"

definition forwarded_body :: "gateway \<Rightarrow> Model \<Rightarrow> Provider \<Rightarrow> body \<Rightarrow> body" where
  "forwarded_body g m p b =
     maybeInjectOpenRouterPDFParser
       (stripUnsupportedMediaInBodyMap (obj_del (obj_set b ''model'' (JStr (TargetModel m))) ''web_search'') (Some m))
       (Some (BaseURL p, pd_ID p)) (openRouterPDFEngine (pdf_setting g))"

definition conditioned_body :: "Model \<Rightarrow> Provider \<Rightarrow> body \<Rightarrow> body" where
  "conditioned_body m p b =
     (let b = (if classifyUpstream (BaseURL p) (TargetModel m) = famDeepseek then conditionDeepSeekChatCompletion b else b);
          b = fst (InjectOpenRouterAnthropicCache b (pd_ID p = ''openrouter'') (TargetModel m))
      in if as_bool (obj_get b ''stream'') then obj_set b ''stream_options'' (JObj [(''include_usage'', JBool True)]) else b)"

definition identified_body :: "gateway \<Rightarrow> Model \<Rightarrow> Provider \<Rightarrow> string \<Rightarrow> body \<Rightarrow> body" where
  "identified_body g m p userID b =
     (let b = sanitizeUpstreamIdentity (hmac g) b (classifyUpstream (BaseURL p) (TargetModel m)) (identitySecret g) userID;
          derived = DeriveUserID (hmac g) (identitySecret g) userID
      in if pd_ID p = ''openrouter'' \<and> derived \<noteq> [] then obj_set b ''user'' (JStr derived) else b)"

definition openai_upstream_body ::
  "gateway \<Rightarrow> call_env \<Rightarrow> Model \<Rightarrow> Provider \<Rightarrow> RequestLog \<Rightarrow> body \<Rightarrow> body \<times> RequestLog \<times> string" where
  "openai_upstream_body g e m p entry b =
     (case ApplyThinkingOpenAI (forwarded_body g m p b) (BaseURL p) (TargetModel m) (ThinkingLevel (Origin entry))
             (SupportsThinking (m_Media m)) of
        (b, applied) \<Rightarrow>
          (case applyProviderAffinity (sha_hex g) (contract_hex g)
                  (\<lambda>s. if c_AffinityFails e then None else Some (affinity_get (c_Affinity e) s))
                  (identified_body g m p (UserID entry) (conditioned_body m p b)) (c_Request e) m (VirtualKeyID (Origin entry)) of
             (b, scope) \<Rightarrow> (b, with_thinking applied entry, scope)))"

definition zero_openai_response :: OpenAIResponse where
  "zero_openai_response = \<lparr> or_ID = [], or_Object = [], or_Created = 0, or_Model = [], or_Choices = [],
     or_Usage = zero_openai_usage, or_Provider = [] \<rparr>"

text \<open>The price of the model at the pinned instant.\<close>

definition price_for :: "gateway \<Rightarrow> call_env \<Rightarrow> Model \<Rightarrow> RequestLog \<Rightarrow> ReportedUsage \<Rightarrow> RequestLog" where
  "price_for g e m = price_at (snapshot_text g) (address_of g) (describe_error g) m (c_PricedAt e)"

text \<open>The bill of an answer that is not streamed: its usage, or else an estimate of its text.\<close>

definition bill_openai_answer :: "gateway \<Rightarrow> call_env \<Rightarrow> Model \<Rightarrow> Provider \<Rightarrow> RequestLog \<Rightarrow> string \<Rightarrow> RequestLog" where
  "bill_openai_answer g e m p entry text =
     (case unmarshal zero_openai_response dec_openai_response text of (resp, bad) \<Rightarrow>
        (let usage = Some (or_Usage resp); u = or_Usage resp;
             (entry, report) =
               (if \<not> bad \<and> ou_TotalTokens u > 0
                then (note_openai_usage (BaseURL p) (TargetModel m) usage
                        (entry \<lparr> Meter := (Meter entry) \<lparr> lm_InputTokens := ou_PromptTokens u \<rparr>, UsageEstimated := False \<rparr>),
                      openai_report (ou_PromptTokens u) (ou_CompletionTokens u)
                        (CacheReadTokensFor usage (BaseURL p) (TargetModel m)) (CacheWriteTokensReported usage))
                else (entry \<lparr> UsageEstimated := True \<rparr>,
                      openai_report (lm_InputTokens (Meter entry))
                        (case or_Choices resp of [] \<Rightarrow> 0
                         | choice # rest \<Rightarrow> estimateTokens (GetMessageContentString (show_value g) (om_Content (oc_Message choice))))
                        0 0))
         in with_latency (c_Latency e)
              (price_for g e m (entry \<lparr> StatusCode := 200, UpstreamProvider := or_Provider resp \<rparr>) report)))"

definition openai_answer ::
  "gateway \<Rightarrow> call_env \<Rightarrow> Model \<Rightarrow> Provider \<Rightarrow> RequestLog \<Rightarrow> string \<Rightarrow> bool \<Rightarrow> affinity_store \<Rightarrow> upstream_request list \<Rightarrow>
     upstream_answer \<Rightarrow> outcome" where
  "openai_answer g e m p entry scope stream aff sent a =
     (if ua_Status a \<ge> 400 then logFailedUpstream e aff sent a entry
      else if stream then
        (let rd = stream_openai_to_openai (price_for g e m) (BaseURL p) (TargetModel m) (m_Name m) entry (ua_Stream a)
         in \<lparr> o_Rows = rd_rows rd, o_Sent = sent, o_Reply = StreamReply (rd_frames rd),
              o_Affinity = learn_route e aff scope (UpstreamProvider (hd (rd_rows rd))) \<rparr>)
      else if ua_BodyLost a then logAndWriteError e aff sent 500 ''Read response error'' ''api_error'' entry
      else
        (let row = bill_openai_answer g e m p entry (ua_Body a)
         in \<lparr> o_Rows = [row], o_Sent = sent, o_Reply = BytesReply (ua_Body a),
              o_Affinity = learn_route e aff scope (UpstreamProvider row) \<rparr>))"

text \<open>A route that is rejected is forgotten and the same request sent once more without it.\<close>

definition proxyOpenAIToOpenAI :: "gateway \<Rightarrow> call_env \<Rightarrow> string \<Rightarrow> Model \<Rightarrow> Provider \<Rightarrow> RequestLog \<Rightarrow> outcome" where
  "proxyOpenAIToOpenAI g e origBody m p entry =
     (case unmarshal_map origBody of
        (Some b, False) \<Rightarrow>
          (case openai_upstream_body g e m p entry b of (b, entry, scope) \<Rightarrow>
             (let req = openai_call p (c_Request e) b; aff = c_Affinity e; stream = as_bool (obj_get b ''stream'')
              in if \<not> url_ok g (ur_URL req)
                 then logAndWriteError e aff [] 500 ''Failed to create upstream request'' ''api_error'' entry
                 else
                   (case exchange e 0 req of
                      Unreachable err \<Rightarrow> logAndWriteError e aff [req] 502 (''Connection failed: '' @ err) ''api_error'' entry
                    | Answered a \<Rightarrow>
                        if obj_get b ''provider'' \<noteq> None \<and> scope \<noteq> [] \<and> ua_Status a \<ge> 400 then
                          (let aff = forget_route e scope; again = openai_call p (c_Request e) (obj_del b ''provider'')
                           in case exchange e 1 again of
                                Unreachable err \<Rightarrow>
                                  logAndWriteError e aff [req, again] 502 (''Affinity rebind failed: '' @ err) ''api_error'' entry
                              | Answered a' \<Rightarrow> openai_answer g e m p entry scope stream aff [req, again] a')
                        else openai_answer g e m p entry scope stream aff [req] a)))
      | _ \<Rightarrow> logAndWriteError e (c_Affinity e) [] 400 ''Request body must be a JSON object'' ''invalid_request_error'' entry)"

section \<open>The other three\<close>

definition zero_anthropic_response :: AnthropicResponse where
  "zero_anthropic_response = \<lparr> ar_ID = [], ar_Type = [], ar_Role = [], ar_Content = [], ar_Model = [], StopReason = [],
     StopSequence = None, ar_Usage = zero_anthropic_usage \<rparr>"

definition bill_answer :: "gateway \<Rightarrow> call_env \<Rightarrow> Model \<Rightarrow> RequestLog \<Rightarrow> ReportedUsage \<Rightarrow> RequestLog" where
  "bill_answer g e m entry report = with_latency (c_Latency e) (price_for g e m (entry \<lparr> StatusCode := 200 \<rparr>) report)"

text \<open>Sending to an Anthropic or a translated upstream: one attempt. \<open>lost\<close> is the text of a failed
  connection.\<close>

definition send_once ::
  "gateway \<Rightarrow> call_env \<Rightarrow> string \<Rightarrow> upstream_request \<Rightarrow> RequestLog \<Rightarrow> (upstream_answer \<Rightarrow> outcome) \<Rightarrow> outcome" where
  "send_once g e lost req entry k =
     (if \<not> url_ok g (ur_URL req)
      then logAndWriteError e (c_Affinity e) [] 500 ''Failed to create upstream request'' ''api_error'' entry
      else
        (case exchange e 0 req of
           Unreachable err \<Rightarrow> logAndWriteError e (c_Affinity e) [req] 502 (lost @ err) ''api_error'' entry
         | Answered a \<Rightarrow> if ua_Status a \<ge> 400 then logFailedUpstream e (c_Affinity e) [req] a entry else k a))"

definition anthropic_upstream_body :: "Model \<Rightarrow> Provider \<Rightarrow> RequestLog \<Rightarrow> body \<Rightarrow> body \<times> RequestLog" where
  "anthropic_upstream_body m p entry b =
     (case ApplyThinkingAnthropic b (BaseURL p) (TargetModel m) (ThinkingLevel (Origin entry)) (SupportsThinking (m_Media m)) of
        (b, applied) \<Rightarrow> (fst (InjectAnthropicCacheControl b (TargetModel m)), with_thinking applied entry))"

definition proxyOpenAIToAnthropic ::
  "gateway \<Rightarrow> call_env \<Rightarrow> OpenAIRequest \<Rightarrow> Model \<Rightarrow> Provider \<Rightarrow> RequestLog \<Rightarrow> outcome" where
  "proxyOpenAIToAnthropic g e q m p entry =
     (case anthropic_upstream_body m p entry (anthropic_body (TranslateOpenAIToAnthropic (show_value g) q (TargetModel m))) of
        (b, entry) \<Rightarrow>
          (let req = anthropic_call p b
           in send_once g e ''Upstream error: '' req entry (\<lambda>a.
                if oq_Stream q then
                  (let rd = stream_openai_to_anthropic (price_for g e m) (c_Created e) (''chatcmpl-'' @ c_Fresh e) (oq_Model q)
                         (m_Name m) entry (ua_Stream a)
                   in \<lparr> o_Rows = rd_rows rd, o_Sent = [req], o_Reply = StreamReply (rd_frames rd), o_Affinity = c_Affinity e \<rparr>)
                else
                  (let resp = fst (unmarshal zero_anthropic_response dec_anthropic_response (ua_Body a))
                   in \<lparr> o_Rows = [bill_answer g e m entry (anthropicReportedUsage (Some (ar_Usage resp)))], o_Sent = [req],
                        o_Reply = JsonReply (openai_response_json
                          (TranslateAnthropicToOpenAIResponse (marshal_value g) (c_Created e) resp (oq_Model q))),
                        o_Affinity = c_Affinity e \<rparr>))))"

definition translated_openai_body ::
  "gateway \<Rightarrow> Model \<Rightarrow> Provider \<Rightarrow> RequestLog \<Rightarrow> body \<Rightarrow> body \<times> RequestLog" where
  "translated_openai_body g m p entry b =
     (case ApplyThinkingOpenAI b (BaseURL p) (TargetModel m) (ThinkingLevel (Origin entry)) (SupportsThinking (m_Media m)) of
        (b, applied) \<Rightarrow>
          (let entry = with_thinking applied entry;
               family = classifyUpstream (BaseURL p) (TargetModel m);
               b = (if family = famDeepseek then conditionDeepSeekChatCompletion b else b)
           in (sanitizeUpstreamIdentity (hmac g) b family (identitySecret g) (UserID entry), entry)))"

definition proxyAnthropicToOpenAI ::
  "gateway \<Rightarrow> call_env \<Rightarrow> AnthropicRequest \<Rightarrow> Model \<Rightarrow> Provider \<Rightarrow> RequestLog \<Rightarrow> outcome" where
  "proxyAnthropicToOpenAI g e q m p entry =
     (case translated_openai_body g m p entry (openai_body (TranslateAnthropicToOpenAI (marshal_value g) q (TargetModel m))) of
        (b, entry) \<Rightarrow>
          (let req = openai_call p (c_Request e) b
           in send_once g e ''Upstream connection failed: '' req entry (\<lambda>a.
                if aq_Stream q then
                  (let rd = stream_anthropic_to_openai (price_for g e m) (''msg_'' @ c_Fresh e) (aq_Model q) (m_Name m) entry
                         (ua_Stream a)
                   in \<lparr> o_Rows = rd_rows rd, o_Sent = [req], o_Reply = StreamReply (rd_frames rd), o_Affinity = c_Affinity e \<rparr>)
                else
                  (let resp = fst (unmarshal zero_openai_response dec_openai_response (ua_Body a));
                       usage = Some (or_Usage resp); u = or_Usage resp;
                       entry = entry \<lparr> Meter := (Meter entry) \<lparr>
                         CacheMissTokens := CacheMissTokensFor usage (BaseURL p) (TargetModel m) \<rparr> \<rparr>
                   in \<lparr> o_Rows = [bill_answer g e m entry (openai_report (ou_PromptTokens u) (ou_CompletionTokens u)
                          (CacheReadTokensFor usage (BaseURL p) (TargetModel m)) (CacheWriteTokensReported usage))],
                        o_Sent = [req],
                        o_Reply = JsonReply (anthropic_response_json
                          (TranslateOpenAIToAnthropicResponse (show_value g) resp (aq_Model q))),
                        o_Affinity = c_Affinity e \<rparr>))))"

definition proxyAnthropicToAnthropic ::
  "gateway \<Rightarrow> call_env \<Rightarrow> string \<Rightarrow> AnthropicRequest \<Rightarrow> Model \<Rightarrow> Provider \<Rightarrow> RequestLog \<Rightarrow> outcome" where
  "proxyAnthropicToAnthropic g e origBody q m p entry =
     (case unmarshal_map origBody of
        (Some b, False) \<Rightarrow>
          (case anthropic_upstream_body m p entry (obj_set b ''model'' (JStr (TargetModel m))) of
             (b, entry) \<Rightarrow>
               (let req = anthropic_call p b
                in send_once g e ''Upstream connection failed: '' req entry (\<lambda>a.
                     if aq_Stream q then
                       (let rd = stream_anthropic_to_anthropic (price_for g e m) (m_Name m) entry (ua_Stream a)
                        in \<lparr> o_Rows = rd_rows rd, o_Sent = [req], o_Reply = StreamReply (rd_frames rd),
                             o_Affinity = c_Affinity e \<rparr>)
                     else
                       (let resp = fst (unmarshal zero_anthropic_response dec_anthropic_response (ua_Body a))
                        in \<lparr> o_Rows = [bill_answer g e m entry (anthropicReportedUsage (Some (ar_Usage resp)))], o_Sent = [req],
                             o_Reply = BytesReply (ua_Body a), o_Affinity = c_Affinity e \<rparr>))))
      | _ \<Rightarrow> logAndWriteError e (c_Affinity e) [] 400 ''Request body must be a JSON object'' ''invalid_request_error'' entry)"

section \<open>Every call writes one row\<close>

lemma row_of_refl [simp]: "row_of entry entry"
  by (simp add: row_of_def)

lemma row_of_trans: "row_of a b \<Longrightarrow> row_of b c \<Longrightarrow> row_of a c"
  by (simp add: row_of_def)

lemma price_for_row: "row_of entry (price_for g e m entry u)"
  by (simp add: price_for_def price_at_def row_of_def)

text \<open>One row of the request, handed over by an error path, a stream or a bill.\<close>

definition one_row :: "RequestLog \<Rightarrow> outcome \<Rightarrow> bool" where
  "one_row entry out \<longleftrightarrow> (\<exists>row. o_Rows out = [row] \<and> row_of entry row)"

named_theorems rows "outcomes with one row"

lemma logAndWriteError_row [rows]: "one_row entry (logAndWriteError e aff sent code msg t entry)"
  by (simp add: one_row_def logAndWriteError_def row_of_def Let_def)

lemma logFailedUpstream_row [rows]: "one_row entry (logFailedUpstream e aff sent a entry)"
  by (simp add: one_row_def logFailedUpstream_def row_of_def)

lemma one_row_if [rows]: "one_row entry x \<Longrightarrow> one_row entry y \<Longrightarrow> one_row entry (if c then x else y)"
  by simp

lemma one_row_let [rows]: "one_row entry (f x) \<Longrightarrow> one_row entry (Let x f)"
  by simp

lemma one_row_result [rows]:
  "(\<And>err. one_row entry (f err)) \<Longrightarrow> (\<And>a. one_row entry (k a)) \<Longrightarrow>
    one_row entry (case r of Unreachable err \<Rightarrow> f err | Answered a \<Rightarrow> k a)"
  by (cases r) simp_all

lemma one_row_simps:
  "one_row entry \<lparr> o_Rows = rows, o_Sent = sent, o_Reply = reply, o_Affinity = aff \<rparr> \<longleftrightarrow> (\<exists>row. rows = [row] \<and> row_of entry row)"
  by (simp add: one_row_def)

lemma stream_rows [rows]:
  "one_row entry \<lparr> o_Rows = rd_rows (stream_openai_to_openai (price_for g e m) baseURL target name entry s), o_Sent = sent,
     o_Reply = reply, o_Affinity = aff \<rparr>"
  "one_row entry \<lparr> o_Rows = rd_rows (stream_openai_to_anthropic (price_for g e m) created msgID model name entry s), o_Sent = sent,
     o_Reply = reply, o_Affinity = aff \<rparr>"
  "one_row entry \<lparr> o_Rows = rd_rows (stream_anthropic_to_openai (price_for g e m) msgID model name entry s), o_Sent = sent,
     o_Reply = reply, o_Affinity = aff \<rparr>"
  "one_row entry \<lparr> o_Rows = rd_rows (stream_anthropic_to_anthropic (price_for g e m) name entry s), o_Sent = sent,
     o_Reply = reply, o_Affinity = aff \<rparr>"
  unfolding one_row_simps price_for_def
  by (use openai.row in blast, use to_anthropic.row in blast, use to_openai.row in blast, use anthropic.row in blast)

lemma bill_rows [rows]:
  "one_row entry \<lparr> o_Rows = [bill_openai_answer g e m p entry text], o_Sent = sent, o_Reply = reply, o_Affinity = aff \<rparr>"
  "row_of entry entry' \<Longrightarrow>
    one_row entry \<lparr> o_Rows = [bill_answer g e m entry' report], o_Sent = sent, o_Reply = reply, o_Affinity = aff \<rparr>"
  by (simp_all add: one_row_def bill_openai_answer_def bill_answer_def price_for_def price_at_def row_of_def
      note_openai_usage_def Let_def split: prod.splits)

lemma openai_answer_row [rows]: "one_row entry (openai_answer g e m p entry scope stream aff sent a)"
  unfolding openai_answer_def by (intro rows)

lemma send_once_row [rows]: "(\<And>a. one_row entry (k a)) \<Longrightarrow> one_row entry (send_once g e lost req entry k)"
  unfolding send_once_def by (intro rows)

lemma one_row_from: "row_of entry entry' \<Longrightarrow> one_row entry' out \<Longrightarrow> one_row entry out"
  unfolding one_row_def using row_of_trans by blast

lemma one_row_decoded [rows]:
  "(\<And>b. one_row entry (k b)) \<Longrightarrow> one_row entry z \<Longrightarrow> one_row entry (case r of (Some b, False) \<Rightarrow> k b | _ \<Rightarrow> z)"
  by (auto split: prod.split option.split bool.split)

lemma one_row_body:
  assumes "row_of entry (snd x)" "\<And>b entry'. one_row entry' (f b entry')"
  shows "one_row entry (case x of (b, entry') \<Rightarrow> f b entry')"
  using one_row_from [OF assms(1) assms(2)] by (simp add: case_prod_beta)

lemma one_row_body3:
  assumes "row_of entry (fst (snd x))" "\<And>b entry' scope. one_row entry' (f b entry' scope)"
  shows "one_row entry (case x of (b, entry', scope) \<Rightarrow> f b entry' scope)"
  using one_row_from [OF assms(1) assms(2)] by (simp add: case_prod_beta)

lemma with_thinking_row: "row_of entry (with_thinking applied entry)"
  by (simp add: with_thinking_def row_of_def)

lemma upstream_bodies_row:
  "row_of entry (fst (snd (openai_upstream_body g e m p entry b)))"
  "row_of entry (snd (anthropic_upstream_body m p entry b))"
  "row_of entry (snd (translated_openai_body g m p entry b))"
  unfolding openai_upstream_body_def anthropic_upstream_body_def translated_openai_body_def Let_def split_beta fst_conv snd_conv
  by (rule with_thinking_row)+

text \<open>The contract of the four calls towards the admission that makes them.\<close>

locale metered_call =
  fixes run :: "RequestLog \<Rightarrow> outcome"
  assumes one: "one_row entry (run entry)"
begin

lemma charged:
  assumes "0 < ChargeCeilingNanoUSD entry" "\<not> requestLogExists db (rl_ID entry)"
  shows "charged_within dbnow (o_Rows (run entry)) entry True db ob"
  using one [of entry] row_charged [OF _ assms] unfolding one_row_def by (metis (full_types))

text \<open>Every call after it, for the same request, finds the row there and charges nothing.\<close>

lemma charged_again:
  assumes "0 < ChargeCeilingNanoUSD entry" "requestLogExists db (rl_ID entry)"
  shows "fst (fold (saveRequestLog dbnow) (o_Rows (run entry)) (db, ob)) = db"
proof -
  obtain row where row: "o_Rows (run entry) = [row]" "row_of entry row" using one [of entry] by (auto simp: one_row_def)
  show ?thesis
  proof (cases "normalizeSettledEntry row")
    case (Inl err)
    then show ?thesis using row assms(1) by (simp add: SettleUsageAndLog_def saveRequestLog_def row_of_def)
  next
    case (Inr e)
    have "requestLogExists db (rl_ID e)" using assms(2) row(2) normalizeSettledEntry_fields(1) [OF Inr] by (simp add: row_of_def)
    then show ?thesis using Inr row assms(1) by (simp add: SettleUsageAndLog_def saveRequestLog_def row_of_def)
  qed
qed

end

interpretation openai_openai: metered_call "proxyOpenAIToOpenAI g e origBody m p" for g e origBody m p
  by unfold_locales (unfold proxyOpenAIToOpenAI_def, intro rows one_row_body3 upstream_bodies_row)

interpretation openai_anthropic: metered_call "proxyOpenAIToAnthropic g e q m p" for g e q m p
  by unfold_locales (unfold proxyOpenAIToAnthropic_def, intro rows one_row_body upstream_bodies_row row_of_refl)

interpretation anthropic_openai: metered_call "proxyAnthropicToOpenAI g e q m p" for g e q m p
  by unfold_locales (unfold proxyAnthropicToOpenAI_def, intro rows one_row_body upstream_bodies_row, simp add: row_of_def)

interpretation anthropic_anthropic: metered_call "proxyAnthropicToAnthropic g e origBody q m p" for g e origBody q m p
  by unfold_locales (unfold proxyAnthropicToAnthropic_def, intro rows one_row_body upstream_bodies_row row_of_refl)

section \<open>What the upstream is told\<close>

definition identity_of :: "gateway \<Rightarrow> string \<Rightarrow> json option" where
  "identity_of g userID =
     (let derived = DeriveUserID (hmac g) (identitySecret g) userID in if derived = [] then None else Some (JStr derived))"

lemma identified_get:
  "obj_get (identified_body g m p userID b) k =
     (if k = ''user_id'' then identity_of g userID
      else if k = ''user'' then (if pd_ID p = ''openrouter'' then identity_of g userID else None)
      else if classifyUpstream (BaseURL p) (TargetModel m) = famDeepseek \<and> k \<in> {''frequency_penalty'', ''presence_penalty''} then None
      else obj_get b k)"
  by (simp add: identified_body_def sanitizeUpstreamIdentity_def identity_of_def Let_def)

lemma affinity_get_frame:
  "k \<noteq> ''provider'' \<Longrightarrow> obj_get (fst (applyProviderAffinity dg cdg look b r m key)) k = obj_get b k"
  by (simp add: applyProviderAffinity_def Let_def split: option.split)

lemma openrouter_cache_frame:
  assumes "k \<notin> {''system'', ''messages''}"
  shows "obj_get (fst (InjectOpenRouterAnthropicCache b isOpenRouter target)) k = obj_get b k"
proof -
  obtain b' injected where r: "InjectOpenRouterAnthropicCache b isOpenRouter target = (b', injected)" by fastforce
  with openrouter_ok [of b isOpenRouter target] assms show ?thesis by (auto simp: injection_ok_def)
qed

lemma conditioned_frame:
  assumes "k \<notin> deepseek_fields \<union> {''system'', ''messages'', ''stream_options''}"
  shows "obj_get (conditioned_body m p b) k = obj_get b k"
proof -
  have "obj_get (conditionDeepSeekChatCompletion b) k = obj_get b k" using assms by (intro deepseek_rewrite.frame) simp
  then show ?thesis using assms openrouter_cache_frame by (auto simp: conditioned_body_def Let_def)
qed

lemma forwarded_get:
  assumes "k \<notin> {''web_search'', ''messages'', ''plugins''}"
  shows "obj_get (forwarded_body g m p b) k = (if k = ''model'' then Some (JStr (TargetModel m)) else obj_get b k)"
  using assms
  by (auto simp: forwarded_body_def maybeInjectOpenRouterPDFParser_def stripUnsupportedMediaInBodyMap_def Let_def
      split: option.split prod.split)

lemma own_fields:
  "''model'' \<notin> deepseek_fields" "''model'' \<notin> thinking_fields" "''stream'' \<notin> deepseek_fields" "''stream'' \<notin> thinking_fields"
  by (simp_all add: deepseek_fields_def thinking_fields_def deepSeekUnsupportedFields_def)

lemma upstream_body_get:
  assumes "k \<noteq> ''provider''"
  shows "obj_get (fst (openai_upstream_body g e m p entry b)) k =
    obj_get (identified_body g m p (UserID entry) (conditioned_body m p
      (fst (ApplyThinkingOpenAI (forwarded_body g m p b) (BaseURL p) (TargetModel m) (ThinkingLevel (Origin entry))
         (SupportsThinking (m_Media m)))))) k"
  unfolding openai_upstream_body_def split_beta fst_conv by (rule affinity_get_frame [OF assms])

text \<open>The body that goes to an OpenAI upstream, field by field.\<close>

lemma upstream_body_fields:
  assumes b'_def: "b' = fst (openai_upstream_body g e m p entry b)"
  shows "obj_get b' ''model'' = Some (JStr (TargetModel m))" "obj_get b' ''user_id'' = identity_of g (UserID entry)"
    "obj_get b' ''user'' = (if pd_ID p = ''openrouter'' then identity_of g (UserID entry) else None)"
proof -
  show "obj_get b' ''model'' = Some (JStr (TargetModel m))"
    by (simp add: b'_def upstream_body_get identified_get conditioned_frame openai_rewrite.frame forwarded_get own_fields)
  show "obj_get b' ''user_id'' = identity_of g (UserID entry)"
    "obj_get b' ''user'' = (if pd_ID p = ''openrouter'' then identity_of g (UserID entry) else None)"
    by (simp_all add: b'_def upstream_body_get identified_get)
qed

text \<open>The fields the gateway may change on the way to an OpenAI upstream: its own, those of thinking, and
  what the dialect of this provider asks for.\<close>

definition rewritten_fields :: "Model \<Rightarrow> Provider \<Rightarrow> string set" where
  "rewritten_fields m p =
     {''model'', ''web_search'', ''user'', ''user_id'', ''messages'', ''stream_options''} \<union> thinking_fields \<union>
     (if classifyUpstream (BaseURL p) (TargetModel m) = famDeepseek
      then deepseek_fields \<union> {''frequency_penalty'', ''presence_penalty''} else {}) \<union>
     (if isOpenRouterBase (BaseURL p) \<or> pd_ID p = ''openrouter'' then {''plugins''} else {}) \<union>
     (if ProviderFamily (m_Catalog m) = ''minimax-openrouter'' then {''provider''} else {})"

lemma affinity_get_idle:
  assumes "ProviderFamily (m_Catalog m) \<noteq> ''minimax-openrouter''"
  shows "applyProviderAffinity dg cdg look b r m key = (b, [])"
  using assms by (simp add: applyProviderAffinity_def)

lemma upstream_body_eq:
  "k \<noteq> ''provider'' \<or> ProviderFamily (m_Catalog m) \<noteq> ''minimax-openrouter'' \<Longrightarrow>
   obj_get (fst (openai_upstream_body g e m p entry b)) k =
    obj_get (identified_body g m p (UserID entry) (conditioned_body m p
      (fst (ApplyThinkingOpenAI (forwarded_body g m p b) (BaseURL p) (TargetModel m) (ThinkingLevel (Origin entry))
         (SupportsThinking (m_Media m)))))) k"
  unfolding openai_upstream_body_def split_beta fst_conv using affinity_get_frame affinity_get_idle by (metis fst_conv)

lemma upstream_scope:
  "openai_upstream_body g e m p entry b = (b', entry', scope) \<Longrightarrow> scope \<noteq> [] \<Longrightarrow> ProviderFamily (m_Catalog m) = ''minimax-openrouter''"
  by (auto simp: openai_upstream_body_def split_beta applyProviderAffinity_def split: if_splits)

lemma openrouter_cache_messages:
  assumes "k \<noteq> ''messages'' \<or> \<not> isOpenRouter"
  shows "obj_get (fst (InjectOpenRouterAnthropicCache b isOpenRouter target)) k = obj_get b k"
  using assms by (auto simp: InjectOpenRouterAnthropicCache_def Let_def split_beta split: option.split list.split)

lemma conditioned_get:
  assumes "classifyUpstream (BaseURL p) (TargetModel m) \<noteq> famDeepseek \<or> k \<notin> deepseek_fields"
    and "k \<noteq> ''messages'' \<or> pd_ID p \<noteq> ''openrouter''"
  shows "obj_get (conditioned_body m p b) k =
    (if k = ''stream_options'' \<and> as_bool (obj_get b ''stream'') then Some (JObj [(''include_usage'', JBool True)]) else obj_get b k)"
proof -
  define b1 where "b1 = (if classifyUpstream (BaseURL p) (TargetModel m) = famDeepseek then conditionDeepSeekChatCompletion b else b)"
  have frame: "obj_get b1 k = obj_get b k" if "classifyUpstream (BaseURL p) (TargetModel m) \<noteq> famDeepseek \<or> k \<notin> deepseek_fields" for k
    using that deepseek_rewrite.frame by (auto simp: b1_def)
  have stream: "obj_get (fst (InjectOpenRouterAnthropicCache b1 (pd_ID p = ''openrouter'') (TargetModel m))) ''stream'' = obj_get b ''stream''"
    using openrouter_cache_messages frame own_fields(3) by simp
  show ?thesis
    unfolding conditioned_body_def b1_def [symmetric] Let_def stream
    using openrouter_cache_messages [of k "pd_ID p = ''openrouter''" b1] frame [OF assms(1)] assms(2) by simp
qed

lemma forwarded_other:
  assumes "k \<notin> {''model'', ''web_search'', ''messages''}" "k = ''plugins'' \<Longrightarrow> \<not> isOpenRouterBase (BaseURL p) \<and> pd_ID p \<noteq> ''openrouter''"
  shows "obj_get (forwarded_body g m p b) k = obj_get b k"
  using assms
  by (auto simp: forwarded_body_def maybeInjectOpenRouterPDFParser_def stripUnsupportedMediaInBodyMap_def Let_def
      split: option.split prod.split)

lemma forwarded_messages:
  "obj_get (forwarded_body g m p b) ''messages'' = obj_get (stripUnsupportedMediaInBodyMap b (Some m)) ''messages''"
  "obj_get (forwarded_body g m p b) ''web_search'' = None"
  by (auto simp: forwarded_body_def maybeInjectOpenRouterPDFParser_def stripUnsupportedMediaInBodyMap_def Let_def
      split: option.split prod.split)

lemma forwarded_plain:
  "obj_get (forwarded_body g m p b) ''stream_options'' = obj_get b ''stream_options''"
  "obj_get (forwarded_body g m p b) ''stream'' = obj_get b ''stream''"
  by (rule forwarded_other; simp)+

lemma own_names:
  "''stream'' \<notin> thinking_fields" "''messages'' \<notin> thinking_fields" "''web_search'' \<notin> thinking_fields"
  "''stream_options'' \<notin> thinking_fields" "''messages'' \<notin> deepseek_fields" "''web_search'' \<notin> deepseek_fields"
  by (simp_all add: deepseek_fields_def thinking_fields_def deepSeekUnsupportedFields_def)

lemma upstream_body_other:
  fixes g :: gateway and e :: call_env and m :: Model and p :: Provider and entry :: RequestLog and b :: body
  defines "b' \<equiv> fst (openai_upstream_body g e m p entry b)"
  shows "k \<notin> rewritten_fields m p \<Longrightarrow> obj_get b' k = obj_get b k"
    "obj_get b' ''web_search'' = None"
    "pd_ID p \<noteq> ''openrouter'' \<Longrightarrow> obj_get b' ''messages'' = obj_get (stripUnsupportedMediaInBodyMap b (Some m)) ''messages''"
    "classifyUpstream (BaseURL p) (TargetModel m) \<noteq> famDeepseek \<Longrightarrow> obj_get b' ''stream_options'' =
      (if as_bool (obj_get b ''stream'') then Some (JObj [(''include_usage'', JBool True)]) else obj_get b ''stream_options'')"
proof -
  show "obj_get b' k = obj_get b k" if "k \<notin> rewritten_fields m p"
  proof -
    have k: "k \<notin> {''model'', ''web_search'', ''user'', ''user_id'', ''messages'', ''stream_options''}" "k \<notin> thinking_fields"
      "classifyUpstream (BaseURL p) (TargetModel m) = famDeepseek \<Longrightarrow> k \<notin> deepseek_fields \<union> {''frequency_penalty'', ''presence_penalty''}"
      "k = ''plugins'' \<Longrightarrow> \<not> isOpenRouterBase (BaseURL p) \<and> pd_ID p \<noteq> ''openrouter''"
      "k \<noteq> ''provider'' \<or> ProviderFamily (m_Catalog m) \<noteq> ''minimax-openrouter''"
      using that by (auto simp: rewritten_fields_def split: if_splits)
    have "obj_get (forwarded_body g m p b) k = obj_get b k" using k(1,4) by (intro forwarded_other) auto
    moreover have dialect: "classifyUpstream (BaseURL p) (TargetModel m) \<noteq> famDeepseek \<or> k \<notin> deepseek_fields"
      "\<not> (classifyUpstream (BaseURL p) (TargetModel m) = famDeepseek \<and> k \<in> {''frequency_penalty'', ''presence_penalty''})"
      using k(3) by blast+
    moreover have key: "k \<noteq> ''user_id''" "k \<noteq> ''user''" "k \<noteq> ''messages''" "k \<noteq> ''stream_options''" using k(1) by simp_all
    ultimately show ?thesis
      unfolding b'_def upstream_body_eq [OF k(5)] identified_get conditioned_get [OF dialect(1) disjI1 [OF key(3)]]
      by (simp only: key if_False simp_thms openai_rewrite.frame [OF k(2)])
  qed
  show "obj_get b' ''web_search'' = None"
    by (simp add: b'_def upstream_body_eq identified_get conditioned_get own_names own_fields(3) openai_rewrite.frame forwarded_messages)
  show "pd_ID p \<noteq> ''openrouter'' \<Longrightarrow> obj_get b' ''messages'' = obj_get (stripUnsupportedMediaInBodyMap b (Some m)) ''messages''"
    by (simp add: b'_def upstream_body_eq identified_get conditioned_get own_names own_fields(3) openai_rewrite.frame forwarded_messages)
  show "classifyUpstream (BaseURL p) (TargetModel m) \<noteq> famDeepseek \<Longrightarrow> obj_get b' ''stream_options'' =
      (if as_bool (obj_get b ''stream'') then Some (JObj [(''include_usage'', JBool True)]) else obj_get b ''stream_options'')"
    by (simp add: b'_def upstream_body_eq identified_get conditioned_get own_names own_fields(3) openai_rewrite.frame forwarded_plain)
qed

lemma openai_answer_sent: "o_Sent (openai_answer g e m p entry scope stream aff sent a) = sent"
  by (simp add: openai_answer_def logFailedUpstream_def logAndWriteError_def Let_def)

lemma openai_sent:
  assumes "req \<in> set (o_Sent (proxyOpenAIToOpenAI g e origBody m p entry))"
  shows "\<exists>b. unmarshal_map origBody = (Some b, False) \<and>
    (req = openai_call p (c_Request e) (fst (openai_upstream_body g e m p entry b)) \<or>
     ProviderFamily (m_Catalog m) = ''minimax-openrouter'' \<and>
     req = openai_call p (c_Request e) (obj_del (fst (openai_upstream_body g e m p entry b)) ''provider''))"
  using assms
  by (auto simp: proxyOpenAIToOpenAI_def logAndWriteError_def openai_answer_sent Let_def dest: upstream_scope
      split: prod.splits option.splits bool.splits if_splits upstream_result.splits)

section \<open>Failures\<close>

text \<open>The error a payload reports in a protocol: its type and its message.\<close>

definition error_in :: "bool \<Rightarrow> string \<Rightarrow> (string \<times> string) option" where
  "error_in anthropic body =
     (if anthropic then
        (case unmarshal ([], [], []) dec_anthropic_error body of
           ((t, errType, msg), bad) \<Rightarrow> if \<not> bad \<and> t = ''error'' \<and> msg \<noteq> [] then Some (errType, msg) else None)
      else
        (case unmarshal ([], [], []) dec_openai_error body of
           ((msg, errType, code), bad) \<Rightarrow> if \<not> bad \<and> msg \<noteq> [] then Some (errType, msg) else None))"

definition own_error :: "bool \<Rightarrow> string \<Rightarrow> string \<Rightarrow> json" where
  "own_error anthropic = (if anthropic then anthropic_error else openai_error)"

text \<open>What a client may be told: nothing, an error in its own protocol as it came, or one in its protocol
  whose message was an error of the other protocol or says that there was none.\<close>

definition presentable :: "bool \<Rightarrow> string \<Rightarrow> error_body \<Rightarrow> bool" where
  "presentable anthropic body b \<longleftrightarrow>
     (case b of
        Relayed s \<Rightarrow> s = body \<and> (body = [] \<or> error_in anthropic body \<noteq> None)
      | Rewritten j \<Rightarrow> body \<noteq> [] \<and> error_in anthropic body = None \<and>
          j = (case error_in (\<not> anthropic) body of
                 None \<Rightarrow> own_error anthropic ''api_error'' unrecognized
               | Some (errType, msg) \<Rightarrow> own_error anthropic (or_api_error errType) msg))"

lemma translated_presentable: "presentable anthropic body (translateErrorBytes body anthropic)"
proof -
  obtain atype aerr amsg abad where a: "unmarshal ([], [], []) dec_anthropic_error body = ((atype, aerr, amsg), abad)"
    by (metis surj_pair)
  obtain omsg otype ocode obad where o: "unmarshal ([], [], []) dec_openai_error body = ((omsg, otype, ocode), obad)"
    by (metis surj_pair)
  show ?thesis
    by (cases anthropic) (simp_all add: presentable_def translateErrorBytes_def error_in_def own_error_def a o)
qed

text \<open>A row that costs what another does: nothing has priced it in between.\<close>

definition same_cost :: "RequestLog \<Rightarrow> RequestLog \<Rightarrow> bool" where
  "same_cost entry row \<longleftrightarrow> CostNanoUSD row = CostNanoUSD entry \<and> Cost row = Cost entry"

definition refused :: "call_env \<Rightarrow> RequestLog \<Rightarrow> outcome \<Rightarrow> bool" where
  "refused e entry out \<longleftrightarrow> (\<forall>row \<in> set (o_Rows out). \<not> successful row \<and> same_cost entry row) \<and>
     (case o_Reply out of
        ErrorReply code body \<Rightarrow> 400 \<le> code \<and>
          (\<exists>errType msg. body = own_error (isAnthropicRequest (Some (c_Request e))) errType msg)
      | UpstreamError code retryAfter b \<Rightarrow> 400 \<le> code \<and>
          (\<exists>n req a. exchange e n req = Answered a \<and> code = ua_Status a \<and> retryAfter = ua_RetryAfter a \<and>
             presentable (isAnthropicRequest (Some (c_Request e))) (ua_Body a) b)
      | _ \<Rightarrow> False)"

named_theorems refusals "outcomes that are failures"

lemma logAndWriteError_refused [refusals]: "400 \<le> code \<Longrightarrow> refused e entry (logAndWriteError e aff sent code msg t entry)"
  by (auto simp: refused_def logAndWriteError_def writeError_def own_error_def requestFailureStatus_def successful_def
      same_cost_def Let_def)

lemma logFailedUpstream_refused [refusals]:
  "exchange e n req = Answered a \<Longrightarrow> 400 \<le> ua_Status a \<Longrightarrow> refused e entry (logFailedUpstream e aff sent a entry)"
  using translated_presentable by (fastforce simp: refused_def logFailedUpstream_def successful_def same_cost_def)

text \<open>Every answer to an attempt has an error status.\<close>

definition upstream_fails :: "call_env \<Rightarrow> bool" where
  "upstream_fails e \<longleftrightarrow> (\<forall>n req a. exchange e n req = Answered a \<longrightarrow> 400 \<le> ua_Status a)"

lemma send_once_refused [refusals]: "upstream_fails e \<Longrightarrow> refused e entry (send_once g e lost req entry k)"
  by (auto simp: send_once_def upstream_fails_def intro: refusals split: upstream_result.split)

lemma openai_answer_refused [refusals]:
  "exchange e n req = Answered a \<Longrightarrow> 400 \<le> ua_Status a \<Longrightarrow> refused e entry (openai_answer g e m p entry scope stream aff sent a)"
  by (auto simp: openai_answer_def intro: refusals)

lemma refused_unpriced: "same_cost entry entry' \<Longrightarrow> refused e entry' out \<Longrightarrow> refused e entry out"
  by (auto simp: refused_def same_cost_def)

lemma upstream_bodies_cost:
  "openai_upstream_body g e m p entry b = (b', entry', scope) \<Longrightarrow> same_cost entry entry'"
  "same_cost entry (snd (anthropic_upstream_body m p entry b))" "same_cost entry (snd (translated_openai_body g m p entry b))"
  by (auto simp: openai_upstream_body_def anthropic_upstream_body_def translated_openai_body_def with_thinking_def same_cost_def
      Let_def split_beta)

lemma openai_openai_refused:
  assumes "upstream_fails e"
  shows "refused e entry (proxyOpenAIToOpenAI g e origBody m p entry)"
proof (cases "\<exists>b. unmarshal_map origBody = (Some b, False)")
  case True
  then obtain b where b: "unmarshal_map origBody = (Some b, False)" by blast
  obtain b' entry' scope where u: "openai_upstream_body g e m p entry b = (b', entry', scope)" by (metis prod_cases3)
  have f: "400 \<le> ua_Status a" if "exchange e n req = Answered a" for n req a using assms that by (auto simp: upstream_fails_def)
  show ?thesis
    by (rule refused_unpriced [OF upstream_bodies_cost(1) [OF u]])
      (auto simp: proxyOpenAIToOpenAI_def b u Let_def intro!: refusals dest: f split: upstream_result.split)
next
  case False
  then show ?thesis
    by (auto simp: proxyOpenAIToOpenAI_def intro!: logAndWriteError_refused split: prod.split option.split bool.split)
qed

lemma calls_refused:
  assumes "upstream_fails e"
  shows "refused e entry (proxyOpenAIToOpenAI g e origBody m p entry)" "refused e entry (proxyOpenAIToAnthropic g e oq m p entry)"
    "refused e entry (proxyAnthropicToOpenAI g e aq m p entry)" "refused e entry (proxyAnthropicToAnthropic g e origBody aq m p entry)"
proof -
  show "refused e entry (proxyOpenAIToOpenAI g e origBody m p entry)" by (rule openai_openai_refused [OF assms])
  show "refused e entry (proxyOpenAIToAnthropic g e oq m p entry)"
    unfolding proxyOpenAIToAnthropic_def Let_def split_beta
    by (rule refused_unpriced [OF upstream_bodies_cost(2) send_once_refused [OF assms]])
  show "refused e entry (proxyAnthropicToOpenAI g e aq m p entry)"
    unfolding proxyAnthropicToOpenAI_def Let_def split_beta
    by (rule refused_unpriced [OF upstream_bodies_cost(3) send_once_refused [OF assms]])
  have sent: "refused e entry (send_once g e lost req (snd (anthropic_upstream_body m p entry b)) k)" for lost req b k
    by (rule refused_unpriced [OF upstream_bodies_cost(2) send_once_refused [OF assms]])
  show "refused e entry (proxyAnthropicToAnthropic g e origBody aq m p entry)"
    unfolding proxyAnthropicToAnthropic_def Let_def split_beta
    by (auto intro!: sent logAndWriteError_refused split: prod.split option.split bool.split)
qed

text \<open>A row that fails before it is priced is free, with a ceiling or without.\<close>

lemma normalizeRequestLogMoney_zero:
  assumes "normalizeRequestLogMoney row = Inr e" "CostNanoUSD row = 0" "Cost row = FFin 0"
  shows "rl_ID e = rl_ID row" "UserID e = UserID row" "CostNanoUSD e = 0"
  using assms by (auto simp: normalizeRequestLogMoney_def normalize_pair_def ebind_eq_Inr f64_is0_def f64_neg_def split: if_splits)

lemma unpriced_failure_saved:
  assumes "\<not> successful row" "CostNanoUSD row = 0" "Cost row = FFin 0" "\<not> requestLogExists db (rl_ID row)"
  shows "\<exists>db' ob'. saveRequestLog dbnow row (db, ob) = (db', ob') \<and> user_topups db' = user_topups db \<and>
       (ob' = ob \<and> (\<exists>row'. request_logs db' = request_logs db @ [row'] \<and> rl_ID row' = rl_ID row \<and> CostNanoUSD row' = 0) \<or>
        db' = db \<and> ob' = enqueue row ob)"
proof (cases "0 < ChargeCeilingNanoUSD row")
  case True
  show ?thesis
  proof (cases "SettleUsageAndLog db dbnow row")
    case (Inr db')
    with True failed_settles_free [OF Inr assms(4,1)] show ?thesis
      by (intro exI [of _ db'] exI [of _ ob]) (simp add: saveRequestLog_def)
  qed (use True in \<open>simp add: saveRequestLog_def\<close>)
next
  case False
  show ?thesis
  proof (cases "InsertRequestLog db row")
    case (Inr db')
    obtain e where e: "normalizeRequestLogMoney row = Inr e" "insertRequestLog db e = Inr db'"
      using Inr by (auto simp: InsertRequestLog_def ebind_eq_Inr)
    note n = normalizeRequestLogMoney_zero [OF e(1) assms(2,3)]
    have "\<not> requestLogExists db (rl_ID e)" using assms(4) n by simp
    note i = insertRequestLog_InrD [OF e(2) this]
    show ?thesis using Inr False i n by (intro exI [of _ db'] exI [of _ ob]) (simp add: saveRequestLog_def)
  qed (use False in \<open>simp add: saveRequestLog_def\<close>)
qed

section \<open>Properties\<close>


text \<open>C3: A generation is settled once. Whichever pair of protocols a call translates between, and whether
  the upstream cannot be reached, fails, rejects a route, streams, breaks off or answers, it saves
  one row. If the request is new and its ceiling positive, the row costs between zero and the ceiling
  of the admission or is queued with it, and saving the rows of a replay of the request afterwards
  changes nothing. A ceiling of zero is no limit: such a row is inserted at its price.\<close>

theorem forwarding_settled_once:
  assumes "0 < ChargeCeilingNanoUSD entry" "\<not> requestLogExists db (rl_ID entry)"
    and "out \<in> {proxyOpenAIToOpenAI g e origBody m p entry, proxyOpenAIToAnthropic g e oq m p entry,
                proxyAnthropicToOpenAI g e aq m p entry, proxyAnthropicToAnthropic g e origBody aq m p entry}"
  shows "length (o_Rows out) = 1 \<and>
    ((\<exists>db' row. fold (saveRequestLog dbnow) (o_Rows out) (db, ob) = (db', ob) \<and>
        request_logs db' = request_logs db @ [row] \<and> rl_ID row = rl_ID entry \<and> 0 \<le> CostNanoUSD row \<and>
        CostNanoUSD row \<le> ChargeCeilingNanoUSD entry) \<or>
     (\<exists>row. fold (saveRequestLog dbnow) (o_Rows out) (db, ob) = (db, enqueue row ob) \<and>
        rl_ID row = rl_ID entry \<and> ChargeCeilingNanoUSD row = ChargeCeilingNanoUSD entry)) \<and>
    (\<forall>db2. requestLogExists db2 (rl_ID entry) \<longrightarrow>
       fst (fold (saveRequestLog dbnow) (o_Rows out) (db2, ob)) = db2)"
proof -
  have one: "one_row entry out"
    using assms(3) by (auto intro: openai_openai.one openai_anthropic.one anthropic_openai.one anthropic_anthropic.one)
  have charged: "charged_within dbnow (o_Rows out) entry True db ob"
    using assms by (auto intro: openai_openai.charged openai_anthropic.charged anthropic_openai.charged anthropic_anthropic.charged)
  have again: "fst (fold (saveRequestLog dbnow) (o_Rows out) (db2, ob)) = db2" if "requestLogExists db2 (rl_ID entry)" for db2
    using assms(1,3) that
    by (auto simp: openai_openai.charged_again openai_anthropic.charged_again anthropic_openai.charged_again
        anthropic_anthropic.charged_again)
  show ?thesis using one charged again by (auto simp: one_row_def charged_within_def)
qed

text \<open>C6: A failure of the upstream costs nothing and shows nothing of the upstream. When every answer to an
  attempt has an error status (400 and above, or there is none at all), whichever pair of protocols the
  call translates between, the client gets an error status. The body is an error in its own protocol,
  which says what the gateway could not do, what the upstream reported, or that it reported nothing
  recognisable, and never a payload that is not an error of that protocol; it is empty if the upstream's
  was. The row of a new request that has not been priced costs nothing and no top-up is drawn, whatever
  its ceiling.\<close>

theorem upstream_failure_free:
  assumes "upstream_fails e" "CostNanoUSD entry = 0" "Cost entry = FFin 0" "\<not> requestLogExists db (rl_ID entry)"
    and "out \<in> {proxyOpenAIToOpenAI g e origBody m p entry, proxyOpenAIToAnthropic g e oq m p entry,
                proxyAnthropicToOpenAI g e aq m p entry, proxyAnthropicToAnthropic g e origBody aq m p entry}"
  shows "(case o_Reply out of
        ErrorReply code body \<Rightarrow> 400 \<le> code \<and>
          (\<exists>errType msg. body = (if isAnthropicRequest (Some (c_Request e)) then anthropic_error errType msg
                                else openai_error errType msg))
      | UpstreamError code retryAfter b \<Rightarrow> 400 \<le> code \<and>
          (\<exists>n req a. exchange e n req = Answered a \<and> code = ua_Status a \<and> retryAfter = ua_RetryAfter a \<and>
             presentable (isAnthropicRequest (Some (c_Request e))) (ua_Body a) b)
      | _ \<Rightarrow> False) \<and>
    (\<exists>db' ob'. fold (saveRequestLog dbnow) (o_Rows out) (db, ob) = (db', ob') \<and> user_topups db' = user_topups db \<and>
       (ob' = ob \<and> (\<exists>row. request_logs db' = request_logs db @ [row] \<and> rl_ID row = rl_ID entry \<and> CostNanoUSD row = 0) \<or>
        db' = db \<and> (\<exists>row. ob' = enqueue row ob \<and> rl_ID row = rl_ID entry \<and> \<not> successful row)))"
proof -
  have refused: "refused e entry out" using calls_refused [OF assms(1)] assms(5) by auto
  have "one_row entry out"
    using assms(5) by (auto intro: openai_openai.one openai_anthropic.one anthropic_openai.one anthropic_anthropic.one)
  then obtain row where row: "o_Rows out = [row]" "row_of entry row" by (auto simp: one_row_def)
  have failed: "\<not> successful row" "CostNanoUSD row = 0" "Cost row = FFin 0" "\<not> requestLogExists db (rl_ID row)"
    using refused row assms(2-4) by (simp_all add: refused_def same_cost_def row_of_def)
  have "\<exists>db' ob'. saveRequestLog dbnow row (db, ob) = (db', ob') \<and> user_topups db' = user_topups db \<and>
       (ob' = ob \<and> (\<exists>row. request_logs db' = request_logs db @ [row] \<and> rl_ID row = rl_ID entry \<and> CostNanoUSD row = 0) \<or>
        db' = db \<and> (\<exists>row. ob' = enqueue row ob \<and> rl_ID row = rl_ID entry \<and> \<not> successful row))"
    using unpriced_failure_saved [OF failed, of dbnow ob] row(2) failed(1) by (fastforce simp: row_of_def)
  then show ?thesis using refused row(1)
    by (cases "o_Reply out"; cases "isAnthropicRequest (Some (c_Request e))") (simp_all add: refused_def own_error_def)
qed

section \<open>A concrete call\<close>

definition plain_gateway :: gateway where
  "plain_gateway = \<lparr> snapshot_text = (\<lambda>s. fst s), address_of = (\<lambda>n. n), describe_error = (\<lambda>e. ''error''),
     show_value = (\<lambda>v. []), marshal_value = (\<lambda>v. ''{}''), sha_hex = (\<lambda>s. s), contract_hex = plain_dg,
     hmac = (\<lambda>k s. k @ s), url_ok = (\<lambda>s. True), identitySecret = ''k'', pdf_setting = [] \<rparr>"

text \<open>An upstream that cannot be reached.\<close>

definition plain_env :: call_env where
  "plain_env = \<lparr> c_Request = chat_request, c_Err = None, c_PricedAt = 60, c_Fresh = ''f'', c_Created = 0, c_Latency = 5,
     exchange = (\<lambda>n req. Unreachable ''refused''), c_Affinity = None, c_AffinityFails = False \<rparr>"

definition hello_body :: string where
  "hello_body = ''{\"model\":\"m\",\"user\":\"alice\",\"stop\":\"7\"}''"

lemma hello_body_decoded:
  "unmarshal_map hello_body = (Some [(''model'', JStr ''m''), (''user'', JStr ''alice''), (''stop'', JStr ''7'')], False)"
proof -
  have "parse_json hello_body = Some (RObj [(''model'', RStr ''m''), (''user'', RStr ''alice''), (''stop'', RStr ''7'')])" by code_simp
  then show ?thesis by (simp add: unmarshal_map_def obj_set_def obj_del_def)
qed

lemma plain_call_sent:
  "\<exists>req. o_Sent (proxyOpenAIToOpenAI plain_gateway plain_env hello_body plain_model example_provider example_entry) = [req]"
  by (simp add: proxyOpenAIToOpenAI_def hello_body_decoded plain_gateway_def plain_env_def logAndWriteError_def Let_def
      split: prod.split)


theorem forwarding_settled_once_witness:
  "length (o_Rows (proxyOpenAIToOpenAI plain_gateway plain_env hello_body plain_model example_provider example_entry)) = 1"
proof -
  have "0 < ChargeCeilingNanoUSD example_entry" "\<not> requestLogExists example_store (rl_ID example_entry)"
    by (simp_all add: example_entry_def example_log_def requestLogExists_def example_store_def)
  from forwarding_settled_once [OF this insertI1] show ?thesis by blast
qed

definition failing_env :: call_env where
  "failing_env = plain_env \<lparr> exchange := (\<lambda>n req. Answered \<lparr> ua_Status = 503, ua_RetryAfter = ''9'', ua_Body = ''down'',
     ua_BodyLost = False, ua_Stream = example_stream \<rparr>) \<rparr>"

theorem upstream_failure_free_witness:
  "\<forall>ob. \<exists>db' ob'. fold (saveRequestLog 60)
      (o_Rows (proxyOpenAIToOpenAI plain_gateway failing_env hello_body plain_model example_provider example_entry))
      (example_store, ob) = (db', ob') \<and> user_topups db' = user_topups example_store"
proof
  fix ob
  have "upstream_fails failing_env" "CostNanoUSD example_entry = 0" "Cost example_entry = FFin 0" "\<not> requestLogExists example_store (rl_ID example_entry)"
    by (simp_all add: upstream_fails_def failing_env_def example_entry_def example_log_def requestLogExists_def example_store_def)
  from upstream_failure_free [OF this insertI1, where dbnow = 60 and ob = ob] show "\<exists>db' ob'. fold (saveRequestLog 60)
      (o_Rows (proxyOpenAIToOpenAI plain_gateway failing_env hello_body plain_model example_provider example_entry))
      (example_store, ob) = (db', ob') \<and> user_topups db' = user_topups example_store" by blast
qed

end
