(* ===== verification/Entry.thy ===== *)
theory Entry
  imports Proxy Access Guard ModelStore
begin

text \<open>
  What both clients go through before a request is forwarded (src/proxy/handler.go, priceclock.go):
  the pinned instant, the model and provider the request resolves to, the rate limit, the lease of
  the generation, the quote against the budget, and the row a refusal leaves. The environment of an
  arrival says what the clock, Redis, the lease and failing queries answer.
\<close>

section \<open>State and environment\<close>

record server =
  sv_Limiter :: RateLimiter
  sv_Store :: store
  sv_Models :: model_store
  sv_Providers :: providers

text \<open>\<open>av_Polls\<close> are the outcomes of the polls for the lease until the context ends, \<open>av_Gcm\<close> the cipher
  of the provider keys; the texts are those of \<open>err.Error()\<close>.\<close>

record arrival =
  av_Call :: call_env
  av_Fresh :: string
  av_Now :: instant
  av_DbNow :: instant
  av_RedisUp :: bool
  av_Polls :: "(limit_error + bool) list"
  av_ModelLost :: bool
  av_ProviderLost :: bool
  av_Gcm :: "aead option"
  av_JsonText :: "string \<Rightarrow> string"
  av_LimitText :: "limit_error \<Rightarrow> string"
  av_ContextText :: string
  av_BudgetText :: "admission_error \<Rightarrow> string"

type_synonym header_list = "(string \<times> string) list"

text \<open>What a request leaves: the answer, the headers set on it, the limiter, the rows handed to the
  store, and the lease it held (scope and request) until it returned.\<close>

record served =
  sd_Reply :: "outcome reply"
  sd_Headers :: header_list
  sd_Limiter :: RateLimiter
  sd_Rows :: "RequestLog list"
  sd_Held :: "(string \<times> string) option"

abbreviation av_Request :: "arrival \<Rightarrow> request" where
  "av_Request v \<equiv> c_Request (av_Call v)"

text \<open>The instant a request is priced at: the one pinned on its context, or now.\<close>

definition pinPricedAt :: "instant option \<Rightarrow> instant \<Rightarrow> instant option" where
  "pinPricedAt pin now = (case pin of Some t \<Rightarrow> Some t | None \<Rightarrow> Some now)"

definition pricedAtFrom :: "instant option \<Rightarrow> instant \<Rightarrow> instant" where
  "pricedAtFrom pin now = (case pin of Some t \<Rightarrow> t | None \<Rightarrow> now)"

definition stop ::
  "header_list \<Rightarrow> RateLimiter \<Rightarrow> RequestLog list \<Rightarrow> (string \<times> string) option \<Rightarrow> outcome reply \<Rightarrow> served" where
  "stop hs rl rows lease reply =
     \<lparr> sd_Reply = reply, sd_Headers = hs, sd_Limiter = rl, sd_Rows = rows, sd_Held = lease \<rparr>"

section \<open>Refusals\<close>

definition quoted :: "string \<Rightarrow> string" where
  "quoted s = [CHR 0x27] @ s @ [CHR 0x27]"

definition internalErrorResponse :: "'h reply" where
  "internalErrorResponse = Refuse 500 ''Internal server error'' ''api_error'' ''''"

definition rejectDeprecatedRouterModel :: "string \<Rightarrow> 'h reply" where
  "rejectDeprecatedRouterModel requested =
     Refuse 400 (''Model '' @ quoted requested @ '' is no longer supported. The automatic model router was removed: '' @
       ''select a concrete model for the session (e.g. via /model) and send its exact name as the '' @
       ''`model` parameter. See the MuhiyaCode single-model migration guide.'') ''invalid_request_error'' ''''"

definition budget_refused :: "admission_error \<Rightarrow> bool" where
  "budget_refused e \<longleftrightarrow> (case e of BudgetExceededError r a \<Rightarrow> True | AdmBudget ErrNoBudgetWindow \<Rightarrow> True | _ \<Rightarrow> False)"

definition writeBudgetError :: "string \<Rightarrow> admission_error \<Rightarrow> 'h reply" where
  "writeBudgetError msg e = (if budget_refused e then Refuse 402 msg ''budget_exceeded'' '''' else serviceUnavailable)"

text \<open>A \<open>RequestLog\<close> literal with no field set.\<close>

definition zero_log :: RequestLog where
  "zero_log = \<lparr> rl_ID = [], UserID = [], AttemptNumber = 0, ModelID = [], ProviderID = [], StatusCode = 0,
     RequestStatus = [], Cost = FFin 0, CostNanoUSD = 0, ChargeCeilingNanoUSD = 0, ErrorMessage = [],
     UsageEstimated = False, UpstreamProvider = [], BudgetWindowID = [], BudgetWindowStartedAt = None,
     BudgetWindowResetAt = None, rl_CreatedAt = zero_time,
     Origin = \<lparr> VirtualKeyID = [], OwnerName = [], SessionID = [], ClientRequestID = [], RequestPath = [],
       ClientApp = [], RequestedModel = [], Complexity = [], ThinkingLevel = [] \<rparr>,
     Meter = \<lparr> Streamed = False, CacheEpoch = 0, lm_InputTokens = 0, lm_OutputTokens = 0, lm_CacheReadTokens = 0,
       lm_CacheWriteTokens = 0, CacheMissTokens = None, ReasoningTokens = None, FirstTokenMS = None, LatencyMS = 0,
       FailoverAttempts = 0 \<rparr>,
     Pricing = \<lparr> PricingRuleSetID = [], PricingTierThreshold = None, PriceWindowID = [], PriceMultiplierNum = 0,
       PriceMultiplierDen = 0, lp_PricedAt = None, lp_PromptAccounting = [], PricingLines = [], UsageAnomaly = [],
       UpstreamCostNanoUSD = None \<rparr> \<rparr>"

record admissionFailure =
  af_Model :: Model
  af_Provider :: Provider
  af_RequestID :: string
  af_RequestedModel :: string
  af_InputTokens :: int
  af_Status :: int
  af_Error :: string
  af_Budget :: BudgetAvailability

text \<open>The row of a request that was not admitted, which \<open>saveRequestLog\<close> is given.\<close>

definition saveAdmissionFailure :: "gateway \<Rightarrow> arrival \<Rightarrow> VirtualKey \<Rightarrow> admissionFailure \<Rightarrow> RequestLog" where
  "saveAdmissionFailure g v key failure =
     (let r = av_Request v;
          correlation = requestCorrelationFor (sha_hex g) (av_Fresh v) r (vk_ID key);
          entry = zero_log \<lparr> ModelID := m_ID (af_Model failure), ProviderID := pd_ID (af_Provider failure),
            StatusCode := af_Status failure, ErrorMessage := af_Error failure, rl_CreatedAt := av_Now v,
            Origin := (Origin zero_log) \<lparr> RequestPath := rq_Path r, ClientApp := getClientAppName (Some r),
              RequestedModel := af_RequestedModel failure, Complexity := ''admission'' \<rparr>,
            Meter := (Meter zero_log) \<lparr> lm_InputTokens := af_InputTokens failure \<rparr> \<rparr>;
          correlation = (if af_RequestID failure \<noteq> [] then correlation \<lparr> LogID := af_RequestID failure \<rparr> else correlation)
      in applyBudgetWindow (applyRequestContext entry r key correlation) (af_Budget failure))"

section \<open>The target\<close>

text \<open>The headers that tell a client which record it was resolved to, or to refresh its catalogue.\<close>

definition resolution_headers :: "resolution \<Rightarrow> header_list" where
  "resolution_headers res =
     (case res of
        InvalidRecord \<Rightarrow> []
      | Mismatch msg \<Rightarrow> [(''X-Muhiya-Refresh-Catalog'', ''true'')]
      | Resolved record_id target family epoch price \<Rightarrow>
          [(''X-Muhiya-Resolved-Model-Record'', record_id), (''X-Muhiya-Resolved-Target-Model'', target),
           (''X-Muhiya-Resolved-Provider-Family'', family), (''X-Muhiya-Compatibility-Epoch'', show_int epoch)] @
          (case price of None \<Rightarrow> [] | Some i \<Rightarrow> [(''X-Muhiya-Price-Snapshot'', i)]))"

definition resolve_target ::
  "gateway \<Rightarrow> arrival \<Rightarrow> server \<Rightarrow> string \<Rightarrow> (header_list \<times> outcome reply) + (header_list \<times> Model \<times> Provider)" where
  "resolve_target g v sv name =
     (if name = routerModelDeprecated then Inl ([], rejectDeprecatedRouterModel name)
      else if av_ModelLost v then Inl ([], internalErrorResponse)
      else
        (case GetModelByName (sv_Models sv) name of
           None \<Rightarrow> Inl ([], Refuse 404 (''Model '' @ quoted name @ '' not found or inactive'') ''invalid_request_error'' '''')
         | Some m \<Rightarrow>
             (let res = establishModelResolution (contract_hex g) (snapshot_text g) (address_of g) (av_Request v) m;
                  hs = resolution_headers res
              in case res of
                   InvalidRecord \<Rightarrow> Inl (hs, internalErrorResponse)
                 | Mismatch msg \<Rightarrow> Inl (hs, Refuse 409 msg ''model_resolution_mismatch'' '''')
                 | Resolved _ _ _ _ _ \<Rightarrow>
                     if av_ProviderLost v then Inl (hs, internalErrorResponse)
                     else
                       (case GetProvider (av_Gcm v) (sv_Providers sv) (m_ProviderID m) of
                          None \<Rightarrow> Inl (hs, Refuse 503 (''Provider for model '' @ quoted (m_Name m) @ '' is unavailable'')
                            ''api_error'' '''')
                        | Some p \<Rightarrow>
                            if pd_Status p \<noteq> ''active''
                            then Inl (hs, Refuse 503 (''Provider for model '' @ quoted (m_Name m) @ '' is unavailable'')
                              ''api_error'' '''')
                            else Inr (hs, m, p)))))"

text \<open>The address of a provider and its protocol (true for Anthropic).\<close>

definition provider_target :: "Provider \<Rightarrow> (Provider \<times> bool) option" where
  "provider_target p =
     (if BaseURL p \<noteq> [] then Some (p, False)
      else if AnthropicBaseURL p \<noteq> [] then Some (p \<lparr> BaseURL := AnthropicBaseURL p \<rparr>, True)
      else None)"

definition thinkingWillBeEnabled :: "Model option \<Rightarrow> string \<Rightarrow> bool" where
  "thinkingWillBeEnabled model thinkingLevel =
     (case model of
        None \<Rightarrow> False
      | Some m \<Rightarrow> SupportsThinking (m_Media m) \<and> NormalizeThinkingLevel thinkingLevel \<noteq> ''minimal'')"

text \<open>\<open>None\<close> is a body that is not an object; the callers have refused \<open>null\<close>, which names no model.\<close>

definition rewriteOpenAIOutputLimit :: "(json \<Rightarrow> string) \<Rightarrow> string \<Rightarrow> int \<Rightarrow> string option" where
  "rewriteOpenAIOutputLimit marshal raw limit =
     (case unmarshal_map raw of
        (Some payload, False) \<Rightarrow>
          Some (marshal (JObj
            (if obj_get payload ''max_completion_tokens'' \<noteq> None
             then obj_del (obj_set payload ''max_completion_tokens'' (json_int limit)) ''max_tokens''
             else obj_set payload ''max_tokens'' (json_int limit))))
      | _ \<Rightarrow> None)"

section \<open>Admission\<close>

text \<open>What is asked of the gateway: the model and provider, the name the client used, its body, the
  prompt estimate, the tokens the rate limit counts and the output the quote is for.\<close>

record demand =
  dm_Model :: Model
  dm_Provider :: Provider
  dm_Name :: string
  dm_Body :: string
  dm_Prompt :: int
  dm_LimitTokens :: int
  dm_Output :: int

definition quote_request :: "arrival \<Rightarrow> VirtualKey \<Rightarrow> demand \<Rightarrow> generationQuoteRequest" where
  "quote_request v key d =
     \<lparr> gq_userID = vk_UserID key, gq_model = Some (dm_Model d),
       gq_inputUpperBound = conservativeInputTokenBound (dm_Body d) (dm_Prompt d) (Some (dm_Model d)),
       gq_requestedOutput = dm_Output d, gq_pricedAt = c_PricedAt (av_Call v) \<rparr>"

definition failure_row ::
  "gateway \<Rightarrow> arrival \<Rightarrow> VirtualKey \<Rightarrow> demand \<Rightarrow> int \<Rightarrow> string \<Rightarrow> BudgetAvailability \<Rightarrow> RequestLog" where
  "failure_row g v key d code msg budget =
     saveAdmissionFailure g v key
       \<lparr> af_Model = dm_Model d, af_Provider = dm_Provider d,
         af_RequestID = LogID (requestCorrelationFor (sha_hex g) (av_Fresh v) (av_Request v) (vk_ID key)),
         af_RequestedModel = dm_Name d, af_InputTokens = dm_Prompt d, af_Status = code, af_Error = msg,
         af_Budget = budget \<rparr>"

text \<open>An admission: the limiter, the lease, the provider to call and its protocol, the output allowed,
  the ceiling and the budget. \<open>None\<close> is a quote search that never returns.\<close>

type_synonym admitted = "RateLimiter \<times> (string \<times> string) \<times> (Provider \<times> bool) \<times> int \<times> nano_usd \<times> BudgetAvailability"

definition admit_generation ::
  "gateway \<Rightarrow> arrival \<Rightarrow> server \<Rightarrow> header_list \<Rightarrow> VirtualKey \<Rightarrow> demand \<Rightarrow> (served + admitted) option" where
  "admit_generation g v sv hs key d =
     (let r = av_Request v;
          requestID = LogID (requestCorrelationFor (sha_hex g) (av_Fresh v) r (vk_ID key));
          scope = generationScope r (vk_UserID key) requestID
      in case CheckLimit (sv_Limiter sv) (sv_Store sv) (av_RedisUp v) (av_DbNow v) (av_Now v) (vk_ID key) (vk_UserID key)
                (dm_LimitTokens d) of
           (Some e, rl) \<Rightarrow>
             Some (Inl (stop hs rl [failure_row g v key d 429 (av_LimitText v e) no_availability] None
               (writeLimitError (KindOf e) (av_LimitText v e))))
         | (None, rl) \<Rightarrow>
             (case AcquireGeneration rl (av_Polls v) of
                AcquireFailed e \<Rightarrow>
                  Some (Inl (stop hs rl [failure_row g v key d 503 (av_LimitText v e) no_availability] None serviceUnavailable))
              | Cancelled \<Rightarrow>
                  Some (Inl (stop hs rl [failure_row g v key d 503 (av_ContextText v) no_availability] None serviceUnavailable))
              | Acquired \<Rightarrow>
                  (case provider_target (dm_Provider d) of
                     None \<Rightarrow>
                       Some (Inl (stop hs rl [] (Some (scope, requestID))
                         (Refuse 503 (''Provider '' @ quoted (pd_ID (dm_Provider d)) @ '' has no base URL'') ''api_error'' '''')))
                   | Some target \<Rightarrow>
                       (case affordableGeneration (snapshot_text g) (address_of g) (sv_Store sv) (av_DbNow v) (av_Now v)
                               (quote_request v key d) of
                          None \<Rightarrow> None
                        | Some (Inl (e, budget)) \<Rightarrow>
                            Some (Inl (stop hs rl [failure_row g v key d (budgetErrorStatus e) (av_BudgetText v e) budget]
                              (Some (scope, requestID)) (writeBudgetError (av_BudgetText v e) e)))
                        | Some (Inr (allowed, climit, budget)) \<Rightarrow>
                            Some (Inr (rl, (scope, requestID), target, allowed, climit, budget))))))"

text \<open>The row of an admitted request before it is forwarded.\<close>

definition admitted_entry ::
  "gateway \<Rightarrow> arrival \<Rightarrow> VirtualKey \<Rightarrow> demand \<Rightarrow> string \<Rightarrow> bool \<Rightarrow> nano_usd \<Rightarrow> BudgetAvailability \<Rightarrow> RequestLog" where
  "admitted_entry g v key d thinkingLevel streamed climit budget =
     (let r = av_Request v
      in applyBudgetWindow
           (applyRequestContext
              (zero_log \<lparr> ModelID := m_ID (dm_Model d), ProviderID := pd_ID (dm_Provider d),
                 ChargeCeilingNanoUSD := climit, rl_CreatedAt := av_Now v,
                 Origin := (Origin zero_log) \<lparr> RequestPath := rq_Path r, ClientApp := getClientAppName (Some r),
                   RequestedModel := dm_Name d, Complexity := ''direct'', ThinkingLevel := thinkingLevel \<rparr>,
                 Meter := (Meter zero_log) \<lparr> lm_InputTokens := dm_Prompt d, Streamed := streamed \<rparr> \<rparr>)
              r key (requestCorrelationFor (sha_hex g) (av_Fresh v) r (vk_ID key)))
           budget)"

end
