(* ===== verification/WebSearch.thy ===== *)
theory WebSearch
  imports Stream Limiter Access
begin

text \<open>
  The gateway's own tool (src/proxy/tools.go, websearch.go, and \<open>handleCapabilities\<close> and
  \<open>handleGatewayWebSearch\<close> of handler.go): the settings it is configured by (src/db/db.go), its
  schema, the arguments a model passes, the three search services in the order they are tried, and
  the text the model is given. A service is what its HTTP exchange answers; \<open>quote\<close> is the verb %q.
\<close>

section \<open>Settings\<close>

type_synonym settings = "(string \<times> string) list"

definition GetSetting :: "settings \<Rightarrow> string \<Rightarrow> string" where
  "GetSetting t key = (case map_of t key of Some v \<Rightarrow> v | None \<Rightarrow> [])"

definition SetSetting :: "settings \<Rightarrow> string \<Rightarrow> string \<Rightarrow> settings" where
  "SetSetting t key value = AList.update key value t"

definition ListSettings :: "settings \<Rightarrow> settings" where
  "ListSettings t = t"

record ToolSettings =
  TavilyAPIKey :: string
  SerperAPIKey :: string
  DDGFallback :: bool

fun firstNonEmpty :: "string list \<Rightarrow> string" where
  "firstNonEmpty [] = []"
| "firstNonEmpty (value # values) = (if TrimSpace value \<noteq> [] then TrimSpace value else firstNonEmpty values)"

definition isFalsey :: "string \<Rightarrow> bool" where
  "isFalsey v \<longleftrightarrow> ToLower (TrimSpace v) \<in> {''false'', ''0'', ''off'', ''no'', ''disabled''}"

text \<open>\<open>query\<close> reads a setting, empty when there is no database or the query fails; \<open>env\<close> is \<open>os.Getenv\<close>.\<close>

definition LoadToolSettings :: "(string \<Rightarrow> string) \<Rightarrow> (string \<Rightarrow> string) \<Rightarrow> ToolSettings" where
  "LoadToolSettings query env =
     (let get = (\<lambda>k. TrimSpace (query k))
      in \<lparr> TavilyAPIKey = firstNonEmpty [get ''tavily_api_key'', TrimSpace (env ''TAVILY_API_KEY'')],
           SerperAPIKey = firstNonEmpty [get ''serper_api_key'', TrimSpace (env ''SERPER_API_KEY'')],
           DDGFallback = (\<not> isFalsey (firstNonEmpty [get ''web_search_ddg_fallback'', TrimSpace (env ''WEB_SEARCH_DDG_FALLBACK'')])) \<rparr>)"

definition WebSearchEnabled :: "ToolSettings \<Rightarrow> bool" where
  "WebSearchEnabled s \<longleftrightarrow> TavilyAPIKey s \<noteq> [] \<or> SerperAPIKey s \<noteq> [] \<or> DDGFallback s"

definition ToolsEnabled :: "ToolSettings \<Rightarrow> bool" where
  "ToolsEnabled s = WebSearchEnabled s"

definition described :: "string \<Rightarrow> string \<Rightarrow> body \<Rightarrow> json" where
  "described type_name text extra = JObj ([(''type'', JStr type_name)] @ extra @ [(''description'', JStr text)])"

definition BuildToolSchemas :: "ToolSettings \<Rightarrow> OpenAITool list" where
  "BuildToolSchemas s =
     (if WebSearchEnabled s then
        [\<lparr> ot_Type = ''function'', ot_Function = \<lparr> fd_Name = ''web_search'',
           fd_Description = ''Search the live web through the MuhiyaLLM gateway for current or uncertain facts. Returns ranked sources with titles, URLs, snippets, and optional answer text. Use for time-sensitive information and cite returned sources.'',
           Parameters = JObj
             [(''type'', JStr ''object''),
              (''properties'', JObj
                [(''query'', described ''string'' ''The search query. Be specific and include key entities.'' []),
                 (''recency'', described ''string''
                    (''Bias results toward this recency window. Use '' @ [CHR 0x27] @ ''day'' @ [CHR 0x27] @ '' or '' @
                     [CHR 0x27] @ ''week'' @ [CHR 0x27] @ '' for breaking news.'')
                    [(''enum'', JArr (map JStr [''day'', ''week'', ''month'', ''year'', ''any'']))]),
                 (''maxResults'', described ''number'' ''Maximum source count. Defaults to 5.''
                    [(''minimum'', JInt 1), (''maximum'', JInt 10)]),
                 (''topic'', described ''string'' ''Optional topic hint for the search provider.''
                    [(''enum'', JArr (map JStr [''general'', ''news'', ''finance'']))]),
                 (''includeDomains'', described ''array'' ''Optional domains to include or prefer.''
                    [(''items'', JObj [(''type'', JStr ''string'')])]),
                 (''excludeDomains'', described ''array'' ''Optional domains to exclude.''
                    [(''items'', JObj [(''type'', JStr ''string'')])])]),
              (''required'', JArr [JStr ''query''])] \<rparr> \<rparr>]
      else [])"

definition IsNativeTool :: "string \<Rightarrow> bool" where
  "IsNativeTool name \<longleftrightarrow> name = ''web_search''"

section \<open>Arguments\<close>

text \<open>Arguments that are empty or cannot be decoded are an empty map.\<close>

definition parseToolArgs :: "string \<Rightarrow> body" where
  "parseToolArgs raw =
     (let raw = TrimSpace raw
      in if raw = [] then [] else (case fst (unmarshal_map raw) of Some b \<Rightarrow> b | None \<Rightarrow> []))"

definition argString :: "body \<Rightarrow> string \<Rightarrow> string" where
  "argString args key = (case obj_get args key of Some (JStr s) \<Rightarrow> TrimSpace s | _ \<Rightarrow> [])"

text \<open>\<open>fmt.Sscanf(s, "%d")\<close>: a sign and the digits that follow, and no error only if they fit.\<close>

definition scan_decimal :: "string \<Rightarrow> int option" where
  "scan_decimal s =
     (let sign = take 1 s; signed = sign \<in> {''+'', ''-''};
          digits = takeWhile is_digit (if signed then drop 1 s else s)
      in ParseInt ((if signed then sign else []) @ digits))"

definition argInt :: "body \<Rightarrow> string \<Rightarrow> int \<times> bool" where
  "argInt args key =
     (case obj_get args key of
        Some (JNum x) \<Rightarrow> (f64_to_int64 x, True)
      | Some (JInt n) \<Rightarrow> (n, True)
      | Some (JStr s) \<Rightarrow> (case scan_decimal (TrimSpace s) of Some i \<Rightarrow> (i, True) | None \<Rightarrow> (0, False))
      | _ \<Rightarrow> (0, False))"

definition argStringSlice :: "body \<Rightarrow> string \<Rightarrow> string list" where
  "argStringSlice args key =
     (case as_array (obj_get args key) of
        None \<Rightarrow> []
      | Some items \<Rightarrow>
          concat (map (\<lambda>item. case item of JStr s \<Rightarrow> if TrimSpace s \<noteq> [] then [TrimSpace s] else [] | _ \<Rightarrow> []) items))"

record WebSearchRequest =
  ws_Query :: string
  Recency :: string
  MaxResults :: int
  ws_Topic :: string
  IncludeDomains :: "string list"
  ExcludeDomains :: "string list"

definition webSearchRequestFromArgs :: "body \<Rightarrow> WebSearchRequest" where
  "webSearchRequestFromArgs args =
     \<lparr> ws_Query = argString args ''query'', Recency = argString args ''recency'',
       MaxResults = fst (argInt args ''maxResults''), ws_Topic = argString args ''topic'',
       IncludeDomains = argStringSlice args ''includeDomains'', ExcludeDomains = argStringSlice args ''excludeDomains'' \<rparr>"

section \<open>Normalisation\<close>

definition clampSearchResults :: "int \<Rightarrow> string \<Rightarrow> int" where
  "clampSearchResults value complexity =
     (let value = (if value \<le> 0 then (if complexity = ''simple'' then 3 else if complexity = ''medium'' then 5 else 8) else value)
      in if value < 1 then 1 else if value > 10 then 10 else value)"

definition normalizeRecency :: "string \<Rightarrow> string" where
  "normalizeRecency value =
     (let v = ToLower (TrimSpace value) in if v \<in> {''day'', ''week'', ''month'', ''year''} then v else ''any'')"

definition normalizeTopic :: "string \<Rightarrow> string" where
  "normalizeTopic value = (let v = ToLower (TrimSpace value) in if v \<in> {''news'', ''finance''} then v else ''general'')"

definition bare_domain :: "string \<Rightarrow> string" where
  "bare_domain value = TrimSuffix (TrimPrefix (TrimPrefix (TrimSpace (ToLower value)) ''https://'') ''http://'') ''/''"

text \<open>The limit is checked after a domain is taken, so there is always room for one.\<close>

fun clean_loop :: "int \<Rightarrow> string list \<Rightarrow> string list \<Rightarrow> string list" where
  "clean_loop limit [] out = out"
| "clean_loop limit (value # values) out =
     (let d = bare_domain value
      in if d = [] \<or> d \<in> set out then clean_loop limit values out
         else if int (length (out @ [d])) \<ge> limit then out @ [d]
         else clean_loop limit values (out @ [d]))"

definition cleanDomains :: "string list \<Rightarrow> int \<Rightarrow> string list" where
  "cleanDomains values limit = clean_loop limit values []"

definition truncate_text :: "string \<Rightarrow> nat \<Rightarrow> string" where
  "truncate_text s limit =
     (if length s \<le> limit then s
      else if limit \<le> 3 then take limit s
      else take (limit - 3) s @ ''...'')"

text \<open>The part of a query before its first site filter.\<close>

fun before_first :: "string \<Rightarrow> string \<Rightarrow> string option" where
  "before_first sep [] = None"
| "before_first sep (c # cs) =
     (if HasPrefix (ToLower (c # cs)) sep then Some [] else map_option ((#) c) (before_first sep cs))"

definition stripSiteFilters :: "string \<Rightarrow> string" where
  "stripSiteFilters query =
     (case before_first '' (site:'' query of
        Some q \<Rightarrow> TrimSpace q
      | None \<Rightarrow> (case before_first '' site:'' query of Some q \<Rightarrow> TrimSpace q | None \<Rightarrow> query))"

section \<open>Results\<close>

record WebSource =
  src_Index :: int
  src_Title :: string
  src_URL :: string
  Snippet :: string
  PublishedAt :: string
  Score :: f64

record WebSearchResult =
  wr_Query :: string
  Answer :: string
  wr_Provider :: string
  Sources :: "WebSource list"
  wr_Content :: string

definition formatSearchContent :: "(string \<Rightarrow> string) \<Rightarrow> WebSearchResult \<Rightarrow> string" where
  "formatSearchContent quote result =
     TrimSpace
       (''Web search results for '' @ quote (wr_Query result) @ '' (provider: '' @ wr_Provider result @ ''):'' @ [byte 10] @
        (if Answer result \<noteq> [] then ''[Answer] '' @ truncate_text (Answer result) 700 @ [byte 10] else []) @
        concat (map (\<lambda>s.
          ''['' @ show_int (src_Index s) @ ''] '' @ src_Title s @ '' - '' @ src_URL s @ [byte 10] @
          (if PublishedAt s \<noteq> [] then ''Published: '' @ PublishedAt s @ [byte 10] else []) @
          truncate_text (Snippet s) 500 @ [byte 10]) (Sources result)) @
        [byte 10] @ ''Ground your answer in these sources and cite them inline as [n].'')"

definition buildWebSearchResult :: "(string \<Rightarrow> string) \<Rightarrow> string \<Rightarrow> string \<Rightarrow> string \<Rightarrow> WebSource list \<Rightarrow> WebSearchResult" where
  "buildWebSearchResult quote query provider answer sources =
     (let result = \<lparr> wr_Query = query, Answer = TrimSpace answer, wr_Provider = provider, Sources = sources, wr_Content = [] \<rparr>
      in result \<lparr> wr_Content := formatSearchContent quote result \<rparr>)"

text \<open>The loop of every service: take the next entry that gives a source, number it, and stop at the
  limit once it is reached.\<close>

fun collect_sources :: "('e \<Rightarrow> (int \<Rightarrow> WebSource) option) \<Rightarrow> int \<Rightarrow> 'e list \<Rightarrow> WebSource list \<Rightarrow> WebSource list" where
  "collect_sources source limit [] out = out"
| "collect_sources source limit (e # es) out =
     (case source e of
        None \<Rightarrow> collect_sources source limit es out
      | Some numbered \<Rightarrow>
          (let out = out @ [numbered (int (length out) + 1)]
           in if int (length out) \<ge> limit then out else collect_sources source limit es out))"

section \<open>Services\<close>

text \<open>What a tool sends: method, URL, headers and body; and what comes back, a status and the body up to
  the limit it is read to, or nothing.\<close>

record tool_request =
  tr_Method :: string
  tr_URL :: string
  tr_Header :: "(string \<times> string) list"
  tr_Body :: "json option"

type_synonym tool_client = "tool_request \<Rightarrow> (int \<times> string) option"

record tavily_item =
  ti_Title :: string
  ti_URL :: string
  ti_Content :: string
  RawContent :: string
  ti_PublishedAt :: string
  ti_Score :: f64

definition zero_tavily :: tavily_item where
  "zero_tavily = \<lparr> ti_Title = [], ti_URL = [], ti_Content = [], RawContent = [], ti_PublishedAt = [], ti_Score = FFin 0 \<rparr>"

text \<open>Query, answer and results.\<close>

definition tavilyResponse :: "(string \<times> string \<times> tavily_item list) decoder" where
  "tavilyResponse = dec_struct
     [fld ''query'' dec_string fst apfst,
      fld ''answer'' dec_string (\<lambda>p. fst (snd p)) (\<lambda>f. apsnd (apfst f)),
      fld ''results'' (dec_list zero_tavily (dec_struct
        [fld ''title'' dec_string ti_Title ti_Title_update, fld ''url'' dec_string ti_URL ti_URL_update,
         fld ''content'' dec_string ti_Content ti_Content_update, fld ''raw_content'' dec_string RawContent RawContent_update,
         fld ''published_date'' dec_string ti_PublishedAt ti_PublishedAt_update,
         fld ''score'' dec_float ti_Score ti_Score_update])) (\<lambda>p. snd (snd p)) (\<lambda>f. apsnd (apsnd f))]"

definition tavily_source :: "tavily_item \<Rightarrow> (int \<Rightarrow> WebSource) option" where
  "tavily_source item =
     (if TrimSpace (ti_URL item) = [] then None
      else Some (\<lambda>i. \<lparr> src_Index = i, src_Title = TrimSpace (ti_Title item), src_URL = TrimSpace (ti_URL item),
        Snippet = truncate_text (TrimSpace (firstNonEmpty [ti_Content item, RawContent item])) 500,
        PublishedAt = TrimSpace (ti_PublishedAt item), Score = ti_Score item \<rparr>))"

definition json_strings :: "string list \<Rightarrow> json" where
  "json_strings xs = JArr (map JStr xs)"

definition tavily_request :: "ToolSettings \<Rightarrow> WebSearchRequest \<Rightarrow> tool_request" where
  "tavily_request s req =
     \<lparr> tr_Method = ''POST'', tr_URL = ''https://api.tavily.com/search'',
       tr_Header = [(''Authorization'', ''Bearer '' @ TavilyAPIKey s), (''Content-Type'', ''application/json'')],
       tr_Body = Some (JObj
         ([(''query'', JStr (ws_Query req)), (''topic'', JStr (ws_Topic req)), (''search_depth'', JStr ''basic''),
           (''max_results'', JInt (MaxResults req)), (''include_answer'', JBool True), (''include_raw_content'', JBool False)] @
          opt ''time_range'' (Recency req \<noteq> ''any'') (JStr (Recency req)) @
          opt ''include_domains'' (IncludeDomains req \<noteq> []) (json_strings (IncludeDomains req)) @
          opt ''exclude_domains'' (ExcludeDomains req \<noteq> []) (json_strings (ExcludeDomains req)))) \<rparr>"

definition tavilySearch ::
  "(string \<Rightarrow> string) \<Rightarrow> tool_client \<Rightarrow> ToolSettings \<Rightarrow> WebSearchRequest \<Rightarrow> string + WebSearchResult" where
  "tavilySearch quote client s req =
     (case client (tavily_request s req) of
        None \<Rightarrow> Inl ''tavily search provider unreachable''
      | Some (code, raw) \<Rightarrow>
          if code \<ge> 400 then Inl (''tavily returned status '' @ show_int code @ '': '' @ truncate_text raw 240)
          else
            (case unmarshal ([], [], []) tavilyResponse raw of
               ((q, answer, results), bad) \<Rightarrow>
                 if bad then Inl ''could not parse tavily results''
                 else Inr (buildWebSearchResult quote (ws_Query req) ''tavily'' answer
                   (collect_sources tavily_source (MaxResults req) results []))))"

record serper_item =
  si_Title :: string
  Link :: string
  si_Snippet :: string
  si_Date :: string

record serperResponse =
  AnswerBox :: "(string \<times> string) option"
  KnowledgeGraph :: "string option"
  Organic :: "serper_item list"

text \<open>Of the answer box the answer and the snippet are read, of the knowledge graph the description.\<close>

definition dec_serper :: "serperResponse decoder" where
  "dec_serper = dec_struct
     [fld ''answerBox'' (dec_ptr ([], [], [], []) (dec_struct
        [fld ''title'' dec_string fst apfst, fld ''answer'' dec_string (\<lambda>p. fst (snd p)) (\<lambda>f. apsnd (apfst f)),
         fld ''snippet'' dec_string (\<lambda>p. fst (snd (snd p))) (\<lambda>f. apsnd (apsnd (apfst f))),
         fld ''link'' dec_string (\<lambda>p. snd (snd (snd p))) (\<lambda>f. apsnd (apsnd (apsnd f)))]))
        (\<lambda>r. map_option (\<lambda>(a, s). ([], a, s, [])) (AnswerBox r))
        (\<lambda>f r. r \<lparr> AnswerBox := map_option (\<lambda>(t, a, s, l). (a, s)) (f (map_option (\<lambda>(a, s). ([], a, s, [])) (AnswerBox r))) \<rparr>),
      fld ''knowledgeGraph'' (dec_ptr ([], [], [], []) (dec_struct
        [fld ''title'' dec_string fst apfst, fld ''type'' dec_string (\<lambda>p. fst (snd p)) (\<lambda>f. apsnd (apfst f)),
         fld ''description'' dec_string (\<lambda>p. fst (snd (snd p))) (\<lambda>f. apsnd (apsnd (apfst f))),
         fld ''descriptionLink'' dec_string (\<lambda>p. snd (snd (snd p))) (\<lambda>f. apsnd (apsnd (apsnd f)))]))
        (\<lambda>r. map_option (\<lambda>d. ([], [], d, [])) (KnowledgeGraph r))
        (\<lambda>f r. r \<lparr> KnowledgeGraph := map_option (\<lambda>(t, y, d, l). d) (f (map_option (\<lambda>d. ([], [], d, [])) (KnowledgeGraph r))) \<rparr>),
      fld ''organic'' (dec_list \<lparr> si_Title = [], Link = [], si_Snippet = [], si_Date = [] \<rparr> (dec_struct
        [fld ''title'' dec_string si_Title si_Title_update, fld ''link'' dec_string Link Link_update,
         fld ''snippet'' dec_string si_Snippet si_Snippet_update, fld ''date'' dec_string si_Date si_Date_update]))
        Organic Organic_update]"

definition serper_source :: "serper_item \<Rightarrow> (int \<Rightarrow> WebSource) option" where
  "serper_source item =
     (if Link item = [] then None
      else Some (\<lambda>i. \<lparr> src_Index = i, src_Title = TrimSpace (si_Title item), src_URL = TrimSpace (Link item),
        Snippet = (if si_Date item \<noteq> [] then TrimSpace (si_Date item) @ '' - '' else []) @ TrimSpace (si_Snippet item),
        PublishedAt = [], Score = FFin 0 \<rparr>))"

definition parseSerperOrganic :: "serperResponse \<Rightarrow> int \<Rightarrow> WebSource list" where
  "parseSerperOrganic sr limit = collect_sources serper_source limit (Organic sr) []"

definition serper_request :: "ToolSettings \<Rightarrow> WebSearchRequest \<Rightarrow> tool_request" where
  "serper_request s req =
     \<lparr> tr_Method = ''POST'', tr_URL = ''https://google.serper.dev/search'',
       tr_Header = [(''X-API-KEY'', SerperAPIKey s), (''Content-Type'', ''application/json'')],
       tr_Body = Some (JObj
         ([(''q'', JStr (ws_Query req)), (''num'', JInt (MaxResults req))] @
          (if Recency req = ''day'' then [(''tbs'', JStr ''qdr:d'')]
           else if Recency req = ''week'' then [(''tbs'', JStr ''qdr:w'')]
           else if Recency req = ''month'' then [(''tbs'', JStr ''qdr:m'')]
           else if Recency req = ''year'' then [(''tbs'', JStr ''qdr:y'')] else []))) \<rparr>"

definition serperSearch ::
  "(string \<Rightarrow> string) \<Rightarrow> tool_client \<Rightarrow> ToolSettings \<Rightarrow> WebSearchRequest \<Rightarrow> string + WebSearchResult" where
  "serperSearch quote client s req =
     (case client (serper_request s req) of
        None \<Rightarrow> Inl ''serper search provider unreachable''
      | Some (code, raw) \<Rightarrow>
          if code \<ge> 400 then Inl (''serper returned status '' @ show_int code)
          else
            (case unmarshal \<lparr> AnswerBox = None, KnowledgeGraph = None, Organic = [] \<rparr> dec_serper raw of
               (sr, bad) \<Rightarrow>
                 if bad then Inl ''could not parse serper results''
                 else
                   (let answer = (case AnswerBox sr of Some (a, snip) \<Rightarrow> firstNonEmpty [a, snip] | None \<Rightarrow> []);
                        answer = (if answer = [] then (case KnowledgeGraph sr of Some d \<Rightarrow> d | None \<Rightarrow> []) else answer)
                    in Inr (buildWebSearchResult quote (ws_Query req) ''serper'' answer
                         (parseSerperOrganic sr (MaxResults req))))))"

text \<open>Abstract, its URL, heading and related topics (text and URL).\<close>

definition dec_duckduckgo :: "(string \<times> string \<times> string \<times> (string \<times> string) list) decoder" where
  "dec_duckduckgo = dec_struct
     [fld ''AbstractText'' dec_string fst apfst, fld ''AbstractURL'' dec_string (\<lambda>p. fst (snd p)) (\<lambda>f. apsnd (apfst f)),
      fld ''Heading'' dec_string (\<lambda>p. fst (snd (snd p))) (\<lambda>f. apsnd (apsnd (apfst f))),
      fld ''RelatedTopics'' (dec_list ([], []) (dec_struct
        [fld ''Text'' dec_string fst apfst, fld ''FirstURL'' dec_string snd apsnd]))
        (\<lambda>p. snd (snd (snd p))) (\<lambda>f. apsnd (apsnd (apsnd f)))]"

definition topic_source :: "string \<times> string \<Rightarrow> (int \<Rightarrow> WebSource) option" where
  "topic_source rt =
     (if snd rt = [] \<or> fst rt = [] then None
      else Some (\<lambda>i. \<lparr> src_Index = i, src_Title = truncate_text (fst rt) 80, src_URL = snd rt, Snippet = fst rt,
        PublishedAt = [], Score = FFin 0 \<rparr>))"

text \<open>\<open>encode\<close> is \<open>url.Values.Encode\<close>, which sorts by key.\<close>

definition duckduckgo_request :: "((string \<times> string) list \<Rightarrow> string) \<Rightarrow> string \<Rightarrow> tool_request" where
  "duckduckgo_request encode query =
     \<lparr> tr_Method = ''GET'',
       tr_URL = ''https://api.duckduckgo.com/?'' @ encode [(''format'', ''json''), (''no_html'', ''1''), (''no_redirect'', ''1''),
         (''q'', query), (''skip_disambig'', ''1'')],
       tr_Header = [(''Accept'', ''application/json'')], tr_Body = None \<rparr>"

definition duckDuckGoSearch ::
  "((string \<times> string) list \<Rightarrow> string) \<Rightarrow> tool_client \<Rightarrow> string \<Rightarrow> int \<Rightarrow> WebSource list \<times> string" where
  "duckDuckGoSearch encode client query limit =
     (case client (duckduckgo_request encode query) of
        None \<Rightarrow> ([], [])
      | Some (code, raw) \<Rightarrow>
          (case unmarshal ([], [], [], []) dec_duckduckgo raw of
             ((abstract, url, heading, topics), bad) \<Rightarrow>
               if bad then ([], [])
               else
                 (collect_sources topic_source limit topics
                    (if abstract \<noteq> [] \<and> url \<noteq> []
                     then [\<lparr> src_Index = 1, src_Title = heading, src_URL = url, Snippet = abstract, PublishedAt = [],
                             Score = FFin 0 \<rparr>] else []),
                  abstract)))"

section \<open>A search\<close>

definition normalized_request :: "string \<Rightarrow> WebSearchRequest \<Rightarrow> WebSearchRequest" where
  "normalized_request complexity req =
     \<lparr> ws_Query = TrimSpace (ws_Query req), Recency = normalizeRecency (Recency req),
       MaxResults = clampSearchResults (MaxResults req) complexity, ws_Topic = normalizeTopic (ws_Topic req),
       IncludeDomains = cleanDomains (IncludeDomains req) 300, ExcludeDomains = cleanDomains (ExcludeDomains req) 150 \<rparr>"

text \<open>A service that is configured: its result when it has sources, else its error (nil when it merely
  found nothing).\<close>

definition tried :: "bool \<Rightarrow> (string + WebSearchResult) \<Rightarrow> string option \<Rightarrow> string option + WebSearchResult" where
  "tried configured answer lastErr =
     (if \<not> configured then Inl lastErr
      else (case answer of
              Inl e \<Rightarrow> Inl (Some e)
            | Inr result \<Rightarrow> if Sources result \<noteq> [] then Inr result else Inl None))"

definition RunWebSearch ::
  "(string \<Rightarrow> string) \<Rightarrow> ((string \<times> string) list \<Rightarrow> string) \<Rightarrow> tool_client \<Rightarrow> ToolSettings \<Rightarrow> string \<Rightarrow> WebSearchRequest \<Rightarrow>
     string + WebSearchResult" where
  "RunWebSearch quote encode client s complexity req =
     (let req = normalized_request complexity req
      in if ws_Query req = [] then Inl ''query is required''
         else
           (case tried (TavilyAPIKey s \<noteq> []) (tavilySearch quote client s req) None of
              Inr result \<Rightarrow> Inr result
            | Inl lastErr \<Rightarrow>
                (case tried (SerperAPIKey s \<noteq> []) (serperSearch quote client s req) lastErr of
                   Inr result \<Rightarrow> Inr result
                 | Inl lastErr \<Rightarrow>
                     (let (ddg, answer) = duckDuckGoSearch encode client (stripSiteFilters (ws_Query req)) (MaxResults req)
                      in if DDGFallback s \<and> ddg \<noteq> [] then Inr (buildWebSearchResult quote (ws_Query req) ''duckduckgo'' answer ddg)
                         else Inl (case lastErr of Some e \<Rightarrow> e | None \<Rightarrow> ''no search provider returned results'')))))"

section \<open>The tool\<close>

record tool_world =
  quote_verb :: "string \<Rightarrow> string"
  encode_query :: "(string \<times> string) list \<Rightarrow> string"
  tool_http :: tool_client

definition source_json :: "WebSource \<Rightarrow> json" where
  "source_json s = JObj
     ([(''index'', JInt (src_Index s)), (''title'', JStr (src_Title s)), (''url'', JStr (src_URL s)),
       (''snippet'', JStr (Snippet s))] @
      opt_string ''publishedAt'' (PublishedAt s) @ opt ''score'' (\<not> f64_is0 (Score s)) (JNum (Score s)))"

definition sources_json :: "WebSource list \<Rightarrow> json" where
  "sources_json sources = json_list (map source_json sources)"

text \<open>What a tool call gives the model, and what the client is shown of it.\<close>

definition execWebSearch :: "tool_world \<Rightarrow> ToolSettings \<Rightarrow> string \<Rightarrow> body \<Rightarrow> string \<times> json option" where
  "execWebSearch w s complexity args =
     (case RunWebSearch (quote_verb w) (encode_query w) (tool_http w) s complexity (webSearchRequestFromArgs args) of
        Inl e \<Rightarrow> (''Web search failed: '' @ e, None)
      | Inr result \<Rightarrow> (wr_Content result, Some (JObj [(''muhiya_sources'', sources_json (Sources result))])))"

definition ExecuteTool :: "tool_world \<Rightarrow> ToolSettings \<Rightarrow> string \<Rightarrow> string \<Rightarrow> string \<Rightarrow> string \<times> json option" where
  "ExecuteTool w s complexity name rawArgs =
     (if name = ''web_search'' then execWebSearch w s complexity (parseToolArgs rawArgs)
      else (''Tool '' @ [CHR 0x27] @ name @ [CHR 0x27] @ '' is not available.'', None))"

section \<open>Its endpoints\<close>

definition handleCapabilities :: "ToolSettings \<Rightarrow> json" where
  "handleCapabilities s = JObj
     [(''object'', JStr ''muhiya.capabilities''), (''gateway'', JStr ''MuhiyaLLM Gateway''),
      (''features'', JObj [(''web_search'', JBool (WebSearchEnabled s))]),
      (''tools'', JArr (map (\<lambda>t. JObj
         [(''name'', JStr (fd_Name (ot_Function t))), (''available'', JBool True),
          (''description'', JStr (fd_Description (ot_Function t))), (''parameters'', Parameters (ot_Function t))])
         (BuildToolSchemas s)))]"

definition dec_search_request :: "WebSearchRequest decoder" where
  "dec_search_request = dec_struct
     [fld ''query'' dec_string ws_Query ws_Query_update, fld ''recency'' dec_string Recency Recency_update,
      fld ''maxResults'' dec_int MaxResults MaxResults_update, fld ''topic'' dec_string ws_Topic ws_Topic_update,
      fld ''includeDomains'' (dec_list [] dec_string) IncludeDomains IncludeDomains_update,
      fld ''excludeDomains'' (dec_list [] dec_string) ExcludeDomains ExcludeDomains_update]"

definition result_json :: "WebSearchResult \<Rightarrow> json" where
  "result_json r = JObj
     ([(''query'', JStr (wr_Query r))] @ opt_string ''answer'' (Answer r) @
      [(''provider'', JStr (wr_Provider r)), (''sources'', sources_json (Sources r)), (''content'', JStr (wr_Content r))])"

text \<open>\<open>json_text\<close> is the text of a decoding error.\<close>

definition handleGatewayWebSearch :: "tool_world \<Rightarrow> (string \<Rightarrow> string) \<Rightarrow> ToolSettings \<Rightarrow> string \<Rightarrow> json reply" where
  "handleGatewayWebSearch w json_text s bodyBytes =
     (if \<not> WebSearchEnabled s
      then Refuse 501 ''web_search is not configured on this gateway.'' ''unsupported_feature'' ''''
      else
        (case unmarshal \<lparr> ws_Query = [], Recency = [], MaxResults = 0, ws_Topic = [], IncludeDomains = [], ExcludeDomains = [] \<rparr>
                dec_search_request bodyBytes of
           (req, bad) \<Rightarrow>
             if bad then Refuse 400 (''Invalid web_search JSON body: '' @ json_text bodyBytes) ''invalid_request_error'' ''''
             else
               (case RunWebSearch (quote_verb w) (encode_query w) (tool_http w) s ''medium'' req of
                  Inl e \<Rightarrow> Refuse (if Contains e ''query is required'' then 400 else 502) e ''api_error'' ''''
                | Inr result \<Rightarrow> Serve (result_json result))))"

section \<open>Lemmas\<close>

lemma clamp_bounds: "1 \<le> clampSearchResults value complexity" "clampSearchResults value complexity \<le> 10"
  by (simp_all add: clampSearchResults_def)

definition numbered_from :: "nat \<Rightarrow> WebSource list \<Rightarrow> bool" where
  "numbered_from k out \<longleftrightarrow> (\<forall>i < length out. src_Index (out ! i) = int (k + i))"

text \<open>A service turns an entry into a source with the number it is given.\<close>

locale source_reader =
  fixes source :: "'e \<Rightarrow> (int \<Rightarrow> WebSource) option"
  assumes numbering: "source e = Some f \<Longrightarrow> src_Index (f i) = i"
begin

lemma collect_numbered:
  "numbered_from 1 out \<Longrightarrow> numbered_from 1 (collect_sources source limit es out)"
proof (induction es arbitrary: out)
  case (Cons e es)
  show ?case
  proof (cases "source e")
    case None
    then show ?thesis using Cons by simp
  next
    case (Some f)
    have "numbered_from 1 (out @ [f (int (length out) + 1)])"
      using Cons.prems numbering [OF Some] by (auto simp: numbered_from_def nth_append less_Suc_eq)
    then show ?thesis using Cons.IH Some by (simp add: Let_def)
  qed
qed simp

lemma collect_bounded:
  "int (length (collect_sources source limit es out)) \<le> max limit (int (length out) + 1)"
proof (induction es arbitrary: out)
  case (Cons e es)
  show ?case
  proof (cases "source e")
    case (Some f)
    then show ?thesis using Cons.IH [of "out @ [f (int (length out) + 1)]"] by (auto simp: Let_def)
  qed (use Cons in simp)
qed simp

end

interpretation tavily: source_reader tavily_source
  by unfold_locales (auto simp: tavily_source_def split: if_splits)

interpretation serper: source_reader serper_source
  by unfold_locales (auto simp: serper_source_def split: if_splits)

interpretation duckduckgo: source_reader topic_source
  by unfold_locales (auto simp: topic_source_def split: if_splits)

lemma built_sources [simp]:
  "Sources (buildWebSearchResult quote query provider answer sources) = sources"
  "wr_Query (buildWebSearchResult quote query provider answer sources) = query"
  "wr_Provider (buildWebSearchResult quote query provider answer sources) = provider"
  by (simp_all add: buildWebSearchResult_def Let_def)

text \<open>What every service returns for a normalised request.\<close>

definition ranked :: "WebSearchRequest \<Rightarrow> WebSource list \<Rightarrow> bool" where
  "ranked req sources \<longleftrightarrow> numbered_from 1 sources \<and> int (length sources) \<le> max (MaxResults req) 2"

lemma tavily_ranked:
  assumes "tavilySearch quote client s req = Inr result"
  shows "ranked req (Sources result) \<and> wr_Query result = ws_Query req \<and> wr_Provider result = ''tavily''"
proof -
  obtain results where "Sources result = collect_sources tavily_source (MaxResults req) results []"
    "wr_Query result = ws_Query req" "wr_Provider result = ''tavily''"
    using assms by (auto simp: tavilySearch_def split: option.splits prod.splits if_splits)
  then show ?thesis
    using tavily.collect_numbered [of "[]" "MaxResults req" results] tavily.collect_bounded [of "MaxResults req" results "[]"]
    by (simp add: ranked_def numbered_from_def max_def split: if_splits)
qed

lemma serper_ranked:
  assumes "serperSearch quote client s req = Inr result"
  shows "ranked req (Sources result) \<and> wr_Query result = ws_Query req \<and> wr_Provider result = ''serper''"
proof -
  obtain items where "Sources result = collect_sources serper_source (MaxResults req) items []"
    "wr_Query result = ws_Query req" "wr_Provider result = ''serper''"
    using assms by (auto simp: serperSearch_def parseSerperOrganic_def Let_def split: option.splits prod.splits if_splits)
  then show ?thesis
    using serper.collect_numbered [of "[]" "MaxResults req" items] serper.collect_bounded [of "MaxResults req" items "[]"]
    by (simp add: ranked_def numbered_from_def max_def split: if_splits)
qed

lemma duckduckgo_ranked: "ranked req (fst (duckDuckGoSearch encode client query (MaxResults req)))"
proof -
  have "ranked req (collect_sources topic_source (MaxResults req) topics out)"
    if "numbered_from 1 out" "length out \<le> 1" for topics out
    using duckduckgo.collect_numbered [OF that(1), of "MaxResults req" topics]
      duckduckgo.collect_bounded [of "MaxResults req" topics out] that(2)
    by (simp add: ranked_def max_def split: if_splits)
  moreover have "ranked req []" by (simp add: ranked_def numbered_from_def)
  ultimately show ?thesis
    by (simp add: duckDuckGoSearch_def numbered_from_def split: option.split prod.split)
qed

section \<open>Properties\<close>


section \<open>A concrete search\<close>

definition tavily_text :: string where
  "tavily_text = ''{\"results\":[{\"url\":\"u\"},{\"title\":\"no address\"}]}''"

lemma tavily_text_decoded:
  "unmarshal ([], [], []) tavilyResponse tavily_text =
     (([], [], [zero_tavily \<lparr> ti_URL := ''u'' \<rparr>, zero_tavily \<lparr> ti_Title := ''no address'' \<rparr>]), False)"
proof -
  have "parse_json tavily_text = Some (RObj [(''results'', RArr [RObj [(''url'', RStr ''u'')], RObj [(''title'', RStr ''no address'')]])])"
    by code_simp
  then show ?thesis by (simp add: unmarshal_def tavilyResponse_def zero_tavily_def decoding)
qed

definition tavily_only :: ToolSettings where
  "tavily_only = \<lparr> TavilyAPIKey = ''k'', SerperAPIKey = [], DDGFallback = False \<rparr>"

definition go_request :: WebSearchRequest where
  "go_request = \<lparr> ws_Query = ''go'', Recency = [], MaxResults = 0, ws_Topic = [], IncludeDomains = [], ExcludeDomains = [] \<rparr>"

lemma go_search:
  "\<exists>result. RunWebSearch (\<lambda>s. s) (\<lambda>kv. []) (\<lambda>r. Some (200, tavily_text)) tavily_only ''medium'' go_request = Inr result"
proof -
  have g: "graphic (CHR ''g'')" "graphic (CHR ''o'')" "graphic (CHR ''u'')" by code_simp+
  then have t: "TrimSpace ''go'' = ''go''" "TrimSpace ''u'' = ''u''" by (simp_all add: TrimSpace_graphic)
  have empty: "TrimSpace [] = []" by code_simp
  have "collect_sources tavily_source n [zero_tavily \<lparr> ti_URL := ''u'' \<rparr>, zero_tavily \<lparr> ti_Title := ''no address'' \<rparr>] [] \<noteq> []" for n
    using t empty by (simp add: tavily_source_def zero_tavily_def Let_def)
  then show ?thesis
    using t by (simp add: RunWebSearch_def normalized_request_def go_request_def tried_def tavily_only_def tavilySearch_def
        tavily_text_decoded Let_def)
qed


end
