(* ===== verification/Agent.thy ===== *)
theory Agent
  imports Entry WebSearch
begin

text \<open>
  The gateway's agent loop (src/proxy/agent.go), which runs only behind a flag: up to five turns with
  an OpenAI upstream, the tool calls of a turn stitched together from their fragments and executed in
  the gateway, one row for the whole loop. What a turn answers is its list of lines, the last of which
  need not end in a newline.
\<close>

section \<open>Tool calls\<close>

record toolCallBuf =
  tb_id :: string
  tb_name :: string
  tb_args :: string

record toolCallAccumulator =
  tc_order :: "int list"
  byIdx :: "int \<rightharpoonup> toolCallBuf"
  tc_next :: int

definition newToolCallAccumulator :: toolCallAccumulator where
  "newToolCallAccumulator = \<lparr> tc_order = [], byIdx = Map.empty, tc_next = 0 \<rparr>"

text \<open>The index of a fragment: its own, or that of the most recent call when it only continues one.\<close>

definition fragment_index :: "toolCallAccumulator \<Rightarrow> OpenAIToolCall \<Rightarrow> int" where
  "fragment_index a d =
     (case tc_Index d of
        Some i \<Rightarrow> i
      | None \<Rightarrow>
          if tc_ID d = [] \<and> fc_Name (tc_Function d) = [] \<and> tc_order a \<noteq> [] then last (tc_order a) else tc_next a)"

definition extend_call :: "toolCallBuf \<Rightarrow> OpenAIToolCall \<Rightarrow> toolCallBuf" where
  "extend_call buf d =
     \<lparr> tb_id = (if tc_ID d \<noteq> [] then tc_ID d else tb_id buf),
       tb_name = (if fc_Name (tc_Function d) \<noteq> [] then fc_Name (tc_Function d) else tb_name buf),
       tb_args = tb_args buf @ fc_Arguments (tc_Function d) \<rparr>"

definition add_fragment :: "toolCallAccumulator \<Rightarrow> OpenAIToolCall \<Rightarrow> toolCallAccumulator" where
  "add_fragment a d =
     (let idx = fragment_index a d
      in case byIdx a idx of
           Some buf \<Rightarrow> a \<lparr> byIdx := (byIdx a)(idx \<mapsto> extend_call buf d) \<rparr>
         | None \<Rightarrow>
             \<lparr> tc_order = tc_order a @ [idx],
               byIdx = (byIdx a)(idx \<mapsto> extend_call \<lparr> tb_id = [], tb_name = [], tb_args = [] \<rparr> d),
               tc_next = (if idx \<ge> tc_next a then i64 (idx + 1) else tc_next a) \<rparr>)"

definition add_fragments :: "toolCallAccumulator \<Rightarrow> OpenAIToolCall list \<Rightarrow> toolCallAccumulator" where
  "add_fragments a deltas = foldl add_fragment a deltas"

text \<open>\<open>fresh\<close> names a call that came without an identifier.\<close>

definition finalize :: "(int \<Rightarrow> string) \<Rightarrow> toolCallAccumulator \<Rightarrow> OpenAIToolCall list" where
  "finalize fresh a =
     concat (map (\<lambda>idx.
       (case byIdx a idx of
          None \<Rightarrow> []
        | Some buf \<Rightarrow>
            if tb_name buf = [] then []
            else [\<lparr> tc_Index = None, tc_ID = (if tb_id buf = [] then ''call_'' @ fresh idx else tb_id buf),
                    tc_Type = ''function'',
                    tc_Function = \<lparr> fc_Name = tb_name buf, fc_Arguments = tb_args buf \<rparr> \<rparr>])) (tc_order a))"

section \<open>Guidance\<close>

definition defaultSearchSourcesSkill :: string where
  "defaultSearchSourcesSkill = JoinWith [byte 10]
     [''# Trusted Search Sources & Scoping Guidance'',
      [],
      ''Use these domain targets (with `site:domain`) to retrieve high-quality, relevant data based on query categories:'',
      [],
      ''## 1. Biography, History & General Reference'',
      ''*   **Target Domains**: `wikipedia.org`, `britannica.com`, `imdb.com`, `biography.com`'',
      ''*   **Intent**: Biography queries ('' @ [CHR 0x5C] @ [CHR 0x22] @ ''Who is X'' @ [CHR 0x5C] @ [CHR 0x22] @ ''), historical events, entities, cast details, definitions, general facts.'',
      ''*   **Query Example**: `site:wikipedia.org OR site:britannica.com albert einstein biography`'',
      [],
      ''## 2. Economy, Finance & Markets'',
      ''*   **Target Domains**: `imf.org`, `worldbank.org`, `tradingeconomics.com`, `bloomberg.com`, `reuters.com`, `investopedia.com`, `finance.yahoo.com`'',
      ''*   **Intent**: GDP figures, inflation, interest rates, currency exchange, company revenue, financial market trends.'',
      ''*   **Query Example**: `site:imf.org OR site:tradingeconomics.com egypt gdp growth`'',
      [],
      ''## 3. Sports & Football'',
      ''*   **Target Domains**: `fifa.com`, `uefa.com`, `espn.com`, `skysports.com`, `goal.com`, `whoscored.com`, `transfermarkt.com`, `kooora.com`'',
      ''*   **Intent**: Real-time scores, standings, league tables, fixture schedules, transfer news, player stats.'',
      ''*   **Query Example**: `site:kooora.com OR site:goal.com el ahly match results`'',
      [],
      ''## 4. Politics, Government & Global News'',
      ''*   **Target Domains**: `reuters.com`, `apnews.com`, `bbc.com`, `aljazeera.com`, `cnn.com`'',
      ''*   **Intent**: Elections, state policies, treaties, global conflicts, governmental updates, breaking news.'',
      ''*   **Query Example**: `site:reuters.com OR site:apnews.com france presidential election results`'',
      [],
      ''## 5. Technology, Coding & Science'',
      ''*   **Target Domains**: `techcrunch.com`, `wired.com`, `theverge.com`, `github.com`, `nature.com`, `arxiv.org`'',
      ''*   **Intent**: AI/M'' @ ''L research papers, programming repositories, hardware specs, space/physics news, tech announcements.'',
      ''*   **Query Example**: `site:arxiv.org machine learning transformer architecture`'']"

text \<open>\<open>stored\<close> is the setting, empty when it is unset or cannot be read; \<open>file\<close> the first of the skill
  files that can be read. The skill and what is stored then.\<close>

definition loadSearchSourcesSkill :: "settings \<Rightarrow> string option \<Rightarrow> string \<times> settings" where
  "loadSearchSourcesSkill t file =
     (let stored = GetSetting t ''muhiya_chat_search_sources''
      in if stored \<noteq> [] then (stored, t)
         else
           (let skill = (case file of Some content \<Rightarrow> if content \<noteq> [] then content else defaultSearchSourcesSkill
                         | None \<Rightarrow> defaultSearchSourcesSkill)
            in (skill, SetSetting t ''muhiya_chat_search_sources'' skill)))"

definition tool_guidance :: "string \<Rightarrow> string" where
  "tool_guidance sourcesSkill =
     ''You have a live tool available: `web_search` for current information. When a question is time-sensitive, factual, or requires real-time information, CALL the `web_search` tool instead of guessing. After a web_search, cite sources inline as [1], [2]. Never invent facts.'' @
     [byte 10, byte 10] @
     (if sourcesSkill \<noteq> [] then
        ''IMPORTANT: When calling `web_search`, you MUST format your search query to target the trusted sources defined below using the `site:domain` Google Search syntax (e.g., `query (site:imf.org OR site:worldbank.org)`). If no specific topic matches, search normally. Only search once.'' @
        [byte 10, byte 10] @ sourcesSkill
      else [])"

text \<open>The guidance is appended to the first system message whose content is a text or a list; a
  conversation without one gets it as a system message of its own.\<close>

fun guide_system :: "string \<Rightarrow> OpenAIMessage list \<Rightarrow> OpenAIMessage list option" where
  "guide_system guidance [] = None"
| "guide_system guidance (m # ms) =
     (if om_Role m = ''system'' then
        (case om_Content m of
           JStr s \<Rightarrow> Some (m \<lparr> om_Content := JStr (s @ [byte 10, byte 10] @ guidance) \<rparr> # ms)
         | JArr arr \<Rightarrow>
             Some (m \<lparr> om_Content := JArr (arr @ [JObj [(''type'', JStr ''text''), (''text'', JStr guidance)]]) \<rparr> # ms)
         | _ \<Rightarrow> map_option ((#) m) (guide_system guidance ms))
      else map_option ((#) m) (guide_system guidance ms))"

definition injectToolGuidance :: "OpenAIMessage list \<Rightarrow> string \<Rightarrow> OpenAIMessage list" where
  "injectToolGuidance messages sourcesSkill =
     (let guidance = tool_guidance sourcesSkill
      in case guide_system guidance messages of
           Some out \<Rightarrow> out
         | None \<Rightarrow> zero_message \<lparr> om_Role := ''system'', om_Content := JStr guidance \<rparr> # messages)"

section \<open>One turn\<close>

text \<open>A connection that failed with its text, a status of an error, or the lines of the answer.\<close>

datatype turn_answer = TurnLost string | TurnStatus int | TurnLines "string list"

record turnResult =
  assistantText :: string
  tr_reasoning :: string
  tr_calls :: toolCallAccumulator
  tr_usage :: OpenAIUsage
  finishReason :: string

definition zero_turn :: turnResult where
  "zero_turn = \<lparr> assistantText = [], tr_reasoning = [], tr_calls = newToolCallAccumulator, tr_usage = zero_openai_usage,
     finishReason = [] \<rparr>"

definition writeClientDelta :: "int \<Rightarrow> string \<Rightarrow> string \<Rightarrow> OpenAIDelta \<Rightarrow> frame" where
  "writeClientDelta created msgID modelName delta =
     DataFrame (chunk_json \<lparr> ch_ID = msgID, ch_Object = ''chat.completion.chunk'', ch_Created = created, ch_Model = modelName,
       ch_Choices = [\<lparr> cc_Index = 0, Delta = delta, cc_FinishReason = None \<rparr>], ch_Usage = None, ch_Provider = [] \<rparr>)"

definition turn_chunk :: "(OpenAIDelta \<Rightarrow> frame) \<Rightarrow> turnResult \<Rightarrow> OpenAIChunk \<Rightarrow> turnResult \<times> frame list" where
  "turn_chunk show_delta t chunk =
     (let t = (case ch_Usage chunk of Some u \<Rightarrow> t \<lparr> tr_usage := u \<rparr> | None \<Rightarrow> t)
      in case ch_Choices chunk of
           [] \<Rightarrow> (t, [])
         | choice # rest \<Rightarrow>
             (let delta = Delta choice
              in (t \<lparr> assistantText := assistantText t @ dl_Content delta,
                      tr_reasoning := tr_reasoning t @ dl_ReasoningContent delta,
                      tr_calls := add_fragments (tr_calls t) (dl_ToolCalls delta),
                      finishReason := (case cc_FinishReason choice of Some r \<Rightarrow> r | None \<Rightarrow> finishReason t) \<rparr>,
                  (if dl_Content delta \<noteq> [] then [show_delta (zero_delta \<lparr> dl_Content := dl_Content delta \<rparr>)] else []) @
                  (if dl_ReasoningContent delta \<noteq> []
                   then [show_delta (zero_delta \<lparr> dl_ReasoningContent := dl_ReasoningContent delta \<rparr>)] else []))))"

fun turn_lines :: "(OpenAIDelta \<Rightarrow> frame) \<Rightarrow> string list \<Rightarrow> turnResult \<Rightarrow> frame list \<Rightarrow> turnResult \<times> frame list" where
  "turn_lines show_delta [] t out = (t, out)"
| "turn_lines show_delta (line # rest) t out =
     (let trimmed = TrimSpace line
      in if \<not> HasPrefix trimmed ''data:'' then turn_lines show_delta rest t out
         else
           (let data = TrimSpace (TrimPrefix trimmed ''data:'')
            in if data = ''[DONE]'' then (t, out)
               else
                 (case (if data = [] then None else decode_chunk data) of
                    None \<Rightarrow> turn_lines show_delta rest t out
                  | Some chunk \<Rightarrow>
                      (case turn_chunk show_delta t chunk of (t, frames) \<Rightarrow> turn_lines show_delta rest t (out @ frames)))))"

text \<open>What decoding a marshalled value into an empty interface gives: every number is a float64.\<close>

fun reread :: "json \<Rightarrow> json" where
  "reread (JInt n) = json_int n"
| "reread (JArr xs) = JArr (map reread xs)"
| "reread (JObj kvs) = JObj (map (\<lambda>kv. (fst kv, reread (snd kv))) kvs)"
| "reread v = v"

text \<open>\<open>seven_tenths\<close> is the float64 nearest to 0.7.\<close>

definition seven_tenths :: f64 where
  "seven_tenths = round64 (7 / 10)"

definition turn_request :: "Model \<Rightarrow> Provider \<Rightarrow> OpenAIMessage list \<Rightarrow> OpenAITool list \<Rightarrow> OpenAIRequest" where
  "turn_request m p messages tools =
     zero_openai_request \<lparr> oq_Model := TargetModel m, oq_Messages := messages, oq_Tools := tools,
       ToolChoice := (if tools \<noteq> [] then JStr ''auto'' else JNull), oq_Stream := True, IncludeUsage := Some True,
       oq_Temperature := Some seven_tenths,
       oq_MaxTokens := (if classifyUpstream (BaseURL p) (TargetModel m) = famDeepseek then None else Some 4096) \<rparr>"

definition turn_body :: "gateway \<Rightarrow> Model \<Rightarrow> Provider \<Rightarrow> OpenAIMessage list \<Rightarrow> OpenAITool list \<Rightarrow> string \<Rightarrow> body" where
  "turn_body g m p messages tools thinkingLevel =
     (let family = classifyUpstream (BaseURL p) (TargetModel m);
          b = map (\<lambda>kv. (fst kv, reread (snd kv))) (openai_body (turn_request m p messages tools));
          b = fst (ApplyThinkingOpenAI b (BaseURL p) (TargetModel m) thinkingLevel (SupportsThinking (m_Media m)));
          b = (if family = famDeepseek then conditionDeepSeekChatCompletion b else b);
          b = sanitizeUpstreamIdentity (hmac g) b family (identitySecret g) []
      in if pd_ID p = ''openrouter''
         then maybeInjectOpenRouterPDFParser b (Some (BaseURL p, pd_ID p)) (openRouterPDFEngine (pdf_setting g)) else b)"

definition streamOpenAITurn ::
  "gateway \<Rightarrow> request \<Rightarrow> (upstream_request \<Rightarrow> turn_answer) \<Rightarrow> (OpenAIDelta \<Rightarrow> frame) \<Rightarrow> Model \<Rightarrow> Provider \<Rightarrow>
     OpenAIMessage list \<Rightarrow> OpenAITool list \<Rightarrow> string \<Rightarrow> turnResult \<times> string \<times> frame list \<times> upstream_request list" where
  "streamOpenAITurn g r answer show_delta m p messages tools thinkingLevel =
     (let req = openai_call p r (turn_body g m p messages tools thinkingLevel)
      in if \<not> url_ok g (ur_URL req) then (zero_turn, ''failed to build upstream request'', [], [])
         else
           (case answer req of
              TurnLost e \<Rightarrow> (zero_turn, ''upstream connection failed: '' @ e, [], [req])
            | TurnStatus code \<Rightarrow> (zero_turn, ''upstream returned status '' @ show_int code, [], [req])
            | TurnLines ls \<Rightarrow> (case turn_lines show_delta ls zero_turn [] of (t, frames) \<Rightarrow> (t, [], frames, [req]))))"

section \<open>The loop\<close>

definition maxAgentIterations :: nat where
  "maxAgentIterations = 5"

definition toolStatusLabel :: "string \<Rightarrow> string" where
  "toolStatusLabel name = (if name = ''web_search'' then ''Searching the web'' else ''Working'')"

definition tool_frame :: "body \<Rightarrow> frame" where
  "tool_frame kvs = DataFrame (JObj [(''muhiya_tool'', JObj kvs)])"

definition error_frame :: "string \<Rightarrow> frame" where
  "error_frame msg = DataFrame (JObj [(''error'', JObj [(''message'', JStr msg), (''type'', JStr ''api_error'')])])"

text \<open>What a loop has so far: the conversation, whether it has searched, the totals of its turns, the
  error that ended it, the events sent, the requests made and the tools executed.\<close>

record agent_state =
  ag_Messages :: "OpenAIMessage list"
  hasSearched :: bool
  totalInput :: int
  totalOutput :: int
  totalCacheRead :: int
  totalCacheMiss :: "int option"
  streamError :: string
  ag_Frames :: "frame list"
  ag_Sent :: "upstream_request list"
  ag_Executed :: "string list"

text \<open>What the loop runs against: turns by their number, the tools, random identifiers by turn and call,
  and the clock of the chunks.\<close>

record agent_world =
  aw_Turn :: "nat \<Rightarrow> upstream_request \<Rightarrow> turn_answer"
  aw_Tools :: tool_world
  aw_CallID :: "nat \<Rightarrow> int \<Rightarrow> string"
  aw_MessageID :: string
  aw_Created :: int

definition tool_message :: "OpenAIToolCall \<Rightarrow> string \<Rightarrow> OpenAIMessage" where
  "tool_message call content =
     zero_message \<lparr> om_Role := ''tool'', ToolCallID := tc_ID call, om_Content := JStr content \<rparr>"

text \<open>A repeated search is declined, every other call executed.\<close>

definition run_tool :: "tool_world \<Rightarrow> ToolSettings \<Rightarrow> string \<Rightarrow> OpenAIToolCall \<Rightarrow> agent_state \<Rightarrow> agent_state" where
  "run_tool w s complexity call st =
     (let name = fc_Name (tc_Function call)
      in if name = ''web_search'' \<and> hasSearched st then
           st \<lparr> ag_Frames := ag_Frames st @ [tool_frame [(''status'', JStr ''skipped''), (''tool'', JStr name),
                  (''label'', JStr ''Already searched this turn'')]],
                ag_Messages := ag_Messages st @ [tool_message call
                  ''A web_search was already performed this turn. Use its results; do not search again.''] \<rparr>
         else
           (case ExecuteTool w s complexity name (fc_Arguments (tc_Function call)) of
              (content, event) \<Rightarrow>
                st \<lparr> hasSearched := (hasSearched st \<or> name = ''web_search''),
                     ag_Frames := ag_Frames st @
                       [tool_frame [(''status'', JStr ''start''), (''tool'', JStr name), (''label'', JStr (toolStatusLabel name))]] @
                       (case event of None \<Rightarrow> [] | Some j \<Rightarrow> [DataFrame j]) @
                       [tool_frame [(''status'', JStr ''done''), (''tool'', JStr name)]],
                     ag_Executed := ag_Executed st @ [name],
                     ag_Messages := ag_Messages st @ [tool_message call content] \<rparr>))"

definition count_turn :: "Provider \<Rightarrow> Model \<Rightarrow> turnResult \<Rightarrow> agent_state \<Rightarrow> agent_state" where
  "count_turn p m t st =
     (let u = tr_usage t
      in st \<lparr> totalInput := i64 (totalInput st + ou_PromptTokens u), totalOutput := i64 (totalOutput st + ou_CompletionTokens u),
              totalCacheRead := i64 (totalCacheRead st + CacheReadTokensFor (Some u) (BaseURL p) (TargetModel m)),
              totalCacheMiss := (case CacheMissTokensFor (Some u) (BaseURL p) (TargetModel m) of
                                   None \<Rightarrow> totalCacheMiss st
                                 | Some miss \<Rightarrow> Some (i64 ((case totalCacheMiss st of None \<Rightarrow> 0 | Some n \<Rightarrow> n) + miss))) \<rparr>)"

text \<open>One iteration, and whether there is another.\<close>

definition agent_turn ::
  "gateway \<Rightarrow> agent_world \<Rightarrow> request \<Rightarrow> ToolSettings \<Rightarrow> string \<Rightarrow> Model \<Rightarrow> Provider \<Rightarrow> string \<Rightarrow> nat \<Rightarrow> agent_state \<Rightarrow>
     agent_state \<times> bool" where
  "agent_turn g w r s complexity m p thinkingLevel i st =
     (case streamOpenAITurn g r (aw_Turn w i) (writeClientDelta (aw_Created w) (aw_MessageID w) (m_Name m)) m p (ag_Messages st)
             (BuildToolSchemas s) thinkingLevel of
        (t, err, frames, sent) \<Rightarrow>
          (let st = count_turn p m t (st \<lparr> ag_Frames := ag_Frames st @ frames, ag_Sent := ag_Sent st @ sent \<rparr>);
               calls = finalize (aw_CallID w i) (tr_calls t)
           in if err \<noteq> [] then (st \<lparr> streamError := err, ag_Frames := ag_Frames st @ [error_frame err] \<rparr>, False)
              else if calls = [] then (st, False)
              else
                (let st = st \<lparr> ag_Messages := ag_Messages st @ [zero_message \<lparr> om_Role := ''assistant'',
                       om_Content := JStr (assistantText t), om_ReasoningContent := tr_reasoning t, om_ToolCalls := calls \<rparr>] \<rparr>;
                     st = fold (run_tool (aw_Tools w) s complexity) calls st
                 in (if i = maxAgentIterations - 1
                     then st \<lparr> ag_Frames := ag_Frames st @ [tool_frame [(''status'', JStr ''limit''), (''label'', JStr ''Finalizing'')]] \<rparr>
                     else st, True))))"

fun agent_loop ::
  "(nat \<Rightarrow> agent_state \<Rightarrow> agent_state \<times> bool) \<Rightarrow> nat \<Rightarrow> nat \<Rightarrow> agent_state \<Rightarrow> agent_state" where
  "agent_loop turn 0 i st = st"
| "agent_loop turn (Suc n) i st =
     (case turn i st of (st, again) \<Rightarrow> if again then agent_loop turn n (Suc i) st else st)"

section \<open>The request\<close>

definition shouldRunAgentLoop :: "string \<Rightarrow> request \<Rightarrow> OpenAIRequest \<Rightarrow> ToolSettings \<Rightarrow> bool" where
  "shouldRunAgentLoop flag r q s \<longleftrightarrow>
     isTruthy flag \<and> WebSearch q \<noteq> Some False \<and> getClientAppName (Some r) = ''MuhiyaChat'' \<and> oq_Stream q \<and>
     oq_Tools q = [] \<and> ToolsEnabled s"

text \<open>Model and provider, or the text of the error; \<open>av_ModelLost\<close> and \<open>av_ProviderLost\<close> fail a query.\<close>

definition resolveAgentModel :: "arrival \<Rightarrow> server \<Rightarrow> (string \<Rightarrow> string) \<Rightarrow> OpenAIRequest \<Rightarrow> string + (Model \<times> Provider)" where
  "resolveAgentModel v sv query_text q =
     (let name = oq_Model q
      in if name = routerModelDeprecated
         then Inl (''model '' @ quoted name @ '' is no longer supported; select a concrete model for the session'')
         else if av_ModelLost v then Inl (query_text ''model'')
         else
           (case GetModelByName (sv_Models sv) name of
              None \<Rightarrow> Inl (''model '' @ quoted name @ '' not found or inactive'')
            | Some m \<Rightarrow>
                if av_ProviderLost v then Inl (query_text ''provider'')
                else
                  (case GetProvider (av_Gcm v) (sv_Providers sv) (m_ProviderID m) of
                     None \<Rightarrow> Inl (''provider for model '' @ quoted (m_Name m) @ '' is unavailable'')
                   | Some p \<Rightarrow>
                       if pd_Status p \<noteq> ''active'' then Inl (''provider for model '' @ quoted (m_Name m) @ '' is unavailable'')
                       else Inr (m, p))))"

definition start_state :: "OpenAIMessage list \<Rightarrow> agent_state" where
  "start_state messages =
     \<lparr> ag_Messages = messages, hasSearched = False, totalInput = 0, totalOutput = 0, totalCacheRead = 0, totalCacheMiss = None,
       streamError = [], ag_Frames = [], ag_Sent = [], ag_Executed = [] \<rparr>"

text \<open>The row of a loop, from what its turns reported. \<open>ctx\<close> is the error of the request's context.\<close>

definition agent_bill ::
  "gateway \<Rightarrow> call_env \<Rightarrow> Model \<Rightarrow> RequestLog \<Rightarrow> int \<Rightarrow> agent_state \<Rightarrow> RequestLog" where
  "agent_bill g e m entry promptTokens st =
     (let input = (if totalInput st = 0 then promptTokens else totalInput st);
          entry = entry \<lparr> StatusCode := 200 \<rparr>;
          entry = (if streamError st \<noteq> []
                   then (let code = requestFailureStatus (c_Err e) (streamError st) False
                         in entry \<lparr> ErrorMessage := streamError st, StatusCode := code,
                                    RequestStatus := RequestStatusForHTTP code \<rparr>)
                   else entry);
          entry = entry \<lparr> Meter := (Meter entry) \<lparr> lm_InputTokens := input, lm_OutputTokens := totalOutput st,
                     lm_CacheReadTokens := totalCacheRead st,
                     CacheMissTokens := (case totalCacheMiss st of None \<Rightarrow> CacheMissTokens (Meter entry) | Some n \<Rightarrow> Some n) \<rparr> \<rparr>;
          entry = (if streamError st \<noteq> [] then entry \<lparr> Cost := FFin 0, CostNanoUSD := 0 \<rparr>
                   else price_for g e m entry (openai_report input (totalOutput st) (totalCacheRead st) 0))
      in with_latency (c_Latency e) entry)"

text \<open>\<open>None\<close> when the request is left to the ordinary path (an Anthropic provider).\<close>

definition serveMuhiyaAgent ::
  "gateway \<Rightarrow> agent_world \<Rightarrow> arrival \<Rightarrow> server \<Rightarrow> (string \<Rightarrow> string) \<Rightarrow> string \<Rightarrow> string \<Rightarrow> VirtualKey \<Rightarrow> ToolSettings \<Rightarrow>
     OpenAIRequest \<Rightarrow> served option option" where
  "serveMuhiyaAgent g w v sv query_text sourcesSkill requestID key s q =
     (let r = av_Request v; rl = sv_Limiter sv;
          thinkingLevel = ResolveThinkingLevel (Header_Get r ''X-Muhiya-Effort'') (oq_ReasoningEffort q)
      in case resolveAgentModel v sv query_text q of
           Inl e \<Rightarrow> Some (Some (stop [] rl [] None (Refuse 503 (''Routing error: '' @ e) ''routing_unavailable'' '''')))
         | Inr (m, p) \<Rightarrow>
             if BaseURL p = [] then Some None
             else
               (let promptTokens = estimateTokens (concat (map (\<lambda>msg. GetMessageContentString (show_value g) (om_Content msg)) (oq_Messages q)));
                    (outputLimit, clientSet) = requestedOpenAIOutput (oq_MaxCompletionTokens q) (oq_MaxTokens q) (Some m)
                in case CheckLimit rl (sv_Store sv) (av_RedisUp v) (av_DbNow v) (av_Now v) (vk_ID key) (vk_UserID key)
                          (i64 (promptTokens + rateLimitOutputEstimate outputLimit clientSet * int maxAgentIterations)) of
                     (Some e, rl) \<Rightarrow> Some (Some (stop [] rl [] None (writeLimitError (KindOf e) (av_LimitText v e))))
                   | (None, rl) \<Rightarrow>
                       (case AcquireGeneration rl (av_Polls v) of
                          AcquireFailed e \<Rightarrow> Some (Some (stop [] rl [] None serviceUnavailable))
                        | Cancelled \<Rightarrow> Some (Some (stop [] rl [] None serviceUnavailable))
                        | Acquired \<Rightarrow>
                            (let lease = Some (vk_UserID key, requestID);
                                 raw = marshal_value g (JObj (openai_body q));
                                 quote = \<lparr> gq_userID = vk_UserID key, gq_model = Some m,
                                   gq_inputUpperBound = conservativeInputTokenBound raw promptTokens (Some m),
                                   gq_requestedOutput = i64 (outputLimit * int maxAgentIterations),
                                   gq_pricedAt = c_PricedAt (av_Call v) \<rparr>
                             in case affordableGeneration (snapshot_text g) (address_of g) (sv_Store sv) (av_DbNow v) (av_Now v) quote of
                                  None \<Rightarrow> None
                                | Some (Inl (e, budget)) \<Rightarrow>
                                    Some (Some (stop [] rl
                                      [saveAdmissionFailure g v key
                                         \<lparr> af_Model = m, af_Provider = p, af_RequestID = requestID, af_RequestedModel = oq_Model q,
                                           af_InputTokens = promptTokens, af_Status = budgetErrorStatus e, af_Error = av_BudgetText v e,
                                           af_Budget = budget \<rparr>]
                                      lease (writeBudgetError (av_BudgetText v e) e)))
                                | Some (Inr (allowed, climit, budget)) \<Rightarrow>
                                    (let entry = applyBudgetWindow (zero_log \<lparr> rl_ID := requestID, UserID := vk_UserID key,
                                           ModelID := m_ID m, ProviderID := pd_ID p, rl_CreatedAt := av_Now v,
                                           ChargeCeilingNanoUSD := climit,
                                           Origin := (Origin zero_log) \<lparr> VirtualKeyID := vk_ID key, RequestPath := rq_Path r,
                                             ClientApp := ''MuhiyaChat'', RequestedModel := oq_Model q, Complexity := ''direct'',
                                             ThinkingLevel := thinkingLevel \<rparr>,
                                           Meter := (Meter zero_log) \<lparr> lm_InputTokens := promptTokens \<rparr> \<rparr>) budget;
                                         messages = stripUnsupportedMediaParts (injectToolGuidance (oq_Messages q) sourcesSkill) (Some m);
                                         st = agent_loop (agent_turn g w r s ''direct'' m p thinkingLevel) maxAgentIterations 0
                                                (start_state messages);
                                         row = agent_bill g (av_Call v) m entry promptTokens st
                                     in Some (Some (stop [] rl [row] lease (Serve
                                          \<lparr> o_Rows = [row], o_Sent = ag_Sent st,
                                            o_Reply = StreamReply (ag_Frames st @ sendMuhiyaMetaChunk (m_Name m) row @ [DoneFrame]),
                                            o_Affinity = c_Affinity (av_Call v) \<rparr>))))))))"

section \<open>Lemmas\<close>

text \<open>An assistant message that calls tools, followed by an answer to each call in order.\<close>

definition answered_turn :: "OpenAIMessage \<times> string list \<Rightarrow> OpenAIMessage list" where
  "answered_turn b = fst b # map2 tool_message (om_ToolCalls (fst b)) (snd b)"

definition well_answered :: "OpenAIMessage \<times> string list \<Rightarrow> bool" where
  "well_answered b \<longleftrightarrow> om_Role (fst b) = ''assistant'' \<and> om_ToolCalls (fst b) \<noteq> [] \<and> length (snd b) = length (om_ToolCalls (fst b))"

definition one_search :: "agent_state \<Rightarrow> bool" where
  "one_search st \<longleftrightarrow> count_list (ag_Executed st) ''web_search'' = (if hasSearched st then 1 else 0)"

lemma run_tool_effect:
  "one_search st \<Longrightarrow> one_search (run_tool w s complexity call st)"
  "\<exists>content. ag_Messages (run_tool w s complexity call st) = ag_Messages st @ [tool_message call content]"
  "ag_Sent (run_tool w s complexity call st) = ag_Sent st" "streamError (run_tool w s complexity call st) = streamError st"
  by (auto simp: run_tool_def one_search_def Let_def split: prod.split)

lemma run_tools_effect:
  "one_search st \<Longrightarrow> one_search (fold (run_tool w s complexity) calls st)"
  "\<exists>contents. length contents = length calls \<and>
     ag_Messages (fold (run_tool w s complexity) calls st) = ag_Messages st @ map2 tool_message calls contents"
  "ag_Sent (fold (run_tool w s complexity) calls st) = ag_Sent st"
  "streamError (fold (run_tool w s complexity) calls st) = streamError st"
proof (induction calls arbitrary: st)
  case (Cons call calls)
  {
    case 1
    then show ?case using Cons.IH(1) run_tool_effect(1) by simp
  next
    case 2
    obtain content where c: "ag_Messages (run_tool w s complexity call st) = ag_Messages st @ [tool_message call content]"
      using run_tool_effect(2) by blast
    obtain contents where "length contents = length calls"
      "ag_Messages (fold (run_tool w s complexity) calls (run_tool w s complexity call st)) =
        ag_Messages (run_tool w s complexity call st) @ map2 tool_message calls contents"
      using Cons.IH(2) by blast
    then show ?case using c by (intro exI [of _ "content # contents"]) simp
  next
    case 3
    then show ?case using Cons.IH(3) run_tool_effect(3) by simp
  next
    case 4
    then show ?case using Cons.IH(4) run_tool_effect(4) by simp
  }
qed simp_all

text \<open>What every turn keeps: it sends at most one request, and a turn after which the loop goes on leaves a
  conversation in which every call is answered.\<close>

locale tool_turn =
  fixes turn :: "nat \<Rightarrow> agent_state \<Rightarrow> agent_state \<times> bool"
  assumes one_request: "turn i st = (st', again) \<Longrightarrow> length (ag_Sent st') \<le> length (ag_Sent st) + 1"
    and searched_once: "turn i st = (st', again) \<Longrightarrow> one_search st \<Longrightarrow> one_search st'"
    and stopped: "turn i st = (st', False) \<Longrightarrow> ag_Messages st' = ag_Messages st"
    and answered: "turn i st = (st', True) \<Longrightarrow> \<exists>b. well_answered b \<and> ag_Messages st' = ag_Messages st @ answered_turn b"
begin

lemma loop_requests: "length (ag_Sent (agent_loop turn n i st)) \<le> length (ag_Sent st) + n"
proof (induction n arbitrary: i st)
  case (Suc n)
  obtain st' again where t: "turn i st = (st', again)" by fastforce
  then show ?case using one_request [OF t] Suc.IH [of "Suc i" st'] by auto
qed simp

lemma loop_searches: "one_search st \<Longrightarrow> one_search (agent_loop turn n i st)"
proof (induction n arbitrary: i st)
  case (Suc n)
  obtain st' again where t: "turn i st = (st', again)" by fastforce
  then show ?case using searched_once [OF t Suc.prems] Suc.IH by auto
qed simp

lemma loop_answered:
  "\<exists>blocks. length blocks \<le> n \<and> (\<forall>b \<in> set blocks. well_answered b) \<and>
     ag_Messages (agent_loop turn n i st) = ag_Messages st @ concat (map answered_turn blocks)"
proof (induction n arbitrary: i st)
  case 0
  show ?case by (intro exI [of _ "[]"]) simp
next
  case (Suc n)
  obtain st' again where t: "turn i st = (st', again)" by fastforce
  show ?case
  proof (cases again)
    case False
    then show ?thesis using t stopped by (intro exI [of _ "[]"]) simp
  next
    case True
    with t have "turn i st = (st', True)" by simp
    from answered [OF this] obtain b where b: "well_answered b" "ag_Messages st' = ag_Messages st @ answered_turn b" by blast
    obtain blocks where "length blocks \<le> n" "\<forall>b \<in> set blocks. well_answered b"
      "ag_Messages (agent_loop turn n (Suc i) st') = ag_Messages st' @ concat (map answered_turn blocks)"
      using Suc.IH by blast
    then show ?thesis using t True b by (intro exI [of _ "b # blocks"]) simp
  qed
qed

end

lemma turn_sent:
  assumes "streamOpenAITurn g r answer show_delta m p messages tools level = (t, err, frames, sent)"
  shows "length sent \<le> 1" "set sent \<subseteq> range (openai_call p r)"
  using assms by (auto simp: streamOpenAITurn_def Let_def split: if_splits turn_answer.splits prod.splits)

lemma count_turn_fields [simp]:
  "ag_Messages (count_turn p m t st) = ag_Messages st" "ag_Sent (count_turn p m t st) = ag_Sent st"
  "ag_Executed (count_turn p m t st) = ag_Executed st" "hasSearched (count_turn p m t st) = hasSearched st"
  "ag_Frames (count_turn p m t st) = ag_Frames st"
  by (simp_all add: count_turn_def Let_def)

lemma agent_turn_cases:
  assumes "agent_turn g w r s complexity m p level i st = (st', again)"
  obtains (stopped) sent where "\<not> again" "ag_Messages st' = ag_Messages st" "ag_Sent st' = ag_Sent st @ sent" "length sent \<le> 1"
      "set sent \<subseteq> range (openai_call p r)"
      "ag_Executed st' = ag_Executed st" "hasSearched st' = hasSearched st"
    | (called) sent a calls st1 where "again" "length sent \<le> 1" "set sent \<subseteq> range (openai_call p r)" "om_Role a = ''assistant''" "om_ToolCalls a = calls" "calls \<noteq> []"
      "ag_Messages st1 = ag_Messages st @ [a]" "ag_Sent st1 = ag_Sent st @ sent" "ag_Executed st1 = ag_Executed st"
      "hasSearched st1 = hasSearched st"
      "ag_Messages st' = ag_Messages (fold (run_tool (aw_Tools w) s complexity) calls st1)"
      "ag_Sent st' = ag_Sent (fold (run_tool (aw_Tools w) s complexity) calls st1)"
      "ag_Executed st' = ag_Executed (fold (run_tool (aw_Tools w) s complexity) calls st1)"
      "hasSearched st' = hasSearched (fold (run_tool (aw_Tools w) s complexity) calls st1)"
proof -
  obtain t err frames sent where
    t: "streamOpenAITurn g r (aw_Turn w i) (writeClientDelta (aw_Created w) (aw_MessageID w) (m_Name m)) m p (ag_Messages st)
          (BuildToolSchemas s) level = (t, err, frames, sent)"
    by (metis prod_cases4)
  define calls where "calls = finalize (aw_CallID w i) (tr_calls t)"
  define st0 where "st0 = count_turn p m t (st \<lparr> ag_Frames := ag_Frames st @ frames, ag_Sent := ag_Sent st @ sent \<rparr>)"
  define a where "a = zero_message \<lparr> om_Role := ''assistant'', om_Content := JStr (assistantText t),
    om_ReasoningContent := tr_reasoning t, om_ToolCalls := calls \<rparr>"
  define st1 where "st1 = st0 \<lparr> ag_Messages := ag_Messages st0 @ [a] \<rparr>"
  have st0: "ag_Messages st0 = ag_Messages st" "ag_Sent st0 = ag_Sent st @ sent" "ag_Executed st0 = ag_Executed st"
    "hasSearched st0 = hasSearched st" by (simp_all add: st0_def)
  have step: "(st', again) =
     (if err \<noteq> [] then (st0 \<lparr> streamError := err, ag_Frames := ag_Frames st0 @ [error_frame err] \<rparr>, False)
      else if calls = [] then (st0, False)
      else (let st2 = fold (run_tool (aw_Tools w) s complexity) calls st1
            in (if i = maxAgentIterations - 1
                then st2 \<lparr> ag_Frames := ag_Frames st2 @ [tool_frame [(''status'', JStr ''limit''), (''label'', JStr ''Finalizing'')]] \<rparr>
                else st2, True)))"
    using assms unfolding agent_turn_def t prod.case Let_def calls_def [symmetric] st0_def [symmetric] a_def [symmetric]
      st1_def [symmetric] by metis
  note sent = turn_sent [OF t]
  show thesis
  proof (cases "err \<noteq> [] \<or> calls = []")
    case True
    then show thesis using step st0 sent by (intro stopped) (auto split: if_splits)
  next
    case False
    then show thesis
      using step st0 sent by (intro called [of sent a calls st1]) (simp_all add: a_def st1_def Let_def split: if_splits)
  qed
qed

text \<open>A turn that asks only for what a set of requests allows.\<close>

locale confined_turn = tool_turn +
  fixes allowed :: "upstream_request set"
  assumes confined: "turn i st = (st', again) \<Longrightarrow> set (ag_Sent st') \<subseteq> set (ag_Sent st) \<union> allowed"
begin

lemma loop_confined: "set (ag_Sent (agent_loop turn n i st)) \<subseteq> set (ag_Sent st) \<union> allowed"
proof (induction n arbitrary: i st)
  case (Suc n)
  obtain st' again where t: "turn i st = (st', again)" by fastforce
  then show ?case using confined [OF t] Suc.IH [of "Suc i" st'] by auto
qed simp

end

interpretation agent: confined_turn "agent_turn g w r s complexity m p level" "range (openai_call p r)"
  for g w r s complexity m p level
proof
  fix i st st' again
  assume t: "agent_turn g w r s complexity m p level i st = (st', again)"
  show "length (ag_Sent st') \<le> length (ag_Sent st) + 1"
    by (rule agent_turn_cases [OF t]) (simp_all add: run_tools_effect)
  show "one_search st'" if "one_search st"
    by (rule agent_turn_cases [OF t]) (use that run_tools_effect(1) in \<open>simp_all add: one_search_def\<close>)
  show "set (ag_Sent st') \<subseteq> set (ag_Sent st) \<union> range (openai_call p r)"
    by (rule agent_turn_cases [OF t]) (auto simp: run_tools_effect(3))
next
  fix i st st'
  assume t: "agent_turn g w r s complexity m p level i st = (st', False)"
  show "ag_Messages st' = ag_Messages st" by (rule agent_turn_cases [OF t]) simp_all
next
  fix i st st'
  assume t: "agent_turn g w r s complexity m p level i st = (st', True)"
  show "\<exists>b. well_answered b \<and> ag_Messages st' = ag_Messages st @ answered_turn b"
  proof (rule agent_turn_cases [OF t])
    fix sent a calls st1
    assume a: "om_Role a = ''assistant''" "om_ToolCalls a = calls" "calls \<noteq> []" "ag_Messages st1 = ag_Messages st @ [a]"
      and st': "ag_Messages st' = ag_Messages (fold (run_tool (aw_Tools w) s complexity) calls st1)"
    obtain contents where "length contents = length calls"
      "ag_Messages (fold (run_tool (aw_Tools w) s complexity) calls st1) = ag_Messages st1 @ map2 tool_message calls contents"
      using run_tools_effect(2) by blast
    then show ?thesis using a st' by (intro exI [of _ "(a, contents)"]) (simp add: well_answered_def answered_turn_def)
  qed simp
qed

lemma price_for_status: "StatusCode (price_for g e m entry u) = StatusCode entry"
  by (simp add: price_for_def price_at_def setCalculatedCost_def meter_usage_def applyQuoteToLog_def Let_def
      split: prod.split sum.split)

lemma complete_turn:
  assumes "\<forall>i req. \<exists>ls. aw_Turn w i req = TurnLines ls" "url_ok g (ChatCompletions (BaseURL p))"
  shows "\<exists>t frames sent. streamOpenAITurn g r (aw_Turn w i) show_delta m p messages tools level = (t, [], frames, sent)"
proof -
  obtain ls where "aw_Turn w i (openai_call p r (turn_body g m p messages tools level)) = TurnLines ls" using assms(1) by blast
  then show ?thesis using assms(2) by (simp add: streamOpenAITurn_def openai_call_def Let_def split_beta)
qed

text \<open>Stitching, by the index every fragment carries.\<close>

definition last_given :: "string list \<Rightarrow> string" where
  "last_given xs = fold (\<lambda>x acc. if x \<noteq> [] then x else acc) xs []"

definition first_seen :: "'a list \<Rightarrow> 'a list" where
  "first_seen xs = rev (remdups (rev xs))"

definition fragments_of :: "int \<Rightarrow> OpenAIToolCall list \<Rightarrow> OpenAIToolCall list" where
  "fragments_of i ds = filter (\<lambda>d. tc_Index d = Some i) ds"

definition stitched :: "int \<Rightarrow> OpenAIToolCall list \<Rightarrow> toolCallBuf" where
  "stitched i ds = \<lparr> tb_id = last_given (map tc_ID (fragments_of i ds)),
     tb_name = last_given (map (\<lambda>d. fc_Name (tc_Function d)) (fragments_of i ds)),
     tb_args = concat (map (\<lambda>d. fc_Arguments (tc_Function d)) (fragments_of i ds)) \<rparr>"

lemma last_given_snoc [simp]: "last_given (xs @ [x]) = (if x \<noteq> [] then x else last_given xs)"
  by (simp add: last_given_def)

lemma stitched_snoc:
  "stitched i (ds @ [d]) = (if tc_Index d = Some i then extend_call (stitched i ds) d else stitched i ds)"
  by (simp add: stitched_def extend_call_def fragments_of_def)

lemma stitched_none: "i \<notin> set (map (\<lambda>d. the (tc_Index d)) ds) \<Longrightarrow> stitched i ds = \<lparr> tb_id = [], tb_name = [], tb_args = [] \<rparr>"
proof -
  assume i: "i \<notin> set (map (\<lambda>d. the (tc_Index d)) ds)"
  have "fragments_of i ds = []" using i by (force simp: fragments_of_def filter_empty_conv)
  then show ?thesis by (simp add: stitched_def last_given_def)
qed

lemma first_seen_snoc: "first_seen (xs @ [x]) = (if x \<in> set xs then first_seen xs else first_seen xs @ [x])"
  by (simp add: first_seen_def)

lemma accumulated:
  assumes "\<forall>d \<in> set ds. tc_Index d \<noteq> None"
  shows "tc_order (add_fragments newToolCallAccumulator ds) = first_seen (map (\<lambda>d. the (tc_Index d)) ds) \<and>
    byIdx (add_fragments newToolCallAccumulator ds) =
      (\<lambda>i. if i \<in> set (map (\<lambda>d. the (tc_Index d)) ds) then Some (stitched i ds) else None)"
  using assms
proof (induction ds rule: rev_induct)
  case Nil
  show ?case by (simp add: add_fragments_def newToolCallAccumulator_def first_seen_def fun_eq_iff)
next
  case (snoc d ds)
  define a where "a = add_fragments newToolCallAccumulator ds"
  define idx :: "OpenAIToolCall \<Rightarrow> int" where "idx = (\<lambda>d. the (tc_Index d))"
  from snoc have a: "tc_order a = first_seen (map idx ds)" "byIdx a = (\<lambda>i. if i \<in> set (map idx ds) then Some (stitched i ds) else None)"
    by (simp_all add: a_def idx_def)
  obtain i where i: "tc_Index d = Some i" using snoc.prems by auto
  have step: "add_fragments newToolCallAccumulator (ds @ [d]) = add_fragment a d" by (simp add: add_fragments_def a_def)
  show ?case
  proof (cases "i \<in> set (map idx ds)")
    case True
    then show ?thesis
      unfolding step using a i
      by (auto simp: add_fragment_def fragment_index_def first_seen_snoc idx_def stitched_snoc fun_eq_iff)
  next
    case False
    then show ?thesis
      unfolding step using a i stitched_none [of i ds]
      by (auto simp: add_fragment_def fragment_index_def first_seen_snoc idx_def stitched_snoc fun_eq_iff Let_def)
  qed
qed

section \<open>Properties\<close>

text \<open>C29: Tool calls are put together whole. However the fragments of several calls interleave, when each carries
  the index of its call, each call comes out once, in the order in which the calls were first seen, with the last identifier and name that were
  given for its index and its argument fragments in their order; a call that was never named is dropped.\<close>

theorem tool_calls_stitched:
  assumes "\<forall>d \<in> set ds. tc_Index d \<noteq> None"
  shows "finalize fresh (add_fragments newToolCallAccumulator ds) =
    map (\<lambda>i. \<lparr> tc_Index = None, tc_ID = (if tb_id (stitched i ds) = [] then ''call_'' @ fresh i else tb_id (stitched i ds)),
               tc_Type = ''function'',
               tc_Function = \<lparr> fc_Name = tb_name (stitched i ds), fc_Arguments = tb_args (stitched i ds) \<rparr> \<rparr>)
      (filter (\<lambda>i. tb_name (stitched i ds) \<noteq> []) (first_seen (map (\<lambda>d. the (tc_Index d)) ds)))"
proof -
  have pick: "concat (map (\<lambda>i. case f i of None \<Rightarrow> [] | Some buf \<Rightarrow> if P buf then [] else [h i buf]) is) =
      map (\<lambda>i. h i (b i)) (filter (\<lambda>i. \<not> P (b i)) is)"
    if "\<forall>i \<in> set is. f i = Some (b i)" for f :: "int \<Rightarrow> toolCallBuf option" and P b and h :: "int \<Rightarrow> toolCallBuf \<Rightarrow> OpenAIToolCall" and "is"
    using that by (induction "is") auto
  have "set (first_seen xs) = set xs" for xs :: "int list" by (simp add: first_seen_def)
  then show ?thesis
    unfolding finalize_def using accumulated [OF assms] by (subst pick [where b = "\<lambda>i. stitched i ds"]) auto
qed

text \<open>The hidden loop is bounded and keeps the conversation sound: at most five requests go upstream, at
  most one search is executed, and what it adds to the conversation are at most five turns in which the
  assistant calls tools and every call has its answer, in order.\<close>

theorem agent_loop_bounded:
  fixes g :: gateway and w :: agent_world and r :: request and s :: ToolSettings and complexity level :: string
    and m :: Model and p :: Provider and messages :: "OpenAIMessage list"
  defines "st \<equiv> agent_loop (agent_turn g w r s complexity m p level) maxAgentIterations 0 (start_state messages)"
  shows "length (ag_Sent st) \<le> 5 \<and> count_list (ag_Executed st) ''web_search'' \<le> 1 \<and>
    (\<exists>blocks. length blocks \<le> 5 \<and> ag_Messages st = messages @ concat (map answered_turn blocks) \<and>
       list_all (\<lambda>b. om_Role (fst b) = ''assistant'' \<and> om_ToolCalls (fst b) \<noteq> [] \<and>
         length (snd b) = length (om_ToolCalls (fst b))) blocks)"
proof -
  have "one_search (start_state messages)" by (simp add: one_search_def start_state_def)
  from agent.loop_searches [OF this, of g w r s complexity m p level maxAgentIterations 0]
  have "count_list (ag_Executed st) ''web_search'' \<le> 1" by (simp add: st_def one_search_def split: if_splits)
  moreover have "length (ag_Sent st) \<le> 5"
    using agent.loop_requests [of g w r s complexity m p level maxAgentIterations 0 "start_state messages"]
    by (simp add: st_def start_state_def maxAgentIterations_def)
  moreover obtain blocks where "length blocks \<le> maxAgentIterations" "\<forall>b \<in> set blocks. well_answered b"
    "ag_Messages st = ag_Messages (start_state messages) @ concat (map answered_turn blocks)"
    using agent.loop_answered unfolding st_def by blast
  ultimately show ?thesis by (auto simp: well_answered_def start_state_def maxAgentIterations_def list_all_iff)
qed

text \<open>A turn that the upstream breaks off counts as an answer. When every turn is answered with some lines,
  whatever they are and whether or not the terminal event is among them, the loop ends without an error
  and its row is a success, so that it is charged where every other streaming path records a failure.\<close>

theorem broken_turn_is_billed:
  assumes "\<forall>i req. \<exists>ls. aw_Turn w i req = TurnLines ls" "url_ok g (ChatCompletions (BaseURL p))"
  shows "successful (agent_bill g e m entry promptTokens
    (agent_loop (agent_turn g w r s complexity m p level) n i (start_state messages)))"
proof -
  have "streamError (agent_loop (agent_turn g w r s complexity m p level) n i st) = []" if "streamError st = []" for n i st
    using that
  proof (induction n arbitrary: i st)
    case (Suc n)
    obtain st' again where t: "agent_turn g w r s complexity m p level i st = (st', again)" by fastforce
    obtain t' frames sent where
      t': "streamOpenAITurn g r (aw_Turn w i) (writeClientDelta (aw_Created w) (aw_MessageID w) (m_Name m)) m p (ag_Messages st)
        (BuildToolSchemas s) level = (t', [], frames, sent)"
      using complete_turn [OF assms] by blast
    have "streamError st' = []"
      using t Suc.prems unfolding agent_turn_def t' prod.case Let_def
      by (auto simp: run_tools_effect(4) count_turn_def Let_def split: if_splits)
    then show ?case using t Suc.IH by simp
  qed simp
  then have "streamError (agent_loop (agent_turn g w r s complexity m p level) n i (start_state messages)) = []"
    by (simp add: start_state_def)
  then show ?thesis
    by (simp add: agent_bill_def Let_def with_latency_def price_for_status successful_def)
qed

section \<open>Concrete inputs\<close>

definition fragment :: "int \<Rightarrow> string \<Rightarrow> string \<Rightarrow> string \<Rightarrow> OpenAIToolCall" where
  "fragment i call name args =
     \<lparr> tc_Index = Some i, tc_ID = call, tc_Type = [], tc_Function = \<lparr> fc_Name = name, fc_Arguments = args \<rparr> \<rparr>"

definition interleaved :: "OpenAIToolCall list" where
  "interleaved = [fragment 1 ''c1'' ''web_search'' [], fragment 0 [] ''clock'' ''{'', fragment 1 [] [] ''{}'',
     fragment 0 [] [] ''}'', fragment 2 ''c2'' [] ''{}'']"

theorem tool_calls_stitched_witness:
  "map (\<lambda>c. (tc_ID c, fc_Name (tc_Function c), fc_Arguments (tc_Function c)))
     (finalize (\<lambda>i. ''z'') (add_fragments newToolCallAccumulator interleaved)) =
   [(''c1'', ''web_search'', ''{}''), (''call_z'', ''clock'', ''{}'')]"
proof -
  have "\<forall>d \<in> set interleaved. tc_Index d \<noteq> None" by (simp add: interleaved_def fragment_def)
  from tool_calls_stitched [OF this] show ?thesis
    by (simp add: interleaved_def fragment_def stitched_def fragments_of_def last_given_def first_seen_def)
qed

text \<open>An upstream whose answer breaks off after one piece of text.\<close>

definition broken_world :: agent_world where
  "broken_world = \<lparr> aw_Turn = (\<lambda>i req. TurnLines [''data: {\"choices\":[{\"index\":0,\"delta\":{\"content\":\"Hel\"}}]}'']),
     aw_Tools = \<lparr> quote_verb = (\<lambda>s. s), encode_query = (\<lambda>kv. []), tool_http = (\<lambda>r. None) \<rparr>,
     aw_CallID = (\<lambda>i c. []), aw_MessageID = ''m'', aw_Created = 0 \<rparr>"

theorem broken_turn_is_billed_witness:
  "successful (agent_bill plain_gateway plain_env plain_model example_entry 3
    (agent_loop (agent_turn plain_gateway broken_world chat_request tavily_only ''direct'' plain_model example_provider [])
       maxAgentIterations 0 (start_state [])))"
proof -
  have "\<forall>i req. \<exists>ls. aw_Turn broken_world i req = TurnLines ls"
    by (simp add: broken_world_def)
  moreover have "url_ok plain_gateway (ChatCompletions (BaseURL example_provider))" by (simp add: plain_gateway_def)
  ultimately show ?thesis by (rule broken_turn_is_billed)
qed

end
