(* ===== verification/Serve.thy ===== *)
theory Serve
  imports Agent
begin

text \<open>
  The two client handlers from their body to their answer (src/proxy/handler.go, \<open>serveOpenAIClient\<close> and
  \<open>serveAnthropicClient\<close>): decoding, the agent loop for the client that asked for it, the target, the
  admission and the call it is forwarded by.
\<close>

section \<open>The handlers\<close>

definition missing_model :: "'h reply" where
  "missing_model = Refuse 400 ''Model parameter is required'' ''invalid_request_error'' ''''"

definition invalid_body :: "arrival \<Rightarrow> string \<Rightarrow> 'h reply" where
  "invalid_body v body = Refuse 400 (''Invalid JSON body: '' @ av_JsonText v body) ''invalid_request_error'' ''''"

definition thinking_refusal :: "Model \<Rightarrow> int \<Rightarrow> string" where
  "thinking_refusal m allowed =
     ''Remaining balance covers only '' @ show_int allowed @ '' completion tokens on '' @ m_Name m @
     '', which runs in thinking mode and needs at least '' @ show_int reasoningVisibleFloor @
     '' to produce an answer. Top up, or use a non-thinking model.''"

definition openai_demand :: "gateway \<Rightarrow> Model \<Rightarrow> Provider \<Rightarrow> string \<Rightarrow> OpenAIRequest \<Rightarrow> demand" where
  "openai_demand g m p body q =
     (let prompt = estimateTokens (concat (map (\<lambda>msg. GetMessageContentString (show_value g) (om_Content msg)) (oq_Messages q)));
          (requested, clientSet) = requestedOpenAIOutput (oq_MaxCompletionTokens q) (oq_MaxTokens q) (Some m)
      in \<lparr> dm_Model = m, dm_Provider = p, dm_Name = oq_Model q, dm_Body = body, dm_Prompt = prompt,
           dm_LimitTokens = i64 (prompt + rateLimitOutputEstimate requested clientSet), dm_Output = requested \<rparr>)"

text \<open>What is forwarded of an OpenAI request that was admitted.\<close>

definition forward_openai ::
  "gateway \<Rightarrow> arrival \<Rightarrow> header_list \<Rightarrow> VirtualKey \<Rightarrow> OpenAIRequest \<Rightarrow> string \<Rightarrow> demand \<Rightarrow> admitted \<Rightarrow> served" where
  "forward_openai g v hs key q thinkingLevel d admission =
     (case admission of (rl, lease, (p, anthropic), allowed, climit, budget) \<Rightarrow>
        (let m = dm_Model d; reduced = (allowed < dm_Output d);
             clientSet = snd (requestedOpenAIOutput (oq_MaxCompletionTokens q) (oq_MaxTokens q) (Some m))
         in if reduced \<and> allowed < reasoningVisibleFloor \<and> thinkingWillBeEnabled (Some m) thinkingLevel
            then stop hs rl [failure_row g v key d 402 (av_BudgetText v (BudgetExceededError climit (Available budget))) budget]
                   (Some lease) (Refuse 402 (thinking_refusal m allowed) ''budget_exceeded'' '''')
            else
              (case (if clientSet \<or> reduced then rewriteOpenAIOutputLimit (marshal_value g) (dm_Body d) allowed
                     else Some (dm_Body d)) of
                 None \<Rightarrow> stop hs rl [] (Some lease) (invalid_body v (dm_Body d))
               | Some body \<Rightarrow>
                   (let hs = hs @ (if reduced
                          then [(''X-Muhiya-Output-Limit'', show_int allowed), (''X-Muhiya-Output-Limit-Reason'', ''budget'')] else []);
                        q = q \<lparr> oq_Model := m_Name m, oq_MaxTokens := Some allowed, oq_MaxCompletionTokens := None \<rparr>;
                        entry = admitted_entry g v key d thinkingLevel (oq_Stream q) climit budget;
                        out = (if anthropic then proxyOpenAIToAnthropic g (av_Call v) q m p entry
                               else proxyOpenAIToOpenAI g (av_Call v) body m p entry)
                    in stop hs rl (o_Rows out) (Some lease) (Serve out)))))"

text \<open>The agent as the gateway is configured: its flag, its settings and what it runs against.\<close>

record agent_setup =
  as_Flag :: string
  as_Settings :: ToolSettings
  as_World :: agent_world
  as_QueryText :: "string \<Rightarrow> string"
  as_Skill :: string
  as_RequestID :: string

definition serveOpenAIClient ::
  "gateway \<Rightarrow> agent_setup \<Rightarrow> arrival \<Rightarrow> server \<Rightarrow> string \<Rightarrow> VirtualKey \<Rightarrow> served option" where
  "serveOpenAIClient g ag v sv body key =
     (case unmarshal zero_openai_request dec_openai_request body of
        (q, bad) \<Rightarrow>
          if bad then Some (stop [] (sv_Limiter sv) [] None (invalid_body v body))
          else if oq_Model q = [] then Some (stop [] (sv_Limiter sv) [] None missing_model)
          else
            (case (if shouldRunAgentLoop (as_Flag ag) (av_Request v) q (as_Settings ag)
                   then serveMuhiyaAgent g (as_World ag) v sv (as_QueryText ag) (as_Skill ag) (as_RequestID ag) key (as_Settings ag) q
                   else Some None) of
               None \<Rightarrow> None
             | Some (Some sd) \<Rightarrow> Some sd
             | Some None \<Rightarrow>
                 (let thinkingLevel = ResolveThinkingLevel (Header_Get (av_Request v) ''X-Muhiya-Effort'') (oq_ReasoningEffort q)
                  in case resolve_target g v sv (oq_Model q) of
                       Inl (hs, refusal) \<Rightarrow> Some (stop hs (sv_Limiter sv) [] None refusal)
                     | Inr (hs, m, p) \<Rightarrow>
                         (let d = openai_demand g m p body q
                          in case admit_generation g v sv hs key d of
                               None \<Rightarrow> None
                             | Some (Inl sd) \<Rightarrow> Some sd
                             | Some (Inr admission) \<Rightarrow> Some (forward_openai g v hs key q thinkingLevel d admission)))))"

definition anthropic_demand :: "Model \<Rightarrow> Provider \<Rightarrow> string \<Rightarrow> AnthropicRequest \<Rightarrow> demand" where
  "anthropic_demand m p body q =
     (let prompt = estimateTokens (System q @ concat (map (\<lambda>msg. concat (map (\<lambda>b. ac_Text b @ ac_Thinking b) (am_Content msg)))
                     (aq_Messages q)));
          requested = boundedOutputLimit (aq_MaxTokens q) (Some m)
      in \<lparr> dm_Model = m, dm_Provider = p, dm_Name = aq_Model q, dm_Body = body, dm_Prompt = prompt,
           dm_LimitTokens = i64 (prompt + requested), dm_Output = requested \<rparr>)"

definition forward_anthropic ::
  "gateway \<Rightarrow> arrival \<Rightarrow> header_list \<Rightarrow> VirtualKey \<Rightarrow> AnthropicRequest \<Rightarrow> string \<Rightarrow> demand \<Rightarrow> admitted \<Rightarrow> served" where
  "forward_anthropic g v hs key q thinkingLevel d admission =
     (case admission of (rl, lease, (p, anthropic), allowed, climit, budget) \<Rightarrow>
        (let m = dm_Model d; q = q \<lparr> aq_Model := m_Name m, aq_MaxTokens := allowed \<rparr>;
             entry = admitted_entry g v key d thinkingLevel (aq_Stream q) climit budget;
             out = (if anthropic
                    then proxyAnthropicToAnthropic g (av_Call v) (marshal_value g (JObj (anthropic_body q))) q m p entry
                    else proxyAnthropicToOpenAI g (av_Call v) q m p entry)
         in stop hs rl (o_Rows out) (Some lease) (Serve out)))"

definition serveAnthropicClient ::
  "gateway \<Rightarrow> arrival \<Rightarrow> server \<Rightarrow> string \<Rightarrow> VirtualKey \<Rightarrow> served option" where
  "serveAnthropicClient g v sv body key =
     (case unmarshal zero_anthropic_request dec_anthropic_request body of
        (q, bad) \<Rightarrow>
          if bad then Some (stop [] (sv_Limiter sv) [] None (invalid_body v body))
          else if aq_Model q = [] then Some (stop [] (sv_Limiter sv) [] None missing_model)
          else
            (let thinkingLevel = ResolveThinkingLevel (Header_Get (av_Request v) ''X-Muhiya-Effort'') (aq_ReasoningEffort q)
             in case resolve_target g v sv (aq_Model q) of
                  Inl (hs, refusal) \<Rightarrow> Some (stop hs (sv_Limiter sv) [] None refusal)
                | Inr (hs, m, p) \<Rightarrow>
                    (let d = anthropic_demand m p body q
                     in case admit_generation g v sv hs key d of
                          None \<Rightarrow> None
                        | Some (Inl sd) \<Rightarrow> Some sd
                        | Some (Inr admission) \<Rightarrow> Some (forward_anthropic g v hs key q thinkingLevel d admission))))"

section \<open>What every request leaves\<close>

text \<open>The output limits of the models are positive and small enough to be multiplied by the turns of a
  loop.\<close>

definition limits_ok :: "server \<Rightarrow> bool" where
  "limits_ok sv \<longleftrightarrow>
     (\<forall>name m. GetModelByName (sv_Models sv) name = Some m \<longrightarrow>
        0 < m_MaxOutputTokens m \<and> m_MaxOutputTokens m * int maxAgentIterations < MaxInt64)"

text \<open>A refusal leaves at most one row, of the user, that costs nothing; an answer leaves one row of the
  user, which may cost what the budget had at admission.\<close>

definition refused_free :: "VirtualKey \<Rightarrow> served \<Rightarrow> bool" where
  "refused_free key sd \<longleftrightarrow>
     (\<forall>out. sd_Reply sd \<noteq> Serve out) \<and> length (sd_Rows sd) \<le> 1 \<and>
     (\<forall>row \<in> set (sd_Rows sd). UserID row = vk_UserID key \<and> ChargeCeilingNanoUSD row = 0 \<and> CostNanoUSD row = 0 \<and>
        Cost row = FFin 0)"

definition answered_within :: "arrival \<Rightarrow> server \<Rightarrow> VirtualKey \<Rightarrow> served \<Rightarrow> bool" where
  "answered_within v sv key sd \<longleftrightarrow>
     (\<exists>out row a. sd_Reply sd = Serve out \<and> sd_Rows sd = [row] \<and> UserID row = vk_UserID key \<and>
        budgetAvailability (sv_Store sv) (av_DbNow v) (av_Now v) (vk_UserID key) = Inr a \<and>
        ChargeCeilingNanoUSD row \<le> Available a)"

definition accounted :: "arrival \<Rightarrow> server \<Rightarrow> VirtualKey \<Rightarrow> served \<Rightarrow> bool" where
  "accounted v sv key sd \<longleftrightarrow> refused_free key sd \<or> answered_within v sv key sd"

lemma stop_fields [simp]:
  "sd_Reply (stop hs rl rows lease reply) = reply" "sd_Rows (stop hs rl rows lease reply) = rows"
  "sd_Held (stop hs rl rows lease reply) = lease" "sd_Headers (stop hs rl rows lease reply) = hs"
  by (simp_all add: stop_def)

lemma failure_row_free:
  "UserID (saveAdmissionFailure g v key f) = vk_UserID key" "ChargeCeilingNanoUSD (saveAdmissionFailure g v key f) = 0"
  "CostNanoUSD (saveAdmissionFailure g v key f) = 0" "Cost (saveAdmissionFailure g v key f) = FFin 0"
  by (simp_all add: saveAdmissionFailure_def applyBudgetWindow_def applyRequestContext_def zero_log_def Let_def)

lemma refusals_are_replies:
  "serviceUnavailable \<noteq> Serve out" "internalErrorResponse \<noteq> Serve out" "rejectDeprecatedRouterModel name \<noteq> Serve out"
  "writeBudgetError msg e \<noteq> Serve out" "writeLimitError kind msg \<noteq> Serve out" "missing_model \<noteq> Serve out"
  "invalid_body v body \<noteq> Serve out"
  by (simp_all add: serviceUnavailable_def internalErrorResponse_def rejectDeprecatedRouterModel_def writeBudgetError_def
      writeLimitError_def missing_model_def invalid_body_def split: LimitKind.split)

lemma stop_free:
  "\<forall>out. reply \<noteq> Serve out \<Longrightarrow> refused_free key (stop hs rl [] lease reply)"
  "\<forall>out. reply \<noteq> Serve out \<Longrightarrow> refused_free key (stop hs rl [saveAdmissionFailure g v key f] lease reply)"
  by (simp_all add: refused_free_def failure_row_free)

lemma resolve_refusal: "resolve_target g v sv name = Inl (hs, refusal) \<Longrightarrow> refusal \<noteq> Serve out"
  by (auto simp: resolve_target_def refusals_are_replies Let_def split: if_splits option.splits resolution.splits)

lemma boundedOutputLimit_range:
  assumes "0 < m_MaxOutputTokens m"
  shows "0 < boundedOutputLimit n (Some m)" "boundedOutputLimit n (Some m) \<le> m_MaxOutputTokens m"
  using assms by (simp_all add: boundedOutputLimit_def Let_def)

text \<open>An admission holds what the budget has.\<close>

lemma admit_accounted:
  assumes "admit_generation g v sv hs key d = Some res" "0 \<le> dm_Output d" "dm_Output d < MaxInt64"
  shows "case res of
      Inl sd \<Rightarrow> refused_free key sd
    | Inr (rl, lease, target, allowed, climit, budget) \<Rightarrow>
        budgetAvailability (sv_Store sv) (av_DbNow v) (av_Now v) (vk_UserID key) = Inr budget \<and> climit \<le> Available budget"
proof -
  have sound: "budgetAvailability (sv_Store sv) (av_DbNow v) (av_Now v) (vk_UserID key) = Inr budget \<and> climit \<le> Available budget"
    if "affordableGeneration (snapshot_text g) (address_of g) (sv_Store sv) (av_DbNow v) (av_Now v) (quote_request v key d) =
      Some (Inr (allowed, climit, budget))" for allowed climit budget
    using affordableGeneration_sound [of "quote_request v key d" "snapshot_text g" "address_of g" "sv_Store sv" "av_DbNow v" "av_Now v"]
      assms(2,3) that
    by (auto simp: quote_request_def admission_sound_def)
  show ?thesis
    using assms(1) unfolding admit_generation_def Let_def failure_row_def
    by (auto simp: stop_free refusals_are_replies sound split: prod.splits option.splits acquire_result.splits sum.splits)
qed

lemma admit_total:
  assumes "0 \<le> dm_Output d" "dm_Output d < MaxInt64"
  shows "\<exists>res. admit_generation g v sv hs key d = Some res"
proof -
  obtain res where "affordableGeneration (snapshot_text g) (address_of g) (sv_Store sv) (av_DbNow v) (av_Now v) (quote_request v key d) =
      Some res"
    using affordableGeneration_sound [of "quote_request v key d"] assms by (fastforce simp: quote_request_def)
  then show ?thesis
    unfolding admit_generation_def Let_def by (auto split: prod.split option.split acquire_result.split sum.split)
qed

lemma admitted_entry_fields:
  "UserID (admitted_entry g v key d level streamed climit budget) = vk_UserID key"
  "ChargeCeilingNanoUSD (admitted_entry g v key d level streamed climit budget) = climit"
  by (simp_all add: admitted_entry_def applyBudgetWindow_def applyRequestContext_def Let_def)

lemma answer_accounted:
  assumes "one_row entry out" "UserID entry = vk_UserID key"
    and "budgetAvailability (sv_Store sv) (av_DbNow v) (av_Now v) (vk_UserID key) = Inr a" "ChargeCeilingNanoUSD entry \<le> Available a"
  shows "answered_within v sv key (stop hs rl (o_Rows out) lease (Serve out))"
  using assms by (auto simp: answered_within_def one_row_def row_of_def)

lemma calls_one_row:
  "one_row entry (proxyOpenAIToOpenAI g e origBody m p entry)" "one_row entry (proxyOpenAIToAnthropic g e oq m p entry)"
  "one_row entry (proxyAnthropicToOpenAI g e aq m p entry)" "one_row entry (proxyAnthropicToAnthropic g e origBody aq m p entry)"
  by (rule openai_openai.one openai_anthropic.one anthropic_openai.one anthropic_anthropic.one)+

lemma forwarded_within:
  fixes g :: gateway and e :: call_env and d :: demand
  assumes "budgetAvailability (sv_Store sv) (av_DbNow v) (av_Now v) (vk_UserID key) = Inr budget" "climit \<le> Available budget"
  defines "entry \<equiv> \<lambda>level streamed. admitted_entry g v key d level streamed climit budget"
  shows "answered_within v sv key (stop hs rl (o_Rows (proxyOpenAIToOpenAI g e origBody m p (entry level streamed))) lease
      (Serve (proxyOpenAIToOpenAI g e origBody m p (entry level streamed))))"
    "answered_within v sv key (stop hs rl (o_Rows (proxyOpenAIToAnthropic g e oq m p (entry level streamed))) lease
      (Serve (proxyOpenAIToAnthropic g e oq m p (entry level streamed))))"
    "answered_within v sv key (stop hs rl (o_Rows (proxyAnthropicToOpenAI g e aq m p (entry level streamed))) lease
      (Serve (proxyAnthropicToOpenAI g e aq m p (entry level streamed))))"
    "answered_within v sv key (stop hs rl (o_Rows (proxyAnthropicToAnthropic g e origBody aq m p (entry level streamed))) lease
      (Serve (proxyAnthropicToAnthropic g e origBody aq m p (entry level streamed))))"
  by (rule answer_accounted [OF calls_one_row(1) _ assms(1)] answer_accounted [OF calls_one_row(2) _ assms(1)]
      answer_accounted [OF calls_one_row(3) _ assms(1)] answer_accounted [OF calls_one_row(4) _ assms(1)],
      use assms(2) in \<open>simp_all add: entry_def admitted_entry_fields\<close>)+

lemma forward_accounted:
  assumes "budgetAvailability (sv_Store sv) (av_DbNow v) (av_Now v) (vk_UserID key) = Inr budget" "climit \<le> Available budget"
  shows "accounted v sv key (forward_openai g v hs key oq level d (rl, lease, (p, anthropic), allowed, climit, budget))"
    "accounted v sv key (forward_anthropic g v hs key aq level d (rl, lease, (p, anthropic), allowed, climit, budget))"
  using forwarded_within [OF assms]
  unfolding forward_openai_def forward_anthropic_def accounted_def Let_def failure_row_def prod.case
  by (simp_all add: stop_free refusals_are_replies split: option.split)

lemma agent_bill_row: "row_of entry (agent_bill g e m entry promptTokens st)"
proof -
  have "row_of entry (with_latency n e2)" if "row_of entry e2" for n e2 using that by (simp add: with_latency_def row_of_def)
  moreover have "row_of entry (price_for g e m e2 u)" if "row_of entry e2" for e2 u
    using that price_for_row row_of_trans by blast
  ultimately show ?thesis by (simp add: agent_bill_def Let_def row_of_def)
qed

lemma agent_quote_range:
  assumes "0 < m_MaxOutputTokens m" "m_MaxOutputTokens m * int maxAgentIterations < MaxInt64"
  shows "0 \<le> i64 (boundedOutputLimit n (Some m) * int maxAgentIterations)"
    "i64 (boundedOutputLimit n (Some m) * int maxAgentIterations) < MaxInt64"
proof -
  have "0 < boundedOutputLimit n (Some m) * int maxAgentIterations"
    "boundedOutputLimit n (Some m) * int maxAgentIterations \<le> m_MaxOutputTokens m * int maxAgentIterations"
    using boundedOutputLimit_range [OF assms(1)] by (simp_all add: maxAgentIterations_def)
  then have "0 < boundedOutputLimit n (Some m) * int maxAgentIterations \<and>
      boundedOutputLimit n (Some m) * int maxAgentIterations < MaxInt64 \<and>
      i64 (boundedOutputLimit n (Some m) * int maxAgentIterations) = boundedOutputLimit n (Some m) * int maxAgentIterations"
    using assms(2) by (auto intro!: i64_id simp: in64_def MinInt64_def)
  then show "0 \<le> i64 (boundedOutputLimit n (Some m) * int maxAgentIterations)"
    "i64 (boundedOutputLimit n (Some m) * int maxAgentIterations) < MaxInt64" by simp_all
qed

lemma agent_quote:
  assumes "0 < m_MaxOutputTokens m" "m_MaxOutputTokens m * int maxAgentIterations < MaxInt64"
    and "gq_requestedOutput q = i64 (boundedOutputLimit n (Some m) * int maxAgentIterations)"
  shows "\<exists>res. affordableGeneration snapshot address db dbnow now q = Some res \<and>
    (\<forall>allowed climit a. res = Inr (allowed, climit, a) \<longrightarrow>
       budgetAvailability db dbnow now (gq_userID q) = Inr a \<and> climit \<le> Available a)"
proof -
  have "0 \<le> gq_requestedOutput q" "gq_requestedOutput q < MaxInt64"
    using agent_quote_range [OF assms(1,2)] assms(3) by simp_all
  from affordableGeneration_sound [OF this] show ?thesis by (fastforce simp: admission_sound_def)
qed

lemma resolved_limits:
  assumes "limits_ok sv"
  shows "resolveAgentModel v sv query_text q = Inr (m, p) \<Longrightarrow>
      0 < m_MaxOutputTokens m \<and> m_MaxOutputTokens m * int maxAgentIterations < MaxInt64"
    "resolve_target g v sv name = Inr (hs, m, p) \<Longrightarrow>
      0 < m_MaxOutputTokens m \<and> m_MaxOutputTokens m * int maxAgentIterations < MaxInt64"
  using assms
  by (auto simp: limits_ok_def resolveAgentModel_def resolve_target_def Let_def split: if_splits option.splits resolution.splits)

lemma demand_range:
  assumes "0 < m_MaxOutputTokens m \<and> m_MaxOutputTokens m * int maxAgentIterations < MaxInt64"
  shows "0 \<le> dm_Output (openai_demand g m p body oq)" "dm_Output (openai_demand g m p body oq) < MaxInt64"
    "0 \<le> dm_Output (anthropic_demand m p body aq)" "dm_Output (anthropic_demand m p body aq) < MaxInt64"
proof -
  have limit: "m_MaxOutputTokens m < MaxInt64" using assms by (simp add: maxAgentIterations_def)
  have "0 \<le> boundedOutputLimit n (Some m) \<and> boundedOutputLimit n (Some m) < MaxInt64" for n
    using boundedOutputLimit_range [of m n] assms limit by linarith
  then show "0 \<le> dm_Output (openai_demand g m p body oq)" "dm_Output (openai_demand g m p body oq) < MaxInt64"
    "0 \<le> dm_Output (anthropic_demand m p body aq)" "dm_Output (anthropic_demand m p body aq) < MaxInt64"
    by (simp_all add: openai_demand_def anthropic_demand_def requestedOpenAIOutput_def Let_def)
qed

lemma agent_accounted:
  assumes "limits_ok sv"
  shows "\<exists>res. serveMuhiyaAgent g w v sv query_text skill requestID key s q = Some res \<and>
    (\<forall>sd. res = Some sd \<longrightarrow> accounted v sv key sd)"
proof (cases "resolveAgentModel v sv query_text q")
  case (Inl e)
  then show ?thesis by (simp add: serveMuhiyaAgent_def accounted_def stop_free Let_def)
next
  case (Inr mp)
  obtain m p where mp: "mp = (m, p)" by fastforce
  note limits = resolved_limits(1) [OF assms Inr [unfolded mp]]
  define n where "n = (case oq_MaxCompletionTokens q of Some n \<Rightarrow> n | None \<Rightarrow> (case oq_MaxTokens q of Some n \<Rightarrow> n | None \<Rightarrow> 0))"
  define prompt where "prompt = estimateTokens (concat (map (\<lambda>msg. GetMessageContentString (show_value g) (om_Content msg)) (oq_Messages q)))"
  define quote where "quote = \<lparr> gq_userID = vk_UserID key, gq_model = Some m,
    gq_inputUpperBound = conservativeInputTokenBound (marshal_value g (JObj (openai_body q))) prompt (Some m),
    gq_requestedOutput = i64 (boundedOutputLimit n (Some m) * int maxAgentIterations), gq_pricedAt = c_PricedAt (av_Call v) \<rparr>"
  have gq: "gq_requestedOutput quote = i64 (boundedOutputLimit n (Some m) * int maxAgentIterations)" "gq_userID quote = vk_UserID key"
    by (simp_all add: quote_def)
  obtain res where res: "affordableGeneration (snapshot_text g) (address_of g) (sv_Store sv) (av_DbNow v) (av_Now v) quote = Some res"
    "\<forall>allowed climit a. res = Inr (allowed, climit, a) \<longrightarrow>
       budgetAvailability (sv_Store sv) (av_DbNow v) (av_Now v) (vk_UserID key) = Inr a \<and> climit \<le> Available a"
    using agent_quote [OF conjunct1 [OF limits] conjunct2 [OF limits] gq(1), of "snapshot_text g" "address_of g" "sv_Store sv"
      "av_DbNow v" "av_Now v"] gq(2) by auto
  have req: "requestedOpenAIOutput (oq_MaxCompletionTokens q) (oq_MaxTokens q) (Some m) = (boundedOutputLimit n (Some m), n > 0)"
    by (simp add: requestedOpenAIOutput_def n_def Let_def)
  have row: "answered_within v sv key (stop hs rl [agent_bill g e m entry t st] lease (Serve out))"
    if "res = Inr (allowed, climit, a)" "UserID entry = vk_UserID key" "ChargeCeilingNanoUSD entry = climit"
    for hs rl e entry t st lease out allowed climit a
    using res(2) that agent_bill_row [of entry g e m t st] by (auto simp: answered_within_def row_of_def)
  show ?thesis
    unfolding serveMuhiyaAgent_def Let_def Inr mp sum.case prod.case req prompt_def [symmetric] quote_def [symmetric] res(1) option.case
    by (auto simp: accounted_def stop_free refusals_are_replies row applyBudgetWindow_def
        split: prod.split option.split acquire_result.split sum.split)
qed

lemma free_row_saved:
  assumes "ChargeCeilingNanoUSD row = 0" "CostNanoUSD row = 0" "Cost row = FFin 0" "\<not> requestLogExists db (rl_ID row)"
  shows "request_logs (fst (saveRequestLog dbnow row (db, ob))) = request_logs db \<or>
    (\<exists>row'. request_logs (fst (saveRequestLog dbnow row (db, ob))) = request_logs db @ [row'] \<and>
       UserID row' = UserID row \<and> CostNanoUSD row' = 0)"
proof (cases "InsertRequestLog db row")
  case (Inl e)
  then show ?thesis using assms(1) by (simp add: saveRequestLog_def)
next
  case (Inr db')
  obtain e where e: "normalizeRequestLogMoney row = Inr e" "insertRequestLog db e = Inr db'"
    using Inr by (auto simp: InsertRequestLog_def ebind_eq_Inr)
  note n = normalizeRequestLogMoney_zero [OF e(1) assms(2,3)]
  have "\<not> requestLogExists db (rl_ID e)" using assms(4) n by simp
  note i = insertRequestLog_InrD [OF e(2) this]
  show ?thesis using Inr assms(1) i(1) n by (intro disjI2 exI [of _ "log_row e"]) (simp add: saveRequestLog_def)
qed

lemma charged_row_saved:
  assumes "0 < ChargeCeilingNanoUSD row" "\<not> requestLogExists db (rl_ID row)"
  shows "request_logs (fst (saveRequestLog dbnow row (db, ob))) = request_logs db \<or>
    (\<exists>row'. request_logs (fst (saveRequestLog dbnow row (db, ob))) = request_logs db @ [row'] \<and>
       UserID row' = UserID row \<and> 0 \<le> CostNanoUSD row' \<and> CostNanoUSD row' \<le> ChargeCeilingNanoUSD row)"
proof (cases "SettleUsageAndLog db dbnow row")
  case (Inl e)
  then show ?thesis using assms(1) by (simp add: saveRequestLog_def)
next
  case (Inr db')
  obtain f charge where f: "normalizeSettledEntry row = Inr f"
    and ins: "insertRequestLog (deductNanoFromTopups db dbnow (UserID f) charge) f = Inr db'"
    by (rule SettleUsageAndLog_InrE [OF Inr assms(2)])
  note n = normalizeSettledEntry_fields [OF f]
  have "\<not> requestLogExists (deductNanoFromTopups db dbnow (UserID f) charge) (rl_ID f)"
    using assms(2) n(1) by (simp add: requestLogExists_def)
  note i = insertRequestLog_InrD [OF ins this]
  show ?thesis using Inr assms(1) i n by (intro disjI2 exI [of _ "log_row f"]) (simp add: saveRequestLog_def)
qed

text \<open>What both clients promise.\<close>

locale accountable =
  fixes serve :: "gateway \<Rightarrow> arrival \<Rightarrow> server \<Rightarrow> string \<Rightarrow> VirtualKey \<Rightarrow> served option"
  assumes serves: "limits_ok sv \<Longrightarrow> \<exists>sd. serve g v sv body key = Some sd \<and> accounted v sv key sd"
begin

text \<open>What is saved of a request, whenever it is saved: nothing that was refused costs, and an answer costs
  at most what the budget had.\<close>

lemma saved:
  assumes "limits_ok sv" "serve g v sv body key = Some sd"
    and "\<forall>row \<in> set (sd_Rows sd). \<not> requestLogExists db (rl_ID row)"
    and "\<And>out row. sd_Reply sd = Serve out \<Longrightarrow> row \<in> set (sd_Rows sd) \<Longrightarrow> 0 < ChargeCeilingNanoUSD row"
  shows "length (sd_Rows sd) \<le> 1 \<and>
    (request_logs (fst (fold (saveRequestLog dbnow) (sd_Rows sd) (db, ob))) = request_logs db \<or>
     (\<exists>row. request_logs (fst (fold (saveRequestLog dbnow) (sd_Rows sd) (db, ob))) = request_logs db @ [row] \<and>
        UserID row = vk_UserID key \<and> 0 \<le> CostNanoUSD row \<and>
        (case sd_Reply sd of
           Refuse s msg t ra \<Rightarrow> CostNanoUSD row = 0
         | Serve out \<Rightarrow> \<exists>a. budgetAvailability (sv_Store sv) (av_DbNow v) (av_Now v) (vk_UserID key) = Inr a \<and>
             CostNanoUSD row \<le> Available a)))"
proof -
  have "accounted v sv key sd" using serves [OF assms(1), of g v body key] assms(2) by auto
  then consider (refused) "refused_free key sd" | (answered) "answered_within v sv key sd" by (auto simp: accounted_def)
  then show ?thesis
  proof cases
    case refused
    then obtain s msg t ra where reply: "sd_Reply sd = Refuse s msg t ra" by (cases "sd_Reply sd") (auto simp: refused_free_def)
    consider "sd_Rows sd = []" | row where "sd_Rows sd = [row]"
      using refused by (cases "sd_Rows sd") (auto simp: refused_free_def)
    then show ?thesis
    proof cases
      case (2 row)
      then have "UserID row = vk_UserID key" "ChargeCeilingNanoUSD row = 0" "CostNanoUSD row = 0" "Cost row = FFin 0"
        using refused by (auto simp: refused_free_def)
      with free_row_saved [OF this(2-4), of db dbnow ob] 2 assms(3) reply show ?thesis by fastforce
    qed simp
  next
    case answered
    then obtain out row a where a: "sd_Reply sd = Serve out" "sd_Rows sd = [row]" "UserID row = vk_UserID key"
      "budgetAvailability (sv_Store sv) (av_DbNow v) (av_Now v) (vk_UserID key) = Inr a" "ChargeCeilingNanoUSD row \<le> Available a"
      by (auto simp: answered_within_def)
    with charged_row_saved [of row db dbnow ob] assms(3,4) show ?thesis by fastforce
  qed
qed

end

lemma client_accounted:
  assumes "limits_ok sv"
  shows "\<exists>sd. serveOpenAIClient g ag v sv body key = Some sd \<and> accounted v sv key sd"
    "\<exists>sd. serveAnthropicClient g v sv body key = Some sd \<and> accounted v sv key sd"
proof -
  have stopped: "accounted v sv key (stop hs rl [] lease (missing_model))"
    "accounted v sv key (stop hs rl [] lease (invalid_body v b))" for hs rl lease b
    by (simp_all add: accounted_def stop_free refusals_are_replies)
  have unresolved: "accounted v sv key (stop hs rl [] lease refusal)" if "resolve_target g v sv name = Inl (hs', refusal)"
    for hs hs' rl lease refusal name
    using resolve_refusal [OF that] by (simp add: accounted_def stop_free)
  have admitted: "\<exists>sd. (case admit_generation g v sv hs key d of None \<Rightarrow> None | Some (Inl sd) \<Rightarrow> Some sd
        | Some (Inr admission) \<Rightarrow> Some (forward admission)) = Some sd \<and> accounted v sv key sd"
    if range: "0 \<le> dm_Output d" "dm_Output d < MaxInt64"
      and forward: "\<And>rl lease p anthropic allowed climit budget.
        budgetAvailability (sv_Store sv) (av_DbNow v) (av_Now v) (vk_UserID key) = Inr budget \<Longrightarrow> climit \<le> Available budget \<Longrightarrow>
        accounted v sv key (forward (rl, lease, (p, anthropic), allowed, climit, budget))"
    for hs d and forward :: "admitted \<Rightarrow> served"
  proof -
    obtain res where res: "admit_generation g v sv hs key d = Some res" using admit_total [OF range] by blast
    show ?thesis using admit_accounted [OF res range] forward res
      by (auto simp: accounted_def split: sum.splits prod.splits)
  qed
  define aq where "aq = fst (unmarshal zero_anthropic_request dec_anthropic_request body)"
  have "\<exists>sd. (case resolve_target g v sv (aq_Model aq) of
        Inl (hs, refusal) \<Rightarrow> Some (stop hs (sv_Limiter sv) [] None refusal)
      | Inr (hs, m, p) \<Rightarrow>
          (case admit_generation g v sv hs key (anthropic_demand m p body aq) of
             None \<Rightarrow> None | Some (Inl sd) \<Rightarrow> Some sd
           | Some (Inr admission) \<Rightarrow> Some (forward_anthropic g v hs key aq level (anthropic_demand m p body aq) admission))) = Some sd \<and>
      accounted v sv key sd" for level
  proof (cases "resolve_target g v sv (aq_Model aq)")
    case (Inr t)
    obtain hs m p where t: "t = (hs, m, p)" by (metis prod_cases3)
    note limits = resolved_limits(2) [OF assms Inr [unfolded t]]
    show ?thesis
      unfolding Inr t sum.case prod.case by (rule admitted, rule demand_range(3) [OF limits], rule demand_range(4) [OF limits], rule forward_accounted(2))
  qed (auto simp: unresolved)
  then show "\<exists>sd. serveAnthropicClient g v sv body key = Some sd \<and> accounted v sv key sd"
    unfolding serveAnthropicClient_def Let_def split_beta aq_def [symmetric] by (simp add: stopped split_beta)
  define oq where "oq = fst (unmarshal zero_openai_request dec_openai_request body)"
  obtain res where agent: "serveMuhiyaAgent g (as_World ag) v sv (as_QueryText ag) (as_Skill ag) (as_RequestID ag) key (as_Settings ag) oq
      = Some res" "\<forall>sd. res = Some sd \<longrightarrow> accounted v sv key sd"
    using agent_accounted [OF assms] by blast
  have "\<exists>sd. (case resolve_target g v sv (oq_Model oq) of
        Inl (hs, refusal) \<Rightarrow> Some (stop hs (sv_Limiter sv) [] None refusal)
      | Inr (hs, m, p) \<Rightarrow>
          (case admit_generation g v sv hs key (openai_demand g m p body oq) of
             None \<Rightarrow> None | Some (Inl sd) \<Rightarrow> Some sd
           | Some (Inr admission) \<Rightarrow> Some (forward_openai g v hs key oq level (openai_demand g m p body oq) admission))) = Some sd \<and>
      accounted v sv key sd" for level
  proof (cases "resolve_target g v sv (oq_Model oq)")
    case (Inr t)
    obtain hs m p where t: "t = (hs, m, p)" by (metis prod_cases3)
    note limits = resolved_limits(2) [OF assms Inr [unfolded t]]
    show ?thesis
      unfolding Inr t sum.case prod.case by (rule admitted, rule demand_range(1) [OF limits], rule demand_range(2) [OF limits], rule forward_accounted(1))
  qed (auto simp: unresolved)
  then show "\<exists>sd. serveOpenAIClient g ag v sv body key = Some sd \<and> accounted v sv key sd"
    using agent unfolding serveOpenAIClient_def Let_def split_beta oq_def [symmetric]
    by (cases res) (simp_all add: stopped split_beta)
qed

interpretation openai_client: accountable "\<lambda>g. serveOpenAIClient g ag" for ag
  by unfold_locales (rule client_accounted)

interpretation anthropic_client: accountable serveAnthropicClient
  by unfold_locales (rule client_accounted)

section \<open>Who is served\<close>

text \<open>A request that goes to a provider: to its address, with its key, in the protocol of the address.\<close>

definition addressed :: "Provider \<Rightarrow> upstream_request \<Rightarrow> bool" where
  "addressed p req \<longleftrightarrow>
     (if BaseURL p \<noteq> []
      then ur_URL req = ChatCompletions (BaseURL p) \<and> (''Authorization'', ''Bearer '' @ APIKey p) \<in> set (ur_Header req)
      else ur_URL req = messages_url (AnthropicBaseURL p) \<and> (''x-api-key'', APIKey p) \<in> set (ur_Header req))"

lemma call_addressed:
  "BaseURL p \<noteq> [] \<Longrightarrow> addressed p (openai_call p r b)"
  "BaseURL p = [] \<Longrightarrow> addressed p (anthropic_call (p \<lparr> BaseURL := AnthropicBaseURL p \<rparr>) b)"
  by (simp_all add: addressed_def openai_call_def anthropic_call_def)

lemma send_once_sent:
  assumes "\<And>a. o_Sent (k a) = [req]"
  shows "set (o_Sent (send_once g e lost req entry k)) \<subseteq> {req}"
  using assms by (auto simp: send_once_def logAndWriteError_def logFailedUpstream_def Let_def split: upstream_result.split)

lemma send_once_range:
  fixes f :: "body \<Rightarrow> upstream_request"
  assumes "\<And>a. o_Sent (k a) = [f b]"
  shows "set (o_Sent (send_once g e lost (f b) entry k)) \<subseteq> range f"
  using send_once_sent [of k "f b" g e lost entry] assms by auto

text \<open>What each call sends is a call to its provider.\<close>

lemma calls_sent:
  "set (o_Sent (proxyOpenAIToOpenAI g e origBody m p entry)) \<subseteq> range (openai_call p (c_Request e))"
  "set (o_Sent (proxyOpenAIToAnthropic g e oq m p entry)) \<subseteq> range (anthropic_call p)"
  "set (o_Sent (proxyAnthropicToOpenAI g e aq m p entry)) \<subseteq> range (openai_call p (c_Request e))"
  "set (o_Sent (proxyAnthropicToAnthropic g e origBody aq m p entry)) \<subseteq> range (anthropic_call p)"
proof -
  show "set (o_Sent (proxyOpenAIToOpenAI g e origBody m p entry)) \<subseteq> range (openai_call p (c_Request e))"
    using openai_sent [of _ g e origBody m p entry] by blast
  show "set (o_Sent (proxyOpenAIToAnthropic g e oq m p entry)) \<subseteq> range (anthropic_call p)"
    unfolding proxyOpenAIToAnthropic_def Let_def split_beta by (rule send_once_range) simp
  show "set (o_Sent (proxyAnthropicToOpenAI g e aq m p entry)) \<subseteq> range (openai_call p (c_Request e))"
    unfolding proxyAnthropicToOpenAI_def Let_def split_beta by (rule send_once_range) simp
  have refused: "o_Sent (logAndWriteError e aff [] code msg t entry) = []" for aff code msg t
    by (simp add: logAndWriteError_def Let_def)
  show "set (o_Sent (proxyAnthropicToAnthropic g e origBody aq m p entry)) \<subseteq> range (anthropic_call p)"
    by (cases "unmarshal_map origBody"; cases "fst (unmarshal_map origBody)"; cases "snd (unmarshal_map origBody)")
      (simp_all add: proxyAnthropicToAnthropic_def refused split_beta Let_def send_once_range)
qed

text \<open>What an answered request has passed: an active model of the catalogue, an active provider, whose key
  and address are all that is used, the rate limit, and the lease, which it holds.\<close>

definition gate_passed :: "arrival \<Rightarrow> server \<Rightarrow> VirtualKey \<Rightarrow> served \<Rightarrow> outcome \<Rightarrow> bool" where
  "gate_passed v sv key sd out \<longleftrightarrow>
     (\<exists>name m p tokens.
        GetModelByName (sv_Models sv) name = Some m \<and> m_Status m = ''active'' \<and> name \<noteq> routerModelDeprecated \<and>
        GetProvider (av_Gcm v) (sv_Providers sv) (m_ProviderID m) = Some p \<and> pd_Status p = ''active'' \<and>
        list_all (addressed p) (o_Sent out) \<and>
        CheckLimit (sv_Limiter sv) (sv_Store sv) (av_RedisUp v) (av_DbNow v) (av_Now v) (vk_ID key) (vk_UserID key) tokens =
          (None, sd_Limiter sd) \<and>
        AcquireGeneration (sd_Limiter sd) (av_Polls v) = Acquired \<and> sd_Held sd \<noteq> None)"

lemma GetModelByName_active:
  assumes "GetModelByName db name = Some m"
  shows "m_Status m = ''active''"
proof -
  have kept: "m_Status (attach_all db r) = m_Status r" for r by (simp add: attach_all_def attachPricingTiers_def Let_def)
  have "m_Status r = ''active''" if "find P (filter (\<lambda>r. m_Status r = ''active'' \<and> Q r) rs) = Some r" for P Q rs r
    using that by (induction rs) (auto split: if_splits)
  moreover have "m_Status r = ''active''" if "filter (\<lambda>r. m_Status r = ''active'' \<and> Q r) rs = r # rest" for Q rs r rest
    using that by (auto simp: filter_eq_Cons_iff)
  ultimately show ?thesis
    using assms unfolding GetModelByName_def Let_def by (auto simp: kept split: option.splits list.splits)
qed

lemma admit_passed:
  assumes "admit_generation g v sv hs key d = Some (Inr (rl, lease, target, allowed, climit, budget))"
  shows "CheckLimit (sv_Limiter sv) (sv_Store sv) (av_RedisUp v) (av_DbNow v) (av_Now v) (vk_ID key) (vk_UserID key)
      (dm_LimitTokens d) = (None, rl)"
    "AcquireGeneration rl (av_Polls v) = Acquired" "provider_target (dm_Provider d) = Some target"
  using assms unfolding admit_generation_def Let_def
  by (auto split: prod.splits option.splits acquire_result.splits sum.splits)

lemma resolve_passed:
  assumes "resolve_target g v sv name = Inr (hs, m, p)"
  shows "GetModelByName (sv_Models sv) name = Some m" "name \<noteq> routerModelDeprecated"
    "GetProvider (av_Gcm v) (sv_Providers sv) (m_ProviderID m) = Some p" "pd_Status p = ''active''"
  using assms by (auto simp: resolve_target_def Let_def split: if_splits option.splits resolution.splits)

lemma target_addressed:
  assumes "provider_target p = Some (p', anthropic)"
  shows "\<not> anthropic \<Longrightarrow> req \<in> range (openai_call p' r) \<Longrightarrow> addressed p req"
    "anthropic \<Longrightarrow> req \<in> range (anthropic_call p') \<Longrightarrow> addressed p req"
  using assms call_addressed by (auto simp: provider_target_def split: if_splits)

lemma forward_sent:
  assumes "provider_target p = Some (p', anthropic)"
  shows "sd_Reply (forward_openai g v hs key oq level d (rl, lease, (p', anthropic), allowed, climit, budget)) = Serve out \<Longrightarrow>
      list_all (addressed p) (o_Sent out)"
    "sd_Reply (forward_anthropic g v hs key aq level d (rl, lease, (p', anthropic), allowed, climit, budget)) = Serve out \<Longrightarrow>
      list_all (addressed p) (o_Sent out)"
proof -
  have all: "list_all (addressed p) (o_Sent (proxyOpenAIToOpenAI g e b m p' entry))" if "\<not> anthropic" for e b m entry
    using calls_sent(1) target_addressed(1) [OF assms that] by (fastforce simp: list_all_iff)
  have all2: "list_all (addressed p) (o_Sent (proxyOpenAIToAnthropic g e q m p' entry))" if "anthropic" for e q m entry
    using calls_sent(2) target_addressed(2) [OF assms that] by (fastforce simp: list_all_iff)
  have all3: "list_all (addressed p) (o_Sent (proxyAnthropicToOpenAI g e q m p' entry))" if "\<not> anthropic" for e q m entry
    using calls_sent(3) target_addressed(1) [OF assms that] by (fastforce simp: list_all_iff)
  have all4: "list_all (addressed p) (o_Sent (proxyAnthropicToAnthropic g e b q m p' entry))" if "anthropic" for e b q m entry
    using calls_sent(4) target_addressed(2) [OF assms that] by (fastforce simp: list_all_iff)
  show "sd_Reply (forward_openai g v hs key oq level d (rl, lease, (p', anthropic), allowed, climit, budget)) = Serve out \<Longrightarrow>
      list_all (addressed p) (o_Sent out)"
    using all all2 by (auto simp: forward_openai_def refusals_are_replies Let_def split: if_splits option.splits)
  show "sd_Reply (forward_anthropic g v hs key aq level d (rl, lease, (p', anthropic), allowed, climit, budget)) = Serve out \<Longrightarrow>
      list_all (addressed p) (o_Sent out)"
    using all3 all4 by (auto simp: forward_anthropic_def Let_def split: if_splits)
qed

lemma forward_holds:
  "sd_Limiter (forward_openai g v hs key oq level d (rl, lease, target, allowed, climit, budget)) = rl"
  "sd_Held (forward_openai g v hs key oq level d (rl, lease, target, allowed, climit, budget)) = Some lease"
  "sd_Limiter (forward_anthropic g v hs key aq level d (rl, lease, target, allowed, climit, budget)) = rl"
  "sd_Held (forward_anthropic g v hs key aq level d (rl, lease, target, allowed, climit, budget)) = Some lease"
  by (simp_all add: forward_openai_def forward_anthropic_def stop_def Let_def split: prod.split option.split)

lemma demand_provider: "dm_Provider (openai_demand g m p body oq) = p" "dm_Provider (anthropic_demand m p body aq) = p"
  by (simp_all add: openai_demand_def anthropic_demand_def Let_def split: prod.split)

text \<open>An answer of the ordinary path has passed the gate: \<open>forward\<close> is how either client forwards.\<close>

lemma ordinary_passed:
  assumes "resolve_target g v sv name = Inr (hs, m, p)" "dm_Provider d = p"
    and "admit_generation g v sv hs key d = Some (Inr (rl, lease, (p', anthropic), allowed, climit, budget))"
    and "provider_target p = Some (p', anthropic) \<Longrightarrow> list_all (addressed p) (o_Sent out)"
    and "sd_Limiter sd = rl" "sd_Held sd = Some lease"
  shows "gate_passed v sv key sd out"
  unfolding gate_passed_def
  using resolve_passed [OF assms(1)] admit_passed [OF assms(3)] GetModelByName_active assms(2,4-6) by (metis option.discI)

lemma admit_refuses:
  assumes "admit_generation g v sv hs key d = Some (Inl sd)"
  shows "sd_Reply sd \<noteq> Serve out"
  using assms unfolding admit_generation_def Let_def
  by (auto simp: refusals_are_replies split: prod.splits option.splits acquire_result.splits sum.splits)

lemma agent_passed:
  assumes "serveMuhiyaAgent g w v sv query_text skill requestID key s q = Some (Some sd)" "sd_Reply sd = Serve out"
  shows "gate_passed v sv key sd out"
proof (cases "resolveAgentModel v sv query_text q")
  case (Inl e)
  then show ?thesis using assms by (auto simp: serveMuhiyaAgent_def Let_def)
next
  case (Inr mp)
  obtain m p where mp: "mp = (m, p)" by fastforce
  have res: "GetModelByName (sv_Models sv) (oq_Model q) = Some m" "oq_Model q \<noteq> routerModelDeprecated"
    "GetProvider (av_Gcm v) (sv_Providers sv) (m_ProviderID m) = Some p" "pd_Status p = ''active''"
    using Inr mp by (auto simp: resolveAgentModel_def Let_def split: if_splits option.splits)
  have url: "BaseURL p \<noteq> []" using assms Inr mp by (auto simp: serveMuhiyaAgent_def Let_def split: if_splits)
  have sent: "list_all (addressed p) (ag_Sent (agent_loop (agent_turn g w r s c m p level) n 0 (start_state ms)))" for r c level n ms
    using agent.loop_confined [of g w r s c m p level n 0 "start_state ms"] call_addressed(1) [OF url]
    by (auto simp: list_all_iff start_state_def)
  define tokens where "tokens = i64 (estimateTokens (concat (map (\<lambda>msg. GetMessageContentString (show_value g) (om_Content msg)) (oq_Messages q))) +
        rateLimitOutputEstimate (fst (requestedOpenAIOutput (oq_MaxCompletionTokens q) (oq_MaxTokens q) (Some m)))
          (snd (requestedOpenAIOutput (oq_MaxCompletionTokens q) (oq_MaxTokens q) (Some m))) * int maxAgentIterations)"
  obtain e rl where limit: "CheckLimit (sv_Limiter sv) (sv_Store sv) (av_RedisUp v) (av_DbNow v) (av_Now v) (vk_ID key) (vk_UserID key) tokens = (e, rl)"
    by fastforce
  note run = assms(1) [unfolded serveMuhiyaAgent_def Let_def Inr mp sum.case prod.case split_beta if_not_P [OF url] tokens_def [symmetric]
    limit fst_conv snd_conv]
  have e: "e = None" using run assms(2) by (cases e) (auto simp: refusals_are_replies stop_def)
  have acquired: "AcquireGeneration rl (av_Polls v) = Acquired"
    using run assms(2) e by (cases "AcquireGeneration rl (av_Polls v)") (auto simp: refusals_are_replies stop_def)
  obtain r where r: "affordableGeneration (snapshot_text g) (address_of g) (sv_Store sv) (av_DbNow v) (av_Now v)
      \<lparr> gq_userID = vk_UserID key, gq_model = Some m,
        gq_inputUpperBound = conservativeInputTokenBound (marshal_value g (JObj (openai_body q)))
          (estimateTokens (concat (map (\<lambda>msg. GetMessageContentString (show_value g) (om_Content msg)) (oq_Messages q)))) (Some m),
        gq_requestedOutput = i64 (fst (requestedOpenAIOutput (oq_MaxCompletionTokens q) (oq_MaxTokens q) (Some m)) * int maxAgentIterations),
        gq_pricedAt = c_PricedAt (av_Call v) \<rparr> = Some r"
    using run e acquired by (auto split: option.splits)
  have "sd_Limiter sd = rl \<and> sd_Held sd \<noteq> None \<and> list_all (addressed p) (o_Sent out)"
  proof (cases r)
    case (Inl x)
    then show ?thesis using run assms(2) e acquired r by (cases x) (auto simp: refusals_are_replies stop_def)
  next
    case (Inr x)
    then show ?thesis using run assms(2) e acquired r sent by (cases x) (auto simp: stop_def)
  qed
  then show ?thesis unfolding gate_passed_def using res GetModelByName_active [OF res(1)] limit e acquired by metis
qed

lemma openai_gate_passed:
  assumes "serveOpenAIClient g ag v sv body key = Some sd" "sd_Reply sd = Serve out"
  shows "gate_passed v sv key sd out"
proof -
  obtain oq bad where decoded: "unmarshal zero_openai_request dec_openai_request body = (oq, bad)" by fastforce
  define level where "level = ResolveThinkingLevel (Header_Get (av_Request v) ''X-Muhiya-Effort'') (oq_ReasoningEffort oq)"
  have refused: "stop hs rl rows lease missing_model \<noteq> sd" "stop hs rl rows lease (invalid_body v b) \<noteq> sd"
    "resolve_target g v sv name = Inl (hs', refusal) \<Longrightarrow> stop hs rl rows lease refusal \<noteq> sd" for hs rl rows lease b name hs' refusal
    using assms(2) resolve_refusal by (auto simp: refusals_are_replies stop_def)
  note run = assms(1) [unfolded serveOpenAIClient_def Let_def decoded prod.case, folded level_def]
  consider (agent) "serveMuhiyaAgent g (as_World ag) v sv (as_QueryText ag) (as_Skill ag) (as_RequestID ag) key (as_Settings ag) oq
      = Some (Some sd)"
    | (ordinary) "(case resolve_target g v sv (oq_Model oq) of
         Inl (hs, refusal) \<Rightarrow> Some (stop hs (sv_Limiter sv) [] None refusal)
       | Inr (hs, m, p) \<Rightarrow>
           (case admit_generation g v sv hs key (openai_demand g m p body oq) of
              None \<Rightarrow> None | Some (Inl sd) \<Rightarrow> Some sd
            | Some (Inr admission) \<Rightarrow> Some (forward_openai g v hs key oq level (openai_demand g m p body oq) admission))) = Some sd"
  proof -
    have "\<not> bad" "oq_Model oq \<noteq> []" using run refused(1,2) by (cases bad; cases "oq_Model oq = []"; simp)+
    note run = run [unfolded if_not_P [OF this(1)] if_not_P [OF this(2)]]
    define tried where "tried = (if shouldRunAgentLoop (as_Flag ag) (av_Request v) oq (as_Settings ag)
      then serveMuhiyaAgent g (as_World ag) v sv (as_QueryText ag) (as_Skill ag) (as_RequestID ag) key (as_Settings ag) oq
      else Some None)"
    from run have run: "(case tried of None \<Rightarrow> None | Some (Some sd) \<Rightarrow> Some sd | Some None \<Rightarrow>
      (case resolve_target g v sv (oq_Model oq) of
         Inl (hs, refusal) \<Rightarrow> Some (stop hs (sv_Limiter sv) [] None refusal)
       | Inr (hs, m, p) \<Rightarrow>
           (case admit_generation g v sv hs key (openai_demand g m p body oq) of
              None \<Rightarrow> None | Some (Inl sd) \<Rightarrow> Some sd
            | Some (Inr admission) \<Rightarrow> Some (forward_openai g v hs key oq level (openai_demand g m p body oq) admission)))) = Some sd"
      unfolding tried_def .
    show thesis
    proof (cases tried)
      case (Some t)
      show thesis
      proof (cases t)
        case None
        with Some run show thesis by (intro that(2)) simp
      next
        case (Some sd')
        with \<open>tried = Some t\<close> run have "tried = Some (Some sd)" by simp
        then show thesis unfolding tried_def by (intro that(1)) (simp split: if_splits)
      qed
    qed (use run in simp)
  qed
  then show ?thesis
  proof cases
    case agent
    then show ?thesis using assms(2) by (rule agent_passed)
  next
    case ordinary
    show ?thesis
    proof (cases "resolve_target g v sv (oq_Model oq)")
      case (Inl e)
      then show ?thesis using ordinary refused(3) by (cases e) auto
    next
      case (Inr t)
      obtain hs m p where t: "t = (hs, m, p)" by (metis prod_cases3)
      obtain rl lease p' anthropic allowed climit budget where
        admitted: "admit_generation g v sv hs key (openai_demand g m p body oq) =
          Some (Inr (rl, lease, (p', anthropic), allowed, climit, budget))"
        and sd: "sd = forward_openai g v hs key oq level (openai_demand g m p body oq) (rl, lease, (p', anthropic), allowed, climit, budget)"
        using ordinary admit_refuses [of g v sv hs key "openai_demand g m p body oq"] assms(2)
        by (auto simp: Inr t split: option.splits sum.splits)
      show ?thesis
        by (rule ordinary_passed [OF Inr [unfolded t] demand_provider(1) admitted])
          (use assms(2) sd forward_sent(1) forward_holds in auto)
    qed
  qed
qed

lemma anthropic_gate_passed:
  assumes "serveAnthropicClient g v sv body key = Some sd" "sd_Reply sd = Serve out"
  shows "gate_passed v sv key sd out"
proof -
  obtain aq bad where decoded: "unmarshal zero_anthropic_request dec_anthropic_request body = (aq, bad)" by fastforce
  define level where "level = ResolveThinkingLevel (Header_Get (av_Request v) ''X-Muhiya-Effort'') (aq_ReasoningEffort aq)"
  have refused: "stop hs rl rows lease missing_model \<noteq> sd" "stop hs rl rows lease (invalid_body v b) \<noteq> sd"
    "resolve_target g v sv name = Inl (hs', refusal) \<Longrightarrow> stop hs rl rows lease refusal \<noteq> sd" for hs rl rows lease b name hs' refusal
    using assms(2) resolve_refusal by (auto simp: refusals_are_replies stop_def)
  note run = assms(1) [unfolded serveAnthropicClient_def Let_def decoded prod.case, folded level_def]
  have ordinary: "(case resolve_target g v sv (aq_Model aq) of
         Inl (hs, refusal) \<Rightarrow> Some (stop hs (sv_Limiter sv) [] None refusal)
       | Inr (hs, m, p) \<Rightarrow>
           (case admit_generation g v sv hs key (anthropic_demand m p body aq) of
              None \<Rightarrow> None | Some (Inl sd) \<Rightarrow> Some sd
            | Some (Inr admission) \<Rightarrow> Some (forward_anthropic g v hs key aq level (anthropic_demand m p body aq) admission))) = Some sd"
    using run refused(1,2) by (cases bad; cases "aq_Model aq = []") simp_all
  show ?thesis
  proof (cases "resolve_target g v sv (aq_Model aq)")
    case (Inl e)
    then show ?thesis using ordinary refused(3) by (cases e) auto
  next
    case (Inr t)
    obtain hs m p where t: "t = (hs, m, p)" by (metis prod_cases3)
    obtain rl lease p' anthropic allowed climit budget where
      admitted: "admit_generation g v sv hs key (anthropic_demand m p body aq) =
        Some (Inr (rl, lease, (p', anthropic), allowed, climit, budget))"
      and sd: "sd = forward_anthropic g v hs key aq level (anthropic_demand m p body aq) (rl, lease, (p', anthropic), allowed, climit, budget)"
      using ordinary admit_refuses [of g v sv hs key "anthropic_demand m p body aq"] assms(2)
      by (auto simp: Inr t split: option.splits sum.splits)
    show ?thesis
      by (rule ordinary_passed [OF Inr [unfolded t] demand_provider(2) admitted])
        (use assms(2) sd forward_sent(2) forward_holds in auto)
  qed
qed

section \<open>A concrete request\<close>

text \<open>A user with a plan, a model and a provider, and the smallest request there is: it is decoded, resolved,
  within its limits, admitted with two nano dollars and forwarded.\<close>

definition small_models :: model_store where
  "small_models = \<lparr> provider_ids = [''p''], model_rows = [plain_model], tier_rows = [], ttl_rows = [],
      window_rows = [] \<rparr>"

definition small_limiter :: RateLimiter where
  "small_limiter = \<lparr> limiters = Map.empty, redis = (\<lambda>_. undefined), useRedis = False, requireRedis =
      False,
     redisInitErr = False, defs = [''u'' \<mapsto>
       \<lparr> e_user = example_user, e_plan = \<lparr> p_ID = ''p'', p_Name = ''Plan'', p_RPMLimit = 2,
           p_TPMLimit = 100000 \<rparr>,
         e_windows = [], e_expires = 100 \<rparr>] \<rparr>"

definition small_provider :: Provider where
  "small_provider = example_provider \<lparr> pd_ID := ''p'' \<rparr>"

definition small_server :: server where
  "small_server =
     \<lparr> sv_Limiter = small_limiter, sv_Store = example_store, sv_Models = small_models,
        sv_Providers = [small_provider] \<rparr>"

definition small_arrival :: arrival where
  "small_arrival =
     \<lparr> av_Call = plain_env, av_Fresh = ''fresh'', av_Now = 60, av_DbNow = 60, av_RedisUp = True,
        av_Polls = [Inr True], av_ModelLost = False, av_ProviderLost = False, av_Gcm = None,
        av_JsonText = (\<lambda>s. s), av_LimitText = (\<lambda>e. ''limit''), av_ContextText = ''ctx'',
        av_BudgetText = (\<lambda>e. ''budget'') \<rparr>"

definition small_key :: VirtualKey where
  "small_key =
     \<lparr> vk_ID = ''k'', vk_Name = ''k'', vk_UserID = ''u'', vk_Status = ''active'', vk_ExpiresAt = None,
        vk_Token = ''t'', OwnerStatus = ''active'' \<rparr>"

definition small_request :: OpenAIRequest where
  "small_request = zero_openai_request \<lparr> oq_Model := ''m''\<rparr>"

definition small_body :: string where
  "small_body = ''{\"model\":\"m\"}''"

lemma small_parsed: "parse_json small_body = Some (RObj [(''model'', RStr ''m'')])" by code_simp

lemma small_decoded: "unmarshal zero_openai_request dec_openai_request small_body = (small_request, False)"
  by (simp add: unmarshal_def small_parsed dec_openai_request_def dec_struct_def field_for_def fld_def
      small_request_def dec_string_def)

lemma small_model: "GetModelByName small_models ''m'' = Some plain_model"
  by (simp add: GetModelByName_def small_models_def attach_all_def attachPricingTiers_def plain_model_def
      example_model_def loadCacheTTLRates_def loadPriceWindows_def Let_def)

lemma small_provider_found: "GetProvider None [small_provider] ''p'' = Some small_provider"
  by (simp add: small_provider_def GetProvider_def example_provider_def decryptProviderKey_def
      providerKeyEncPrefix_def HasPrefix_def)

definition small_demand :: demand where
  "small_demand =
     \<lparr> dm_Model = plain_model, dm_Provider = small_provider, dm_Name = ''m'', dm_Body = small_body,
        dm_Prompt = 0, dm_LimitTokens = 8192, dm_Output = 8192 \<rparr>"

lemma small_demanded: "openai_demand plain_gateway plain_model small_provider small_body small_request = small_demand"
  by (simp add: small_request_def openai_demand_def zero_openai_request_def small_demand_def
      requestedOpenAIOutput_def boundedOutputLimit_def rateLimitOutputEstimate_def  estimateTokens_def
          typicalCompletionTokens_def plain_model_def example_model_def Let_def i64_def)

lemma small_within_limits: "\<exists>rl. CheckLimit small_limiter (sv_Store small_server) True 60 60 ''k'' ''u''
    8192 = (None, rl) \<and> \<not> requireRedis rl"
  by (simp add: CheckLimit_def small_limiter_def small_server_def Let_def loadDefs_def defs_get_def
      example_user_def checkKeyInMemory_def checkInMemoryLimits_def getLimiter_def empty_limiter_def i64_def)

lemma small_estimate: "serializedTokenEstimate small_body = 5" by code_simp

lemma small_quoted: "quote_request small_arrival small_key small_demand = \<lparr> gq_userID = ''u'', gq_model =
    Some plain_model, gq_inputUpperBound = 517, gq_requestedOutput = 8192, gq_pricedAt = 60 \<rparr>"
  by (simp add: quote_request_def small_demand_def small_arrival_def small_key_def plain_env_def
      conservativeInputTokenBound_def small_estimate plain_model_def example_model_def Let_def)

lemma small_priced:
  assumes "RuleSet_Validate r = None" "BaseRates r = base_rates 3 15 1 4" "Tiers r = []" "Windows r = []"
  shows "\<exists>q. QuoteAt r ((InputUsage 517) \<lparr> OutputTokens := 8192 \<rparr>) t = Inr q \<and> q_Cost q
      = 2"
proof -
  have "TokensFor ((InputUsage 517) \<lparr> OutputTokens := 8192 \<rparr>) c =
      (case c of ClassInputFresh \<Rightarrow> 517 | ClassOutput \<Rightarrow> 8192 | _ \<Rightarrow> 0)" for c
    by (cases c) (simp_all add: InputUsage_def zero_usage_def)
  moreover have "\<not> usage_negative ((InputUsage 517) \<lparr> OutputTokens := 8192 \<rparr>)"
    by (simp add: usage_negative_def TokenClasses_def InputUsage_def zero_usage_def)
  moreover have "RateFor (base_rates 3 15 1 4) ClassInputFresh = 3" "RateFor (base_rates 3 15 1 4) ClassOutput = 15"
    by (simp_all add: base_rates_def)
  ultimately show ?thesis using assms
    by (simp add: QuoteAt_def RatesForPromptTotal_def BaseTierThreshold_def WindowFor_def
        TokenClasses_def window_scale_def lift_money_def CostForTokensScaled_def ceilQuotient_def PerMillion_def
        Add_def i64_def int64_consts in64_def Let_def del: TokensFor.simps RateFor.simps)
qed

definition small_setup :: agent_setup where
  "small_setup =
     \<lparr> as_Flag = [], as_Settings = tavily_only,
        as_World = \<lparr> aw_Turn = (\<lambda>i r. TurnLost ''x''),
          aw_Tools = \<lparr> quote_verb = (\<lambda>s. s), encode_query = (\<lambda>s. []), tool_http =
              (\<lambda>s. None) \<rparr>,
          aw_CallID = (\<lambda>i j. []), aw_MessageID = [], aw_Created = 0 \<rparr>,
        as_QueryText = (\<lambda>s. s), as_Skill = [], as_RequestID = ''a'' \<rparr>"

lemma small_headers:
  "Header_Get chat_request ''X-Muhiya-Expected-Model-Record'' = ''model:m''"
  "Header_Get chat_request ''X-Muhiya-Expected-Target-Model'' = []" "Header_Get chat_request
      ''X-Muhiya-Request-ID'' = []"
  "Header_Get chat_request ''X-Dawa-Org-ID'' = []" "TrimSpace [] = []" "TrimSpace ''model:m'' = ''model:m''"
  by code_simp+

lemma plain_model_provider: "m_ProviderID plain_model = ''p''" by (simp add: plain_model_def example_model_def)

lemma small_provider_active: "pd_Status small_provider = ''active''" by (simp add: small_provider_def
    example_provider_def)

lemma small_resolved: "\<exists>hs. resolve_target plain_gateway small_arrival small_server ''m'' = Inr (hs,
    plain_model, small_provider)"
proof -
  obtain rec where "catalogRecord plain_dg plain_model = Some rec" "RecordID rec = ''model:m''" using plain_record
      by blast
  show ?thesis
    using \<open>catalogRecord plain_dg plain_model = Some rec\<close> \<open>RecordID rec = ''model:m''\<close>
        small_headers
    by (simp add: resolve_target_def routerModelDeprecated_def small_arrival_def small_server_def small_model
        small_provider_found plain_gateway_def establishModelResolution_def
      plain_env_def plain_model_provider small_provider_active Let_def)
qed

lemma small_lease: "\<not> requireRedis rl \<Longrightarrow> AcquireGeneration rl [Inr True] = Acquired" by (simp
    add: AcquireGeneration_def)

lemma small_admitted: "\<exists>rl a. admit_generation plain_gateway small_arrival small_server hs small_key
    small_demand = Some (Inr (rl, (''u'', ''fresh''), (small_provider, False), 8192, 2, a))"
proof -
  obtain rl where rl: "CheckLimit small_limiter (sv_Store small_server) True 60 60 ''k'' ''u'' 8192 = (None, rl)"
      "\<not> requireRedis rl"
    using small_within_limits by blast
  from plain_rules obtain r where
    r: "pricingRulesForModel (snapshot_text plain_gateway) (address_of plain_gateway) (Some plain_model) = Inr r"
      "RuleSet_Validate r = None" "BaseRates r = base_rates 3 15 1 4" "Tiers r = []" "Windows r = []" by blast
  from small_priced [OF r(2-5), of 60] obtain q where
    q: "QuoteAt r ((InputUsage 517) \<lparr> OutputTokens := 8192 \<rparr>) 60 = Inr q" "q_Cost q = 2" by blast
  from plain_available obtain a where a: "budgetAvailability example_store 60 60 ''u'' = Inr a" "Available a = 2000"
    by blast
  have "affordableGeneration (snapshot_text plain_gateway) (address_of plain_gateway) (sv_Store small_server) 60 60
      (quote_request small_arrival small_key small_demand) = Some (Inr (8192, 2, a))"
    using r(1) q a by (simp add: small_quoted affordableGeneration_def affordableUnder_def small_server_def Let_def)
  moreover have "provider_target small_provider = Some (small_provider, False)" by (simp add: provider_target_def
      small_provider_def example_provider_def)
  moreover have "LogID (requestCorrelationFor (sha_hex plain_gateway) (av_Fresh small_arrival) (av_Request
      small_arrival) ''k'') = ''fresh''"
    by (simp add: requestCorrelationFor_def small_arrival_def plain_env_def small_headers Let_def)
  ultimately show ?thesis using rl
    by (simp add: admit_generation_def small_arrival_def small_server_def small_demand_def small_key_def
        plain_env_def generationScope_def small_headers small_lease Let_def)
qed

lemma small_served:
  "\<exists>sd out. serveOpenAIClient plain_gateway small_setup small_arrival small_server small_body small_key = Some sd \<and>
     sd_Reply sd = Serve out \<and> (\<forall>row \<in> set (sd_Rows sd). ChargeCeilingNanoUSD row = 2)"
proof -
  obtain hs where hs: "resolve_target plain_gateway small_arrival small_server ''m'' = Inr (hs, plain_model, small_provider)"
    using small_resolved by blast
  obtain rl a where admitted: "admit_generation plain_gateway small_arrival small_server hs small_key small_demand =
      Some (Inr (rl, (''u'', ''fresh''), (small_provider, False), 8192, 2, a))"
    using small_admitted by blast
  have asked: "oq_Model small_request = ''m''" "\<not> shouldRunAgentLoop (as_Flag small_setup) r small_request s"
    "requestedOpenAIOutput (oq_MaxCompletionTokens small_request) (oq_MaxTokens small_request) (Some m) =
      (boundedOutputLimit 0 (Some m), False)" for r s m
    by (simp_all add: small_request_def zero_openai_request_def small_setup_def shouldRunAgentLoop_def isTruthy_def
      requestedOpenAIOutput_def Let_def)
  have "\<forall>row \<in> set (o_Rows (proxyOpenAIToOpenAI g e b m p entry)). ChargeCeilingNanoUSD row = ChargeCeilingNanoUSD entry"
    for g e b m p entry using calls_one_row(1) [of entry g e b m p] by (auto simp: one_row_def row_of_def)
  then have rows: "\<forall>row \<in> set (o_Rows (proxyOpenAIToOpenAI g e b m p (admitted_entry g' v key d level streamed 2 budget))).
      ChargeCeilingNanoUSD row = 2" for g e b m p g' v key d level streamed budget
    by (simp add: admitted_entry_fields)
  have "serveOpenAIClient plain_gateway small_setup small_arrival small_server small_body small_key =
      Some (forward_openai plain_gateway small_arrival hs small_key small_request
        (ResolveThinkingLevel (Header_Get (av_Request small_arrival) ''X-Muhiya-Effort'') (oq_ReasoningEffort small_request))
        small_demand (rl, (''u'', ''fresh''), (small_provider, False), 8192, 2, a))"
    by (simp add: serveOpenAIClient_def small_decoded asked(1,2) hs small_demanded admitted)
  moreover have "dm_Model small_demand = plain_model" "dm_Output small_demand = 8192" by (simp_all add: small_demand_def)
  ultimately show ?thesis by (simp add: forward_openai_def asked(3) rows Let_def)
qed

lemma small_catalogue: "GetModelByName small_models name = Some m \<Longrightarrow> m = plain_model"
  by (auto simp: GetModelByName_def small_models_def attach_all_def attachPricingTiers_def plain_model_def example_model_def
    loadCacheTTLRates_def loadPriceWindows_def Let_def split: if_splits)

lemma small_limits_ok: "limits_ok small_server"
  by (auto simp: limits_ok_def small_server_def plain_model_def example_model_def maxAgentIterations_def MaxInt64_def
    dest: small_catalogue)

section \<open>Properties\<close>

text \<open>C9: Every request of either client is answered. When every active model has a positive output limit that
  stays an \<open>int64\<close> over the five turns of the agent, the handlers always come to an answer, whatever the
  request, the stores and the upstream do: the admission's binary search for an affordable output ends.\<close>

theorem every_request_answered:
  assumes "limits_ok sv"
  shows "(\<exists>sd. serveOpenAIClient g ag v sv body key = Some sd) \<and> (\<exists>sd. serveAnthropicClient g v sv body key = Some sd)"
  using openai_client.serves [OF assms] anthropic_client.serves [OF assms] by blast

theorem every_request_answered_witness:
  "\<exists>sd. serveAnthropicClient plain_gateway small_arrival small_server small_body small_key = Some sd"
  using every_request_answered [OF small_limits_ok] by blast

text \<open>C1: No request costs more than the budget had. Whatever a client sends and whatever the upstream does, the
  request leaves at most one row. If the limits of the models are as above, the row's identifier is new and
  an answered request was admitted with a positive ceiling, saving the row adds nothing (the database
  refused it) or that row of the key's user, which costs nothing if the request was refused, and at most
  what the budget had at admission if it was answered.\<close>

theorem request_charged_within_budget:
  assumes "limits_ok sv"
    and "serveOpenAIClient g ag v sv body key = Some sd \<or> serveAnthropicClient g v sv body key = Some sd"
    and "\<forall>row \<in> set (sd_Rows sd). \<not> requestLogExists db (rl_ID row)"
    and "\<And>out. sd_Reply sd = Serve out \<Longrightarrow> \<forall>row \<in> set (sd_Rows sd). 0 < ChargeCeilingNanoUSD row"
  shows "length (sd_Rows sd) \<le> 1 \<and>
    (request_logs (fst (fold (saveRequestLog dbnow) (sd_Rows sd) (db, ob))) = request_logs db \<or>
     (\<exists>row. request_logs (fst (fold (saveRequestLog dbnow) (sd_Rows sd) (db, ob))) = request_logs db @ [row] \<and>
        UserID row = vk_UserID key \<and> 0 \<le> CostNanoUSD row \<and>
        (case sd_Reply sd of
           Refuse s msg t ra \<Rightarrow> CostNanoUSD row = 0
         | Serve out \<Rightarrow> \<exists>a. budgetAvailability (sv_Store sv) (av_DbNow v) (av_Now v) (vk_UserID key) = Inr a \<and>
             CostNanoUSD row \<le> Available a)))"
  using assms(2)
proof
  assume "serveOpenAIClient g ag v sv body key = Some sd"
  then show ?thesis by (rule openai_client.saved [OF assms(1) _ assms(3)]) (use assms(4) in auto)
next
  assume "serveAnthropicClient g v sv body key = Some sd"
  then show ?thesis by (rule anthropic_client.saved [OF assms(1) _ assms(3)]) (use assms(4) in auto)
qed

theorem request_charged_within_budget_witness:
  "\<exists>sd out. serveOpenAIClient plain_gateway small_setup small_arrival small_server small_body small_key = Some sd \<and>
     sd_Reply sd = Serve out \<and> length (sd_Rows sd) \<le> 1"
proof -
  obtain sd out where sd: "serveOpenAIClient plain_gateway small_setup small_arrival small_server small_body small_key = Some sd"
    "sd_Reply sd = Serve out" "\<forall>row \<in> set (sd_Rows sd). ChargeCeilingNanoUSD row = 2"
    using small_served by blast
  have fresh: "\<forall>row \<in> set (sd_Rows sd). \<not> requestLogExists example_store (rl_ID row)"
    by (simp add: requestLogExists_def example_store_def)
  have "\<forall>row \<in> set (sd_Rows sd). 0 < ChargeCeilingNanoUSD row" using sd(3) by simp
  from request_charged_within_budget [OF small_limits_ok disjI1 [OF sd(1)] fresh this] sd show ?thesis by blast
qed

text \<open>C4: Only an admitted request reaches a provider. An answer of either client means that the name is an
  active model of the catalogue whose provider is active, that every request sent upstream went to that
  provider's address with its key, that the rate limit let the request pass, and that it holds the lease
  it acquired.\<close>

theorem served_only_when_admitted:
  assumes "serveOpenAIClient g ag v sv body key = Some sd \<or> serveAnthropicClient g v sv body key = Some sd"
    and "sd_Reply sd = Serve out"
  shows "\<exists>name m p tokens.
    GetModelByName (sv_Models sv) name = Some m \<and> m_Status m = ''active'' \<and> name \<noteq> routerModelDeprecated \<and>
    GetProvider (av_Gcm v) (sv_Providers sv) (m_ProviderID m) = Some p \<and> pd_Status p = ''active'' \<and>
    (\<forall>req \<in> set (o_Sent out).
       if BaseURL p \<noteq> []
       then ur_URL req = ChatCompletions (BaseURL p) \<and> (''Authorization'', ''Bearer '' @ APIKey p) \<in> set (ur_Header req)
       else ur_URL req = messages_url (AnthropicBaseURL p) \<and> (''x-api-key'', APIKey p) \<in> set (ur_Header req)) \<and>
    CheckLimit (sv_Limiter sv) (sv_Store sv) (av_RedisUp v) (av_DbNow v) (av_Now v) (vk_ID key) (vk_UserID key) tokens =
      (None, sd_Limiter sd) \<and>
    AcquireGeneration (sd_Limiter sd) (av_Polls v) = Acquired \<and> sd_Held sd \<noteq> None"
proof -
  have "gate_passed v sv key sd out" using assms openai_gate_passed anthropic_gate_passed by blast
  then show ?thesis unfolding gate_passed_def addressed_def list_all_iff .
qed

theorem served_only_when_admitted_witness:
  "\<exists>sd out. serveOpenAIClient plain_gateway small_setup small_arrival small_server small_body small_key = Some sd \<and>
     sd_Reply sd = Serve out \<and> sd_Held sd \<noteq> None \<and> AcquireGeneration (sd_Limiter sd) [Inr True] = Acquired"
proof -
  obtain sd out where sd: "serveOpenAIClient plain_gateway small_setup small_arrival small_server small_body small_key = Some sd"
    "sd_Reply sd = Serve out" using small_served by blast
  from served_only_when_admitted [OF disjI1 [OF sd(1)] sd(2)] sd show ?thesis by (auto simp: small_arrival_def)
qed

end
